(* ===== verification/Prelude.thy ===== *)
theory Prelude
  imports Main "HOL-Library.Word" "HOL-Library.Monad_Syntax" "HOL-Library.Signed_Division"
begin

text \<open>
  Shared vocabulary of the development: the machine integer types of the C code, the
  \<^verbatim>\<open>esp_err_t\<close> codes of \<^verbatim>\<open>esp_err.h\<close>, C's conversions between integer types, buffers
  that a call may fill, and the fact collections used by the component theories.

  Conventions.  An \<open>option\<close> result models a C function that may not return: \<open>None\<close> stands for
  \<^verbatim>\<open>abort()\<close> (a failed \<^verbatim>\<open>assert\<close> or \<^verbatim>\<open>ESP_ERROR_CHECK\<close>) or for an execution the C standard
  gives no meaning to; \<open>Some\<close> carries the results and the state after the call.  Pointers and
  handles are natural numbers with \<open>0\<close> for \<^verbatim>\<open>NULL\<close>.
\<close>

unbundle bit_operations_syntax

section \<open>Machine integers\<close>

type_synonym u8 = "8 word"
type_synonym u16 = "16 word"
type_synonym u32 = "32 word"
type_synonym esp_err = int
type_synonym ptr = nat

text \<open>Conversion of a C \<^verbatim>\<open>int\<close> to \<^verbatim>\<open>int16_t\<close> and to \<^verbatim>\<open>int32_t\<close> (two's complement, as GCC defines it).\<close>

definition s16 :: "int \<Rightarrow> int" where
  "s16 x = signed_take_bit 15 x"

definition s32 :: "int \<Rightarrow> int" where
  "s32 x = signed_take_bit 31 x"

named_theorems cint_simps \<open>conversions that do not change their argument\<close>

lemma s16_id [cint_simps]: "- 32768 \<le> x \<Longrightarrow> x \<le> 32767 \<Longrightarrow> s16 x = x"
  by (simp add: s16_def signed_take_bit_int_eq_self)

lemma s32_id [cint_simps]: "- 2147483648 \<le> x \<Longrightarrow> x \<le> 2147483647 \<Longrightarrow> s32 x = x"
  by (simp add: s32_def signed_take_bit_int_eq_self)

lemma s16_range: "- 32768 \<le> s16 x \<and> s16 x \<le> 32767"
proof -
  have "signed_take_bit 15 x < 2 ^ 15" and "- (2 ^ 15) \<le> signed_take_bit 15 x"
    by (rule signed_take_bit_int_less_exp signed_take_bit_int_greater_eq_minus_exp)+
  then show ?thesis by (simp add: s16_def)
qed

lemma s16_idem [simp]: "s16 (s16 x) = s16 x"
  using s16_range [of x] by (simp add: s16_id)

section \<open>Error codes\<close>

abbreviation (input) ESP_OK :: esp_err where "ESP_OK \<equiv> 0"
abbreviation (input) ESP_FAIL :: esp_err where "ESP_FAIL \<equiv> - 1"
abbreviation (input) ESP_ERR_NO_MEM :: esp_err where "ESP_ERR_NO_MEM \<equiv> 0x101"
abbreviation (input) ESP_ERR_INVALID_ARG :: esp_err where "ESP_ERR_INVALID_ARG \<equiv> 0x102"
abbreviation (input) ESP_ERR_INVALID_STATE :: esp_err where "ESP_ERR_INVALID_STATE \<equiv> 0x103"
abbreviation (input) ESP_ERR_NOT_SUPPORTED :: esp_err where "ESP_ERR_NOT_SUPPORTED \<equiv> 0x106"

section \<open>Buffers\<close>

text \<open>
  \<open>overlay out buf\<close>: a callee that was given the buffer \<open>buf\<close> stored the bytes \<open>out\<close> at its
  start.  It never stores more than the buffer holds, and the bytes it did not store keep
  their old (possibly indeterminate) values.
\<close>

definition overlay :: "'a list \<Rightarrow> 'a list \<Rightarrow> 'a list" where
  "overlay out buf = take (length buf) out @ drop (length out) buf"

lemma length_overlay [simp]: "length (overlay out buf) = length buf"
  by (simp add: overlay_def)

lemma overlay_full [simp]: "length out = length buf \<Longrightarrow> overlay out buf = out"
  by (simp add: overlay_def)

lemma overlay_Nil [simp]: "overlay [] buf = buf"
  by (simp add: overlay_def)

lemma overlay_Cons [simp]: "overlay (x # xs) (y # ys) = x # overlay xs ys"
  by (simp add: overlay_def)

lemma overlay_empty [simp]: "overlay out [] = []"
  by (simp add: overlay_def)

lemma overlay_take_full: "length buf \<le> length out \<Longrightarrow> overlay out buf = take (length buf) out"
  by (simp add: overlay_def)

section \<open>Lists\<close>

lemma length_two_conv: "length xs = 2 \<longleftrightarrow> (\<exists>a b. xs = [a, b])"
  by (cases xs; cases "tl xs") auto

section \<open>Bits of words\<close>

lemma unat_u8_less [simp]: "unat (x :: u8) < 256"
  using unsigned_less [of x, where ?'a = nat] by simp

lemma unat_u16_less [simp]: "unat (x :: u16) < 65536"
  using unsigned_less [of x, where ?'a = nat] by simp

lemma and_mask4_bound: "unat (x AND 15 :: u8) < 16"
proof -
  have "x AND 15 \<le> (15 :: u8)" by (rule word_and_le1)
  then have "unat (x AND 15) \<le> unat (15 :: u8)" by (simp add: word_le_nat_alt)
  then show ?thesis by simp
qed

lemma int_or_eq_0_iff: "(a OR b = (0 :: int)) \<longleftrightarrow> a = 0 \<and> b = 0"
  by (auto simp: bit_eq_iff bit_simps)

end
