(* ===== verification/Platform.thy ===== *)
theory Platform
  imports Prelude "HOL-Library.Multiset"
begin

text \<open>
  The boundary of the model.  What the modelled C code asks of the hardware, of FreeRTOS, of
  libc and of the ESP-IDF drivers below it is a \<^emph>\<open>call\<close>; the outside answers with a
  \<^emph>\<open>reply\<close>.  A \<open>world\<close> holds the environment (a function from the calls answered so far and
  the new call to its reply, so any device and any scripted failure is an instance), the log of
  all calls with their replies, and the state of the I2C driver (\<^verbatim>\<open>p_i2c_obj\<close> of
  esp-idf/components/driver/i2c/i2c.c).  Component theories extend \<open>world\<close> with the static
  variables of their C files.
\<close>

section \<open>Calls\<close>

text \<open>An entry of an I2C command link (\<^verbatim>\<open>i2c_cmd_t\<close>): the operation code, the acknowledge bits and the data.\<close>

datatype i2c_cmd =
    I2C_Restart
  | I2C_Stop
  | I2C_Write bool "u8 list"   \<comment> \<open>\<^verbatim>\<open>ack_en\<close> and the bytes\<close>
  | I2C_Read nat nat           \<comment> \<open>\<^verbatim>\<open>ack_val\<close> and \<^verbatim>\<open>total_bytes\<close>\<close>

datatype i2c_call =
    I2C_exec nat "i2c_cmd list" nat              \<comment> \<open>port, command link, ticks to wait\<close>
  | I2C_param_config nat int int bool bool nat    \<comment> \<open>port, sda, scl, pull-ups, clock speed\<close>
  | I2C_driver_alloc nat int nat nat nat          \<comment> \<open>resources and interrupt of a new driver\<close>

datatype mem_call =
    Malloc nat nat      \<comment> \<open>size, capabilities\<close>
  | Calloc nat nat
  | Free ptr

datatype gpio_call =
    Gpio_config nat int int           \<comment> \<open>pin mask, mode, interrupt type\<close>
  | Gpio_set_level int nat
  | Gpio_reset_pin int
  | Gpio_install_isr_service nat
  | Gpio_intr_enable int
  | Gpio_intr_disable int
  | Gpio_isr_handler_add int ptr ptr
  | Gpio_isr_handler_remove int

datatype os_call =
    Task_delay nat
  | Sem_create_recursive
  | Sem_take ptr nat
  | Sem_give ptr
  | Sem_delete ptr
  | Task_create int int "int option"    \<comment> \<open>stack, priority, core (if pinned)\<close>
  | Timer_create
  | Timer_start_periodic ptr nat
  | Timer_stop ptr
  | Timer_delete ptr
  | Callback ptr ptr     \<comment> \<open>a registered callback (by number) invoked with its context\<close>
  | Queue_create nat nat \<comment> \<open>length, size of an item\<close>
  | Queue_delete ptr
  | Queue_reset ptr
  | Mutex_create
  | Sem_create_binary
  | Hw_op ptr ptr nat    \<comment> \<open>an optional driver function (by number) on an object, with an argument\<close>

datatype ledc_call =
    Ledc_timer_config nat nat nat nat nat          \<comment> \<open>mode, resolution, timer, freq, clock\<close>
  | Ledc_channel_config int nat nat nat nat nat bool \<comment> \<open>gpio, mode, channel, timer, duty, hpoint, invert\<close>
  | Ledc_set_duty nat nat u32
  | Ledc_update_duty nat nat

text \<open>
  An SPI transaction of the LCD driver (\<^verbatim>\<open>lcd_spi_trans_descriptor_t\<close>): the length in bits, the bytes of
  the transmit buffer and its address (\<open>0\<close> for \<^verbatim>\<open>NULL\<close>), the bits to receive, the level of the D/C line,
  and the flags.
\<close>

record spi_trans =
  tr_length :: nat
  tr_tx :: "u8 list"
  tr_tx_addr :: ptr
  tr_rxlength :: nat
  tr_dc :: bool
  tr_done_cb :: bool
  tr_keep_cs :: bool
  tr_octal :: bool
  tr_quad :: bool

datatype spi_call =
    Spi_bus_initialize nat int int int nat       \<comment> \<open>host, sclk, mosi, miso, max transfer\<close>
  | Spi_bus_free nat
  | Spi_bus_add_device nat nat nat int nat bool bool bool
      \<comment> \<open>host, clock, mode, cs, queue size, lsb first, 3-wire, cs active high\<close>
  | Spi_bus_get_max_transaction_len nat
  | Spi_bus_remove_device ptr
  | Spi_acquire_bus ptr
  | Spi_release_bus ptr
  | Spi_get_trans_result ptr
  | Spi_polling_transmit ptr spi_trans
  | Spi_queue_trans ptr spi_trans

datatype fs_call =
    Fopen string string
  | Fclose ptr
  | Fwrite ptr "u8 list"        \<comment> \<open>the bytes of one \<^verbatim>\<open>fwrite\<close>\<close>
  | Fprintf ptr string
  | Mkdir string nat

text \<open>Below the mounting of an SD card: FatFs, the virtual file system, the SDMMC host and the card's initialisation.\<close>

datatype fat_call =
    F_mount ptr string nat                     \<comment> \<open>file system object (\<open>0\<close> to unmount), drive, option\<close>
  | F_fdisk nat
  | F_mkfs string nat                          \<comment> \<open>drive, size of an allocation unit\<close>
  | Vfs_register string ptr
  | Vfs_unregister string
  | Sdmmc_host_init
  | Sdmmc_host_init_slot int nat int int int nat  \<comment> \<open>slot, width, clk, cmd, d0, flags\<close>
  | Sdmmc_host_deinit
  | Sdmmc_host_deinit_p int
  | Sdmmc_card_init ptr                        \<comment> \<open>the commands that probe and initialise the card\<close>

datatype i2s_call =
    I2s_hw string nat            \<comment> \<open>registers: what a function of the HAL, the clock tree or the GPIO matrix sets, with an argument\<close>
  | Gdma_new_channel bool        \<comment> \<open>transmitting?\<close>
  | Gdma_connect ptr nat
  | Gdma_register_callback ptr
  | Gdma_disconnect ptr
  | Gdma_del_channel ptr
  | I2s_enable ptr
  | I2s_disable ptr
  | I2s_read ptr nat nat        \<comment> \<open>handle, buffer size in bytes, ticks\<close>

datatype lv_call =
    Lv_init
  | Lv_deinit
  | Lv_tick_inc u32
  | Lv_timer_enable bool
  | Lv_timer_handler
  | Lv_disp_drv_register ptr int int bool   \<comment> \<open>driver, horizontal and vertical resolution, full refresh\<close>
  | Lv_disp_remove ptr
  | Lv_indev_drv_register ptr ptr           \<comment> \<open>driver, display\<close>
  | Lv_indev_delete ptr
  | Lv_disp_flush_ready ptr
  | Lv_demo_benchmark

datatype call = I2C i2c_call | MEM mem_call | GPIO gpio_call | OS os_call | LEDC ledc_call
  | SPI spi_call | FS fs_call | FAT fat_call | I2S i2s_call | LV lv_call

section \<open>Replies and the world\<close>

text \<open>
  \<open>ret\<close> is the C return value (an error code, a count, a handle), \<open>out\<close> the bytes the callee stores
  through a pointer argument, \<open>content\<close> the contents of a file opened for reading, \<open>hnd\<close> the handle
  it stores through a pointer argument (\<open>0\<close> if it stores none).
\<close>

record reply =
  ret :: int
  out :: "u8 list"
  content :: string
  hnd :: ptr

abbreviation answer :: "int \<Rightarrow> reply" where
  "answer r \<equiv> \<lparr>ret = r, out = [], content = [], hnd = 0\<rparr>"

type_synonym event = "call \<times> reply"
type_synonym env = "event list \<Rightarrow> call \<Rightarrow> reply"

record world =
  wenv :: env
  log :: "event list"
  i2c_obj :: "nat \<Rightarrow> int option"    \<comment> \<open>mode of the driver installed on a port, if any\<close>

definition do_call :: "call \<Rightarrow> 'a world_scheme \<Rightarrow> reply \<times> 'a world_scheme" where
  "do_call c w = (let r = wenv w (log w) c in (r, w\<lparr>log := log w @ [(c, r)]\<rparr>))"

text \<open>The reply of the environment to a call made in \<open>w\<close>, and the world after it.\<close>

definition reply_to :: "'a world_scheme \<Rightarrow> call \<Rightarrow> reply" where
  "reply_to w c = wenv w (log w) c"

definition after :: "'a world_scheme \<Rightarrow> call \<Rightarrow> 'a world_scheme" where
  "after w c = w\<lparr>log := log w @ [(c, reply_to w c)]\<rparr>"

lemma do_call_eq: "do_call c w = (reply_to w c, after w c)"
  by (simp add: do_call_def reply_to_def after_def Let_def)

lemma after_sel [simp]:
  "log (after w c) = log w @ [(c, reply_to w c)]"
  "wenv (after w c) = wenv w"
  "i2c_obj (after w c) = i2c_obj w"
  by (simp_all add: after_def)

text \<open>Operations on one part of the state leave every other part of it alone but the log.\<close>

definition only_log :: "'a world_scheme \<Rightarrow> 'a world_scheme \<Rightarrow> bool" where
  "only_log w w' \<longleftrightarrow> w' = w\<lparr>log := log w'\<rparr>"

lemma only_log_refl [simp]: "only_log w w"
  by (simp add: only_log_def)

lemma only_log_after [simp]: "only_log w (after w' c) = only_log w w'"
  by (cases w; cases w') (simp add: only_log_def after_def)

lemma only_log_trans: "only_log w w1 \<Longrightarrow> only_log w1 w2 \<Longrightarrow> only_log w w2"
  by (cases w; cases w1; cases w2) (simp add: only_log_def)

lemma only_log_sel: "only_log w w' \<Longrightarrow> wenv w' = wenv w \<and> i2c_obj w' = i2c_obj w"
  by (cases w; cases w') (simp add: only_log_def)

lemma only_log_eq: "only_log w w' \<Longrightarrow> log w' = log w @ evs \<Longrightarrow> w' = w\<lparr>log := log w @ evs\<rparr>"
  by (simp add: only_log_def)

text \<open>A call whose result is its return value; a call whose result the code discards.\<close>

definition call_ret :: "call \<Rightarrow> 'a world_scheme \<Rightarrow> (int \<times> 'a world_scheme) option" where
  "call_ret c w = (let (r, w) = do_call c w in Some (ret r, w))"

definition call_void :: "call \<Rightarrow> 'a world_scheme \<Rightarrow> 'a world_scheme" where
  "call_void c w = snd (do_call c w)"

named_theorems io_simps \<open>unfolding of calls into replies and worlds\<close>

lemma call_ret_eq [io_simps]: "call_ret c w = Some (ret (reply_to w c), after w c)"
  by (simp add: call_ret_def do_call_eq)

lemma call_void_eq [io_simps]: "call_void c w = after w c"
  by (simp add: call_void_def do_call_eq)

declare do_call_eq [io_simps]

text \<open>The handle a call returns; \<open>0\<close> (\<^verbatim>\<open>NULL\<close>) for anything that is not a positive number.\<close>

definition handle :: "int \<Rightarrow> ptr" where
  "handle r = nat r"

text \<open>The calls of a stretch of execution: what the log of \<open>w'\<close> adds to the log of \<open>w\<close>.\<close>

definition new_events :: "'a world_scheme \<Rightarrow> 'b world_scheme \<Rightarrow> event list" where
  "new_events w w' = drop (length (log w)) (log w')"

lemma new_events_after [simp]: "new_events w (after w c) = [(c, reply_to w c)]"
  by (simp add: new_events_def)

abbreviation pdMS_TO_TICKS :: "nat \<Rightarrow> nat" where
  \<comment> \<open>\<^verbatim>\<open>CONFIG_FREERTOS_HZ = 100\<close>\<close>
  "pdMS_TO_TICKS ms \<equiv> ms * 100 div 1000"

text \<open>\<^verbatim>\<open>ESP_ERROR_CHECK(x)\<close>: abort unless the call returned \<^verbatim>\<open>ESP_OK\<close>.\<close>

definition ESP_ERROR_CHECK :: "(esp_err \<times> 'w) option \<Rightarrow> 'w option" where
  "ESP_ERROR_CHECK r = do { (e, w) \<leftarrow> r; if e = ESP_OK then Some w else None }"

lemma ESP_ERROR_CHECK_Some [simp]:
  "ESP_ERROR_CHECK (Some (e, w)) = (if e = ESP_OK then Some w else None)"
  by (simp add: ESP_ERROR_CHECK_def)

section \<open>The heap as the environment sees it\<close>

text \<open>The blocks an event obtains from the heap and the ones it gives back.\<close>

fun allocated :: "event \<Rightarrow> ptr list" where
  "allocated (MEM (Malloc _ _), r) = (if handle (ret r) = 0 then [] else [handle (ret r)])"
| "allocated (MEM (Calloc _ _), r) = (if handle (ret r) = 0 then [] else [handle (ret r)])"
| "allocated _ = []"

fun freed :: "event \<Rightarrow> ptr list" where
  "freed (MEM (Free p), _) = [p]"
| "freed _ = []"

definition allocs :: "event list \<Rightarrow> ptr list" where
  "allocs evs = concat (map allocated evs)"

definition frees :: "event list \<Rightarrow> ptr list" where
  "frees evs = concat (map freed evs)"

lemma allocs_simps [simp]:
  "allocs [] = []" "allocs (ev # evs) = allocated ev @ allocs evs" "allocs (evs @ evs') = allocs evs @ allocs evs'"
  by (simp_all add: allocs_def)

lemma frees_simps [simp]:
  "frees [] = []" "frees (ev # evs) = freed ev @ frees evs" "frees (evs @ evs') = frees evs @ frees evs'"
  by (simp_all add: frees_def)

text \<open>A stretch of events that gives back exactly the blocks it obtained.\<close>

definition balanced :: "event list \<Rightarrow> bool" where
  "balanced evs \<longleftrightarrow> mset (frees evs) = mset (allocs evs)"

end
