(* ===== verification/I2c_Link.thy ===== *)
theory I2c_Link
  imports Platform
begin

text \<open>
  The master side of the legacy I2C driver, esp-idf/components/driver/i2c/i2c.c: command links
  (\<^verbatim>\<open>i2c_cmd_desc_t\<close>, allocated in a caller's buffer or on the heap), the operations that append to
  them, and the one-shot transactions \<^verbatim>\<open>i2c_master_write_to_device\<close> and
  \<^verbatim>\<open>i2c_master_write_read_device\<close> every I2C device driver of the board uses.  The linked list of
  commands is a HOL list in the order of its \<^verbatim>\<open>next\<close> pointers.  Running a command link on the bus
  (the interrupt handler and the FIFO) is a call of the environment.
\<close>

section \<open>Command links\<close>

record i2c_cmd_desc =
  static_buf :: bool        \<comment> \<open>\<^verbatim>\<open>free_buffer != NULL\<close>\<close>
  cmd_list :: "i2c_cmd list"
  free_size :: nat
  self_ptr :: ptr           \<comment> \<open>address of a heap descriptor\<close>
  node_ptrs :: "ptr list"   \<comment> \<open>addresses of its heap nodes, from \<^verbatim>\<open>free\<close> along \<^verbatim>\<open>next\<close>\<close>

type_synonym i2c_cmd_handle = "i2c_cmd_desc option"   \<comment> \<open>\<open>None\<close> is \<^verbatim>\<open>NULL\<close>\<close>

text \<open>Sizes on the 32-bit ESP32-S3.\<close>

definition sizeof_i2c_cmd_desc_t :: nat where "sizeof_i2c_cmd_desc_t = 20"
definition sizeof_i2c_cmd_link_t :: nat where "sizeof_i2c_cmd_link_t = 20"

definition I2C_TRANS_BUF_MINIMUM_SIZE :: nat where
  "I2C_TRANS_BUF_MINIMUM_SIZE = sizeof_i2c_cmd_desc_t + sizeof_i2c_cmd_link_t * 8"

abbreviation (input) I2C_MASTER_WRITE :: u8 where "I2C_MASTER_WRITE \<equiv> 0"
abbreviation (input) I2C_MASTER_READ :: u8 where "I2C_MASTER_READ \<equiv> 1"
abbreviation (input) I2C_MASTER_ACK :: nat where "I2C_MASTER_ACK \<equiv> 0"
abbreviation (input) I2C_MASTER_NACK :: nat where "I2C_MASTER_NACK \<equiv> 1"
abbreviation (input) I2C_MASTER_LAST_NACK :: nat where "I2C_MASTER_LAST_NACK \<equiv> 2"
abbreviation (input) I2C_MASTER_ACK_MAX :: nat where "I2C_MASTER_ACK_MAX \<equiv> 3"
abbreviation (input) I2C_MODE_MASTER :: int where "I2C_MODE_MASTER \<equiv> 1"
abbreviation (input) I2C_NUM_MAX :: nat where "I2C_NUM_MAX \<equiv> 2"

definition i2c_cmd_link_create_static :: "nat \<Rightarrow> i2c_cmd_handle" where
  "i2c_cmd_link_create_static sz =
     (if sz \<le> sizeof_i2c_cmd_desc_t then None
      else Some \<lparr>static_buf = True, cmd_list = [], free_size = sz - sizeof_i2c_cmd_desc_t,
             self_ptr = 0, node_ptrs = []\<rparr>)"

definition i2c_cmd_link_create :: "'a world_scheme \<Rightarrow> i2c_cmd_handle \<times> 'a world_scheme" where
  "i2c_cmd_link_create w =
     (let (r, w) = do_call (MEM (Calloc 1 sizeof_i2c_cmd_desc_t)) w
      in (if handle (ret r) = 0 then None
          else Some \<lparr>static_buf = False, cmd_list = [], free_size = 0,
                      self_ptr = handle (ret r), node_ptrs = []\<rparr>, w))"

text \<open>\<^verbatim>\<open>i2c_cmd_allocate\<close>: the error, the allocated address (\<^verbatim>\<open>*outptr\<close>, heap only) and the descriptor.\<close>

definition i2c_cmd_allocate ::
  "i2c_cmd_desc \<Rightarrow> nat \<Rightarrow> nat \<Rightarrow> 'a world_scheme \<Rightarrow> esp_err \<times> ptr \<times> i2c_cmd_desc \<times> 'a world_scheme" where
  "i2c_cmd_allocate d n sz w =
     (if static_buf d
      then (let required = n * sz
            in if free_size d < required then (ESP_ERR_NO_MEM, 0, d, w)
               else (ESP_OK, 0, d\<lparr>free_size := free_size d - required\<rparr>, w))
      else (let (r, w) = do_call (MEM (Calloc n sz)) w
            in if handle (ret r) = 0 then (ESP_FAIL, 0, d, w) else (ESP_OK, handle (ret r), d, w)))"

text \<open>
  \<^verbatim>\<open>i2c_cmd_link_append\<close>: both the first node (\<^verbatim>\<open>head\<close>) and every later one (\<^verbatim>\<open>cur->next\<close>) is
  allocated first and then filled; on a failed allocation the link is as it was.
\<close>

definition i2c_cmd_link_append ::
  "i2c_cmd_desc \<Rightarrow> i2c_cmd \<Rightarrow> 'a world_scheme \<Rightarrow> esp_err \<times> i2c_cmd_desc \<times> 'a world_scheme" where
  "i2c_cmd_link_append d c w =
     (let (err, p, d, w) = i2c_cmd_allocate d 1 sizeof_i2c_cmd_link_t w
      in if err \<noteq> ESP_OK then (err, d, w)
         else (ESP_OK, d\<lparr>cmd_list := cmd_list d @ [c],
                         node_ptrs := (if static_buf d then node_ptrs d else node_ptrs d @ [p])\<rparr>, w))"

text \<open>The operations that take a handle: a \<^verbatim>\<open>NULL\<close> handle is \<^verbatim>\<open>ESP_ERR_INVALID_ARG\<close>.\<close>

definition on_link ::
  "i2c_cmd_handle \<Rightarrow> i2c_cmd \<Rightarrow> 'a world_scheme \<Rightarrow> esp_err \<times> i2c_cmd_handle \<times> 'a world_scheme" where
  "on_link h c w =
     (case h of None \<Rightarrow> (ESP_ERR_INVALID_ARG, None, w)
      | Some d \<Rightarrow> (let (err, d, w) = i2c_cmd_link_append d c w in (err, Some d, w)))"

definition i2c_master_start ::
  "i2c_cmd_handle \<Rightarrow> 'a world_scheme \<Rightarrow> esp_err \<times> i2c_cmd_handle \<times> 'a world_scheme" where
  "i2c_master_start h w = on_link h I2C_Restart w"

definition i2c_master_stop ::
  "i2c_cmd_handle \<Rightarrow> 'a world_scheme \<Rightarrow> esp_err \<times> i2c_cmd_handle \<times> 'a world_scheme" where
  "i2c_master_stop h w = on_link h I2C_Stop w"

definition i2c_master_write_byte ::
  "i2c_cmd_handle \<Rightarrow> u8 \<Rightarrow> bool \<Rightarrow> 'a world_scheme \<Rightarrow> esp_err \<times> i2c_cmd_handle \<times> 'a world_scheme" where
  "i2c_master_write_byte h b ack_en w = on_link h (I2C_Write ack_en [b]) w"

definition i2c_master_write ::
  "i2c_cmd_handle \<Rightarrow> u8 list \<Rightarrow> bool \<Rightarrow> 'a world_scheme \<Rightarrow> esp_err \<times> i2c_cmd_handle \<times> 'a world_scheme" where
  "i2c_master_write h bs ack_en w =
     (if length bs = 1 then i2c_master_write_byte h (hd bs) ack_en w
      else on_link h (I2C_Write ack_en bs) w)"

definition i2c_master_read_static ::
  "i2c_cmd_handle \<Rightarrow> nat \<Rightarrow> nat \<Rightarrow> 'a world_scheme \<Rightarrow> esp_err \<times> i2c_cmd_handle \<times> 'a world_scheme" where
  "i2c_master_read_static h n ack w = on_link h (I2C_Read (ack mod 2) n) w"

definition i2c_master_read_byte ::
  "i2c_cmd_handle \<Rightarrow> nat \<Rightarrow> 'a world_scheme \<Rightarrow> esp_err \<times> i2c_cmd_handle \<times> 'a world_scheme" where
  "i2c_master_read_byte h ack w =
     (if h = None \<or> \<not> ack < I2C_MASTER_ACK_MAX then (ESP_ERR_INVALID_ARG, h, w)
      else on_link h (I2C_Read (if ack = I2C_MASTER_LAST_NACK then I2C_MASTER_NACK else ack mod 2) 1) w)"

definition i2c_master_read ::
  "i2c_cmd_handle \<Rightarrow> nat \<Rightarrow> nat \<Rightarrow> 'a world_scheme \<Rightarrow> esp_err \<times> i2c_cmd_handle \<times> 'a world_scheme" where
  "i2c_master_read h n ack w =
     (if h = None \<or> \<not> ack < I2C_MASTER_ACK_MAX \<or> \<not> 0 < n then (ESP_ERR_INVALID_ARG, h, w)
      else if ack \<noteq> I2C_MASTER_LAST_NACK then i2c_master_read_static h n ack w
      else if n = 1 then i2c_master_read_byte h I2C_MASTER_NACK w
      else (let (err, h, w) = i2c_master_read_static h (n - 1) I2C_MASTER_ACK w
            in if err = ESP_OK then i2c_master_read_byte h I2C_MASTER_NACK w else (err, h, w)))"

text \<open>
  \<^verbatim>\<open>i2c_cmd_link_delete\<close> frees the nodes and then the descriptor of a heap link, and does
  nothing to \<^verbatim>\<open>NULL\<close> or to a static one.
\<close>

fun free_all :: "ptr list \<Rightarrow> 'a world_scheme \<Rightarrow> 'a world_scheme" where
  "free_all [] w = w"
| "free_all (p # ps) w = free_all ps (call_void (MEM (Free p)) w)"

definition i2c_cmd_link_delete :: "i2c_cmd_handle \<Rightarrow> 'a world_scheme \<Rightarrow> 'a world_scheme" where
  "i2c_cmd_link_delete h w =
     (case h of None \<Rightarrow> w
      | Some d \<Rightarrow> if static_buf d then w
                  else call_void (MEM (Free (self_ptr d)))
                         (free_all (node_ptrs d) w))"

section \<open>Running a link\<close>

text \<open>
  \<^verbatim>\<open>i2c_master_cmd_begin\<close>: the checks of the port, of the installed driver and of the handle, then
  the commands run on the bus.  The result carries the bytes the bus delivered to the read
  commands, in order.  Dereferencing the \<^verbatim>\<open>head\<close> of an empty link has no meaning.
\<close>

definition i2c_master_cmd_begin ::
  "nat \<Rightarrow> i2c_cmd_handle \<Rightarrow> nat \<Rightarrow> 'a world_scheme \<Rightarrow> (esp_err \<times> u8 list \<times> 'a world_scheme) option" where
  "i2c_master_cmd_begin port h ticks w =
     (if \<not> port < I2C_NUM_MAX then Some (ESP_ERR_INVALID_ARG, [], w)
      else case i2c_obj w port of
        None \<Rightarrow> Some (ESP_ERR_INVALID_STATE, [], w)
      | Some mode \<Rightarrow>
          if mode \<noteq> I2C_MODE_MASTER then Some (ESP_ERR_INVALID_STATE, [], w)
          else case h of
            None \<Rightarrow> Some (ESP_ERR_INVALID_ARG, [], w)
          | Some d \<Rightarrow>
              if cmd_list d = [] then None
              else let (r, w) = do_call (I2C (I2C_exec port (cmd_list d) ticks)) w
                   in Some (ret r, out r, w))"

text \<open>
  \<^verbatim>\<open>i2c_driver_install\<close> for a port: the checks, the refusal of a second driver, and the
  allocation of the driver's resources and interrupt, which is one call here; on failure all of
  them are released again and the port stays free.
\<close>

definition i2c_driver_install ::
  "nat \<Rightarrow> int \<Rightarrow> nat \<Rightarrow> nat \<Rightarrow> nat \<Rightarrow> 'a world_scheme \<Rightarrow> esp_err \<times> 'a world_scheme" where
  "i2c_driver_install port mode rx_len tx_len flags w =
     (if \<not> port < I2C_NUM_MAX then (ESP_ERR_INVALID_ARG, w)
      else if \<not> (mode = I2C_MODE_MASTER \<or> 100 < rx_len \<or> 100 < tx_len) then (ESP_ERR_INVALID_ARG, w)
      else if i2c_obj w port \<noteq> None then (ESP_FAIL, w)
      else let (r, w) = do_call (I2C (I2C_driver_alloc port mode rx_len tx_len flags)) w
           in if ret r = ESP_OK then (ESP_OK, w\<lparr>i2c_obj := (i2c_obj w)(port \<mapsto> mode)\<rparr>)
              else (ESP_FAIL, w))"

section \<open>One-shot transactions\<close>

definition i2c_master_write_to_device ::
  "nat \<Rightarrow> u8 \<Rightarrow> u8 list \<Rightarrow> nat \<Rightarrow> 'a world_scheme \<Rightarrow> (esp_err \<times> 'a world_scheme) option" where
  "i2c_master_write_to_device port addr bs ticks w =
     (let h = i2c_cmd_link_create_static I2C_TRANS_BUF_MINIMUM_SIZE
      in if h = None then None
      else let (err, h, w) = i2c_master_start h w
      in if err \<noteq> ESP_OK then Some (err, w)
      else let (err, h, w) = i2c_master_write_byte h (push_bit 1 addr OR I2C_MASTER_WRITE) True w
      in if err \<noteq> ESP_OK then Some (err, w)
      else let (err, h, w) = i2c_master_write h bs True w
      in if err \<noteq> ESP_OK then Some (err, w)
      else let (_, h, w) = i2c_master_stop h w
      in do { (err, _, w) \<leftarrow> i2c_master_cmd_begin port h ticks w; Some (err, w) })"

definition i2c_master_write_read_device ::
  "nat \<Rightarrow> u8 \<Rightarrow> u8 list \<Rightarrow> u8 list \<Rightarrow> nat \<Rightarrow> 'a world_scheme \<Rightarrow>
     (esp_err \<times> u8 list \<times> 'a world_scheme) option" where
  \<comment> \<open>\<open>buf\<close>: what the caller's read buffer holds before the call; the result has what it holds after\<close>
  "i2c_master_write_read_device port addr bs buf ticks w =
     (let h = i2c_cmd_link_create_static I2C_TRANS_BUF_MINIMUM_SIZE
      in if h = None then None
      else let (err, h, w) = i2c_master_start h w
      in if err \<noteq> ESP_OK then Some (err, buf, w)
      else let (err, h, w) = i2c_master_write_byte h (push_bit 1 addr OR I2C_MASTER_WRITE) True w
      in if err \<noteq> ESP_OK then Some (err, buf, w)
      else let (err, h, w) = i2c_master_write h bs True w
      in if err \<noteq> ESP_OK then Some (err, buf, w)
      else let (err, h, w) = i2c_master_start h w
      in if err \<noteq> ESP_OK then Some (err, buf, w)
      else let (err, h, w) = i2c_master_write_byte h (push_bit 1 addr OR I2C_MASTER_READ) True w
      in if err \<noteq> ESP_OK then Some (err, buf, w)
      else let (err, h, w) = i2c_master_read h (length buf) I2C_MASTER_LAST_NACK w
      in if err \<noteq> ESP_OK then Some (err, buf, w)
      else let (_, h, w) = i2c_master_stop h w
      in do { (err, bytes, w) \<leftarrow> i2c_master_cmd_begin port h ticks w;
              Some (err, overlay bytes buf, w) })"

section \<open>What the transactions do\<close>

text \<open>The command links the one-shot transactions build.\<close>

definition write_link :: "u8 \<Rightarrow> u8 list \<Rightarrow> i2c_cmd list" where
  "write_link addr bs = [I2C_Restart, I2C_Write True [push_bit 1 addr], I2C_Write True bs, I2C_Stop]"

definition read_part :: "nat \<Rightarrow> i2c_cmd list" where
  "read_part n = (if n = 1 then [I2C_Read I2C_MASTER_NACK 1]
                  else [I2C_Read I2C_MASTER_ACK (n - 1), I2C_Read I2C_MASTER_NACK 1])"

definition write_read_link :: "u8 \<Rightarrow> u8 list \<Rightarrow> nat \<Rightarrow> i2c_cmd list" where
  "write_read_link addr bs n =
     [I2C_Restart, I2C_Write True [push_bit 1 addr], I2C_Write True bs,
      I2C_Restart, I2C_Write True [push_bit 1 addr OR I2C_MASTER_READ]] @ read_part n @ [I2C_Stop]"

text \<open>Running a list of commands on a port, whatever memory the link lives in.\<close>

definition i2c_run ::
  "nat \<Rightarrow> i2c_cmd list \<Rightarrow> nat \<Rightarrow> 'a world_scheme \<Rightarrow> esp_err \<times> u8 list \<times> 'a world_scheme" where
  "i2c_run port cmds ticks w =
     (if \<not> port < I2C_NUM_MAX then (ESP_ERR_INVALID_ARG, [], w)
      else if i2c_obj w port \<noteq> Some I2C_MODE_MASTER then (ESP_ERR_INVALID_STATE, [], w)
      else let c = I2C (I2C_exec port cmds ticks)
           in (ret (reply_to w c), out (reply_to w c), after w c))"

lemma cmd_begin_run:
  "cmd_list d \<noteq> [] \<Longrightarrow> i2c_master_cmd_begin port (Some d) ticks w = Some (i2c_run port (cmd_list d) ticks w)"
  by (auto simp: i2c_master_cmd_begin_def i2c_run_def do_call_eq Let_def split: option.splits)

text \<open>Appending to a link in a caller's buffer: no call leaves the driver.\<close>

lemma on_link_static:
  assumes "static_buf d" and "sizeof_i2c_cmd_link_t \<le> free_size d"
  shows "on_link (Some d) c w =
    (ESP_OK, Some (d\<lparr>free_size := free_size d - sizeof_i2c_cmd_link_t, cmd_list := cmd_list d @ [c]\<rparr>), w)"
  using assms by (simp add: on_link_def i2c_cmd_link_append_def i2c_cmd_allocate_def)

named_theorems link_defs \<open>the operations that append to a command link\<close>

declare i2c_master_start_def [link_defs] i2c_master_stop_def [link_defs]
  i2c_master_write_byte_def [link_defs] i2c_master_write_def [link_defs]
  i2c_master_read_def [link_defs] i2c_master_read_static_def [link_defs]
  i2c_master_read_byte_def [link_defs] i2c_cmd_link_create_static_def [link_defs]
  sizeof_i2c_cmd_desc_t_def [link_defs] sizeof_i2c_cmd_link_t_def [link_defs]
  I2C_TRANS_BUF_MINIMUM_SIZE_def [link_defs]

lemma length_one_hd: "length bs = Suc 0 \<Longrightarrow> [hd bs] = bs"
  by (cases bs) auto

lemma write_to_device_eq:
  "i2c_master_write_to_device port addr bs ticks w =
     (let (err, _, w') = i2c_run port (write_link addr bs) ticks w in Some (err, w'))"
  by (simp add: i2c_master_write_to_device_def link_defs on_link_static cmd_begin_run length_one_hd
      write_link_def Let_def split: prod.splits)

lemma write_read_device_eq:
  assumes "buf \<noteq> []"
  shows "i2c_master_write_read_device port addr bs buf ticks w =
     (let (err, bytes, w') = i2c_run port (write_read_link addr bs (length buf)) ticks w
      in Some (err, overlay bytes buf, w'))"
  using assms
  by (simp add: i2c_master_write_read_device_def link_defs on_link_static cmd_begin_run length_one_hd
      write_read_link_def read_part_def Let_def split: prod.splits)

lemma write_read_device_empty:
  "i2c_master_write_read_device port addr bs [] ticks w = Some (ESP_ERR_INVALID_ARG, [], w)"
  by (simp add: i2c_master_write_read_device_def link_defs on_link_static length_one_hd Let_def)

section \<open>Links on the heap\<close>

text \<open>Appending several commands, stopping at the first failure as the drivers do.\<close>

fun append_all ::
  "i2c_cmd_handle \<Rightarrow> i2c_cmd list \<Rightarrow> 'a world_scheme \<Rightarrow> esp_err \<times> i2c_cmd_handle \<times> 'a world_scheme" where
  "append_all h [] w = (ESP_OK, h, w)"
| "append_all h (c # cs) w =
     (let (err, h, w) = on_link h c w in if err \<noteq> ESP_OK then (err, h, w) else append_all h cs w)"

abbreviation node_calloc :: call where
  "node_calloc \<equiv> MEM (Calloc (Suc 0) sizeof_i2c_cmd_link_t)"

lemma on_link_heap:
  assumes "\<not> static_buf d"
  shows "on_link (Some d) c w =
    (let p = handle (ret (reply_to w node_calloc))
     in if p = 0 then (ESP_FAIL, Some d, after w node_calloc)
        else (ESP_OK, Some (d\<lparr>cmd_list := cmd_list d @ [c], node_ptrs := node_ptrs d @ [p]\<rparr>), after w node_calloc))"
  using assms by (simp add: on_link_def i2c_cmd_link_append_def i2c_cmd_allocate_def do_call_eq Let_def)

text \<open>
  A heap link accounts for its memory: the nodes it holds are exactly the blocks that the appends
  obtained, also when one of them fails half-way.
\<close>

lemma append_all_heap:
  "append_all (Some d) cs w = (err, h, w') \<Longrightarrow> \<not> static_buf d \<Longrightarrow>
   \<exists>d' evs. h = Some d' \<and> \<not> static_buf d' \<and> self_ptr d' = self_ptr d \<and>
     wenv w' = wenv w \<and> i2c_obj w' = i2c_obj w \<and> log w' = log w @ evs \<and>
     (\<forall>ev \<in> set evs. fst ev = node_calloc) \<and>
     node_ptrs d' = node_ptrs d @ allocs evs \<and> frees evs = [] \<and>
     (err = ESP_OK \<longrightarrow> cmd_list d' = cmd_list d @ cs)"
proof (induction cs arbitrary: d w)
  case Nil
  then show ?case by auto
next
  case (Cons c cs)
  define p where "p = handle (ret (reply_to w node_calloc))"
  define w1 where "w1 = after w node_calloc"
  show ?case
  proof (cases "p = 0")
    case True
    with Cons.prems show ?thesis by (auto simp: on_link_heap p_def)
  next
    case False
    define d1 where "d1 = d\<lparr>cmd_list := cmd_list d @ [c], node_ptrs := node_ptrs d @ [p]\<rparr>"
    have "append_all (Some d1) cs w1 = (err, h, w')" and "\<not> static_buf d1"
      using Cons.prems False by (simp_all add: on_link_heap p_def [symmetric] Let_def d1_def w1_def)
    from Cons.IH [OF this] obtain d' evs where ih: "h = Some d'" "\<not> static_buf d'" "self_ptr d' = self_ptr d1"
      "wenv w' = wenv w1" "i2c_obj w' = i2c_obj w1" "log w' = log w1 @ evs"
      "\<forall>ev \<in> set evs. fst ev = node_calloc" "node_ptrs d' = node_ptrs d1 @ allocs evs" "frees evs = []"
      "err = ESP_OK \<longrightarrow> cmd_list d' = cmd_list d1 @ cs" by blast
    then show ?thesis
      by (intro exI [of _ d'] exI [of _ "(node_calloc, reply_to w node_calloc) # evs"])
         (use False in \<open>auto simp: d1_def w1_def p_def\<close>)
  qed
qed

text \<open>Deleting a heap link frees the descriptor and its nodes.\<close>

lemma free_all_log:
  "\<exists>evs. log (free_all ps w) = log w @ evs \<and> frees evs = ps \<and> allocs evs = [] \<and>
     (\<forall>ev \<in> set evs. \<exists>p. fst ev = MEM (Free p))"
proof (induction ps arbitrary: w)
  case (Cons p ps)
  from Cons [of "after w (MEM (Free p))"] obtain evs where
    "log (free_all ps (after w (MEM (Free p)))) = log w @ (MEM (Free p), reply_to w (MEM (Free p))) # evs"
    "frees evs = ps" "allocs evs = []" "\<forall>ev \<in> set evs. \<exists>p. fst ev = MEM (Free p)" by auto
  then show ?case
    by (intro exI [of _ "(MEM (Free p), reply_to w (MEM (Free p))) # evs"]) (auto simp: io_simps)
qed (simp add: exI [of _ "[]"])

lemma link_delete_heap:
  assumes "\<not> static_buf d"
  shows "\<exists>evs. log (i2c_cmd_link_delete (Some d) w) = log w @ evs \<and> frees evs = node_ptrs d @ [self_ptr d] \<and>
    allocs evs = [] \<and> (\<forall>ev \<in> set evs. \<exists>p. fst ev = MEM (Free p))"
proof -
  from free_all_log [of "node_ptrs d" w] obtain evs where
    "log (free_all (node_ptrs d) w) = log w @ evs"
    "frees evs = node_ptrs d" "allocs evs = []" "\<forall>ev \<in> set evs. \<exists>p. fst ev = MEM (Free p)" by blast
  with assms show ?thesis by (auto simp: i2c_cmd_link_delete_def io_simps)
qed

end
