(* ===== verification/Panel_Io.thy ===== *)
theory Panel_Io
  imports I2c_Link
begin

text \<open>
  The LCD panel IO layer of esp-idf/components/esp_lcd: the SPI implementation
  (src/esp_lcd_panel_io_spi.c) with its queue of transactions in flight, the I2C implementation
  (src/esp_lcd_panel_io_i2c.c) used by the touch controller, and the generic front end
  (src/esp_lcd_panel_io.c), whose function pointers are the cases of \<open>panel_io\<close>.
\<close>

section \<open>Data\<close>

text \<open>
  \<open>busy\<close> records the transactions handed to the SPI driver and not recycled yet, oldest first, each
  with the index of its descriptor in \<^verbatim>\<open>trans_pool\<close>.  Callbacks are named by numbers, \<open>0\<close> for \<^verbatim>\<open>NULL\<close>.
\<close>

record esp_lcd_panel_io_spi_t =
  spi_dev :: ptr
  spi_trans_max_bytes :: nat
  dc_gpio_num :: int
  on_color_trans_done :: ptr
  user_ctx :: ptr
  queue_size :: nat
  num_trans_inflight :: nat
  lcd_cmd_bits :: nat
  lcd_param_bits :: nat
  dc_cmd_level :: bool
  dc_data_level :: bool
  dc_param_level :: bool
  octal_mode :: bool
  quad_mode :: bool
  busy :: "(nat \<times> spi_trans) list"

record lcd_panel_io_i2c_t =
  i2c_bus_id :: nat
  dev_addr :: u32
  i2c_cmd_bits :: nat
  i2c_param_bits :: nat
  control_phase_enabled :: bool
  control_phase_cmd :: u32
  control_phase_data :: u32
  i2c_color_trans_done :: ptr
  i2c_user_ctx :: ptr

datatype panel_io = Io_spi esp_lcd_panel_io_spi_t | Io_i2c lcd_panel_io_i2c_t

text \<open>The live panel IO objects by address.\<close>

record io_world = world +
  ios :: "ptr \<Rightarrow> panel_io option"

lemma ios_after [simp]: "ios (after w c) = ios w"
  by (simp add: after_def)

section \<open>Byte order\<close>

text \<open>\<^verbatim>\<open>lcd_com_reverse_buffer_bytes\<close> swaps the ends of \<^verbatim>\<open>buf[start..end]\<close> and moves inwards.\<close>

function lcd_com_reverse_buffer_bytes :: "u8 list \<Rightarrow> nat \<Rightarrow> nat \<Rightarrow> u8 list" where
  "lcd_com_reverse_buffer_bytes buf s e =
     (if s < e then lcd_com_reverse_buffer_bytes (buf[s := buf ! e, e := buf ! s]) (s + 1) (e - 1) else buf)"
  by pat_completeness auto
termination by (relation "measure (\<lambda>(_, s, e). e - s)") auto

declare lcd_com_reverse_buffer_bytes.simps [simp del]

text \<open>The bytes of the \<^verbatim>\<open>int\<close> \<^verbatim>\<open>lcd_cmd\<close> in memory (little-endian), and those sent for it.\<close>

definition int_bytes :: "int \<Rightarrow> u8 list" where
  "int_bytes c = map (\<lambda>k. word_of_int (drop_bit (8 * k) c)) [0, 1, 2, 3]"

definition spi_lcd_prepare_cmd_buffer :: "esp_lcd_panel_io_spi_t \<Rightarrow> u8 list \<Rightarrow> u8 list" where
  "spi_lcd_prepare_cmd_buffer io from =
     (if lcd_cmd_bits io > 8 then lcd_com_reverse_buffer_bytes from 0 (lcd_cmd_bits io div 8 - 1) else from)"

fun reverse_params :: "nat \<Rightarrow> nat \<Rightarrow> nat \<Rightarrow> u8 list \<Rightarrow> u8 list" where
  "reverse_params width i 0 from = from"
| "reverse_params width i (Suc n) from =
     reverse_params width (i + 1) n (lcd_com_reverse_buffer_bytes from (i * width) (i * width + width - 1))"

definition spi_lcd_prepare_param_buffer :: "esp_lcd_panel_io_spi_t \<Rightarrow> u8 list \<Rightarrow> u8 list option" where
  \<comment> \<open>\<open>None\<close>: the division by a parameter width of 0 bytes\<close>
  "spi_lcd_prepare_param_buffer io from =
     (let param_width = lcd_param_bits io div 8
      in if param_width = 0 then None
         else if lcd_param_bits io > 8 then Some (reverse_params param_width 0 (length from div param_width) from)
         else Some from)"

section \<open>SPI: recycling transactions\<close>

text \<open>
  The loop that waits for all pending transactions.  \<^verbatim>\<open>spi_device_get_trans_result\<close> hands back the
  oldest one.
\<close>

fun recycle_all :: "nat \<Rightarrow> esp_lcd_panel_io_spi_t \<Rightarrow> 'a world_scheme \<Rightarrow> esp_err \<times> esp_lcd_panel_io_spi_t \<times> 'a world_scheme" where
  "recycle_all 0 io w = (ESP_OK, io, w)"
| "recycle_all (Suc n) io w =
     (let (r, w) = do_call (SPI (Spi_get_trans_result (spi_dev io))) w
      in if ret r \<noteq> ESP_OK then (ret r, io, w)
         else recycle_all n (io\<lparr>num_trans_inflight := num_trans_inflight io - 1, busy := tl (busy io)\<rparr>) w)"

section \<open>SPI: creation and deletion\<close>

record esp_lcd_panel_io_spi_config_t =
  cfg_cs_gpio_num :: int
  cfg_dc_gpio_num :: int
  cfg_spi_mode :: nat
  cfg_pclk_hz :: nat
  cfg_trans_queue_depth :: nat
  cfg_on_color_trans_done :: ptr
  cfg_user_ctx :: ptr
  cfg_lcd_cmd_bits :: nat
  cfg_lcd_param_bits :: nat
  cfg_dc_high_on_cmd :: bool
  cfg_dc_low_on_data :: bool
  cfg_dc_low_on_param :: bool
  cfg_octal_mode :: bool
  cfg_quad_mode :: bool
  cfg_sio_mode :: bool
  cfg_lsb_first :: bool
  cfg_cs_high_active :: bool

text \<open>The label \<^verbatim>\<open>err\<close> of \<^verbatim>\<open>esp_lcd_new_panel_io_spi\<close>, with the object at \<open>p\<close>.\<close>

definition new_panel_io_spi_err ::
  "esp_lcd_panel_io_spi_config_t \<Rightarrow> ptr \<Rightarrow> esp_err \<Rightarrow> 'a world_scheme \<Rightarrow> esp_err \<times> ptr \<times> 'a world_scheme" where
  "new_panel_io_spi_err cfg p e w =
     (let w = (if cfg_dc_gpio_num cfg \<ge> 0 then call_void (GPIO (Gpio_reset_pin (cfg_dc_gpio_num cfg))) w else w)
      in (e, 0, call_void (MEM (Free p)) w))"

text \<open>The result has the new handle, \<open>0\<close> where \<^verbatim>\<open>*ret_io\<close> is not written.\<close>

definition esp_lcd_new_panel_io_spi ::
  "nat \<Rightarrow> esp_lcd_panel_io_spi_config_t \<Rightarrow> 'a io_world_scheme \<Rightarrow> esp_err \<times> ptr \<times> 'a io_world_scheme" where
  "esp_lcd_new_panel_io_spi bus cfg w =
    (if bus = 0 then (ESP_ERR_INVALID_ARG, 0, w)
     else let (r, w) = do_call (MEM (Calloc 1 (64 + 48 * cfg_trans_queue_depth cfg))) w; p = handle (ret r)
     in if p = 0 then (ESP_ERR_NO_MEM, 0, w)
     else let (r, w) = do_call (SPI (Spi_bus_add_device bus (cfg_pclk_hz cfg) (cfg_spi_mode cfg) (cfg_cs_gpio_num cfg)
                         (cfg_trans_queue_depth cfg) (cfg_lsb_first cfg) (cfg_sio_mode cfg) (cfg_cs_high_active cfg))) w;
              dev = hnd r
     in if ret r \<noteq> ESP_OK then new_panel_io_spi_err cfg p (ret r) w
     else let (e, w) = (if cfg_dc_gpio_num cfg \<ge> 0
                        then let (r, w) = do_call (GPIO (Gpio_config (2 ^ nat (cfg_dc_gpio_num cfg)) 2 0)) w in (ret r, w)
                        else (ESP_OK, w))
     in if e \<noteq> ESP_OK then new_panel_io_spi_err cfg p e w
     else let (r, w) = do_call (SPI (Spi_bus_get_max_transaction_len bus)) w
     in if ret r \<noteq> ESP_OK then new_panel_io_spi_err cfg p (ret r) w
     else (ESP_OK, p, w\<lparr>ios := (ios w)(p \<mapsto> Io_spi
            \<lparr>spi_dev = dev, spi_trans_max_bytes = hnd r, dc_gpio_num = cfg_dc_gpio_num cfg,
             on_color_trans_done = cfg_on_color_trans_done cfg, user_ctx = cfg_user_ctx cfg,
             queue_size = cfg_trans_queue_depth cfg, num_trans_inflight = 0,
             lcd_cmd_bits = cfg_lcd_cmd_bits cfg, lcd_param_bits = cfg_lcd_param_bits cfg,
             dc_cmd_level = cfg_dc_high_on_cmd cfg, dc_data_level = (\<not> cfg_dc_low_on_data cfg),
             dc_param_level = (\<not> cfg_dc_low_on_param cfg), octal_mode = cfg_octal_mode cfg,
             quad_mode = cfg_quad_mode cfg, busy = []\<rparr>)\<rparr>))"

text \<open>\<open>None\<close> for the object when it has been freed.\<close>

definition panel_io_spi_del ::
  "ptr \<Rightarrow> esp_lcd_panel_io_spi_t \<Rightarrow> 'a world_scheme \<Rightarrow> esp_err \<times> esp_lcd_panel_io_spi_t option \<times> 'a world_scheme" where
  "panel_io_spi_del p io w =
    (let (e, io, w) = recycle_all (num_trans_inflight io) io w
     in if e \<noteq> ESP_OK then (e, Some io, w)
        else let w = call_void (SPI (Spi_bus_remove_device (spi_dev io))) w;
                 w = (if dc_gpio_num io \<ge> 0 then call_void (GPIO (Gpio_reset_pin (dc_gpio_num io))) w else w)
             in (ESP_OK, None, call_void (MEM (Free p)) w))"

definition panel_io_spi_register_event_callbacks ::
  "esp_lcd_panel_io_spi_t \<Rightarrow> ptr \<Rightarrow> ptr \<Rightarrow> esp_err \<times> esp_lcd_panel_io_spi_t" where
  "panel_io_spi_register_event_callbacks io cb ctx = (ESP_OK, io\<lparr>on_color_trans_done := cb, user_ctx := ctx\<rparr>)"

section \<open>SPI: commands and parameters\<close>

definition release_bus ::
  "esp_err \<times> esp_lcd_panel_io_spi_t \<times> 'a world_scheme \<Rightarrow> esp_err \<times> esp_lcd_panel_io_spi_t \<times> 'a world_scheme" where
  "release_bus r = (case r of (e, io, w) \<Rightarrow> (e, io, call_void (SPI (Spi_release_bus (spi_dev io))) w))"

definition cmd_trans :: "esp_lcd_panel_io_spi_t \<Rightarrow> int \<Rightarrow> bool \<Rightarrow> spi_trans" where
  "cmd_trans io lcd_cmd keep =
     \<lparr>tr_length = lcd_cmd_bits io,
      tr_tx = take (lcd_cmd_bits io div 8) (spi_lcd_prepare_cmd_buffer io (int_bytes lcd_cmd)), tr_tx_addr = 0,
      tr_rxlength = 0, tr_dc = dc_cmd_level io, tr_done_cb = False, tr_keep_cs = keep,
      tr_octal = octal_mode io, tr_quad = False\<rparr>"

definition param_trans :: "esp_lcd_panel_io_spi_t \<Rightarrow> u8 list \<Rightarrow> spi_trans" where
  "param_trans io bytes =
     \<lparr>tr_length = length bytes * 8, tr_tx = bytes, tr_tx_addr = 0, tr_rxlength = 0, tr_dc = dc_param_level io,
      tr_done_cb = False, tr_keep_cs = False, tr_octal = octal_mode io, tr_quad = False\<rparr>"

definition rx_trans :: "esp_lcd_panel_io_spi_t \<Rightarrow> nat \<Rightarrow> spi_trans" where
  "rx_trans io n =
     \<lparr>tr_length = 0, tr_tx = [], tr_tx_addr = 0, tr_rxlength = n * 8, tr_dc = dc_param_level io,
      tr_done_cb = False, tr_keep_cs = False, tr_octal = octal_mode io, tr_quad = False\<rparr>"

text \<open>
  An absent or empty parameter is the empty list.  The wait for pending transactions and the
  polling transfers all end at the release of the bus.
\<close>

definition panel_io_spi_tx_param ::
  "esp_lcd_panel_io_spi_t \<Rightarrow> int \<Rightarrow> u8 list \<Rightarrow> 'a world_scheme \<Rightarrow> (esp_err \<times> esp_lcd_panel_io_spi_t \<times> 'a world_scheme) option" where
  "panel_io_spi_tx_param io lcd_cmd param w =
    (let (r, w) = do_call (SPI (Spi_acquire_bus (spi_dev io))) w
     in if ret r \<noteq> ESP_OK then Some (ret r, io, w)
     else let (e, io, w) = recycle_all (num_trans_inflight io) io w
     in if e \<noteq> ESP_OK then Some (release_bus (e, io, w))
     else let (e, w) = (if lcd_cmd \<ge> 0
                        then let (r, w) = do_call (SPI (Spi_polling_transmit (spi_dev io) (cmd_trans io lcd_cmd (param \<noteq> [])))) w
                             in (ret r, w)
                        else (ESP_OK, w))
     in if e \<noteq> ESP_OK then Some (release_bus (e, io, w))
     else if param = [] then Some (release_bus (ESP_OK, io, w))
     else do {
       bytes \<leftarrow> spi_lcd_prepare_param_buffer io param;
       let (r, w) = do_call (SPI (Spi_polling_transmit (spi_dev io) (param_trans io bytes))) w;
       Some (release_bus (ret r, io, w)) })"

text \<open>\<open>param\<close>: what the caller's buffer holds before, and in the result after the call.\<close>

definition panel_io_spi_rx_param ::
  "esp_lcd_panel_io_spi_t \<Rightarrow> int \<Rightarrow> u8 list \<Rightarrow> 'a world_scheme \<Rightarrow> (esp_err \<times> u8 list) \<times> esp_lcd_panel_io_spi_t \<times> 'a world_scheme" where
  "panel_io_spi_rx_param io lcd_cmd param w =
    (let (r, w) = do_call (SPI (Spi_acquire_bus (spi_dev io))) w
     in if ret r \<noteq> ESP_OK then ((ret r, param), io, w)
     else let (e, io, w) = recycle_all (num_trans_inflight io) io w
     in if e \<noteq> ESP_OK then ((e, param), snd (release_bus (e, io, w)))
     else let (e, w) = (if lcd_cmd \<ge> 0
                        then let (r, w) = do_call (SPI (Spi_polling_transmit (spi_dev io) (cmd_trans io lcd_cmd True))) w
                             in (ret r, w)
                        else (ESP_OK, w))
     in if e \<noteq> ESP_OK then ((e, param), snd (release_bus (e, io, w)))
     else if param = [] then ((ESP_OK, param), snd (release_bus (e, io, w)))
     else let (r, w) = do_call (SPI (Spi_polling_transmit (spi_dev io) (rx_trans io (length param)))) w
          in ((ret r, overlay (out r) param), snd (release_bus (ret r, io, w))))"

section \<open>SPI: color data\<close>

definition color_trans :: "esp_lcd_panel_io_spi_t \<Rightarrow> ptr \<Rightarrow> u8 list \<Rightarrow> bool \<Rightarrow> spi_trans" where
  "color_trans io addr bytes left =
     \<lparr>tr_length = length bytes * 8, tr_tx = bytes, tr_tx_addr = addr, tr_rxlength = 0, tr_dc = dc_data_level io,
      tr_done_cb = (\<not> left), tr_keep_cs = left, tr_octal = octal_mode io,
      tr_quad = (\<not> octal_mode io \<and> quad_mode io)\<rparr>"

text \<open>
  The \<^verbatim>\<open>do ... while\<close> of \<^verbatim>\<open>panel_io_spi_tx_color\<close>.  \<open>None\<close> is an execution that does not end: no
  transaction to wait for, or chunks of no bytes for ever.
\<close>

partial_function (option) tx_chunks ::
  "esp_lcd_panel_io_spi_t \<Rightarrow> ptr \<Rightarrow> u8 list \<Rightarrow> 'a world_scheme \<Rightarrow> (esp_err \<times> esp_lcd_panel_io_spi_t \<times> 'a world_scheme) option" where
  "tx_chunks io color data w = do {
     (e, slot, io, w) \<leftarrow>
       (if num_trans_inflight io < queue_size io then Some (ESP_OK, num_trans_inflight io, io, w)
        else case busy io of
          [] \<Rightarrow> None
        | (slot, _) # rest \<Rightarrow>
            let (r, w) = do_call (SPI (Spi_get_trans_result (spi_dev io))) w
            in if ret r \<noteq> ESP_OK then Some (ret r, slot, io, w)
               else Some (ESP_OK, slot, io\<lparr>num_trans_inflight := num_trans_inflight io - 1, busy := rest\<rparr>, w));
     if e \<noteq> ESP_OK then Some (e, io, w)
     else let left = length data > spi_trans_max_bytes io;
              chunk_size = (if left then spi_trans_max_bytes io else length data);
              trans = color_trans io color (take chunk_size data) left;
              (r, w) = do_call (SPI (Spi_queue_trans (spi_dev io) trans)) w
          in if ret r \<noteq> ESP_OK then Some (ret r, io, w)
             else let io = io\<lparr>num_trans_inflight := num_trans_inflight io + 1, busy := busy io @ [(slot, trans)]\<rparr>;
                      data = drop chunk_size data
                  in if data \<noteq> [] then tx_chunks io (color + chunk_size) data w
                     else Some (ESP_OK, io, w) }"

definition panel_io_spi_tx_color ::
  "esp_lcd_panel_io_spi_t \<Rightarrow> int \<Rightarrow> ptr \<Rightarrow> u8 list \<Rightarrow> 'a world_scheme \<Rightarrow> (esp_err \<times> esp_lcd_panel_io_spi_t \<times> 'a world_scheme) option" where
  "panel_io_spi_tx_color io lcd_cmd color data w =
    (let (r, w) = do_call (SPI (Spi_acquire_bus (spi_dev io))) w
     in if ret r \<noteq> ESP_OK then Some (ret r, io, w)
     else let (e, io, w) =
       (if lcd_cmd \<ge> 0
        then let (e, io, w) = recycle_all (num_trans_inflight io) io w
             in if e \<noteq> ESP_OK then (e, io, w)
                else let (r, w) = do_call (SPI (Spi_polling_transmit (spi_dev io) (cmd_trans io lcd_cmd (data \<noteq> [])))) w
                     in (ret r, io, w)
        else (ESP_OK, io, w))
     in if e \<noteq> ESP_OK then Some (release_bus (e, io, w))
     else do { r \<leftarrow> tx_chunks io color data w; Some (release_bus r) })"

text \<open>The interrupt callbacks the SPI driver makes before and after a transaction.\<close>

definition lcd_spi_pre_trans_cb :: "esp_lcd_panel_io_spi_t \<Rightarrow> spi_trans \<Rightarrow> 'a world_scheme \<Rightarrow> 'a world_scheme" where
  "lcd_spi_pre_trans_cb io t w =
     (if dc_gpio_num io \<ge> 0 then call_void (GPIO (Gpio_set_level (dc_gpio_num io) (if tr_dc t then 1 else 0))) w else w)"

definition lcd_spi_post_trans_color_cb :: "esp_lcd_panel_io_spi_t \<Rightarrow> spi_trans \<Rightarrow> 'a world_scheme \<Rightarrow> 'a world_scheme" where
  "lcd_spi_post_trans_color_cb io t w =
     (if tr_done_cb t \<and> on_color_trans_done io \<noteq> 0
      then call_void (OS (Callback (on_color_trans_done io) (user_ctx io))) w else w)"

section \<open>I2C\<close>

definition CMD_HANDLER_BUFFER_SIZE :: nat where
  "CMD_HANDLER_BUFFER_SIZE = 2 * 24 + 24 * (5 * 2)"

abbreviation (input) portMAX_DELAY :: nat where "portMAX_DELAY \<equiv> 4294967295"

record esp_lcd_panel_io_i2c_config_t =
  cfg_dev_addr :: u32
  cfg_i2c_color_trans_done :: ptr
  cfg_i2c_user_ctx :: ptr
  cfg_control_phase_bytes :: nat
  cfg_dc_bit_offset :: nat
  cfg_i2c_cmd_bits :: nat
  cfg_i2c_param_bits :: nat
  cfg_i2c_dc_low_on_data :: bool
  cfg_disable_control_phase :: bool

definition esp_lcd_new_panel_io_i2c ::
  "nat \<Rightarrow> esp_lcd_panel_io_i2c_config_t \<Rightarrow> 'a io_world_scheme \<Rightarrow> esp_err \<times> ptr \<times> 'a io_world_scheme" where
  "esp_lcd_new_panel_io_i2c bus cfg w =
    (if \<not> cfg_control_phase_bytes cfg * 8 > cfg_dc_bit_offset cfg then (ESP_ERR_INVALID_ARG, 0, w)
     else let (r, w) = do_call (MEM (Calloc 1 (56 + CMD_HANDLER_BUFFER_SIZE))) w; p = handle (ret r)
     in if p = 0 then (ESP_ERR_NO_MEM, 0, w)
     else (ESP_OK, p, w\<lparr>ios := (ios w)(p \<mapsto> Io_i2c
            \<lparr>i2c_bus_id = bus, dev_addr = cfg_dev_addr cfg, i2c_cmd_bits = cfg_i2c_cmd_bits cfg,
             i2c_param_bits = cfg_i2c_param_bits cfg,
             control_phase_enabled = (\<not> cfg_disable_control_phase cfg),
             control_phase_cmd = push_bit (cfg_dc_bit_offset cfg) (if cfg_i2c_dc_low_on_data cfg then 1 else 0),
             control_phase_data = push_bit (cfg_dc_bit_offset cfg) (if cfg_i2c_dc_low_on_data cfg then 0 else 1),
             i2c_color_trans_done = cfg_i2c_color_trans_done cfg, i2c_user_ctx = cfg_i2c_user_ctx cfg\<rparr>)\<rparr>))"

definition panel_io_i2c_del :: "ptr \<Rightarrow> 'a world_scheme \<Rightarrow> esp_err \<times> 'a world_scheme" where
  "panel_io_i2c_del p w = (ESP_OK, call_void (MEM (Free p)) w)"

definition panel_io_i2c_register_event_callbacks ::
  "lcd_panel_io_i2c_t \<Rightarrow> ptr \<Rightarrow> ptr \<Rightarrow> esp_err \<times> lcd_panel_io_i2c_t" where
  "panel_io_i2c_register_event_callbacks io cb ctx =
     (ESP_OK, io\<lparr>i2c_color_trans_done := cb, i2c_user_ctx := ctx\<rparr>)"

text \<open>\<^verbatim>\<open>ESP_GOTO_ON_ERROR(op(cmd_link), err)\<close>: once a step has failed the later ones are skipped.\<close>

definition then_link ::
  "esp_err \<times> i2c_cmd_handle \<times> 'w \<Rightarrow> (i2c_cmd_handle \<Rightarrow> 'w \<Rightarrow> esp_err \<times> i2c_cmd_handle \<times> 'w) \<Rightarrow> esp_err \<times> i2c_cmd_handle \<times> 'w" where
  "then_link s f = (case s of (e, h, w) \<Rightarrow> if e \<noteq> ESP_OK then (e, h, w) else f h w)"

text \<open>\<^verbatim>\<open>BYTESHIFT\<close> of the command, most significant byte first, and the bytes sent for it.\<close>

definition lcd_cmd_bytes :: "lcd_panel_io_i2c_t \<Rightarrow> int \<Rightarrow> u8 list" where
  "lcd_cmd_bytes io lcd_cmd =
     (let cmds = map (\<lambda>k. word_of_int (drop_bit (8 * k) lcd_cmd)) [3, 2, 1, 0]; n = i2c_cmd_bits io div 8
      in drop (4 - n) cmds)"

definition link_cmd ::
  "lcd_panel_io_i2c_t \<Rightarrow> int \<Rightarrow> esp_err \<times> i2c_cmd_handle \<times> 'a world_scheme \<Rightarrow> esp_err \<times> i2c_cmd_handle \<times> 'a world_scheme" where
  "link_cmd io lcd_cmd s =
     (let n = i2c_cmd_bits io div 8
      in if 0 < n \<and> n \<le> 4 then then_link s (\<lambda>h w. i2c_master_write h (lcd_cmd_bytes io lcd_cmd) True w) else s)"

text \<open>\<open>buffer\<close>: \<open>None\<close> is \<^verbatim>\<open>NULL\<close>, otherwise the contents of the caller's buffer.\<close>

definition panel_io_i2c_rx_buffer ::
  "lcd_panel_io_i2c_t \<Rightarrow> int \<Rightarrow> u8 list option \<Rightarrow> 'a world_scheme \<Rightarrow> (esp_err \<times> u8 list option \<times> 'a world_scheme) option" where
  "panel_io_i2c_rx_buffer io lcd_cmd buffer w =
    (let h = i2c_cmd_link_create_static CMD_HANDLER_BUFFER_SIZE
     in if h = None then Some (ESP_ERR_NO_MEM, buffer, w)
     else let
       s = i2c_master_start h w;
       s = then_link s (\<lambda>h w. i2c_master_write_byte h (ucast (push_bit 1 (dev_addr io) OR ucast I2C_MASTER_WRITE)) True w);
       s = (if lcd_cmd \<ge> 0
            then let s = (if control_phase_enabled io
                          then then_link s (\<lambda>h w. i2c_master_write_byte h (ucast (control_phase_cmd io)) True w) else s)
                 in link_cmd io lcd_cmd s
            else s);
       s = (case buffer of None \<Rightarrow> s
            | Some b \<Rightarrow>
                let s = then_link s i2c_master_start;
                    s = then_link s (\<lambda>h w. i2c_master_write_byte h (ucast (push_bit 1 (dev_addr io) OR ucast I2C_MASTER_READ)) True w)
                in then_link s (\<lambda>h w. i2c_master_read h (length b) I2C_MASTER_LAST_NACK w));
       (e, h, w) = then_link s i2c_master_stop
     in if e \<noteq> ESP_OK then Some (e, buffer, w)
        else do { (e, bytes, w) \<leftarrow> i2c_master_cmd_begin (i2c_bus_id io) h portMAX_DELAY w;
                  Some (e, map_option (overlay bytes) buffer, w) })"

definition panel_io_i2c_tx_buffer ::
  "lcd_panel_io_i2c_t \<Rightarrow> int \<Rightarrow> u8 list option \<Rightarrow> bool \<Rightarrow> 'a world_scheme \<Rightarrow> (esp_err \<times> 'a world_scheme) option" where
  "panel_io_i2c_tx_buffer io lcd_cmd buffer is_param w =
    (let h = i2c_cmd_link_create_static CMD_HANDLER_BUFFER_SIZE
     in if h = None then Some (ESP_ERR_NO_MEM, w)
     else let
       s = i2c_master_start h w;
       s = then_link s (\<lambda>h w. i2c_master_write_byte h (ucast (push_bit 1 (dev_addr io) OR ucast I2C_MASTER_WRITE)) True w);
       s = (if control_phase_enabled io
            then then_link s (\<lambda>h w. i2c_master_write_byte h
                   (ucast (if is_param then control_phase_cmd io else control_phase_data io)) True w)
            else s);
       s = (if lcd_cmd \<ge> 0 then link_cmd io lcd_cmd s else s);
       s = (case buffer of None \<Rightarrow> s | Some b \<Rightarrow> then_link s (\<lambda>h w. i2c_master_write h b True w));
       (e, h, w) = then_link s i2c_master_stop
     in if e \<noteq> ESP_OK then Some (e, w)
        else do { (e, _, w) \<leftarrow> i2c_master_cmd_begin (i2c_bus_id io) h portMAX_DELAY w;
                  if e \<noteq> ESP_OK then Some (e, w)
                  else if \<not> is_param \<and> i2c_color_trans_done io \<noteq> 0
                  then Some (ESP_OK, call_void (OS (Callback (i2c_color_trans_done io) (i2c_user_ctx io))) w)
                  else Some (ESP_OK, w) })"

definition panel_io_i2c_rx_param ::
  "lcd_panel_io_i2c_t \<Rightarrow> int \<Rightarrow> u8 list option \<Rightarrow> 'a world_scheme \<Rightarrow> (esp_err \<times> u8 list option \<times> 'a world_scheme) option" where
  "panel_io_i2c_rx_param io lcd_cmd param w = panel_io_i2c_rx_buffer io lcd_cmd param w"

definition panel_io_i2c_tx_param ::
  "lcd_panel_io_i2c_t \<Rightarrow> int \<Rightarrow> u8 list option \<Rightarrow> 'a world_scheme \<Rightarrow> (esp_err \<times> 'a world_scheme) option" where
  "panel_io_i2c_tx_param io lcd_cmd param w = panel_io_i2c_tx_buffer io lcd_cmd param True w"

definition panel_io_i2c_tx_color ::
  "lcd_panel_io_i2c_t \<Rightarrow> int \<Rightarrow> u8 list option \<Rightarrow> 'a world_scheme \<Rightarrow> (esp_err \<times> 'a world_scheme) option" where
  "panel_io_i2c_tx_color io lcd_cmd color w = panel_io_i2c_tx_buffer io lcd_cmd color False w"

section \<open>The generic front end\<close>

text \<open>
  A \<^verbatim>\<open>NULL\<close> handle is \<^verbatim>\<open>ESP_ERR_INVALID_ARG\<close>; a handle to no live object has no meaning.  \<open>None\<close> as
  a buffer is \<^verbatim>\<open>NULL\<close>.
\<close>

abbreviation set_io :: "ptr \<Rightarrow> panel_io \<Rightarrow> 'a io_world_scheme \<Rightarrow> 'a io_world_scheme" where
  "set_io p x w \<equiv> w\<lparr>ios := (ios w)(p \<mapsto> x)\<rparr>"

definition esp_lcd_panel_io_rx_param ::
  "ptr \<Rightarrow> int \<Rightarrow> u8 list option \<Rightarrow> 'a io_world_scheme \<Rightarrow> (esp_err \<times> u8 list option \<times> 'a io_world_scheme) option" where
  "esp_lcd_panel_io_rx_param p lcd_cmd param w =
    (if p = 0 then Some (ESP_ERR_INVALID_ARG, param, w)
     else case ios w p of
       None \<Rightarrow> None
     | Some (Io_spi io) \<Rightarrow>
         let ((e, b), io, w) = panel_io_spi_rx_param io lcd_cmd (case param of None \<Rightarrow> [] | Some b \<Rightarrow> b) w
         in Some (e, map_option (\<lambda>_. b) param, set_io p (Io_spi io) w)
     | Some (Io_i2c io) \<Rightarrow> panel_io_i2c_rx_param io lcd_cmd param w)"

definition esp_lcd_panel_io_tx_param ::
  "ptr \<Rightarrow> int \<Rightarrow> u8 list option \<Rightarrow> 'a io_world_scheme \<Rightarrow> (esp_err \<times> 'a io_world_scheme) option" where
  "esp_lcd_panel_io_tx_param p lcd_cmd param w =
    (if p = 0 then Some (ESP_ERR_INVALID_ARG, w)
     else case ios w p of
       None \<Rightarrow> None
     | Some (Io_spi io) \<Rightarrow> do {
         (e, io, w) \<leftarrow> panel_io_spi_tx_param io lcd_cmd (case param of None \<Rightarrow> [] | Some b \<Rightarrow> b) w;
         Some (e, set_io p (Io_spi io) w) }
     | Some (Io_i2c io) \<Rightarrow> panel_io_i2c_tx_param io lcd_cmd param w)"

definition esp_lcd_panel_io_tx_color ::
  "ptr \<Rightarrow> int \<Rightarrow> ptr \<Rightarrow> u8 list \<Rightarrow> 'a io_world_scheme \<Rightarrow> (esp_err \<times> 'a io_world_scheme) option" where
  "esp_lcd_panel_io_tx_color p lcd_cmd color data w =
    (if p = 0 then Some (ESP_ERR_INVALID_ARG, w)
     else case ios w p of
       None \<Rightarrow> None
     | Some (Io_spi io) \<Rightarrow> do {
         (e, io, w) \<leftarrow> panel_io_spi_tx_color io lcd_cmd color data w;
         Some (e, set_io p (Io_spi io) w) }
     | Some (Io_i2c io) \<Rightarrow> panel_io_i2c_tx_color io lcd_cmd (if color = 0 then None else Some data) w)"

definition esp_lcd_panel_io_del :: "ptr \<Rightarrow> 'a io_world_scheme \<Rightarrow> (esp_err \<times> 'a io_world_scheme) option" where
  "esp_lcd_panel_io_del p w =
    (if p = 0 then Some (ESP_ERR_INVALID_ARG, w)
     else case ios w p of
       None \<Rightarrow> None
     | Some (Io_spi io) \<Rightarrow>
         let (e, left, w) = panel_io_spi_del p io w in Some (e, w\<lparr>ios := (ios w)(p := map_option Io_spi left)\<rparr>)
     | Some (Io_i2c io) \<Rightarrow> let (e, w) = panel_io_i2c_del p w in Some (e, w\<lparr>ios := (ios w)(p := None)\<rparr>))"

definition esp_lcd_panel_io_register_event_callbacks ::
  "ptr \<Rightarrow> ptr \<Rightarrow> ptr \<Rightarrow> 'a io_world_scheme \<Rightarrow> (esp_err \<times> 'a io_world_scheme) option" where
  "esp_lcd_panel_io_register_event_callbacks p cb ctx w =
    (if p = 0 then Some (ESP_ERR_INVALID_ARG, w)
     else case ios w p of
       None \<Rightarrow> None
     | Some (Io_spi io) \<Rightarrow>
         let (e, io) = panel_io_spi_register_event_callbacks io cb ctx in Some (e, set_io p (Io_spi io) w)
     | Some (Io_i2c io) \<Rightarrow>
         let (e, io) = panel_io_i2c_register_event_callbacks io cb ctx in Some (e, set_io p (Io_i2c io) w))"

section \<open>The queue of transactions\<close>

text \<open>
  Descriptors in flight are distinct and inside the pool, their number is what the code counts, and
  as long as the pool is not exhausted they are its first ones, so that
  \<^verbatim>\<open>trans_pool[num_trans_inflight]\<close> is free.
\<close>

definition io_ok :: "esp_lcd_panel_io_spi_t \<Rightarrow> bool" where
  "io_ok io \<longleftrightarrow> num_trans_inflight io = length (busy io) \<and> length (busy io) \<le> queue_size io \<and>
     distinct (map fst (busy io)) \<and> set (map fst (busy io)) \<subseteq> {..<queue_size io} \<and>
     (length (busy io) < queue_size io \<longrightarrow> set (map fst (busy io)) = {..<length (busy io)})"

text \<open>
  What remains when handing over a recycled descriptor fails: the freed descriptor need not be the
  first one beyond the count, but the next command waits for all of them.
\<close>

definition io_wf :: "esp_lcd_panel_io_spi_t \<Rightarrow> bool" where
  "io_wf io \<longleftrightarrow> num_trans_inflight io = length (busy io) \<and> length (busy io) \<le> queue_size io \<and>
     distinct (map fst (busy io)) \<and> set (map fst (busy io)) \<subseteq> {..<queue_size io}"

lemma io_ok_wf: "io_ok io \<Longrightarrow> io_wf io"
  by (simp add: io_ok_def io_wf_def)

text \<open>Waiting for a pending transaction without a time limit never fails.\<close>

definition recycles :: "'a world_scheme \<Rightarrow> bool" where
  "recycles w \<longleftrightarrow> (\<forall>h dev. ret (wenv w h (SPI (Spi_get_trans_result dev))) = ESP_OK)"

lemma recycles_after [simp]: "recycles (after w c) = recycles w"
  by (simp add: recycles_def)

text \<open>The events of the IO layer that carry no data.\<close>

fun quiet :: "event \<Rightarrow> bool" where
  "quiet (SPI (Spi_polling_transmit _ _), _) = False"
| "quiet (SPI (Spi_queue_trans _ _), _) = False"
| "quiet _ = True"

lemma recycle_all_all:
  assumes "recycles w" and "num_trans_inflight io = length (busy io)"
  shows "\<exists>w' evs. recycle_all (num_trans_inflight io) io w = (ESP_OK, io\<lparr>num_trans_inflight := 0, busy := []\<rparr>, w') \<and>
    log w' = log w @ evs \<and> wenv w' = wenv w \<and> only_log w w' \<and> list_all quiet evs"
  using assms
proof (induction "num_trans_inflight io" arbitrary: io w)
  case 0
  then have "busy io = []" by simp
  with 0 show ?case by (intro exI [of _ w] exI [of _ "[]"]) simp
next
  case (Suc n)
  let ?c = "SPI (Spi_get_trans_result (spi_dev io))"
  let ?io = "io\<lparr>num_trans_inflight := n, busy := tl (busy io)\<rparr>"
  have ok: "ret (reply_to w ?c) = ESP_OK" using Suc.prems(1) by (simp add: recycles_def reply_to_def)
  have "length (tl (busy io)) = n" using Suc by simp
  then obtain w' evs where "recycle_all n ?io (after w ?c) = (ESP_OK, ?io\<lparr>num_trans_inflight := 0, busy := []\<rparr>, w')"
      "log w' = log (after w ?c) @ evs" "wenv w' = wenv w" "only_log (after w ?c) w'" "list_all quiet evs"
    using Suc.hyps(1) [of ?io "after w ?c"] Suc.prems by auto
  moreover have "only_log w (after w ?c)" by simp
  ultimately show ?case using ok Suc.hyps(2) [symmetric] only_log_trans [of w "after w ?c" w']
    by (intro exI [of _ w'] exI [of _ "(?c, reply_to w ?c) # evs"]) (simp add: do_call_eq)
qed

lemma io_ok_emptied: "io_ok (io\<lparr>num_trans_inflight := 0, busy := []\<rparr>)"
  by (auto simp: io_ok_def)

text \<open>Handing over the next free descriptor, and reusing the one that was recycled, keep the invariant.\<close>

lemma io_ok_push:
  assumes "io_ok io" and "num_trans_inflight io < queue_size io"
  shows "io_ok (io\<lparr>num_trans_inflight := num_trans_inflight io + 1, busy := busy io @ [(num_trans_inflight io, t)]\<rparr>)"
  using assms by (auto simp: io_ok_def lessThan_Suc)

lemma io_ok_reuse:
  assumes "io_ok io" and "\<not> num_trans_inflight io < queue_size io" and "busy io = (slot, t0) # rest"
  shows "io_ok (io\<lparr>num_trans_inflight := num_trans_inflight io - 1 + 1, busy := rest @ [(slot, t)]\<rparr>)"
  using assms by (auto simp: io_ok_def)

text \<open>Two objects that differ only in the state of their queues.\<close>

definition same_conf :: "esp_lcd_panel_io_spi_t \<Rightarrow> esp_lcd_panel_io_spi_t \<Rightarrow> bool" where
  "same_conf io io' \<longleftrightarrow> io' = io\<lparr>num_trans_inflight := num_trans_inflight io', busy := busy io'\<rparr>"

lemma same_conf_refl [simp]: "same_conf io io"
  by (simp add: same_conf_def)

lemma same_conf_queue [simp]: "same_conf io (io'\<lparr>num_trans_inflight := n, busy := b\<rparr>) = same_conf io io'"
  by (cases io; cases io') (simp add: same_conf_def)

lemma same_conf_trans: "same_conf io io1 \<Longrightarrow> same_conf io1 io2 \<Longrightarrow> same_conf io io2"
  by (cases io; cases io1; cases io2) (simp add: same_conf_def)

lemma same_conf_sel:
  assumes "same_conf io io'"
  shows "spi_dev io' = spi_dev io" "spi_trans_max_bytes io' = spi_trans_max_bytes io" "queue_size io' = queue_size io"
    "dc_gpio_num io' = dc_gpio_num io" "lcd_cmd_bits io' = lcd_cmd_bits io" "lcd_param_bits io' = lcd_param_bits io"
    "dc_cmd_level io' = dc_cmd_level io" "dc_data_level io' = dc_data_level io" "dc_param_level io' = dc_param_level io"
    "on_color_trans_done io' = on_color_trans_done io" "user_ctx io' = user_ctx io"
    "octal_mode io' = octal_mode io" "quad_mode io' = quad_mode io"
  using assms by (cases io; cases io'; simp add: same_conf_def)+

text \<open>How color data is cut into transactions.\<close>

function chunks :: "nat \<Rightarrow> ptr \<Rightarrow> u8 list \<Rightarrow> (ptr \<times> u8 list \<times> bool) list" where
  "chunks m color data =
     (if length data > m \<and> m > 0 then (color, take m data, True) # chunks m (color + m) (drop m data)
      else [(color, data, False)])"
  by pat_completeness auto
termination by (relation "measure (\<lambda>(_, _, d). length d)") auto

declare chunks.simps [simp del]

fun queued :: "event \<Rightarrow> spi_trans list" where
  "queued (SPI (Spi_queue_trans _ t), _) = [t]"
| "queued _ = []"

abbreviation queued_trans :: "event list \<Rightarrow> spi_trans list" where
  "queued_trans evs \<equiv> concat (map queued evs)"

text \<open>Every SPI call succeeds.\<close>

definition spi_up :: "'a world_scheme \<Rightarrow> bool" where
  "spi_up w \<longleftrightarrow> (\<forall>h c. ret (wenv w h (SPI c)) = ESP_OK)"

lemma spi_up_after [simp]: "spi_up (after w c) = spi_up w"
  by (simp add: spi_up_def)

lemma spi_up_recycles: "spi_up w \<Longrightarrow> recycles w"
  by (simp add: spi_up_def recycles_def)

lemma spi_up_reply: "spi_up w \<Longrightarrow> ret (reply_to w (SPI c)) = ESP_OK"
  by (simp add: spi_up_def reply_to_def)

text \<open>Choosing the descriptor of the next transaction.\<close>

lemma next_descriptor:
  assumes "io_ok io" and "queue_size io > 0" and "recycles w"
  shows "\<exists>slot io1 w1 evs.
    (if num_trans_inflight io < queue_size io then Some (ESP_OK, num_trans_inflight io, io, w)
     else case busy io of
       [] \<Rightarrow> None
     | (slot, _) # rest \<Rightarrow>
         let (r, w) = do_call (SPI (Spi_get_trans_result (spi_dev io))) w
         in if ret r \<noteq> ESP_OK then Some (ret r, slot, io, w)
            else Some (ESP_OK, slot, io\<lparr>num_trans_inflight := num_trans_inflight io - 1, busy := rest\<rparr>, w)) =
    Some (ESP_OK, slot, io1, w1) \<and> log w1 = log w @ evs \<and> wenv w1 = wenv w \<and> only_log w w1 \<and> list_all quiet evs \<and> queued_trans evs = [] \<and>
    same_conf io io1 \<and>
    (\<forall>t. io_ok (io1\<lparr>num_trans_inflight := num_trans_inflight io1 + 1, busy := busy io1 @ [(slot, t)]\<rparr>))"
proof (cases "num_trans_inflight io < queue_size io")
  case True
  then show ?thesis
    using io_ok_push [OF assms(1) True]
    by (intro exI [of _ "num_trans_inflight io"] exI [of _ io] exI [of _ w] exI [of _ "[]"])
       simp
next
  case False
  let ?c = "SPI (Spi_get_trans_result (spi_dev io))"
  have "busy io \<noteq> []" using False assms(1,2) by (auto simp: io_ok_def)
  then obtain slot t0 rest where b: "busy io = (slot, t0) # rest" by (metis list.exhaust surj_pair)
  have ok: "ret (reply_to w ?c) = ESP_OK" using assms(3) by (simp add: recycles_def reply_to_def)
  show ?thesis
    using False b ok io_ok_reuse [OF assms(1) False b]
    by (intro exI [of _ slot] exI [of _ "io\<lparr>num_trans_inflight := num_trans_inflight io - 1, busy := rest\<rparr>"]
          exI [of _ "after w ?c"] exI [of _ "[(?c, reply_to w ?c)]"])
       (auto simp: do_call_eq)
qed

lemma tx_chunks_run:
  assumes "io_ok io" and "queue_size io > 0" and "spi_trans_max_bytes io > 0" and "spi_up w"
  shows "\<exists>io' w' evs. tx_chunks io color data w = Some (ESP_OK, io', w') \<and> io_ok io' \<and>
    same_conf io io' \<and> busy io' \<noteq> [] \<and>
    snd (last (busy io')) = last (queued_trans evs) \<and>
    log w' = log w @ evs \<and> wenv w' = wenv w \<and> only_log w w' \<and>
    queued_trans evs = map (\<lambda>(a, b, m). color_trans io a b m) (chunks (spi_trans_max_bytes io) color data) \<and>
    list_all (\<lambda>ev. quiet ev \<or> (\<exists>t. fst ev = SPI (Spi_queue_trans (spi_dev io) t) \<and> ret (snd ev) = ESP_OK)) evs"
  using assms
proof (induction "length data" arbitrary: io color data w rule: less_induct)
  case less
  have rec: "recycles w" using less.prems(4) by (rule spi_up_recycles)
  obtain slot io1 w1 evs1 where nd: "(if num_trans_inflight io < queue_size io then Some (ESP_OK, num_trans_inflight io, io, w)
     else case busy io of
       [] \<Rightarrow> None
     | (slot, _) # rest \<Rightarrow>
         let (r, w) = do_call (SPI (Spi_get_trans_result (spi_dev io))) w
         in if ret r \<noteq> ESP_OK then Some (ret r, slot, io, w)
            else Some (ESP_OK, slot, io\<lparr>num_trans_inflight := num_trans_inflight io - 1, busy := rest\<rparr>, w)) =
      Some (ESP_OK, slot, io1, w1)"
    and l1: "log w1 = log w @ evs1" "wenv w1 = wenv w" "list_all quiet evs1" "queued_trans evs1 = []" "only_log w w1"
    and io1: "same_conf io io1"
    and ok1: "\<And>t. io_ok (io1\<lparr>num_trans_inflight := num_trans_inflight io1 + 1, busy := busy io1 @ [(slot, t)]\<rparr>)"
    using next_descriptor [OF less.prems(1,2) rec] by blast
  define m where "m = spi_trans_max_bytes io"
  have m: "spi_trans_max_bytes io1 = m" "spi_dev io1 = spi_dev io" "queue_size io1 = queue_size io"
    using same_conf_sel [OF io1] by (auto simp: m_def)
  have ct: "color_trans io1 = color_trans io" using same_conf_sel [OF io1] by (auto simp: color_trans_def fun_eq_iff)
  define lft where "lft = (length data > m)"
  define t where "t = color_trans io color (if lft then take m data else data) lft"
  define io2 where "io2 = io1\<lparr>num_trans_inflight := num_trans_inflight io1 + 1, busy := busy io1 @ [(slot, t)]\<rparr>"
  define c where "c = SPI (Spi_queue_trans (spi_dev io) t)"
  define w2 where "w2 = after w1 c"
  have up1: "spi_up w1" using less.prems(4) l1 by (simp add: spi_up_def)
  have step: "tx_chunks io color data w =
      (if lft then tx_chunks io2 (color + m) (drop m data) w2 else Some (ESP_OK, io2, w2))"
    unfolding tx_chunks.simps [of io color data w] nd
    using spi_up_reply [OF up1] less.prems(3)
    by (simp add: do_call_eq m ct lft_def t_def c_def w2_def io2_def Let_def)
  have evs2: "log w2 = log w @ (evs1 @ [(c, reply_to w1 c)])" "wenv w2 = wenv w" "only_log w w2"
    using l1 by (simp_all add: w2_def)
  have io2: "same_conf io io2" "busy io2 \<noteq> []" "snd (last (busy io2)) = t" "io_ok io2"
    using io1 ok1 by (auto simp: io2_def)
  have qm: "list_all (\<lambda>ev. quiet ev \<or> (\<exists>t. fst ev = SPI (Spi_queue_trans (spi_dev io) t) \<and> ret (snd ev) = ESP_OK)) (evs1 @ [(c, reply_to w1 c)])"
    using l1(3) spi_up_reply [OF up1] by (auto simp: list_all_iff c_def)
  show ?case
  proof (cases lft)
    case False
    then have "chunks m color data = [(color, data, False)]" by (simp add: chunks.simps lft_def)
    with False step evs2 io2 qm l1(4) show ?thesis
      by (intro exI [of _ io2] exI [of _ w2] exI [of _ "evs1 @ [(c, reply_to w1 c)]"])
         (simp add: c_def t_def m_def [symmetric])
  next
    case True
    have ch: "chunks m color data = (color, take m data, True) # chunks m (color + m) (drop m data)"
      using True less.prems(3) by (subst chunks.simps) (simp add: lft_def m_def)
    have dev2: "spi_dev io2 = spi_dev io" "spi_trans_max_bytes io2 = m" "queue_size io2 = queue_size io" "color_trans io2 = color_trans io"
      using same_conf_sel [OF io2(1)] by (simp_all add: color_trans_def fun_eq_iff m_def)
    have "length (drop m data) < length data" using True less.prems(3) by (simp add: lft_def m_def)
    moreover have "spi_up w2" using up1 by (simp add: w2_def)
    ultimately obtain io' w' evs where ih: "tx_chunks io2 (color + m) (drop m data) w2 = Some (ESP_OK, io', w')" "io_ok io'"
      "same_conf io2 io'" "busy io' \<noteq> []" "snd (last (busy io')) = last (queued_trans evs)"
      "log w' = log w2 @ evs" "wenv w' = wenv w2 \<and> only_log w2 w'"
      "queued_trans evs = map (\<lambda>(a, b, m). color_trans io a b m) (chunks m (color + m) (drop m data))"
      "list_all (\<lambda>ev. quiet ev \<or> (\<exists>t. fst ev = SPI (Spi_queue_trans (spi_dev io) t) \<and> ret (snd ev) = ESP_OK)) evs"
      using less.hyps [of "drop m data" io2 w2 "color + m"] io2(4) less.prems(2,3) dev2 by (auto simp: m_def)
    have ne: "queued_trans evs \<noteq> []" unfolding ih(8) by (subst chunks.simps) simp
    let ?evs = "evs1 @ (c, reply_to w1 c) # evs"
    have "queued_trans ?evs = t # queued_trans evs" using l1(4) by (simp add: c_def)
    moreover have "same_conf io io'" using ih(3) io2(1) same_conf_trans by blast
    moreover have "only_log w w'" using ih(7) evs2(3) only_log_trans by blast
    ultimately show ?thesis
      using ih evs2 qm True step ch ne
      by (intro exI [of _ io'] exI [of _ w'] exI [of _ ?evs]) (simp add: t_def m_def [symmetric])
  qed
qed

lemma tx_chunks_io_wf:
  assumes "io_ok io" and "queue_size io > 0" and "spi_trans_max_bytes io > 0" and "recycles w"
  shows "\<exists>e io' w'. tx_chunks io color data w = Some (e, io', w') \<and> io_wf io' \<and> same_conf io io' \<and> recycles w'"
  using assms
proof (induction "length data" arbitrary: io color data w rule: less_induct)
  case less
  obtain slot io1 w1 evs1 where nd: "(if num_trans_inflight io < queue_size io then Some (ESP_OK, num_trans_inflight io, io, w)
     else case busy io of
       [] \<Rightarrow> None
     | (slot, _) # rest \<Rightarrow>
         let (r, w) = do_call (SPI (Spi_get_trans_result (spi_dev io))) w
         in if ret r \<noteq> ESP_OK then Some (ret r, slot, io, w)
            else Some (ESP_OK, slot, io\<lparr>num_trans_inflight := num_trans_inflight io - 1, busy := rest\<rparr>, w)) =
      Some (ESP_OK, slot, io1, w1)"
    and l1: "log w1 = log w @ evs1" "wenv w1 = wenv w"
    and io1: "same_conf io io1"
    and ok1: "\<And>t. io_ok (io1\<lparr>num_trans_inflight := num_trans_inflight io1 + 1, busy := busy io1 @ [(slot, t)]\<rparr>)"
    using next_descriptor [OF less.prems(1,2,4)] by blast
  define m where "m = spi_trans_max_bytes io1"
  define lft where "lft = (length data > m)"
  define t where "t = color_trans io1 color (if lft then take m data else data) lft"
  define io2 where "io2 = io1\<lparr>num_trans_inflight := num_trans_inflight io1 + 1, busy := busy io1 @ [(slot, t)]\<rparr>"
  define c where "c = SPI (Spi_queue_trans (spi_dev io1) t)"
  have step: "tx_chunks io color data w =
      (if ret (reply_to w1 c) \<noteq> ESP_OK then Some (ret (reply_to w1 c), io1, after w1 c)
       else if lft then tx_chunks io2 (color + m) (drop m data) (after w1 c) else Some (ESP_OK, io2, after w1 c))"
    unfolding tx_chunks.simps [of io color data w] nd
    using same_conf_sel [OF io1] less.prems(3)
    by (simp add: do_call_eq lft_def t_def c_def io2_def m_def Let_def)
  have io1_ok: "io_wf io1"
  proof (cases "num_trans_inflight io < queue_size io")
    case True
    with nd less.prems(1) show ?thesis by (simp add: io_ok_wf)
  next
    case False
    with nd less.prems(1,2) show ?thesis
      by (auto simp: io_ok_def io_wf_def do_call_eq Let_def image_subset_iff split: list.splits if_splits) fastforce?
  qed
  have io2: "same_conf io io2" "io_ok io2" using io1 ok1 by (simp_all add: io2_def)
  have rec: "recycles (after w1 c)" using less.prems(4) l1 by (simp add: recycles_def)
  show ?case
  proof (cases "ret (reply_to w1 c) = ESP_OK \<and> lft")
    case False
    with step io1 io1_ok io2 rec show ?thesis by (auto simp: io_ok_wf)
  next
    case True
    have "m < length data" and "0 < m" using True less.prems(3) same_conf_sel [OF io1] by (simp_all add: lft_def m_def)
    then have "length (drop m data) < length data" by simp
    then obtain e io' w' where "tx_chunks io2 (color + m) (drop m data) (after w1 c) = Some (e, io', w')"
        "io_wf io'" "same_conf io2 io'" "recycles w'"
      using less.hyps [of "drop m data" io2 "after w1 c" "color + m"] io2(2) less.prems(2,3) rec same_conf_sel [OF io2(1)] by auto
    with True step same_conf_trans [OF io2(1)] show ?thesis by auto
  qed
qed

section \<open>What goes over the wire\<close>

text \<open>
  The bytes of the successful SPI transactions, each with the level of the D/C line, in the order in
  which the driver is given them.  Polling transfers are made when no transaction is pending and
  queued ones are sent in order, so this is the order on the wire.
\<close>

fun spi_bytes :: "event \<Rightarrow> (bool \<times> u8) list" where
  "spi_bytes (SPI (Spi_polling_transmit _ t), r) = (if ret r = ESP_OK then map (Pair (tr_dc t)) (tr_tx t) else [])"
| "spi_bytes (SPI (Spi_queue_trans _ t), r) = (if ret r = ESP_OK then map (Pair (tr_dc t)) (tr_tx t) else [])"
| "spi_bytes _ = []"

definition wire :: "event list \<Rightarrow> (bool \<times> u8) list" where
  "wire evs = concat (map spi_bytes evs)"

lemma wire_simps [simp]:
  "wire [] = []" "wire (ev # evs) = spi_bytes ev @ wire evs" "wire (evs @ evs') = wire evs @ wire evs'"
  by (simp_all add: wire_def)

lemma spi_bytes_quiet [simp]: "quiet ev \<Longrightarrow> spi_bytes ev = []"
  by (cases ev rule: quiet.cases) auto

lemma wire_quiet [simp]: "list_all quiet evs \<Longrightarrow> wire evs = []"
  by (induction evs) auto

text \<open>An object for 8-bit commands and parameters, as the display uses.\<close>

definition byte_io :: "esp_lcd_panel_io_spi_t \<Rightarrow> bool" where
  "byte_io io \<longleftrightarrow> lcd_cmd_bits io = 8 \<and> lcd_param_bits io = 8"

lemma cmd_trans_byte:
  "byte_io io \<Longrightarrow> tr_tx (cmd_trans io c keep) = [word_of_int c]"
  by (simp add: byte_io_def cmd_trans_def spi_lcd_prepare_cmd_buffer_def int_bytes_def)

lemma param_byte: "byte_io io \<Longrightarrow> spi_lcd_prepare_param_buffer io p = Some p"
  by (simp add: byte_io_def spi_lcd_prepare_param_buffer_def)

lemma tx_param_run:
  assumes "spi_up w" and "num_trans_inflight io = length (busy io)" and "byte_io io" and "0 \<le> c"
  shows "\<exists>w' evs. panel_io_spi_tx_param io c param w = Some (ESP_OK, io\<lparr>num_trans_inflight := 0, busy := []\<rparr>, w') \<and>
    log w' = log w @ evs \<and> wenv w' = wenv w \<and> only_log w w' \<and>
    wire evs = (dc_cmd_level io, word_of_int c) # map (Pair (dc_param_level io)) param"
proof -
  let ?acq = "SPI (Spi_acquire_bus (spi_dev io))" and ?rel = "SPI (Spi_release_bus (spi_dev io))"
  let ?io = "io\<lparr>num_trans_inflight := 0, busy := []\<rparr>"
  let ?cmd = "SPI (Spi_polling_transmit (spi_dev io) (cmd_trans ?io c (param \<noteq> [])))"
  let ?par = "SPI (Spi_polling_transmit (spi_dev io) (param_trans ?io param))"
  have rec: "recycles (after w ?acq)" using assms(1) by (simp add: spi_up_recycles)
  obtain w1 evs1 where r: "recycle_all (num_trans_inflight io) io (after w ?acq) = (ESP_OK, ?io, w1)"
    "log w1 = log (after w ?acq) @ evs1" "wenv w1 = wenv (after w ?acq)" "list_all quiet evs1"
    "only_log (after w ?acq) w1"
    using recycle_all_all [OF rec assms(2)] by blast
  have up: "spi_up w1" using r(3) assms(1) by (simp add: spi_up_def)
  have b: "byte_io ?io" using assms(3) by (simp add: byte_io_def)
  define w2 where "w2 = (if param = [] then after w1 ?cmd else after (after w1 ?cmd) ?par)"
  have "panel_io_spi_tx_param io c param w = Some (ESP_OK, ?io, after w2 ?rel)"
    using r(1) assms(1,4) up
    by (simp add: panel_io_spi_tx_param_def do_call_eq spi_up_reply param_byte [OF b] release_bus_def io_simps w2_def Let_def)
  moreover obtain evs2 where "log w2 = log w1 @ evs2"
    "wire evs2 = (dc_cmd_level io, word_of_int c) # map (Pair (dc_param_level io)) param"
    by (cases "param = []")
       (simp_all add: w2_def spi_up_reply [OF up] spi_up_reply [of "after w1 _"] up cmd_trans_byte [OF b],
        simp_all add: cmd_trans_def param_trans_def)
  moreover have "wenv w2 = wenv w" using r(3) by (simp add: w2_def)
  moreover have "only_log w w2" using only_log_trans [of w "after w ?acq" w1] r(5) by (simp add: w2_def)
  ultimately show ?thesis
    using r(2,4) by (intro exI [of _ "after w2 ?rel"] exI [of _ "((?acq, reply_to w ?acq) # evs1) @ evs2 @ [(?rel, reply_to w2 ?rel)]"]) simp
qed

lemma chunks_data: "concat (map (\<lambda>(a, b, m). b) (chunks m color data)) = data"
  by (induction m color data rule: chunks.induct) (subst chunks.simps, simp)

lemma wire_queued:
  assumes "list_all (\<lambda>ev. quiet ev \<or> (\<exists>t. fst ev = SPI (Spi_queue_trans dev t) \<and> ret (snd ev) = ESP_OK)) evs"
  shows "wire evs = concat (map (\<lambda>t. map (Pair (tr_dc t)) (tr_tx t)) (queued_trans evs))"
  using assms
proof (induction evs)
  case (Cons ev evs)
  then show ?case by (cases ev rule: quiet.cases) auto
qed simp

lemma tx_color_run:
  assumes "spi_up w" and "num_trans_inflight io = length (busy io)" and "0 \<le> c"
    and "queue_size io > 0" and "spi_trans_max_bytes io > 0"
  shows "\<exists>io' w' evs. panel_io_spi_tx_color io c color data w = Some (ESP_OK, io', w') \<and> io_ok io' \<and> same_conf io io' \<and>
    busy io' \<noteq> [] \<and> snd (last (busy io')) = last (queued_trans evs) \<and>
    log w' = log w @ evs \<and> wenv w' = wenv w \<and> only_log w w' \<and>
    queued_trans evs = map (\<lambda>(a, b, m). color_trans io a b m) (chunks (spi_trans_max_bytes io) color data) \<and>
    wire evs = map (Pair (dc_cmd_level io)) (tr_tx (cmd_trans io c (data \<noteq> []))) @ map (Pair (dc_data_level io)) data"
proof -
  let ?acq = "SPI (Spi_acquire_bus (spi_dev io))" and ?rel = "SPI (Spi_release_bus (spi_dev io))"
  let ?io = "io\<lparr>num_trans_inflight := 0, busy := []\<rparr>"
  let ?cmd = "SPI (Spi_polling_transmit (spi_dev io) (cmd_trans ?io c (data \<noteq> [])))"
  have rec: "recycles (after w ?acq)" using assms(1) by (simp add: spi_up_recycles)
  obtain w1 evs1 where r: "recycle_all (num_trans_inflight io) io (after w ?acq) = (ESP_OK, ?io, w1)"
    "log w1 = log (after w ?acq) @ evs1" "wenv w1 = wenv (after w ?acq)" "list_all quiet evs1"
    "only_log (after w ?acq) w1"
    using recycle_all_all [OF rec assms(2)] by blast
  have up: "spi_up w1" using r(3) assms(1) by (simp add: spi_up_def)
  have q1: "queued_trans evs1 = []"
    using r(4) by (induction evs1) (auto elim!: quiet.elims)
  have "spi_up (after w1 ?cmd)" using up by simp
  then obtain io' w2 evs2 where t: "tx_chunks ?io color data (after w1 ?cmd) = Some (ESP_OK, io', w2)" "io_ok io'"
    "same_conf ?io io'" "busy io' \<noteq> []" "snd (last (busy io')) = last (queued_trans evs2)"
    "log w2 = log (after w1 ?cmd) @ evs2" "wenv w2 = wenv (after w1 ?cmd) \<and> only_log (after w1 ?cmd) w2"
    "queued_trans evs2 = map (\<lambda>(a, b, m). color_trans ?io a b m) (chunks (spi_trans_max_bytes io) color data)"
    "list_all (\<lambda>ev. quiet ev \<or> (\<exists>t. fst ev = SPI (Spi_queue_trans (spi_dev io) t) \<and> ret (snd ev) = ESP_OK)) evs2"
    using tx_chunks_run [of ?io "after w1 ?cmd" color data] io_ok_emptied [of io] assms(4,5) by auto
  have conf: "same_conf io io'" by (rule same_conf_trans [OF _ t(3)]) simp
  have ct: "color_trans ?io = color_trans io" and cm: "cmd_trans ?io = cmd_trans io"
    by (simp_all add: color_trans_def cmd_trans_def spi_lcd_prepare_cmd_buffer_def fun_eq_iff)
  have run: "panel_io_spi_tx_color io c color data w = Some (ESP_OK, io', after w2 ?rel)"
    using r(1) assms(1,3) up t(1) same_conf_sel [OF conf]
    by (simp add: panel_io_spi_tx_color_def do_call_eq spi_up_reply release_bus_def io_simps Let_def)
  have "wire evs2 = map (Pair (dc_data_level io)) (concat (map (\<lambda>(a, b, m). b) (chunks (spi_trans_max_bytes io) color data)))"
    unfolding wire_queued [OF t(9)] t(8) ct
    by (simp add: map_concat comp_def case_prod_unfold color_trans_def)
  then have wire2: "wire evs2 = map (Pair (dc_data_level io)) data" by (simp add: chunks_data)
  let ?evs = "(?acq, reply_to w ?acq) # evs1 @ (?cmd, reply_to w1 ?cmd) # evs2 @ [(?rel, reply_to w2 ?rel)]"
  define evs where "evs = ?evs"
  have "log (after w2 ?rel) = log w @ evs" using r(2) t(6) by (simp add: evs_def)
  moreover have qt: "queued_trans evs = queued_trans evs2" unfolding evs_def using q1 by simp
  moreover have "wire evs = map (Pair (dc_cmd_level io)) (tr_tx (cmd_trans io c (data \<noteq> []))) @ map (Pair (dc_data_level io)) data"
    unfolding evs_def using r(4) wire2 spi_up_reply [OF up] cm by (simp add: cmd_trans_def)
  moreover have "wenv (after w2 ?rel) = wenv w" using t(7) r(3) by simp
  moreover have "snd (last (busy io')) = last (queued_trans evs)" unfolding qt by (rule t(5))
  moreover have "only_log w (after w2 ?rel)"
    using only_log_trans [of w "after w ?acq" w1] r(5) only_log_trans [of w "after w1 ?cmd" w2] t(7) by simp
  moreover have "queued_trans evs = map (\<lambda>(a, b, m). color_trans io a b m) (chunks (spi_trans_max_bytes io) color data)"
    unfolding qt t(8) ct ..
  ultimately show ?thesis using run t(2,4) conf by blast
qed

section \<open>Properties\<close>

text \<open>
  C20. The SPI transaction pool is used safely.  Sending a command with its parameters or with color
  data keeps the bookkeeping consistent on every path, errors included (the number in flight is
  what the code counts, within the pool, and no descriptor is in flight twice), provided only that
  waiting for a pending transaction succeeds.  Both operations return.
\<close>

theorem panel_io_spi_pool:
  assumes "io_wf io" and "0 < queue_size io" and "0 < spi_trans_max_bytes io" and "8 \<le> lcd_param_bits io"
    and "0 \<le> c" and "recycles w"
  shows "(\<exists>e io' w'. panel_io_spi_tx_color io c color data w = Some (e, io', w') \<and> io_wf io') \<and>
         (\<exists>e io' w'. panel_io_spi_tx_param io c param w = Some (e, io', w') \<and> io_wf io')"
proof -
  let ?acq = "SPI (Spi_acquire_bus (spi_dev io))"
  let ?io = "io\<lparr>num_trans_inflight := 0, busy := []\<rparr>"
  have n: "num_trans_inflight io = length (busy io)" using assms(1) by (simp add: io_wf_def)
  have rec: "recycles (after w ?acq)" using assms(6) by simp
  obtain w1 evs1 where r: "recycle_all (num_trans_inflight io) io (after w ?acq) = (ESP_OK, ?io, w1)"
    "wenv w1 = wenv (after w ?acq)"
    using recycle_all_all [OF rec n] by blast
  have "recycles w1" using r(2) assms(6) by (simp add: recycles_def)
  moreover have wf: "io_wf ?io" "io_ok ?io" by (simp_all add: io_ok_wf io_ok_emptied)
  ultimately obtain e io' w2 where t: "tx_chunks ?io color data (after w1 (SPI (Spi_polling_transmit (spi_dev io) (cmd_trans ?io c (data \<noteq> []))))) = Some (e, io', w2)"
      "io_wf io'"
    using tx_chunks_io_wf [of ?io "after w1 (SPI (Spi_polling_transmit (spi_dev io) (cmd_trans ?io c (data \<noteq> []))))" color data] assms(2,3)
    by auto
  have c1: "\<exists>e io' w'. panel_io_spi_tx_color io c color data w = Some (e, io', w') \<and> io_wf io'"
    using r(1) t wf assms(1,5) by (simp add: panel_io_spi_tx_color_def do_call_eq release_bus_def Let_def)
  obtain b where "spi_lcd_prepare_param_buffer ?io param = Some b"
    using assms(4) by (cases "lcd_param_bits io > 8") (auto simp: spi_lcd_prepare_param_buffer_def Let_def div_eq_0_iff)
  then have "\<exists>e io' w'. panel_io_spi_tx_param io c param w = Some (e, io', w') \<and> io_wf io'"
    using r(1) wf assms(1,5) by (simp add: panel_io_spi_tx_param_def do_call_eq release_bus_def Let_def)
  with c1 show ?thesis by blast
qed

text \<open>The board's SPI panel IO, with a bus limit of 4092 bytes, and an environment that serves every call.\<close>

definition spi_demo_io :: esp_lcd_panel_io_spi_t where
  "spi_demo_io = \<lparr>spi_dev = 3, spi_trans_max_bytes = 4092, dc_gpio_num = 39, on_color_trans_done = 0, user_ctx = 0,
     queue_size = 10, num_trans_inflight = 0, lcd_cmd_bits = 8, lcd_param_bits = 8, dc_cmd_level = False,
     dc_data_level = True, dc_param_level = True, octal_mode = False, quad_mode = False, busy = []\<rparr>"

definition spi_demo :: world where
  "spi_demo = \<lparr>wenv = \<lambda>_ _. answer ESP_OK, log = [], i2c_obj = Map.empty\<rparr>"

lemma spi_demo_up: "spi_up spi_demo" "recycles spi_demo"
  by (simp_all add: spi_up_def recycles_def spi_demo_def)

theorem panel_io_spi_pool_witness:
  "\<exists>e io' w'. panel_io_spi_tx_color spi_demo_io 0x2C 64 (replicate 9000 0) spi_demo = Some (e, io', w') \<and> io_wf io'"
  using panel_io_spi_pool [where io = spi_demo_io and c = "0x2C" and w = spi_demo] spi_demo_up
  by (auto simp: spi_demo_io_def io_wf_def)

lemma chunks_more:
  "m < length data \<Longrightarrow> 0 < m \<Longrightarrow> chunks m color data = (color, take m data, True) # chunks m (color + m) (drop m data)"
  by (subst chunks.simps, rule if_P) simp

lemma chunks_last: "\<not> (m < length data \<and> 0 < m) \<Longrightarrow> chunks m color data = [(color, data, False)]"
  by (subst chunks.simps, rule if_not_P) simp

lemma chunks_bound: "0 < m \<Longrightarrow> \<forall>(a, b, l) \<in> set (chunks m color data). length b \<le> m"
proof (induction m color data rule: chunks.induct)
  case (1 m color data)
  show ?case
  proof (cases "m < length data \<and> 0 < m")
    case True
    then have eq: "chunks m color data = (color, take m data, True) # chunks m (color + m) (drop m data)"
      by (simp only: chunks_more)
    have "\<forall>(a, b, l) \<in> set (chunks m (color + m) (drop m data)). length b \<le> m"
      by (rule "1.IH") (use True in auto)
    then show ?thesis unfolding eq by auto
  next
    case False
    then have eq: "chunks m color data = [(color, data, False)]" by (rule chunks_last)
    show ?thesis unfolding eq using False "1.prems" by auto
  qed
qed

lemma chunks_nonempty: "chunks m color data \<noteq> []"
  using chunks_more [of m data color] chunks_last [of m data color] by (cases "m < length data \<and> 0 < m") auto

lemma chunks_flags: "map (\<lambda>(a, b, l). l) (chunks m color data) = replicate (length (chunks m color data) - 1) True @ [False]"
proof (induction m color data rule: chunks.induct)
  case (1 m color data)
  show ?case
  proof (cases "m < length data \<and> 0 < m")
    case True
    let ?rest = "chunks m (color + m) (drop m data)"
    have eq: "chunks m color data = (color, take m data, True) # ?rest"
      using True by (simp only: chunks_more)
    obtain k where "length ?rest = Suc k" using chunks_nonempty by (metis length_0_conv not0_implies_Suc)
    moreover have "map (\<lambda>(a, b, l). l) ?rest = replicate (length ?rest - 1) True @ [False]"
      by (rule "1.IH") (use True in auto)
    ultimately show ?thesis unfolding eq by simp
  next
    case False
    then have eq: "chunks m color data = [(color, data, False)]" by (rule chunks_last)
    show ?thesis unfolding eq by simp
  qed
qed

text \<open>
  C22. Color data is transmitted whole: with every SPI call succeeding, the wire carries the command
  with the D/C line at command level and then exactly the data at data level, in order; it is cut
  into transactions none of which exceeds the bus limit, and only the last one is marked to invoke
  the transfer-done callback.
\<close>

theorem panel_io_spi_tx_color_transmits:
  assumes "spi_up w" and "io_wf io" and "byte_io io" and "0 \<le> c" and "0 < queue_size io" and "0 < spi_trans_max_bytes io"
  shows "\<exists>io' w' evs. panel_io_spi_tx_color io c color data w = Some (ESP_OK, io', w') \<and> log w' = log w @ evs \<and>
    wire evs = (dc_cmd_level io, word_of_int c) # map (Pair (dc_data_level io)) data \<and>
    list_all (\<lambda>t. tr_length t \<le> 8 * spi_trans_max_bytes io) (queued_trans evs) \<and>
    map tr_done_cb (queued_trans evs) = replicate (length (queued_trans evs) - 1) False @ [True]"
proof -
  have n: "num_trans_inflight io = length (busy io)" using assms(2) by (simp add: io_wf_def)
  obtain io' w' evs where run: "panel_io_spi_tx_color io c color data w = Some (ESP_OK, io', w')" "log w' = log w @ evs"
    and q: "queued_trans evs = map (\<lambda>(a, b, m). color_trans io a b m) (chunks (spi_trans_max_bytes io) color data)"
    and wire: "wire evs = map (Pair (dc_cmd_level io)) (tr_tx (cmd_trans io c (data \<noteq> []))) @ map (Pair (dc_data_level io)) data"
    using tx_color_run [OF assms(1) n assms(4,5,6), of color data] by blast
  have "list_all (\<lambda>t. tr_length t \<le> 8 * spi_trans_max_bytes io) (queued_trans evs)"
    unfolding q using chunks_bound [OF assms(6)] by (fastforce simp: list_all_iff color_trans_def)
  moreover have "map tr_done_cb (queued_trans evs) =
      map Not (map (\<lambda>(a, b, l). l) (chunks (spi_trans_max_bytes io) color data))"
    unfolding q by (simp add: case_prod_unfold color_trans_def)
  then have "map tr_done_cb (queued_trans evs) = replicate (length (queued_trans evs) - 1) False @ [True]"
    unfolding chunks_flags by (simp add: q)
  ultimately show ?thesis using run wire cmd_trans_byte [OF assms(3)] by auto
qed

theorem panel_io_spi_tx_color_transmits_witness:
  "\<exists>io' w' evs. panel_io_spi_tx_color spi_demo_io 0x2C 64 [1, 2] spi_demo = Some (ESP_OK, io', w') \<and> log w' = evs \<and>
     wire evs = [(False, 0x2C), (True, 1), (True, 2)]"
proof -
  have "io_wf spi_demo_io" "byte_io spi_demo_io" by (simp_all add: spi_demo_io_def io_wf_def byte_io_def)
  from panel_io_spi_tx_color_transmits [OF spi_demo_up(1) this, where c = "0x2C" and color = "64" and data = "[1, 2]"] show ?thesis
    by (auto simp: spi_demo_io_def spi_demo_def)
qed

end
