(* ===== verification/St7789.thy ===== *)
theory St7789
  imports Panel_Io
begin

text \<open>
  The ST7789 panel driver of esp-idf/components/esp_lcd (src/esp_lcd_panel_st7789.c) behind the
  generic panel operations (src/esp_lcd_panel_ops.c), and a specification of the controller it
  drives: a machine that reads the bytes on the wire and keeps the frame memory.
\<close>

section \<open>Panels\<close>

record st7789_panel_t =
  panel_io_h :: ptr
  reset_gpio_num :: int
  reset_level :: bool
  x_gap :: int
  y_gap :: int
  fb_bits_per_pixel :: nat
  madctl_val :: u8
  colmod_cal :: u8
  ramctl_val_1 :: u8
  ramctl_val_2 :: u8

record panel_world = io_world +
  panels :: "ptr \<Rightarrow> st7789_panel_t option"

lemma panels_after [simp]: "panels (after w c) = panels w"
  by (simp add: after_def)

record esp_lcd_panel_dev_config_t =
  dev_reset_gpio_num :: int
  dev_rgb_endian :: nat          \<comment> \<open>0 RGB, 1 BGR\<close>
  dev_data_endian :: nat         \<comment> \<open>0 big, 1 little\<close>
  dev_bits_per_pixel :: nat
  dev_reset_active_high :: bool

definition LCD_CMD_SWRESET :: int where "LCD_CMD_SWRESET = 0x01"
definition LCD_CMD_SLPOUT :: int where "LCD_CMD_SLPOUT = 0x11"
definition LCD_CMD_INVOFF :: int where "LCD_CMD_INVOFF = 0x20"
definition LCD_CMD_INVON :: int where "LCD_CMD_INVON = 0x21"
definition LCD_CMD_DISPOFF :: int where "LCD_CMD_DISPOFF = 0x28"
definition LCD_CMD_DISPON :: int where "LCD_CMD_DISPON = 0x29"
definition LCD_CMD_CASET :: int where "LCD_CMD_CASET = 0x2A"
definition LCD_CMD_RASET :: int where "LCD_CMD_RASET = 0x2B"
definition LCD_CMD_RAMWR :: int where "LCD_CMD_RAMWR = 0x2C"
definition LCD_CMD_MADCTL :: int where "LCD_CMD_MADCTL = 0x36"
definition LCD_CMD_COLMOD :: int where "LCD_CMD_COLMOD = 0x3A"
definition ST7789_CMD_RAMCTRL :: int where "ST7789_CMD_RAMCTRL = 0xb0"
definition LCD_CMD_BGR_BIT :: u8 where "LCD_CMD_BGR_BIT = push_bit 3 1"
definition LCD_CMD_MV_BIT :: u8 where "LCD_CMD_MV_BIT = push_bit 5 1"
definition LCD_CMD_MX_BIT :: u8 where "LCD_CMD_MX_BIT = push_bit 6 1"
definition LCD_CMD_MY_BIT :: u8 where "LCD_CMD_MY_BIT = push_bit 7 1"
definition ST7789_DATA_LITTLE_ENDIAN_BIT :: u8 where "ST7789_DATA_LITTLE_ENDIAN_BIT = push_bit 3 1"

lemmas lcd_consts = LCD_CMD_SWRESET_def LCD_CMD_SLPOUT_def LCD_CMD_INVOFF_def LCD_CMD_INVON_def
  LCD_CMD_DISPOFF_def LCD_CMD_DISPON_def LCD_CMD_CASET_def LCD_CMD_RASET_def LCD_CMD_RAMWR_def
  LCD_CMD_MADCTL_def LCD_CMD_COLMOD_def ST7789_CMD_RAMCTRL_def

section \<open>Creation and deletion\<close>

definition new_panel_st7789_err :: "esp_lcd_panel_dev_config_t \<Rightarrow> ptr \<Rightarrow> esp_err \<Rightarrow> 'a world_scheme \<Rightarrow> esp_err \<times> ptr \<times> 'a world_scheme" where
  "new_panel_st7789_err cfg p e w =
     (let w = (if dev_reset_gpio_num cfg \<ge> 0 then call_void (GPIO (Gpio_reset_pin (dev_reset_gpio_num cfg))) w else w)
      in (e, 0, call_void (MEM (Free p)) w))"

definition esp_lcd_new_panel_st7789 ::
  "ptr \<Rightarrow> esp_lcd_panel_dev_config_t \<Rightarrow> 'a panel_world_scheme \<Rightarrow> esp_err \<times> ptr \<times> 'a panel_world_scheme" where
  "esp_lcd_new_panel_st7789 io cfg w =
    (if io = 0 then (ESP_ERR_INVALID_ARG, 0, w)
     else let (r, w) = do_call (MEM (Calloc 1 68)) w; p = handle (ret r)
     in if p = 0 then (ESP_ERR_NO_MEM, 0, w)
     else let (e, w) = (if dev_reset_gpio_num cfg \<ge> 0
                        then let (r, w) = do_call (GPIO (Gpio_config (2 ^ nat (dev_reset_gpio_num cfg)) 2 0)) w in (ret r, w)
                        else (ESP_OK, w))
     in if e \<noteq> ESP_OK then new_panel_st7789_err cfg p e w
     else if dev_rgb_endian cfg \<noteq> 0 \<and> dev_rgb_endian cfg \<noteq> 1 then new_panel_st7789_err cfg p ESP_ERR_NOT_SUPPORTED w
     else if dev_bits_per_pixel cfg \<noteq> 16 \<and> dev_bits_per_pixel cfg \<noteq> 18 then new_panel_st7789_err cfg p ESP_ERR_NOT_SUPPORTED w
     else (ESP_OK, p, w\<lparr>panels := (panels w)(p \<mapsto>
            \<lparr>panel_io_h = io, reset_gpio_num = dev_reset_gpio_num cfg, reset_level = dev_reset_active_high cfg,
             x_gap = 0, y_gap = 0,
             fb_bits_per_pixel = (if dev_bits_per_pixel cfg = 16 then 16 else 24),
             madctl_val = (if dev_rgb_endian cfg = 0 then 0 else 0 OR LCD_CMD_BGR_BIT),
             colmod_cal = (if dev_bits_per_pixel cfg = 16 then 0x55 else 0x66),
             ramctl_val_1 = 0x00,
             ramctl_val_2 = (if dev_data_endian cfg = 1 then 0xf0 OR ST7789_DATA_LITTLE_ENDIAN_BIT else 0xf0)\<rparr>)\<rparr>))"

text \<open>The operations; \<open>p\<close> is the panel's address and \<open>pn\<close> its contents.  Results of the IO layer are ignored.\<close>

definition panel_st7789_del :: "ptr \<Rightarrow> st7789_panel_t \<Rightarrow> 'a panel_world_scheme \<Rightarrow> esp_err \<times> 'a panel_world_scheme" where
  "panel_st7789_del p pn w =
    (let w = (if reset_gpio_num pn \<ge> 0 then call_void (GPIO (Gpio_reset_pin (reset_gpio_num pn))) w else w);
         w = call_void (MEM (Free p)) w
     in (ESP_OK, w\<lparr>panels := (panels w)(p := None)\<rparr>))"

definition tx_param :: "st7789_panel_t \<Rightarrow> int \<Rightarrow> u8 list \<Rightarrow> 'a io_world_scheme \<Rightarrow> 'a io_world_scheme option" where
  "tx_param pn cmd bytes w =
     do { (_, w) \<leftarrow> esp_lcd_panel_io_tx_param (panel_io_h pn) cmd (if bytes = [] then None else Some bytes) w; Some w }"

definition panel_st7789_reset :: "st7789_panel_t \<Rightarrow> 'a io_world_scheme \<Rightarrow> (esp_err \<times> 'a io_world_scheme) option" where
  "panel_st7789_reset pn w =
    (if reset_gpio_num pn \<ge> 0
     then let w = call_void (GPIO (Gpio_set_level (reset_gpio_num pn) (if reset_level pn then 1 else 0))) w;
              w = call_void (OS (Task_delay (pdMS_TO_TICKS 10))) w;
              w = call_void (GPIO (Gpio_set_level (reset_gpio_num pn) (if reset_level pn then 0 else 1))) w;
              w = call_void (OS (Task_delay (pdMS_TO_TICKS 10))) w
          in Some (ESP_OK, w)
     else do {
       w \<leftarrow> tx_param pn LCD_CMD_SWRESET [] w;
       Some (ESP_OK, call_void (OS (Task_delay (pdMS_TO_TICKS 20))) w) })"

definition panel_st7789_init :: "st7789_panel_t \<Rightarrow> 'a io_world_scheme \<Rightarrow> (esp_err \<times> 'a io_world_scheme) option" where
  "panel_st7789_init pn w = do {
     w \<leftarrow> tx_param pn LCD_CMD_SLPOUT [] w;
     let w = call_void (OS (Task_delay (pdMS_TO_TICKS 100))) w;
     w \<leftarrow> tx_param pn LCD_CMD_MADCTL [madctl_val pn] w;
     w \<leftarrow> tx_param pn LCD_CMD_COLMOD [colmod_cal pn] w;
     w \<leftarrow> tx_param pn ST7789_CMD_RAMCTRL [ramctl_val_1 pn, ramctl_val_2 pn] w;
     Some (ESP_OK, w) }"

text \<open>The four parameter bytes of an address window.\<close>

definition window_bytes :: "int \<Rightarrow> int \<Rightarrow> u8 list" where
  "window_bytes s e =
     [word_of_int (drop_bit 8 s AND 0xFF), word_of_int (s AND 0xFF),
      word_of_int (drop_bit 8 (e - 1) AND 0xFF), word_of_int ((e - 1) AND 0xFF)]"

text \<open>
  \<open>color\<close> and \<open>data\<close>: the address of the color data and the bytes readable there.  A failed
  \<^verbatim>\<open>assert\<close>, or reading beyond the data, is \<open>None\<close>.
\<close>

definition panel_st7789_draw_bitmap ::
  "st7789_panel_t \<Rightarrow> int \<Rightarrow> int \<Rightarrow> int \<Rightarrow> int \<Rightarrow> ptr \<Rightarrow> u8 list \<Rightarrow> 'a io_world_scheme \<Rightarrow> (esp_err \<times> 'a io_world_scheme) option" where
  "panel_st7789_draw_bitmap pn x_start y_start x_end y_end color data w =
    (if \<not> (x_start < x_end \<and> y_start < y_end) then None
     else let x_start = x_start + x_gap pn; x_end = x_end + x_gap pn;
              y_start = y_start + y_gap pn; y_end = y_end + y_gap pn
     in do {
       w \<leftarrow> tx_param pn LCD_CMD_CASET (window_bytes x_start x_end) w;
       w \<leftarrow> tx_param pn LCD_CMD_RASET (window_bytes y_start y_end) w;
       let len = nat ((x_end - x_start) * (y_end - y_start) * int (fb_bits_per_pixel pn) div 8);
       if length data < len then None
       else do {
         (_, w) \<leftarrow> esp_lcd_panel_io_tx_color (panel_io_h pn) LCD_CMD_RAMWR color (take len data) w;
         Some (ESP_OK, w) } })"

definition panel_st7789_invert_color :: "st7789_panel_t \<Rightarrow> bool \<Rightarrow> 'a io_world_scheme \<Rightarrow> (esp_err \<times> 'a io_world_scheme) option" where
  "panel_st7789_invert_color pn invert w =
     do { w \<leftarrow> tx_param pn (if invert then LCD_CMD_INVON else LCD_CMD_INVOFF) [] w; Some (ESP_OK, w) }"

text \<open>The operations that change the panel return it updated.\<close>

definition panel_st7789_mirror ::
  "st7789_panel_t \<Rightarrow> bool \<Rightarrow> bool \<Rightarrow> 'a io_world_scheme \<Rightarrow> (esp_err \<times> st7789_panel_t \<times> 'a io_world_scheme) option" where
  "panel_st7789_mirror pn mirror_x mirror_y w =
    (let m = madctl_val pn;
         m = (if mirror_x then m OR LCD_CMD_MX_BIT else m AND NOT LCD_CMD_MX_BIT);
         m = (if mirror_y then m OR LCD_CMD_MY_BIT else m AND NOT LCD_CMD_MY_BIT);
         pn = pn\<lparr>madctl_val := m\<rparr>
     in do { w \<leftarrow> tx_param pn LCD_CMD_MADCTL [m] w; Some (ESP_OK, pn, w) })"

definition panel_st7789_swap_xy ::
  "st7789_panel_t \<Rightarrow> bool \<Rightarrow> 'a io_world_scheme \<Rightarrow> (esp_err \<times> st7789_panel_t \<times> 'a io_world_scheme) option" where
  "panel_st7789_swap_xy pn swap_axes w =
    (let m = (if swap_axes then madctl_val pn OR LCD_CMD_MV_BIT else madctl_val pn AND NOT LCD_CMD_MV_BIT);
         pn = pn\<lparr>madctl_val := m\<rparr>
     in do { w \<leftarrow> tx_param pn LCD_CMD_MADCTL [m] w; Some (ESP_OK, pn, w) })"

definition panel_st7789_set_gap :: "st7789_panel_t \<Rightarrow> int \<Rightarrow> int \<Rightarrow> esp_err \<times> st7789_panel_t" where
  "panel_st7789_set_gap pn xg yg = (ESP_OK, pn\<lparr>x_gap := xg, y_gap := yg\<rparr>)"

definition panel_st7789_disp_on_off :: "st7789_panel_t \<Rightarrow> bool \<Rightarrow> 'a io_world_scheme \<Rightarrow> (esp_err \<times> 'a io_world_scheme) option" where
  "panel_st7789_disp_on_off pn on_off w =
     do { w \<leftarrow> tx_param pn (if on_off then LCD_CMD_DISPON else LCD_CMD_DISPOFF) [] w; Some (ESP_OK, w) }"

section \<open>The generic operations\<close>

text \<open>A \<^verbatim>\<open>NULL\<close> panel is \<^verbatim>\<open>ESP_ERR_INVALID_ARG\<close>, one that has been deleted has no meaning.\<close>

definition on_panel ::
  "ptr \<Rightarrow> (st7789_panel_t \<Rightarrow> 'a panel_world_scheme \<Rightarrow> (esp_err \<times> 'a panel_world_scheme) option) \<Rightarrow>
   'a panel_world_scheme \<Rightarrow> (esp_err \<times> 'a panel_world_scheme) option" where
  "on_panel p f w =
    (if p = 0 then Some (ESP_ERR_INVALID_ARG, w) else case panels w p of None \<Rightarrow> None | Some pn \<Rightarrow> f pn w)"

definition esp_lcd_panel_reset :: "ptr \<Rightarrow> 'a panel_world_scheme \<Rightarrow> (esp_err \<times> 'a panel_world_scheme) option" where
  "esp_lcd_panel_reset p w = on_panel p panel_st7789_reset w"

definition esp_lcd_panel_init :: "ptr \<Rightarrow> 'a panel_world_scheme \<Rightarrow> (esp_err \<times> 'a panel_world_scheme) option" where
  "esp_lcd_panel_init p w = on_panel p panel_st7789_init w"

definition esp_lcd_panel_del :: "ptr \<Rightarrow> 'a panel_world_scheme \<Rightarrow> (esp_err \<times> 'a panel_world_scheme) option" where
  "esp_lcd_panel_del p w = on_panel p (\<lambda>pn w. Some (panel_st7789_del p pn w)) w"

definition esp_lcd_panel_draw_bitmap ::
  "ptr \<Rightarrow> int \<Rightarrow> int \<Rightarrow> int \<Rightarrow> int \<Rightarrow> ptr \<Rightarrow> u8 list \<Rightarrow> 'a panel_world_scheme \<Rightarrow> (esp_err \<times> 'a panel_world_scheme) option" where
  "esp_lcd_panel_draw_bitmap p x_start y_start x_end y_end color data w =
     on_panel p (\<lambda>pn. panel_st7789_draw_bitmap pn x_start y_start x_end y_end color data) w"

definition esp_lcd_panel_mirror :: "ptr \<Rightarrow> bool \<Rightarrow> bool \<Rightarrow> 'a panel_world_scheme \<Rightarrow> (esp_err \<times> 'a panel_world_scheme) option" where
  "esp_lcd_panel_mirror p mirror_x mirror_y w =
     on_panel p (\<lambda>pn w. do { (e, pn, w) \<leftarrow> panel_st7789_mirror pn mirror_x mirror_y w;
                             Some (e, w\<lparr>panels := (panels w)(p \<mapsto> pn)\<rparr>) }) w"

definition esp_lcd_panel_swap_xy :: "ptr \<Rightarrow> bool \<Rightarrow> 'a panel_world_scheme \<Rightarrow> (esp_err \<times> 'a panel_world_scheme) option" where
  "esp_lcd_panel_swap_xy p swap_axes w =
     on_panel p (\<lambda>pn w. do { (e, pn, w) \<leftarrow> panel_st7789_swap_xy pn swap_axes w;
                             Some (e, w\<lparr>panels := (panels w)(p \<mapsto> pn)\<rparr>) }) w"

definition esp_lcd_panel_set_gap :: "ptr \<Rightarrow> int \<Rightarrow> int \<Rightarrow> 'a panel_world_scheme \<Rightarrow> (esp_err \<times> 'a panel_world_scheme) option" where
  "esp_lcd_panel_set_gap p xg yg w =
     on_panel p (\<lambda>pn w. let (e, pn) = panel_st7789_set_gap pn xg yg in Some (e, w\<lparr>panels := (panels w)(p \<mapsto> pn)\<rparr>)) w"

definition esp_lcd_panel_invert_color :: "ptr \<Rightarrow> bool \<Rightarrow> 'a panel_world_scheme \<Rightarrow> (esp_err \<times> 'a panel_world_scheme) option" where
  "esp_lcd_panel_invert_color p invert w = on_panel p (\<lambda>pn. panel_st7789_invert_color pn invert) w"

definition esp_lcd_panel_disp_on_off :: "ptr \<Rightarrow> bool \<Rightarrow> 'a panel_world_scheme \<Rightarrow> (esp_err \<times> 'a panel_world_scheme) option" where
  "esp_lcd_panel_disp_on_off p on_off w = on_panel p (\<lambda>pn. panel_st7789_disp_on_off pn on_off) w"

definition esp_lcd_panel_disp_off :: "ptr \<Rightarrow> bool \<Rightarrow> 'a panel_world_scheme \<Rightarrow> (esp_err \<times> 'a panel_world_scheme) option" where
  "esp_lcd_panel_disp_off p off w = esp_lcd_panel_disp_on_off p (\<not> off) w"

section \<open>The controller on the other end of the wire\<close>

text \<open>
  What the ST7789 makes of the bytes it receives: a byte with the D/C line low starts a command, the
  others are its parameters.  CASET and RASET set the window, RAMWR writes 16-bit pixels (most
  significant byte first) into it row by row.  Other commands do not touch the frame memory.
\<close>

record gram =
  g_cmd :: u8
  g_args :: "u8 list"
  g_x0 :: nat
  g_x1 :: nat
  g_y0 :: nat
  g_y1 :: nat
  g_hi :: "u8 option"
  g_n :: nat
  g_ram :: "nat \<times> nat \<Rightarrow> u16"

definition be16 :: "u8 \<Rightarrow> u8 \<Rightarrow> u16" where
  "be16 hi lo = word_cat hi lo"

definition gram_addr :: "gram \<Rightarrow> nat \<times> nat" where
  "gram_addr g = (let wd = g_x1 g - g_x0 g + 1; ht = g_y1 g - g_y0 g + 1
                  in (g_x0 g + g_n g mod wd, g_y0 g + (g_n g div wd) mod ht))"

fun gram_step :: "bool \<times> u8 \<Rightarrow> gram \<Rightarrow> gram" where
  "gram_step (False, b) g = g\<lparr>g_cmd := b, g_args := [], g_hi := None, g_n := 0\<rparr>"
| "gram_step (True, b) g =
     (if g_cmd g = 0x2C
      then (case g_hi g of
              None \<Rightarrow> g\<lparr>g_hi := Some b\<rparr>
            | Some hi \<Rightarrow> g\<lparr>g_hi := None, g_n := g_n g + 1, g_ram := (g_ram g)(gram_addr g := be16 hi b)\<rparr>)
      else let args = g_args g @ [b]; g = g\<lparr>g_args := args\<rparr>
           in case args of
                [a1, a2, a3, a4] \<Rightarrow>
                  if g_cmd g = 0x2A then g\<lparr>g_x0 := unat (be16 a1 a2), g_x1 := unat (be16 a3 a4)\<rparr>
                  else if g_cmd g = 0x2B then g\<lparr>g_y0 := unat (be16 a1 a2), g_y1 := unat (be16 a3 a4)\<rparr>
                  else g
              | _ \<Rightarrow> g)"

definition gram_run :: "(bool \<times> u8) list \<Rightarrow> gram \<Rightarrow> gram" where
  "gram_run bs g = fold gram_step bs g"

lemma gram_run_append: "gram_run (as @ bs) g = gram_run bs (gram_run as g)"
  by (simp add: gram_run_def)

text \<open>The pixels in a byte buffer, and the frame memory after writing pixels into a window.\<close>

fun pixels :: "u8 list \<Rightarrow> u16 list" where
  "pixels (hi # lo # bs) = be16 hi lo # pixels bs"
| "pixels _ = []"

lemma length_pixels [simp]: "length (pixels bs) = length bs div 2"
  by (induction bs rule: pixels.induct) auto

text \<open>The frame memory with the rectangle at \<open>(x0, y0)\<close> of width \<open>wd\<close> filled row by row.\<close>

definition blit :: "nat \<Rightarrow> nat \<Rightarrow> nat \<Rightarrow> u16 list \<Rightarrow> (nat \<times> nat \<Rightarrow> u16) \<Rightarrow> nat \<times> nat \<Rightarrow> u16" where
  "blit x0 y0 wd ps ram = (\<lambda>(x, y).
     if x0 \<le> x \<and> x < x0 + wd \<and> y0 \<le> y \<and> (y - y0) * wd + (x - x0) < length ps
     then ps ! ((y - y0) * wd + (x - x0)) else ram (x, y))"

lemma blit_Nil [simp]: "blit x0 y0 wd [] ram = ram"
  by (auto simp: blit_def fun_eq_iff)

lemma blit_snoc:
  assumes "0 < wd"
  shows "(blit x0 y0 wd ps ram)((x0 + length ps mod wd, y0 + length ps div wd) := p) = blit x0 y0 wd (ps @ [p]) ram"
proof
  fix a :: "nat \<times> nat"
  obtain x y where a: "a = (x, y)" by (cases a)
  show "((blit x0 y0 wd ps ram)((x0 + length ps mod wd, y0 + length ps div wd) := p)) a = blit x0 y0 wd (ps @ [p]) ram a"
  proof (cases "x0 \<le> x \<and> x < x0 + wd \<and> y0 \<le> y")
    case False
    have "length ps mod wd < wd" using assms by simp
    then have "a \<noteq> (x0 + length ps mod wd, y0 + length ps div wd)" using False a by auto
    with False show ?thesis by (auto simp: a blit_def)
  next
    case True
    define i where "i = (y - y0) * wd + (x - x0)"
    have lt: "x - x0 < wd" using True by auto
    have "i div wd = y - y0" and "i mod wd = x - x0"
      using lt assms by (simp_all add: i_def)
    then have eq: "a = (x0 + length ps mod wd, y0 + length ps div wd) \<longleftrightarrow> i = length ps"
      using True a by (metis Pair_inject add_diff_cancel_left' div_mult_mod_eq le_add_diff_inverse)
    have val: "blit x0 y0 wd qs ram a = (if i < length qs then qs ! i else ram a)" for qs
      using True by (simp add: blit_def a i_def)
    show ?thesis
    proof (cases "i = length ps")
      case True
      then show ?thesis using eq val [of "ps @ [p]"] by simp
    next
      case False
      then have "i < length (ps @ [p]) \<longleftrightarrow> i < length ps" by auto
      then show ?thesis using eq False val [of ps] val [of "ps @ [p]"] by (simp add: nth_append)
    qed
  qed
qed

lemma gram_data:
  assumes "g_cmd g = 0x2C" and "g_hi g = None" and "g_n g = 0"
    and "length ps * 2 = length bs" and "ps = pixels bs"
    and "length ps \<le> (g_x1 g - g_x0 g + 1) * (g_y1 g - g_y0 g + 1)"
  shows "gram_run (map (Pair True) bs) g =
    g\<lparr>g_n := length ps, g_ram := blit (g_x0 g) (g_y0 g) (g_x1 g - g_x0 g + 1) ps (g_ram g)\<rparr>"
  using assms(4-6)
proof (induction ps arbitrary: bs rule: rev_induct)
  case Nil
  then show ?case using assms(3) by (cases g) (simp add: gram_run_def)
next
  case (snoc p ps)
  let ?wd = "g_x1 g - g_x0 g + 1"
  have "even (length bs)" using snoc.prems(1) by (metis dvd_triv_right)
  have "2 \<le> length bs" using snoc.prems(1) by simp
  obtain bs0 hi lo where bs: "bs = bs0 @ [hi, lo]"
    using \<open>2 \<le> length bs\<close> by (metis append_Cons append_Nil append_butlast_last_id append_assoc
        butlast.simps(1) length_0_conv le_zero_eq length_append_singleton numeral_2_eq_2 not_less_eq_eq)
  have app: "even (length cs) \<Longrightarrow> pixels (cs @ [hi, lo]) = pixels cs @ [be16 hi lo]" for cs
    by (induction cs rule: pixels.induct) auto
  have "even (length bs0)" using \<open>even (length bs)\<close> bs by simp
  with app snoc.prems bs have p: "ps = pixels bs0" "p = be16 hi lo" by auto
  have run0: "gram_run (map (Pair True) bs0) g =
      g\<lparr>g_n := length ps, g_ram := blit (g_x0 g) (g_y0 g) ?wd ps (g_ram g)\<rparr>"
    using snoc.IH [of bs0] snoc.prems p(1) bs by simp
  have lt: "length ps < ?wd * (g_y1 g - g_y0 g + 1)" using snoc.prems(3) by simp
  then have "length ps div ?wd < g_y1 g - g_y0 g + 1" by (simp add: less_mult_imp_div_less mult.commute)
  then have addr: "gram_addr (g\<lparr>g_n := length ps, g_ram := r, g_hi := h\<rparr>) =
      (g_x0 g + length ps mod ?wd, g_y0 g + length ps div ?wd)" for r h
    by (simp add: gram_addr_def Let_def)
  have "gram_run (map (Pair True) bs) g = gram_run [(True, hi), (True, lo)] (gram_run (map (Pair True) bs0) g)"
    by (simp add: bs gram_run_def)
  also have "\<dots> = g\<lparr>g_n := length ps + 1, g_ram := (blit (g_x0 g) (g_y0 g) ?wd ps (g_ram g))
      ((g_x0 g + length ps mod ?wd, g_y0 g + length ps div ?wd) := be16 hi lo)\<rparr>"
    unfolding run0 using assms(1,2) addr by (cases g) (simp add: gram_run_def)
  finally show ?case by (simp add: blit_snoc p(2))
qed

section \<open>Panel operations on the wire\<close>

lemma only_log_lcd:
  "only_log w w' \<Longrightarrow> ios w' = ios w" "only_log v v' \<Longrightarrow> panels v' = panels v"
  by (cases w; cases w'; simp add: only_log_def) (cases v; cases v'; simp add: only_log_def)

lemma wenv_set_io [simp]: "wenv (set_io p x w) = wenv w" "spi_up (set_io p x w) = spi_up w"
  by (simp_all add: spi_up_def)

text \<open>
  A panel as \<^verbatim>\<open>bsp_display_new\<close> sets it up, behind an SPI panel IO that is in order, on a bus that
  serves every call; \<open>touched\<close>: what a panel operation may change.
\<close>

definition lcd_io :: "ptr \<Rightarrow> 'a io_world_scheme \<Rightarrow> bool" where
  "lcd_io h w \<longleftrightarrow> h \<noteq> 0 \<and> spi_up w \<and>
     (\<exists>io. ios w h = Some (Io_spi io) \<and> byte_io io \<and> num_trans_inflight io = length (busy io) \<and>
        \<not> dc_cmd_level io \<and> dc_data_level io \<and> dc_param_level io \<and> 0 < queue_size io \<and> 0 < spi_trans_max_bytes io)"

definition touched :: "ptr \<Rightarrow> 'a io_world_scheme \<Rightarrow> 'a io_world_scheme \<Rightarrow> (bool \<times> u8) list \<Rightarrow> bool" where
  "touched h w w' bytes \<longleftrightarrow>
     (\<exists>evs io'. w' = w\<lparr>log := log w @ evs, ios := (ios w)(h \<mapsto> Io_spi io')\<rparr> \<and> wire evs = bytes) \<and> lcd_io h w'"

lemma touched_trans: "touched h w w1 b1 \<Longrightarrow> touched h w1 w2 b2 \<Longrightarrow> touched h w w2 (b1 @ b2)"
proof -
  assume "touched h w w1 b1" and "touched h w1 w2 b2"
  then obtain evs1 io1 evs2 io2 where "w1 = w\<lparr>log := log w @ evs1, ios := (ios w)(h \<mapsto> Io_spi io1)\<rparr>" "wire evs1 = b1"
    "w2 = w1\<lparr>log := log w1 @ evs2, ios := (ios w1)(h \<mapsto> Io_spi io2)\<rparr>" "wire evs2 = b2" "lcd_io h w2"
    by (auto simp: touched_def)
  then show ?thesis
    unfolding touched_def by (intro conjI exI [of _ "evs1 @ evs2"] exI [of _ io2]) simp_all
qed

lemma tx_param_wire:
  assumes "lcd_io (panel_io_h pn) w" and "0 \<le> c"
  shows "\<exists>w'. tx_param pn c bytes w = Some w' \<and>
    touched (panel_io_h pn) w w' ((False, word_of_int c) # map (Pair True) bytes)"
proof -
  obtain io where io: "ios w (panel_io_h pn) = Some (Io_spi io)" "byte_io io" "num_trans_inflight io = length (busy io)"
    "\<not> dc_cmd_level io" "dc_data_level io" "dc_param_level io" "0 < queue_size io" "0 < spi_trans_max_bytes io"
    and h: "panel_io_h pn \<noteq> 0" and up: "spi_up w"
    using assms(1) by (auto simp: lcd_io_def)
  let ?io = "io\<lparr>num_trans_inflight := 0, busy := []\<rparr>"
  obtain w1 evs where r: "panel_io_spi_tx_param io c bytes w = Some (ESP_OK, ?io, w1)" "log w1 = log w @ evs" "only_log w w1"
    "wire evs = (dc_cmd_level io, word_of_int c) # map (Pair (dc_param_level io)) bytes"
    using tx_param_run [OF up io(3,2) assms(2), of bytes] by blast
  have w1: "w1 = w\<lparr>log := log w @ evs\<rparr>" using only_log_eq [OF r(3,2)] .
  let ?w = "w\<lparr>log := log w @ evs, ios := (ios w)(panel_io_h pn \<mapsto> Io_spi ?io)\<rparr>"
  have "(case if bytes = [] then None else Some bytes of None \<Rightarrow> [] | Some b \<Rightarrow> b) = bytes" by simp
  then have "tx_param pn c bytes w = Some ?w"
    using h io(1) r(1) by (simp add: tx_param_def esp_lcd_panel_io_tx_param_def w1)
  moreover have "lcd_io (panel_io_h pn) ?w"
    using io h up by (simp add: lcd_io_def byte_io_def spi_up_def)
  ultimately show ?thesis using r(4) io(4,6) unfolding touched_def by auto
qed

lemma tx_color_wire:
  assumes "lcd_io h w" and "0 \<le> c"
  shows "\<exists>w' io'. esp_lcd_panel_io_tx_color h c color data w = Some (ESP_OK, w') \<and>
    touched h w w' ((False, word_of_int c) # map (Pair True) data) \<and>
    ios w' h = Some (Io_spi io') \<and> busy io' \<noteq> [] \<and>
    (\<exists>a b l. snd (last (busy io')) = color_trans io' a b l \<and> (a, b, l) = last (chunks (spi_trans_max_bytes io') color data))"
proof -
  obtain io where io: "ios w h = Some (Io_spi io)" "byte_io io" "num_trans_inflight io = length (busy io)"
    "\<not> dc_cmd_level io" "dc_data_level io" "dc_param_level io" "0 < queue_size io" "0 < spi_trans_max_bytes io"
    and h: "h \<noteq> 0" and up: "spi_up w"
    using assms(1) by (auto simp: lcd_io_def)
  obtain io' w1 evs where r: "panel_io_spi_tx_color io c color data w = Some (ESP_OK, io', w1)" "io_ok io'" "same_conf io io'"
    "busy io' \<noteq> []" "snd (last (busy io')) = last (queued_trans evs)" "log w1 = log w @ evs" "only_log w w1"
    "queued_trans evs = map (\<lambda>(a, b, m). color_trans io a b m) (chunks (spi_trans_max_bytes io) color data)"
    "wire evs = map (Pair (dc_cmd_level io)) (tr_tx (cmd_trans io c (data \<noteq> []))) @ map (Pair (dc_data_level io)) data"
    using tx_color_run [OF up io(3) assms(2) io(7,8), of color data] by blast
  have w1: "w1 = w\<lparr>log := log w @ evs\<rparr>" using only_log_eq [OF r(7,6)] .
  let ?w = "w\<lparr>log := log w @ evs, ios := (ios w)(h \<mapsto> Io_spi io')\<rparr>"
  note conf = same_conf_sel [OF r(3)]
  have "esp_lcd_panel_io_tx_color h c color data w = Some (ESP_OK, ?w)"
    using h io(1) r(1) by (simp add: esp_lcd_panel_io_tx_color_def w1)
  moreover have "lcd_io h ?w"
    using io h up conf r(2) by (simp add: lcd_io_def byte_io_def spi_up_def io_ok_def)
  moreover have "wire evs = (False, word_of_int c) # map (Pair True) data"
    unfolding r(9) cmd_trans_byte [OF io(2)] using io(4,5) by simp
  moreover have "color_trans io' = color_trans io" using conf by (simp add: color_trans_def fun_eq_iff)
  then have "\<exists>a b l. snd (last (busy io')) = color_trans io' a b l \<and> (a, b, l) = last (chunks (spi_trans_max_bytes io') color data)"
    unfolding r(5,8) conf using chunks_nonempty [of "spi_trans_max_bytes io" color data]
    by (simp add: last_map case_prod_unfold) (metis prod.collapse)
  ultimately show ?thesis using r(4) unfolding touched_def by auto
qed

text \<open>The window parameters are read back as the coordinates.\<close>

lemma window_value:
  "0 \<le> s \<Longrightarrow> s < 65536 \<Longrightarrow>
   unat (be16 (word_of_int (drop_bit 8 s AND 0xFF)) (word_of_int (s AND 0xFF))) = nat s"
proof -
  assume s: "0 \<le> s" "s < 65536"
  have m: "(0xFF :: int) = mask 8" by (simp add: mask_eq_exp_minus_1)
  have "be16 (word_of_int (drop_bit 8 s AND 0xFF)) (word_of_int (s AND 0xFF)) = word_of_int s"
    unfolding m by (rule bit_word_eqI) (auto simp: be16_def bit_word_cat_iff bit_simps)
  then show ?thesis using s by (simp add: unat_eq_nat_uint uint_word_of_int_eq take_bit_int_eq_self)
qed

lemma gram_window:
  assumes "0 \<le> s" "s < e" "e \<le> 65536"
  shows "gram_run ((False, 0x2A) # map (Pair True) (window_bytes s e)) g =
      g\<lparr>g_cmd := 0x2A, g_args := window_bytes s e, g_hi := None, g_n := 0, g_x0 := nat s, g_x1 := nat (e - 1)\<rparr>"
    and "gram_run ((False, 0x2B) # map (Pair True) (window_bytes s e)) g =
      g\<lparr>g_cmd := 0x2B, g_args := window_bytes s e, g_hi := None, g_n := 0, g_y0 := nat s, g_y1 := nat (e - 1)\<rparr>"
  using assms window_value [of s] window_value [of "e - 1"]
  by (cases g; simp add: gram_run_def window_bytes_def Let_def)+

text \<open>What drawing a rectangle does: the frame memory changes exactly inside it.\<close>

definition lcd_panel :: "ptr \<Rightarrow> 'a panel_world_scheme \<Rightarrow> bool" where
  "lcd_panel p w \<longleftrightarrow> p \<noteq> 0 \<and> (\<exists>pn. panels w p = Some pn \<and> lcd_io (panel_io_h pn) w \<and>
     x_gap pn = 0 \<and> y_gap pn = 0 \<and> fb_bits_per_pixel pn = 16)"

definition panel_touched :: "ptr \<Rightarrow> 'a panel_world_scheme \<Rightarrow> 'a panel_world_scheme \<Rightarrow> (bool \<times> u8) list \<Rightarrow> bool" where
  "panel_touched p w w' bytes \<longleftrightarrow> lcd_panel p w' \<and> (\<exists>pn. panels w p = Some pn \<and> touched (panel_io_h pn) w w' bytes)"

lemma touched_panels: "touched h w w' bs \<Longrightarrow> panels w' = panels w"
  by (auto simp: touched_def)

lemma touched_wire: "touched h w w' bs \<Longrightarrow> wire (new_events w w') = bs"
  by (auto simp: touched_def new_events_def)

lemma draw_bitmap_wire:
  assumes "lcd_panel p w" and "x0 < x1" "y0 < y1" and "length data = nat ((x1 - x0) * (y1 - y0)) * 2"
  shows "\<exists>w' io' pn. esp_lcd_panel_draw_bitmap p x0 y0 x1 y1 color data w = Some (ESP_OK, w') \<and>
    panel_touched p w w' (((False, 0x2A) # map (Pair True) (window_bytes x0 x1)) @
      ((False, 0x2B) # map (Pair True) (window_bytes y0 y1)) @ ((False, 0x2C) # map (Pair True) data)) \<and>
    panels w p = Some pn \<and> ios w' (panel_io_h pn) = Some (Io_spi io') \<and> busy io' \<noteq> [] \<and>
    (\<exists>a b l. snd (last (busy io')) = color_trans io' a b l \<and> (a, b, l) = last (chunks (spi_trans_max_bytes io') color data))"
proof -
  obtain pn where pn: "panels w p = Some pn" "lcd_io (panel_io_h pn) w" "x_gap pn = 0" "y_gap pn = 0"
    "fb_bits_per_pixel pn = 16" and p: "p \<noteq> 0"
    using assms(1) by (auto simp: lcd_panel_def)
  let ?h = "panel_io_h pn"
  obtain w1 where w1: "tx_param pn LCD_CMD_CASET (window_bytes x0 x1) w = Some w1"
      "touched ?h w w1 ((False, 0x2A) # map (Pair True) (window_bytes x0 x1))"
    using tx_param_wire [OF pn(2), of LCD_CMD_CASET] by (auto simp: LCD_CMD_CASET_def)
  have io1: "lcd_io ?h w1" using w1(2) by (simp add: touched_def)
  obtain w2 where w2: "tx_param pn LCD_CMD_RASET (window_bytes y0 y1) w1 = Some w2"
      "touched ?h w1 w2 ((False, 0x2B) # map (Pair True) (window_bytes y0 y1))"
    using tx_param_wire [OF io1, of LCD_CMD_RASET] by (auto simp: LCD_CMD_RASET_def)
  have io2: "lcd_io ?h w2" using w2(2) by (simp add: touched_def)
  obtain w3 io' where w3: "esp_lcd_panel_io_tx_color ?h LCD_CMD_RAMWR color data w2 = Some (ESP_OK, w3)"
      "touched ?h w2 w3 ((False, 0x2C) # map (Pair True) data)" "ios w3 ?h = Some (Io_spi io')" "busy io' \<noteq> []"
      "\<exists>a b l. snd (last (busy io')) = color_trans io' a b l \<and> (a, b, l) = last (chunks (spi_trans_max_bytes io') color data)"
    using tx_color_wire [OF io2, of LCD_CMD_RAMWR color data] unfolding LCD_CMD_RAMWR_def word_of_int_numeral by simp blast
  have len: "nat ((x1 - x0) * (y1 - y0) * int (fb_bits_per_pixel pn) div 8) = length data"
  proof -
    have "(x1 - x0) * (y1 - y0) * 16 div 8 = (x1 - x0) * (y1 - y0) * 2" by simp
    then show ?thesis using assms(4) pn(5) by (simp add: nat_mult_distrib)
  qed
  have run: "esp_lcd_panel_draw_bitmap p x0 y0 x1 y1 color data w = Some (ESP_OK, w3)"
    using p pn assms(2,3) w1(1) w2(1) w3(1) len
    by (simp add: esp_lcd_panel_draw_bitmap_def on_panel_def panel_st7789_draw_bitmap_def Let_def)
  have tt: "touched ?h w w3 (((False, 0x2A) # map (Pair True) (window_bytes x0 x1)) @
      ((False, 0x2B) # map (Pair True) (window_bytes y0 y1)) @ ((False, 0x2C) # map (Pair True) data))"
    by (rule touched_trans [OF w1(2) touched_trans [OF w2(2) w3(2)]])
  then have "lcd_panel p w3"
    using p pn touched_panels [OF tt] by (auto simp: lcd_panel_def touched_def)
  with run tt pn w3(3-5) show ?thesis unfolding panel_touched_def by blast
qed

lemma draw_bitmap_gram:
  assumes "lcd_panel p w" and "0 \<le> x0" "x0 < x1" "x1 \<le> 65536" "0 \<le> y0" "y0 < y1" "y1 \<le> 65536"
    and "length data = nat ((x1 - x0) * (y1 - y0)) * 2"
  shows "\<exists>w'. esp_lcd_panel_draw_bitmap p x0 y0 x1 y1 color data w = Some (ESP_OK, w') \<and> lcd_panel p w' \<and>
    only_log (w\<lparr>ios := ios w'\<rparr>) w' \<and> (\<exists>evs. log w' = log w @ evs) \<and>
    g_ram (gram_run (wire (new_events w w')) g) = blit (nat x0) (nat y0) (nat (x1 - x0)) (pixels data) (g_ram g)"
proof -
  let ?wire = "((False, 0x2A) # map (Pair True) (window_bytes x0 x1)) @
      ((False, 0x2B) # map (Pair True) (window_bytes y0 y1)) @ ((False, 0x2C) # map (Pair True) data)"
  obtain w' where w': "esp_lcd_panel_draw_bitmap p x0 y0 x1 y1 color data w = Some (ESP_OK, w')"
      "panel_touched p w w' ?wire"
    using draw_bitmap_wire [OF assms(1,3,6,8)] by blast
  define g1 where "g1 = gram_run (((False, 0x2A) # map (Pair True) (window_bytes x0 x1)) @
      ((False, 0x2B) # map (Pair True) (window_bytes y0 y1))) g"
  define g2 where "g2 = gram_step (False, 0x2C) g1"
  have g1: "g_x0 g1 = nat x0" "g_x1 g1 = nat (x1 - 1)" "g_y0 g1 = nat y0" "g_y1 g1 = nat (y1 - 1)" "g_ram g1 = g_ram g"
    using assms(2-7) unfolding g1_def gram_run_append by (simp_all add: gram_window)
  then have g2: "g_cmd g2 = 0x2C" "g_hi g2 = None" "g_n g2 = 0" "g_x0 g2 = nat x0" "g_x1 g2 - nat x0 + 1 = nat (x1 - x0)"
    "g_y0 g2 = nat y0" "g_y1 g2 - nat y0 + 1 = nat (y1 - y0)" "g_ram g2 = g_ram g"
    using assms(2-7) by (simp_all add: g2_def)
  have len: "length (pixels data) = nat (x1 - x0) * nat (y1 - y0)"
    using assms(3,6,8) by (simp add: nat_mult_distrib)
  have "gram_run (map (Pair True) data) g2 =
      g2\<lparr>g_n := length (pixels data), g_ram := blit (g_x0 g2) (g_y0 g2) (g_x1 g2 - g_x0 g2 + 1) (pixels data) (g_ram g2)\<rparr>"
    by (rule gram_data) (use g2(1-3) assms(8) len in \<open>auto simp only: g2(4-7) length_pixels, simp_all\<close>)
  then have r: "g_ram (gram_run (map (Pair True) data) g2) = blit (nat x0) (nat y0) (nat (x1 - x0)) (pixels data) (g_ram g)"
    unfolding g2(4-8) by simp
  have "gram_run ?wire g = gram_run (map (Pair True) data) g2"
    by (simp add: g2_def g1_def gram_run_def)
  with r have "g_ram (gram_run ?wire g) = blit (nat x0) (nat y0) (nat (x1 - x0)) (pixels data) (g_ram g)" by simp
  moreover have "wire (new_events w w') = ?wire" and "lcd_panel p w'"
    using w'(2) touched_wire unfolding panel_touched_def by blast+
  moreover have "only_log (w\<lparr>ios := ios w'\<rparr>) w'" "\<exists>evs. log w' = log w @ evs"
    using w'(2) by (auto simp: panel_touched_def touched_def only_log_def)
  ultimately show ?thesis using w'(1) by auto
qed

section \<open>Properties\<close>

lemma pixels_nth: "i < length bs div 2 \<Longrightarrow> pixels bs ! i = be16 (bs ! (2 * i)) (bs ! (2 * i + 1))"
proof (induction bs arbitrary: i rule: pixels.induct)
  case (1 hi lo bs)
  then show ?case by (cases i) auto
qed auto

text \<open>The index of a pixel of a rectangle is in range exactly when the pixel is in the rectangle.\<close>

lemma index_in_rect:
  "x0 \<le> x \<Longrightarrow> x < x0 + wd \<Longrightarrow> y0 \<le> y \<Longrightarrow> (y - y0) * wd + (x - x0) < wd * ht \<longleftrightarrow> y < y0 + (ht :: nat)"
proof -
  assume "x0 \<le> x" "x < x0 + wd" "y0 \<le> y"
  then have lt: "x - x0 < wd" by simp
  have "(y - y0) * wd + (x - x0) < wd * ht \<longleftrightarrow> y - y0 < ht"
  proof
    assume "(y - y0) * wd + (x - x0) < wd * ht"
    then have "(y - y0) * wd < ht * wd" by (metis add_lessD1 mult.commute)
    then show "y - y0 < ht" using mult_less_cancel2 by blast
  next
    assume "y - y0 < ht"
    then have "(y - y0 + 1) * wd \<le> ht * wd" by (intro mult_le_mono1) simp
    with lt show "(y - y0) * wd + (x - x0) < wd * ht" by (simp add: mult.commute)
  qed
  with \<open>y0 \<le> y\<close> show ?thesis by auto
qed

text \<open>Drawing the pixels of a rectangle, point by point.\<close>

lemma blit_pixels:
  assumes "0 \<le> x0" "x0 < x1" "0 \<le> y0" "y0 < y1" and "length data = nat ((x1 - x0) * (y1 - y0)) * 2"
  shows "blit (nat x0) (nat y0) (nat (x1 - x0)) (pixels data) ram (x, y) =
      (if x0 \<le> int x \<and> int x < x1 \<and> y0 \<le> int y \<and> int y < y1
       then let i = (y - nat y0) * nat (x1 - x0) + (x - nat x0) in be16 (data ! (2 * i)) (data ! (2 * i + 1))
       else ram (x, y))"
proof -
  let ?wd = "nat (x1 - x0)" and ?ht = "nat (y1 - y0)"
  define i where "i = (y - nat y0) * ?wd + (x - nat x0)"
  have len: "length (pixels data) = ?wd * ?ht" using assms(2,4,5) by (simp add: nat_mult_distrib)
  have in_x: "nat x0 \<le> x \<and> x < nat x0 + ?wd \<longleftrightarrow> x0 \<le> int x \<and> int x < x1" using assms(1,2) by auto
  have in_y: "nat y0 \<le> y \<longleftrightarrow> y0 \<le> int y" "y < nat y0 + ?ht \<longleftrightarrow> int y < y1" using assms(3,4) by auto
  show ?thesis
  proof (cases "x0 \<le> int x \<and> int x < x1 \<and> y0 \<le> int y")
    case True
    then have "i < length (pixels data) \<longleftrightarrow> int y < y1"
      unfolding len i_def in_y(2) [symmetric] using in_x in_y(1) by (intro index_in_rect) auto
    moreover have "pixels data ! i = be16 (data ! (2 * i)) (data ! (2 * i + 1))" if "i < length (pixels data)"
      using that by (intro pixels_nth) simp
    moreover have "blit (nat x0) (nat y0) ?wd (pixels data) ram (x, y) =
        (if i < length (pixels data) then pixels data ! i else ram (x, y))"
      using True in_x in_y(1) unfolding blit_def i_def prod.case by (simp only: simp_thms if_True)
    ultimately show ?thesis unfolding i_def [symmetric] Let_def using True by presburger
  next
    case False
    then show ?thesis using in_x in_y(1) by (auto simp: blit_def)
  qed
qed


definition gram_blank :: gram where
  "gram_blank = \<lparr>g_cmd = 0, g_args = [], g_x0 = 0, g_x1 = 0, g_y0 = 0, g_y1 = 0, g_hi = None, g_n = 0, g_ram = \<lambda>_. 0\<rparr>"

definition lcd_demo :: panel_world where
  "lcd_demo = \<lparr>wenv = \<lambda>_ _. answer ESP_OK, log = [], i2c_obj = Map.empty, ios = [7 \<mapsto> Io_spi spi_demo_io],
     panels = [9 \<mapsto> \<lparr>panel_io_h = 7, reset_gpio_num = - 1, reset_level = False, x_gap = 0, y_gap = 0,
       fb_bits_per_pixel = 16, madctl_val = 0, colmod_cal = 0x55, ramctl_val_1 = 0, ramctl_val_2 = 0xf0\<rparr>]\<rparr>"

lemma lcd_demo_panel: "lcd_panel 9 lcd_demo"
  by (simp add: lcd_panel_def lcd_io_def lcd_demo_def spi_demo_io_def byte_io_def spi_up_def)


lemma bit_madctl:
  "j < 8 \<Longrightarrow> bit (m OR push_bit k 1 :: u8) j \<longleftrightarrow> bit m j \<or> j = k"
  "j < 8 \<Longrightarrow> bit (m AND NOT (push_bit k 1) :: u8) j \<longleftrightarrow> bit m j \<and> j \<noteq> k"
  by (auto simp del: push_bit_of_1 simp: bit_or_iff bit_and_iff bit_not_iff bit_push_bit_iff bit_1_iff)

text \<open>
  Orientation: \<^verbatim>\<open>esp_lcd_panel_mirror\<close> and \<^verbatim>\<open>esp_lcd_panel_swap_xy\<close> set exactly the MX/MY and the
  MV bits of the cached MADCTL value and leave its other bits alone, and what they send to the
  controller is the new cached value, so that cache and controller agree.
\<close>

theorem orientation_bits:
  assumes "panels w p = Some pn" and "p \<noteq> 0" and "lcd_io (panel_io_h pn) w"
  shows "\<exists>w1 w2 pn1 pn2.
    esp_lcd_panel_mirror p mx my w = Some (ESP_OK, w1) \<and> panels w1 p = Some pn1 \<and>
    wire (new_events w w1) = [(False, 0x36), (True, madctl_val pn1)] \<and>
    (\<forall>j < 8. bit (madctl_val pn1) j = (if j = 6 then mx else if j = 7 then my else bit (madctl_val pn) j)) \<and>
    esp_lcd_panel_swap_xy p sw w = Some (ESP_OK, w2) \<and> panels w2 p = Some pn2 \<and>
    wire (new_events w w2) = [(False, 0x36), (True, madctl_val pn2)] \<and>
    (\<forall>j < 8. bit (madctl_val pn2) j = (if j = 5 then sw else bit (madctl_val pn) j))"
proof -
  define m1 where "m1 = (let m = (if mx then madctl_val pn OR LCD_CMD_MX_BIT else madctl_val pn AND NOT LCD_CMD_MX_BIT)
    in if my then m OR LCD_CMD_MY_BIT else m AND NOT LCD_CMD_MY_BIT)"
  define m2 where "m2 = (if sw then madctl_val pn OR LCD_CMD_MV_BIT else madctl_val pn AND NOT LCD_CMD_MV_BIT)"
  have tx: "\<exists>v. tx_param (pn\<lparr>madctl_val := m\<rparr>) LCD_CMD_MADCTL [m] w = Some v \<and> wire (new_events w v) = [(False, 0x36), (True, m)] \<and>
      log (v\<lparr>panels := x\<rparr>) = log v" for m x
  proof -
    have "panel_io_h (pn\<lparr>madctl_val := m\<rparr>) = panel_io_h pn" by simp
    with tx_param_wire [of "pn\<lparr>madctl_val := m\<rparr>" w LCD_CMD_MADCTL "[m]"] assms(3) obtain v
      where v: "tx_param (pn\<lparr>madctl_val := m\<rparr>) LCD_CMD_MADCTL [m] w = Some v"
      "touched (panel_io_h pn) w v ((False, word_of_int LCD_CMD_MADCTL) # map (Pair True) [m])"
      by (auto simp: LCD_CMD_MADCTL_def)
    from touched_wire [OF v(2)] v(1) show ?thesis by (simp add: LCD_CMD_MADCTL_def)
  qed
  obtain v1 where v1: "tx_param (pn\<lparr>madctl_val := m1\<rparr>) LCD_CMD_MADCTL [m1] w = Some v1"
    "wire (new_events w v1) = [(False, 0x36), (True, m1)]" using tx by blast
  obtain v2 where v2: "tx_param (pn\<lparr>madctl_val := m2\<rparr>) LCD_CMD_MADCTL [m2] w = Some v2"
    "wire (new_events w v2) = [(False, 0x36), (True, m2)]" using tx by blast
  have ne: "new_events w (v\<lparr>panels := x\<rparr>) = new_events w v" for x and v :: "'a panel_world_scheme"
    by (simp add: new_events_def)
  have b1: "\<forall>j < 8. bit m1 j = (if j = 6 then mx else if j = 7 then my else bit (madctl_val pn) j)"
    unfolding m1_def Let_def LCD_CMD_MX_BIT_def LCD_CMD_MY_BIT_def
    by (cases mx; cases my) (simp_all del: push_bit_of_1 push_bit_numeral add: bit_madctl)
  have b2: "\<forall>j < 8. bit m2 j = (if j = 5 then sw else bit (madctl_val pn) j)"
    unfolding m2_def LCD_CMD_MV_BIT_def by (cases sw) (simp_all del: push_bit_of_1 push_bit_numeral add: bit_madctl)
  have "esp_lcd_panel_mirror p mx my w = Some (ESP_OK, v1\<lparr>panels := (panels v1)(p \<mapsto> pn\<lparr>madctl_val := m1\<rparr>)\<rparr>)"
    using assms(1,2) v1(1) by (simp add: esp_lcd_panel_mirror_def on_panel_def panel_st7789_mirror_def m1_def Let_def)
  moreover have "esp_lcd_panel_swap_xy p sw w = Some (ESP_OK, v2\<lparr>panels := (panels v2)(p \<mapsto> pn\<lparr>madctl_val := m2\<rparr>)\<rparr>)"
    using assms(1,2) v2(1) by (simp add: esp_lcd_panel_swap_xy_def on_panel_def panel_st7789_swap_xy_def m2_def Let_def)
  ultimately show ?thesis using v1(2) v2(2) b1 b2 by (simp add: ne)
qed

theorem orientation_bits_witness:
  "\<exists>w1 pn1. esp_lcd_panel_mirror 9 True False lcd_demo = Some (ESP_OK, w1) \<and> panels w1 9 = Some pn1 \<and> bit (madctl_val pn1) 6"
proof -
  obtain pn where "panels lcd_demo 9 = Some pn" "lcd_io (panel_io_h pn) lcd_demo"
    using lcd_demo_panel by (auto simp: lcd_panel_def)
  from orientation_bits [OF this(1) _ this(2), of True False True] show ?thesis by auto
qed

end
