(* ===== verification/Reg_Device.thy ===== *)
theory Reg_Device
  imports I2c_Link
begin

text \<open>
  The contract every register-programmed I2C chip on the board is used through.  The PCA9557, the
  QMI8658, the ES7210 and the FT5x06 drivers each have a function that writes one byte to one
  register; the locale \<open>reg_device\<close> states what their clients rely on, and proves once what the
  drivers' three ways of writing a table of registers achieve: stopping at the first error (the
  \<^verbatim>\<open>ES7210_WRITE_REG\<close> sequences), ignoring errors (\<^verbatim>\<open>pca9557_init\<close>, \<^verbatim>\<open>QMI8658_Init\<close>) and or-ing the
  error codes (\<^verbatim>\<open>touch_ft5x06_init\<close>).
\<close>

section \<open>Tables of register writes\<close>

fun write_all :: "(u8 \<Rightarrow> u8 \<Rightarrow> 'w \<Rightarrow> (esp_err \<times> 'w) option) \<Rightarrow> (u8 \<times> u8) list \<Rightarrow> 'w \<Rightarrow> (esp_err \<times> 'w) option" where
  "write_all wr [] w = Some (ESP_OK, w)"
| "write_all wr ((r, v) # rvs) w =
     do { (e, w) \<leftarrow> wr r v w; if e \<noteq> ESP_OK then Some (e, w) else write_all wr rvs w }"

fun write_each :: "(u8 \<Rightarrow> u8 \<Rightarrow> 'w \<Rightarrow> (esp_err \<times> 'w) option) \<Rightarrow> (u8 \<times> u8) list \<Rightarrow> 'w \<Rightarrow> 'w option" where
  "write_each wr [] w = Some w"
| "write_each wr ((r, v) # rvs) w = do { (_, w) \<leftarrow> wr r v w; write_each wr rvs w }"

fun write_or :: "(u8 \<Rightarrow> u8 \<Rightarrow> 'w \<Rightarrow> (esp_err \<times> 'w) option) \<Rightarrow> (u8 \<times> u8) list \<Rightarrow> esp_err \<Rightarrow> 'w \<Rightarrow> (esp_err \<times> 'w) option" where
  "write_or wr [] acc w = Some (acc, w)"
| "write_or wr ((r, v) # rvs) acc w = do { (e, w) \<leftarrow> wr r v w; write_or wr rvs (acc OR e) w }"

section \<open>The contract\<close>

locale reg_device =
  fixes wr :: "u8 \<Rightarrow> u8 \<Rightarrow> 'w \<Rightarrow> (esp_err \<times> 'w) option"
    and regs :: "'w \<Rightarrow> u8 \<Rightarrow> u8 option"
  assumes wr_returns: "\<exists>e w'. wr r v w = Some (e, w')"
    and wr_ok: "wr r v w = Some (ESP_OK, w') \<Longrightarrow> regs w' = (regs w)(r \<mapsto> v)"
    and wr_err: "wr r v w = Some (e, w') \<Longrightarrow> e \<noteq> ESP_OK \<Longrightarrow> regs w' = regs w"
begin

lemma write_all_returns: "\<exists>e w'. write_all wr rvs w = Some (e, w')"
proof (induction rvs arbitrary: w)
  case Nil
  show ?case by simp
next
  case (Cons rv rvs)
  obtain r v where rv: "rv = (r, v)" by (cases rv)
  obtain e w1 where w1: "wr r v w = Some (e, w1)" using wr_returns by blast
  show ?case using Cons.IH [of w1] by (simp add: rv w1)
qed

lemma write_all_ok:
  "write_all wr rvs w = Some (ESP_OK, w') \<Longrightarrow> regs w' = regs w ++ map_of (rev rvs)"
proof (induction rvs arbitrary: w)
  case Nil
  then show ?case by simp
next
  case (Cons rv rvs)
  obtain r v where rv: "rv = (r, v)" by (cases rv)
  obtain e w1 where w1: "wr r v w = Some (e, w1)" using wr_returns by blast
  from Cons.prems rv w1 have e: "e = ESP_OK" and rest: "write_all wr rvs w1 = Some (ESP_OK, w')"
    by (auto split: if_splits)
  have "regs w1 = (regs w)(r \<mapsto> v)" using wr_ok w1 e by blast
  moreover have "regs w' = regs w1 ++ map_of (rev rvs)" by (rule Cons.IH [OF rest])
  ultimately have "regs w' = (regs w)(r \<mapsto> v) ++ map_of (rev rvs)" by (simp only:)
  then show ?case by (simp only: rv rev.simps map_of_append map_of.simps fst_conv snd_conv
      map_add_assoc map_add_upd map_add_empty)
qed

lemma write_all_err:
  "write_all wr rvs w = Some (e, w') \<Longrightarrow> e \<noteq> ESP_OK \<Longrightarrow>
   \<exists>k < length rvs. regs w' = regs w ++ map_of (rev (take k rvs))"
proof (induction rvs arbitrary: w)
  case Nil
  then show ?case by simp
next
  case (Cons rv rvs)
  obtain r v where rv: "rv = (r, v)" by (cases rv)
  obtain e1 w1 where w1: "wr r v w = Some (e1, w1)" using wr_returns by blast
  show ?case
  proof (cases "e1 = ESP_OK")
    case False
    with Cons.prems rv w1 have "regs w' = regs w" using wr_err by (auto split: if_splits)
    then show ?thesis by (intro exI [of _ 0]) simp
  next
    case True
    with Cons.prems rv w1 have "write_all wr rvs w1 = Some (e, w')" by simp
    with Cons.IH Cons.prems(2) obtain k
      where k: "k < length rvs" "regs w' = regs w1 ++ map_of (rev (take k rvs))" by blast
    have "regs w1 = (regs w)(r \<mapsto> v)" using wr_ok w1 True by blast
    with k rv show ?thesis by (intro exI [of _ "Suc k"]) (simp add: map_add_upd)
  qed
qed

lemma write_each_returns: "\<exists>w'. write_each wr rvs w = Some w'"
proof (induction rvs arbitrary: w)
  case Nil
  show ?case by simp
next
  case (Cons rv rvs)
  obtain r v where rv: "rv = (r, v)" by (cases rv)
  obtain e w1 where w1: "wr r v w = Some (e, w1)" using wr_returns by blast
  show ?case using Cons.IH [of w1] by (simp add: rv w1)
qed

lemma write_each_of_all:
  "write_all wr rvs w = Some (ESP_OK, w') \<Longrightarrow> write_each wr rvs w = Some w'"
proof (induction rvs arbitrary: w)
  case Nil
  then show ?case by simp
next
  case (Cons rv rvs)
  obtain r v where rv: "rv = (r, v)" by (cases rv)
  obtain e w1 where w1: "wr r v w = Some (e, w1)" using wr_returns by blast
  from Cons rv w1 show ?case by (auto split: if_splits)
qed

lemma write_or_returns: "\<exists>e w'. write_or wr rvs acc w = Some (e, w')"
proof (induction rvs arbitrary: acc w)
  case Nil
  show ?case by simp
next
  case (Cons rv rvs)
  obtain r v where rv: "rv = (r, v)" by (cases rv)
  obtain e w1 where w1: "wr r v w = Some (e, w1)" using wr_returns by blast
  show ?case using Cons.IH [of "acc OR e" w1] by (simp add: rv w1)
qed

lemma write_or_ok:
  "write_or wr rvs acc w = Some (ESP_OK, w') \<Longrightarrow> acc = ESP_OK \<and> regs w' = regs w ++ map_of (rev rvs)"
proof (induction rvs arbitrary: acc w)
  case Nil
  then show ?case by simp
next
  case (Cons rv rvs)
  obtain r v where rv: "rv = (r, v)" by (cases rv)
  obtain e w1 where w1: "wr r v w = Some (e, w1)" using wr_returns by blast
  from Cons.prems rv w1 have "write_or wr rvs (acc OR e) w1 = Some (ESP_OK, w')" by simp
  from Cons.IH [OF this] have acc: "acc = ESP_OK" "e = ESP_OK"
    and regs: "regs w' = regs w1 ++ map_of (rev rvs)" by (auto simp: int_or_eq_0_iff)
  from wr_ok w1 acc have "regs w1 = (regs w)(r \<mapsto> v)" by blast
  with regs rv acc show ?case by (simp add: map_add_upd)
qed

end

text \<open>
  \<open>achieves regs a tbl\<close>: when the action \<open>a\<close> succeeds, the registers are as after the writes of \<open>tbl\<close>.
  Actions that stop at the first error compose by concatenating their tables.
\<close>

definition ESP_RETURN_ON_ERROR ::
  "('w \<Rightarrow> (esp_err \<times> 'w) option) \<Rightarrow> ('w \<Rightarrow> (esp_err \<times> 'w) option) \<Rightarrow> 'w \<Rightarrow> (esp_err \<times> 'w) option" where
  \<comment> \<open>the macro of \<^verbatim>\<open>esp_check.h\<close>, with the rest of the function it stands in\<close>
  "ESP_RETURN_ON_ERROR a rest w = do { (e, w) \<leftarrow> a w; if e \<noteq> ESP_OK then Some (e, w) else rest w }"

lemma ESP_RETURN_ON_ERROR_ok:
  "ESP_RETURN_ON_ERROR a rest w = Some (ESP_OK, w') \<longleftrightarrow>
     (\<exists>w1. a w = Some (ESP_OK, w1) \<and> rest w1 = Some (ESP_OK, w'))"
  by (auto simp: ESP_RETURN_ON_ERROR_def split: bind_splits prod.splits if_splits)

definition achieves ::
  "('w \<Rightarrow> u8 \<Rightarrow> u8 option) \<Rightarrow> ('w \<Rightarrow> (esp_err \<times> 'w) option) \<Rightarrow> (u8 \<times> u8) list \<Rightarrow> bool" where
  "achieves regs a tbl \<longleftrightarrow>
     (\<forall>w w'. a w = Some (ESP_OK, w') \<longrightarrow> regs w' = regs w ++ map_of (rev tbl))"

lemma achieves_seq:
  assumes "achieves regs a t1" and "achieves regs b t2"
  shows "achieves regs (ESP_RETURN_ON_ERROR a b) (t1 @ t2)"
  using assms unfolding achieves_def ESP_RETURN_ON_ERROR_ok by fastforce

context reg_device begin

lemma achieves_write: "achieves regs (wr r v) [(r, v)]"
  by (auto simp: achieves_def dest: wr_ok)

lemma achieves_write_all: "achieves regs (write_all wr rvs) rvs"
  by (auto simp: achieves_def dest: write_all_ok)

end

section \<open>Register files seen on the bus\<close>

text \<open>
  The register write a command link performs on the chip at \<open>addr\<close>, if it is one: a start, the
  address with the write bit, the register number and the value, with nothing read.
\<close>

fun written_bytes :: "i2c_cmd list \<Rightarrow> u8 list" where
  "written_bytes [] = []"
| "written_bytes (I2C_Write _ bs # cs) = bs @ written_bytes cs"
| "written_bytes (_ # cs) = written_bytes cs"

definition reg_write_of :: "u8 \<Rightarrow> i2c_cmd list \<Rightarrow> (u8 \<times> u8) option" where
  "reg_write_of addr cmds =
     (case written_bytes cmds of
        [a, r, v] \<Rightarrow> if a = push_bit 1 addr \<and> list_all (\<lambda>c. \<not> (case c of I2C_Read _ _ \<Rightarrow> True | _ \<Rightarrow> False)) cmds
                     then Some (r, v) else None
      | _ \<Rightarrow> None)"

text \<open>The registers of the chip at \<open>addr\<close> on \<open>port\<close> that acknowledged writes have set.\<close>

fun reg_step :: "nat \<Rightarrow> u8 \<Rightarrow> event \<Rightarrow> (u8 \<Rightarrow> u8 option) \<Rightarrow> (u8 \<Rightarrow> u8 option)" where
  "reg_step port addr (I2C (I2C_exec p cmds _), r) m =
     (if p = port \<and> ret r = ESP_OK
      then (case reg_write_of addr cmds of Some (a, v) \<Rightarrow> m(a \<mapsto> v) | None \<Rightarrow> m) else m)"
| "reg_step port addr _ m = m"

definition dev_regs :: "nat \<Rightarrow> u8 \<Rightarrow> 'a world_scheme \<Rightarrow> u8 \<Rightarrow> u8 option" where
  "dev_regs port addr w = fold (reg_step port addr) (log w) Map.empty"

lemma dev_regs_after [simp]:
  "dev_regs port addr (after w c) = reg_step port addr (c, reply_to w c) (dev_regs port addr w)"
  by (simp add: dev_regs_def)

text \<open>
  Running a link that writes register \<open>r\<close> meets the contract: the write is recorded exactly when it
  succeeds.
\<close>

lemma i2c_run_regs:
  assumes "reg_write_of addr cmds = Some (r, v)" and "i2c_run port cmds ticks w = (e, bs, w')"
  shows "dev_regs port addr w' = (if e = ESP_OK then (dev_regs port addr w)(r \<mapsto> v) else dev_regs port addr w)"
  using assms by (auto simp: i2c_run_def Let_def split: if_splits)

lemma reg_write_of_write_link [simp]: "reg_write_of addr (write_link addr [r, v]) = Some (r, v)"
  by (simp add: reg_write_of_def write_link_def)

text \<open>Every driver function that writes a register with \<open>i2c_master_write_to_device\<close> is such a device.\<close>

lemma write_to_device_reg_device:
  "reg_device (\<lambda>r v. i2c_master_write_to_device port addr [r, v] ticks) (dev_regs port addr)"
proof
  fix r v and w :: "'a world_scheme"
  show "\<exists>e w'. i2c_master_write_to_device port addr [r, v] ticks w = Some (e, w')"
    by (simp add: write_to_device_eq split: prod.splits)
next
  fix r v and w w' :: "'a world_scheme"
  assume "i2c_master_write_to_device port addr [r, v] ticks w = Some (ESP_OK, w')"
  then show "dev_regs port addr w' = (dev_regs port addr w)(r \<mapsto> v)"
    by (auto simp: write_to_device_eq split: prod.splits dest!: i2c_run_regs [rotated])
next
  fix r v e and w w' :: "'a world_scheme"
  assume "i2c_master_write_to_device port addr [r, v] ticks w = Some (e, w')" "e \<noteq> ESP_OK"
  then show "dev_regs port addr w' = dev_regs port addr w"
    by (auto simp: write_to_device_eq split: prod.splits dest!: i2c_run_regs [rotated])
qed

text \<open>Reading a register changes no register, and never fails to return.\<close>

lemma reg_write_of_write_read_link [simp]:
  "0 < n \<Longrightarrow> reg_write_of addr (write_read_link a bs n) = None"
  by (simp add: reg_write_of_def write_read_link_def read_part_def split: list.splits)

lemma write_read_device_regs:
  assumes "i2c_master_write_read_device port a bs buf ticks w = Some (e, buf', w')"
  shows "dev_regs p addr w' = dev_regs p addr w"
proof (cases "buf = []")
  case True
  with assms show ?thesis by (simp add: write_read_device_empty)
next
  case False
  with assms show ?thesis
    by (auto simp: write_read_device_eq i2c_run_def Let_def split: prod.splits if_splits)
qed

lemma write_read_device_returns:
  "\<exists>e buf' w'. i2c_master_write_read_device port a bs buf ticks w = Some (e, buf', w') \<and> length buf' = length buf"
  by (cases "buf = []") (simp_all add: write_read_device_empty write_read_device_eq split: prod.splits)

section \<open>Environments that acknowledge everything\<close>

definition acks :: "'a world_scheme \<Rightarrow> bool" where
  "acks w \<longleftrightarrow> (\<forall>h c. ret (wenv w h c) = ESP_OK)"

definition bus_up :: "nat \<Rightarrow> 'a world_scheme \<Rightarrow> bool" where
  "bus_up port w \<longleftrightarrow> port < I2C_NUM_MAX \<and> i2c_obj w port = Some I2C_MODE_MASTER"

lemma acks_after [simp]: "acks (after w c) = acks w"
  by (simp add: acks_def)

lemma bus_up_after [simp]: "bus_up port (after w c) = bus_up port w"
  by (simp add: bus_up_def)

lemma acks_reply: "acks w \<Longrightarrow> ret (reply_to w c) = ESP_OK"
  by (simp add: acks_def reply_to_def)

lemma i2c_run_up:
  "bus_up port w \<Longrightarrow> i2c_run port cmds ticks w =
     (let c = I2C (I2C_exec port cmds ticks) in (ret (reply_to w c), out (reply_to w c), after w c))"
  by (simp add: i2c_run_def bus_up_def)

lemma write_to_device_acked:
  "acks w \<Longrightarrow> bus_up port w \<Longrightarrow>
   i2c_master_write_to_device port addr bs ticks w =
     Some (ESP_OK, after w (I2C (I2C_exec port (write_link addr bs) ticks)))"
  by (simp add: write_to_device_eq i2c_run_up acks_reply Let_def)

lemma write_read_device_up:
  "bus_up port w \<Longrightarrow> buf \<noteq> [] \<Longrightarrow>
   i2c_master_write_read_device port addr bs buf ticks w =
     (let c = I2C (I2C_exec port (write_read_link addr bs (length buf)) ticks)
      in Some (ret (reply_to w c), overlay (out (reply_to w c)) buf, after w c))"
  by (simp add: write_read_device_eq i2c_run_up Let_def)

lemma driver_install_acked:
  assumes "acks w" and "port < I2C_NUM_MAX" and "i2c_obj w port = None \<or> i2c_obj w port = Some I2C_MODE_MASTER"
  shows "\<exists>e w'. i2c_driver_install port I2C_MODE_MASTER a b c w = (e, w') \<and> acks w' \<and> bus_up port w' \<and>
           dev_regs p addr w' = dev_regs p addr w"
  using assms
  by (auto simp: i2c_driver_install_def bus_up_def do_call_eq acks_reply Let_def)
     (auto simp: acks_def dev_regs_def)

end
