(* ===== verification/Pca9557.thy ===== *)
theory Pca9557
  imports Reg_Device
begin

text \<open>
  The PCA9557 I/O expander of components/LCD/LCD.c: the chip at address 0x19 that drives the
  LCD's chip select, the audio amplifier and the camera's power-down pin.
\<close>

definition BSP_I2C_NUM :: nat where "BSP_I2C_NUM = 0"
definition PCA9557_SENSOR_ADDR :: u8 where "PCA9557_SENSOR_ADDR = 0x19"
definition PCA9557_OUTPUT_PORT :: u8 where "PCA9557_OUTPUT_PORT = 0x01"
definition PCA9557_CONFIGURATION_PORT :: u8 where "PCA9557_CONFIGURATION_PORT = 0x03"

definition LCD_CS_GPIO :: u8 where "LCD_CS_GPIO = push_bit 0 1"
definition PA_EN_GPIO :: u8 where "PA_EN_GPIO = push_bit 1 1"
definition DVP_PWDN_GPIO :: u8 where "DVP_PWDN_GPIO = push_bit 2 1"

definition SET_BITS :: "u8 \<Rightarrow> u8 \<Rightarrow> u8 \<Rightarrow> u8" where
  "SET_BITS m s v = (if v \<noteq> 0 then m OR s else m AND NOT s)"

definition pca9557_register_read ::
  "u8 \<Rightarrow> u8 list \<Rightarrow> 'a world_scheme \<Rightarrow> (esp_err \<times> u8 list \<times> 'a world_scheme) option" where
  "pca9557_register_read reg_addr buf w =
     i2c_master_write_read_device BSP_I2C_NUM PCA9557_SENSOR_ADDR [reg_addr] buf (1000 div 10) w"

definition pca9557_register_write_byte ::
  "u8 \<Rightarrow> u8 \<Rightarrow> 'a world_scheme \<Rightarrow> (esp_err \<times> 'a world_scheme) option" where
  "pca9557_register_write_byte reg_addr data w =
     i2c_master_write_to_device BSP_I2C_NUM PCA9557_SENSOR_ADDR [reg_addr, data] (1000 div 10) w"

definition pca9557_init :: "'a world_scheme \<Rightarrow> 'a world_scheme option" where
  "pca9557_init w = write_each pca9557_register_write_byte
     [(PCA9557_OUTPUT_PORT, 0x05), (PCA9557_CONFIGURATION_PORT, 0xf8)] w"

text \<open>
  \<open>data0\<close> is what the uninitialised local \<^verbatim>\<open>data\<close> happens to hold.  The result of the register read
  is not checked.
\<close>

definition pca9557_set_output_state ::
  "u8 \<Rightarrow> u8 \<Rightarrow> u8 \<Rightarrow> 'a world_scheme \<Rightarrow> (esp_err \<times> 'a world_scheme) option" where
  "pca9557_set_output_state data0 gpio_bit level w = do {
     (_, data, w) \<leftarrow> pca9557_register_read PCA9557_OUTPUT_PORT [data0] w;
     pca9557_register_write_byte PCA9557_OUTPUT_PORT (SET_BITS (hd data) gpio_bit level) w }"

definition lcd_cs :: "u8 \<Rightarrow> u8 \<Rightarrow> 'a world_scheme \<Rightarrow> 'a world_scheme option" where
  "lcd_cs data0 level w = do {
     (_, w) \<leftarrow> pca9557_set_output_state data0 LCD_CS_GPIO level w; Some w }"

definition pa_en :: "u8 \<Rightarrow> u8 \<Rightarrow> 'a world_scheme \<Rightarrow> 'a world_scheme option" where
  "pa_en data0 level w = do {
     (_, w) \<leftarrow> pca9557_set_output_state data0 PA_EN_GPIO level w; Some w }"

definition dvp_pwdn :: "u8 \<Rightarrow> u8 \<Rightarrow> 'a world_scheme \<Rightarrow> 'a world_scheme option" where
  "dvp_pwdn data0 level w = do {
     (_, w) \<leftarrow> pca9557_set_output_state data0 DVP_PWDN_GPIO level w; Some w }"

section \<open>The expander as a register device\<close>

abbreviation pca_regs :: "'a world_scheme \<Rightarrow> u8 \<Rightarrow> u8 option" where
  "pca_regs \<equiv> dev_regs BSP_I2C_NUM PCA9557_SENSOR_ADDR"

lemma pca9557_write_fun:
  "pca9557_register_write_byte =
     (\<lambda>r v. i2c_master_write_to_device BSP_I2C_NUM PCA9557_SENSOR_ADDR [r, v] (1000 div 10))"
  by (simp add: pca9557_register_write_byte_def fun_eq_iff)

interpretation pca: reg_device pca9557_register_write_byte pca_regs
  unfolding pca9557_write_fun by (rule write_to_device_reg_device)

lemma bit_SET_BITS:
  "k < 8 \<Longrightarrow> j < 8 \<Longrightarrow> bit (SET_BITS m (push_bit k 1) v) j = (if j = k then v \<noteq> 0 else bit m j)"
  by (auto simp: SET_BITS_def bit_simps)

lemma pca9557_set_output_state_regs:
  assumes "pca9557_register_read PCA9557_OUTPUT_PORT [data0] w = Some (e, [d], w1)"
    and "pca9557_set_output_state data0 s level w = Some (ESP_OK, w2)"
  shows "pca_regs w2 = (pca_regs w)(PCA9557_OUTPUT_PORT \<mapsto> SET_BITS d s level)"
proof -
  have "pca_regs w1 = pca_regs w"
    using assms(1) unfolding pca9557_register_read_def by (rule write_read_device_regs)
  moreover have "pca9557_register_write_byte PCA9557_OUTPUT_PORT (SET_BITS d s level) w1 = Some (ESP_OK, w2)"
    using assms by (simp add: pca9557_set_output_state_def)
  ultimately show ?thesis by (metis pca.wr_ok)
qed

section \<open>Properties\<close>

text \<open>
  C38. \<^verbatim>\<open>pca9557_set_output_state\<close> changes exactly one pin: if the read of the output register
  delivers \<open>d\<close> and the write is acknowledged, then afterwards the chip's output register is \<open>d\<close>
  with the pin's bit at the wanted level and every other pin as read, and no other register of
  the chip has changed.
\<close>

theorem pca9557_set_output_state_one_pin:
  assumes "pca9557_register_read PCA9557_OUTPUT_PORT [data0] w = Some (e, [d], w1)"
    and "pca9557_set_output_state data0 (push_bit k 1) level w = Some (ESP_OK, w2)"
    and "k < 8"
  shows "\<exists>v. pca_regs w2 = (pca_regs w)(PCA9557_OUTPUT_PORT \<mapsto> v) \<and>
             (\<forall>j < 8. bit v j = (if j = k then level \<noteq> 0 else bit d j))"
  using pca9557_set_output_state_regs [OF assms(1,2)] bit_SET_BITS [OF assms(3)] by blast

text \<open>A world in which the expander acknowledges everything and its output register reads 0x05.\<close>

definition pca_demo :: world where
  "pca_demo = \<lparr>wenv = (\<lambda>_ _. \<lparr>ret = 0, out = [5], content = [], hnd = 0\<rparr>), log = [], i2c_obj = [0 \<mapsto> I2C_MODE_MASTER]\<rparr>"

lemmas pca_eval = pca9557_register_read_def pca9557_set_output_state_def pca9557_register_write_byte_def
  write_read_device_eq write_to_device_eq i2c_run_def reply_to_def after_def pca_demo_def BSP_I2C_NUM_def

theorem pca9557_set_output_state_one_pin_witness:
  "\<exists>w2 v. pca9557_set_output_state 0 (push_bit 1 1) 1 pca_demo = Some (ESP_OK, w2) \<and>
     pca_regs w2 = (pca_regs pca_demo)(PCA9557_OUTPUT_PORT \<mapsto> v) \<and>
     (\<forall>j < 8. bit v j = (if j = 1 then (1 :: u8) \<noteq> 0 else bit (5 :: u8) j))"
proof -
  obtain w1 where r: "pca9557_register_read PCA9557_OUTPUT_PORT [0] pca_demo = Some (0, [5], w1)"
    by (simp add: pca_eval)
  obtain w2 where s: "pca9557_set_output_state 0 (push_bit 1 1) 1 pca_demo = Some (ESP_OK, w2)"
    by (simp add: pca_eval)
  show ?thesis using pca9557_set_output_state_one_pin [OF r s] s by auto
qed

text \<open>
  When the read of the output register delivers no byte (a bus error), the unchecked error
  makes \<^verbatim>\<open>pca9557_set_output_state\<close> write a value computed from the uninitialised local: what
  the other seven pins are driven to depends on stack garbage.
\<close>

theorem pca9557_set_output_state_unchecked_read:
  assumes "pca9557_register_read PCA9557_OUTPUT_PORT [data0] w = Some (ESP_FAIL, [data0], w1)"
    and "pca9557_set_output_state data0 s level w = Some (ESP_OK, w2)"
  shows "pca_regs w2 PCA9557_OUTPUT_PORT = Some (SET_BITS data0 s level)"
  using pca9557_set_output_state_regs [OF assms] by simp

text \<open>A world in which reads of the expander fail and writes are acknowledged.\<close>

definition pca_read_fails :: world where
  "pca_read_fails = pca_demo\<lparr>wenv := (\<lambda>h _. if h = [] then answer ESP_FAIL else answer ESP_OK)\<rparr>"

theorem pca9557_set_output_state_unchecked_read_witness:
  "\<exists>w2 w2'. pca9557_set_output_state 0 LCD_CS_GPIO 0 pca_read_fails = Some (ESP_OK, w2) \<and>
     pca_regs w2 PCA9557_OUTPUT_PORT = Some 0 \<and>
     pca9557_set_output_state 255 LCD_CS_GPIO 0 pca_read_fails = Some (ESP_OK, w2') \<and>
     pca_regs w2' PCA9557_OUTPUT_PORT = Some 254"
proof -
  have r: "\<exists>w1. pca9557_register_read PCA9557_OUTPUT_PORT [d] pca_read_fails = Some (ESP_FAIL, [d], w1)" for d
    by (simp add: pca_eval pca_read_fails_def)
  have s: "\<exists>w2. pca9557_set_output_state d LCD_CS_GPIO 0 pca_read_fails = Some (ESP_OK, w2)" for d
    by (simp add: pca_eval pca_read_fails_def)
  obtain w1 w1' where r0: "pca9557_register_read PCA9557_OUTPUT_PORT [0] pca_read_fails = Some (ESP_FAIL, [0], w1)"
    and r1: "pca9557_register_read PCA9557_OUTPUT_PORT [255] pca_read_fails = Some (ESP_FAIL, [255], w1')"
    using r by blast
  obtain w2 w2' where s0: "pca9557_set_output_state 0 LCD_CS_GPIO 0 pca_read_fails = Some (ESP_OK, w2)"
    and s1: "pca9557_set_output_state 255 LCD_CS_GPIO 0 pca_read_fails = Some (ESP_OK, w2')"
    using s by blast
  show ?thesis
    using s0 s1 pca9557_set_output_state_unchecked_read [OF r0 s0]
      pca9557_set_output_state_unchecked_read [OF r1 s1]
    by (auto simp: SET_BITS_def LCD_CS_GPIO_def)
qed

text \<open>
  \<^verbatim>\<open>pca9557_init\<close> always returns, and if both of its writes are acknowledged the chip drives
  pins 0 to 2 as outputs (the others stay inputs) with the LCD deselected, the amplifier off and
  the camera powered down.
\<close>

theorem pca9557_init_pins:
  assumes "write_all pca9557_register_write_byte
      [(PCA9557_OUTPUT_PORT, 0x05), (PCA9557_CONFIGURATION_PORT, 0xf8)] w = Some (ESP_OK, w')"
  shows "pca9557_init w = Some w' \<and>
    (\<exists>lvl cfg. pca_regs w' PCA9557_OUTPUT_PORT = Some lvl \<and> pca_regs w' PCA9557_CONFIGURATION_PORT = Some cfg \<and>
       (\<forall>j < 8. bit cfg j \<longleftrightarrow> 3 \<le> j) \<and>
       lvl AND LCD_CS_GPIO \<noteq> 0 \<and> lvl AND PA_EN_GPIO = 0 \<and> lvl AND DVP_PWDN_GPIO \<noteq> 0)"
proof -
  have "\<forall>j < 8. bit (0xf8 :: u8) j \<longleftrightarrow> 3 \<le> j"
    by (simp add: All_less_Suc numeral_eq_Suc) 
  then show ?thesis
    using pca.write_each_of_all [OF assms] pca.write_all_ok [OF assms]
    by (simp add: pca9557_init_def PCA9557_OUTPUT_PORT_def PCA9557_CONFIGURATION_PORT_def
        LCD_CS_GPIO_def PA_EN_GPIO_def DVP_PWDN_GPIO_def)
qed

theorem pca9557_init_pins_witness:
  "\<exists>w'. pca9557_init pca_demo = Some w' \<and>
    (\<exists>lvl cfg. pca_regs w' PCA9557_OUTPUT_PORT = Some lvl \<and> pca_regs w' PCA9557_CONFIGURATION_PORT = Some cfg \<and>
       (\<forall>j < 8. bit cfg j \<longleftrightarrow> 3 \<le> j) \<and>
       lvl AND LCD_CS_GPIO \<noteq> 0 \<and> lvl AND PA_EN_GPIO = 0 \<and> lvl AND DVP_PWDN_GPIO \<noteq> 0)"
proof -
  obtain w' where "write_all pca9557_register_write_byte
      [(PCA9557_OUTPUT_PORT, 0x05), (PCA9557_CONFIGURATION_PORT, 0xf8)] pca_demo = Some (ESP_OK, w')"
    by (simp add: pca_eval)
  from pca9557_init_pins [OF this] show ?thesis by blast
qed

end
