(* ===== verification/Display.thy ===== *)
theory Display
  imports St7789 Pca9557
begin

text \<open>
  The display half of components/LCD/LCD.c: the PWM backlight, the set-up of the ST7789 behind
  SPI3 and the PCA9557's chip select, and the drawing functions.  The static variables
  \<^verbatim>\<open>panel_handle\<close> and \<^verbatim>\<open>io_handle\<close> are fields of \<open>lcd_world\<close>.
\<close>

section \<open>State\<close>

record lcd_world = panel_world +
  panel_handle :: ptr
  io_handle :: ptr

lemma lcd_statics_after [simp]:
  "panel_handle (after w c) = panel_handle w" "io_handle (after w c) = io_handle w"
  by (simp_all add: after_def)

definition BSP_LCD_H_RES :: nat where "BSP_LCD_H_RES = 320"
definition BSP_LCD_V_RES :: nat where "BSP_LCD_V_RES = 240"
definition BSP_LCD_SPI_NUM :: nat where "BSP_LCD_SPI_NUM = 2"
definition BSP_LCD_BACKLIGHT :: int where "BSP_LCD_BACKLIGHT = 42"
definition BSP_LCD_DC :: int where "BSP_LCD_DC = 39"
definition LEDC_LOW_SPEED_MODE :: nat where "LEDC_LOW_SPEED_MODE = 0"
definition LCD_LEDC_CH :: nat where "LCD_LEDC_CH = 0"

lemmas display_consts = BSP_LCD_H_RES_def BSP_LCD_V_RES_def BSP_LCD_SPI_NUM_def BSP_LCD_BACKLIGHT_def
  BSP_LCD_DC_def LEDC_LOW_SPEED_MODE_def LCD_LEDC_CH_def

section \<open>The I2C bus\<close>

definition bsp_i2c_init :: "'a world_scheme \<Rightarrow> esp_err \<times> 'a world_scheme" where
  "bsp_i2c_init w =
     (let w = call_void (I2C (I2C_param_config BSP_I2C_NUM 1 2 True True 100000)) w
      in i2c_driver_install BSP_I2C_NUM I2C_MODE_MASTER 0 0 0 w)"

section \<open>Backlight\<close>

definition bsp_display_brightness_init :: "'a world_scheme \<Rightarrow> (esp_err \<times> 'a world_scheme) option" where
  "bsp_display_brightness_init w = do {
     w \<leftarrow> ESP_ERROR_CHECK (call_ret (LEDC (Ledc_timer_config LEDC_LOW_SPEED_MODE 10 1 5000 0)) w);
     w \<leftarrow> ESP_ERROR_CHECK (call_ret
            (LEDC (Ledc_channel_config BSP_LCD_BACKLIGHT LEDC_LOW_SPEED_MODE LCD_LEDC_CH 1 0 0 True)) w);
     Some (ESP_OK, w) }"

definition bsp_display_brightness_set :: "int \<Rightarrow> 'a world_scheme \<Rightarrow> (esp_err \<times> 'a world_scheme) option" where
  "bsp_display_brightness_set brightness_percent w =
    (let brightness_percent = (if brightness_percent > 100 then 100
                               else if brightness_percent < 0 then 0 else brightness_percent);
         duty_cycle = word_of_int ((1023 * brightness_percent) sdiv 100)
     in do {
       w \<leftarrow> ESP_ERROR_CHECK (call_ret (LEDC (Ledc_set_duty LEDC_LOW_SPEED_MODE LCD_LEDC_CH duty_cycle)) w);
       w \<leftarrow> ESP_ERROR_CHECK (call_ret (LEDC (Ledc_update_duty LEDC_LOW_SPEED_MODE LCD_LEDC_CH)) w);
       Some (ESP_OK, w) })"

definition bsp_display_backlight_off :: "'a world_scheme \<Rightarrow> (esp_err \<times> 'a world_scheme) option" where
  "bsp_display_backlight_off w = bsp_display_brightness_set 0 w"

definition bsp_display_backlight_on :: "'a world_scheme \<Rightarrow> (esp_err \<times> 'a world_scheme) option" where
  "bsp_display_backlight_on w = bsp_display_brightness_set 100 w"

section \<open>Setting up the panel\<close>

definition lcd_io_config :: esp_lcd_panel_io_spi_config_t where
  "lcd_io_config =
     \<lparr>cfg_cs_gpio_num = - 1, cfg_dc_gpio_num = BSP_LCD_DC, cfg_spi_mode = 2, cfg_pclk_hz = 80 * 1000 * 1000,
      cfg_trans_queue_depth = 10, cfg_on_color_trans_done = 0, cfg_user_ctx = 0, cfg_lcd_cmd_bits = 8,
      cfg_lcd_param_bits = 8, cfg_dc_high_on_cmd = False, cfg_dc_low_on_data = False, cfg_dc_low_on_param = False,
      cfg_octal_mode = False, cfg_quad_mode = False, cfg_sio_mode = False, cfg_lsb_first = False,
      cfg_cs_high_active = False\<rparr>"

definition lcd_panel_config :: esp_lcd_panel_dev_config_t where
  "lcd_panel_config =
     \<lparr>dev_reset_gpio_num = - 1, dev_rgb_endian = 0, dev_data_endian = 0, dev_bits_per_pixel = 16,
      dev_reset_active_high = False\<rparr>"

text \<open>The label \<^verbatim>\<open>err\<close>: the objects are deleted, the static variables keep pointing to them.\<close>

definition bsp_display_new_err :: "esp_err \<Rightarrow> 'a lcd_world_scheme \<Rightarrow> (esp_err \<times> 'a lcd_world_scheme) option" where
  "bsp_display_new_err e w = do {
     w \<leftarrow> (if panel_handle w \<noteq> 0 then do { (_, w) \<leftarrow> esp_lcd_panel_del (panel_handle w) w; Some w } else Some w);
     w \<leftarrow> (if io_handle w \<noteq> 0 then do { (_, w) \<leftarrow> esp_lcd_panel_io_del (io_handle w) w; Some w } else Some w);
     Some (e, call_void (SPI (Spi_bus_free BSP_LCD_SPI_NUM)) w) }"

text \<open>\<open>data0\<close>: the indeterminate local of the chip select's read-modify-write.\<close>

definition bsp_display_new :: "u8 \<Rightarrow> 'a lcd_world_scheme \<Rightarrow> (esp_err \<times> 'a lcd_world_scheme) option" where
  "bsp_display_new data0 w = do {
     (e, w) \<leftarrow> bsp_display_brightness_init w;
     if e \<noteq> ESP_OK then Some (e, w)
     else let (r, w) = do_call (SPI (Spi_bus_initialize BSP_LCD_SPI_NUM 41 40 (- 1)
                                  (BSP_LCD_H_RES * BSP_LCD_V_RES * 2))) w
     in if ret r \<noteq> ESP_OK then Some (ret r, w)
     else let (e, h, w) = esp_lcd_new_panel_io_spi BSP_LCD_SPI_NUM lcd_io_config w
     in if e \<noteq> ESP_OK then bsp_display_new_err e w
     else let w = w\<lparr>io_handle := h\<rparr>;
              (e, p, w) = esp_lcd_new_panel_st7789 (io_handle w) lcd_panel_config w
     in if e \<noteq> ESP_OK then bsp_display_new_err e w
     else let w = w\<lparr>panel_handle := p\<rparr>
     in do {
       (_, w) \<leftarrow> esp_lcd_panel_reset (panel_handle w) w;
       w \<leftarrow> lcd_cs data0 0 w;
       (_, w) \<leftarrow> esp_lcd_panel_init (panel_handle w) w;
       (_, w) \<leftarrow> esp_lcd_panel_invert_color (panel_handle w) True w;
       (_, w) \<leftarrow> esp_lcd_panel_swap_xy (panel_handle w) True w;
       (_, w) \<leftarrow> esp_lcd_panel_mirror (panel_handle w) True False w;
       Some (ESP_OK, w) } }"

section \<open>Drawing\<close>

text \<open>A 16-bit value in memory (little-endian), and the buffer of \<open>n\<close> equal pixels.\<close>

definition le_bytes :: "u16 \<Rightarrow> u8 list" where
  "le_bytes c = [ucast c, ucast (drop_bit 8 c)]"

definition line_buffer :: "nat \<Rightarrow> u16 \<Rightarrow> u8 list" where
  "line_buffer n c = concat (replicate n (le_bytes c))"

fun draw_rows :: "nat list \<Rightarrow> ptr \<Rightarrow> u8 list \<Rightarrow> 'a lcd_world_scheme \<Rightarrow> 'a lcd_world_scheme option" where
  "draw_rows [] buffer data w = Some w"
| "draw_rows (y # ys) buffer data w = do {
     (_, w) \<leftarrow> esp_lcd_panel_draw_bitmap (panel_handle w) 0 (int y) 320 (int y + 1) buffer data w;
     draw_rows ys buffer data w }"

abbreviation spiram_caps :: nat where "spiram_caps \<equiv> 1028"   \<comment> \<open>\<^verbatim>\<open>MALLOC_CAP_8BIT | MALLOC_CAP_SPIRAM\<close>\<close>

definition lcd_set_color :: "u16 \<Rightarrow> 'a lcd_world_scheme \<Rightarrow> 'a lcd_world_scheme option" where
  "lcd_set_color color w =
    (let (r, w) = do_call (MEM (Malloc (BSP_LCD_H_RES * 2) spiram_caps)) w; buffer = handle (ret r)
     in if buffer = 0 then Some w
        else do { w \<leftarrow> draw_rows [0..<240] buffer (line_buffer BSP_LCD_H_RES color) w;
                  Some (call_void (MEM (Free buffer)) w) })"

text \<open>\<open>gImage\<close>: the bytes readable at the image's address.\<close>

definition lcd_draw_pictrue ::
  "int \<Rightarrow> int \<Rightarrow> int \<Rightarrow> int \<Rightarrow> u8 list \<Rightarrow> 'a lcd_world_scheme \<Rightarrow> 'a lcd_world_scheme option" where
  "lcd_draw_pictrue x_start y_start x_end y_end gImage w =
    (let bytes = (x_end - x_start) * (y_end - y_start) * 2
     in if s32 (x_end - x_start) \<noteq> x_end - x_start \<or> s32 (y_end - y_start) \<noteq> y_end - y_start \<or>
           s32 ((x_end - x_start) * (y_end - y_start)) \<noteq> (x_end - x_start) * (y_end - y_start) \<or> s32 bytes \<noteq> bytes
        then None
        else let pixels_byte_size = nat (bytes mod 2 ^ 32);
                 (r, w) = do_call (MEM (Malloc pixels_byte_size spiram_caps)) w; buffer = handle (ret r)
        in if buffer = 0 then Some w
        else if length gImage < pixels_byte_size then None
        else do {
          (_, w) \<leftarrow> esp_lcd_panel_draw_bitmap (panel_handle w) x_start y_start x_end y_end buffer
                     (take pixels_byte_size gImage) w;
          Some (call_void (MEM (Free buffer)) w) })"

text \<open>\<open>slot\<close>: the address of the parameter \<^verbatim>\<open>color\<close> on the stack.\<close>

definition lcd_draw_point :: "ptr \<Rightarrow> int \<Rightarrow> int \<Rightarrow> u16 \<Rightarrow> 'a lcd_world_scheme \<Rightarrow> 'a lcd_world_scheme option" where
  "lcd_draw_point slot x y color w = do {
     (_, w) \<leftarrow> esp_lcd_panel_draw_bitmap (panel_handle w) x y (x + 1) (y + 1) slot (le_bytes color) w;
     Some w }"

definition bsp_lcd_init :: "u8 \<Rightarrow> 'a lcd_world_scheme \<Rightarrow> (esp_err \<times> 'a lcd_world_scheme) option" where
  "bsp_lcd_init data0 w = do {
     (_, w) \<leftarrow> bsp_display_new data0 w;
     w \<leftarrow> lcd_set_color 0x0000 w;
     (_, w) \<leftarrow> esp_lcd_panel_disp_on_off (panel_handle w) True w;
     (e, w) \<leftarrow> bsp_display_backlight_on w;
     Some (e, w) }"

section \<open>What the display shows\<close>

lemma zless_add1_self: "(x :: int) < x + 1"
  by simp

text \<open>\<open>paints w w' f\<close>: the bytes sent from \<open>w\<close> to \<open>w'\<close> change the controller's frame memory by \<open>f\<close>.\<close>

definition paints ::
  "'a lcd_world_scheme \<Rightarrow> 'a lcd_world_scheme \<Rightarrow> ((nat \<times> nat \<Rightarrow> u16) \<Rightarrow> nat \<times> nat \<Rightarrow> u16) \<Rightarrow> bool" where
  "paints w w' f \<longleftrightarrow> wenv w' = wenv w \<and>
     (\<exists>evs. log w' = log w @ evs \<and> (\<forall>g. g_ram (gram_run (wire evs) g) = f (g_ram g)))"

lemma paints_trans: "paints w w1 f \<Longrightarrow> paints w1 w2 g \<Longrightarrow> paints w w2 (g \<circ> f)"
  by (auto simp: paints_def gram_run_append)

lemma paints_id_trans: "paints w w1 id \<Longrightarrow> paints w1 w2 g \<Longrightarrow> paints w w2 g"
  using paints_trans [of w w1 id w2 g] by simp

lemma paints_refl [simp]: "paints w w id" "paints w w (\<lambda>r. r)"
  by (simp_all add: paints_def gram_run_def)

lemma paints_after [simp]: "spi_bytes (c, reply_to w' c) = [] \<Longrightarrow> paints w w' f \<Longrightarrow> paints w (after w' c) f"
  by (auto simp: paints_def)

lemma paints_new_events: "paints w w' f \<Longrightarrow> g_ram (gram_run (wire (new_events w w')) g) = f (g_ram g)"
  by (auto simp: paints_def new_events_def)

text \<open>A command other than RAMWR, with its parameters, leaves the frame memory alone.\<close>

lemma gram_args_quiet: "g_cmd g \<noteq> 0x2C \<Longrightarrow> g_ram (gram_run (map (Pair True) args) g) = g_ram g \<and> g_cmd (gram_run (map (Pair True) args) g) = g_cmd g"
proof (induction args arbitrary: g)
  case (Cons b args)
  have "g_cmd (gram_step (True, b) g) = g_cmd g \<and> g_ram (gram_step (True, b) g) = g_ram g"
    using Cons.prems by (auto simp: Let_def split: list.splits)
  with Cons show ?case by (simp add: gram_run_def)
qed (simp add: gram_run_def)

lemma gram_cmd_quiet: "c \<noteq> 0x2C \<Longrightarrow> g_ram (gram_run ((False, c) # map (Pair True) args) g) = g_ram g"
  using gram_args_quiet [of "gram_step (False, c) g" args] by (simp add: gram_run_def)

text \<open>A panel in working order, and the static variables (also those of the I2C driver and of the programs on top) untouched.\<close>

definition ready :: "ptr \<Rightarrow> st7789_panel_t \<Rightarrow> 'a lcd_world_scheme \<Rightarrow> bool" where
  "ready p pn w \<longleftrightarrow> p \<noteq> 0 \<and> panels w p = Some pn \<and> lcd_io (panel_io_h pn) w \<and> x_gap pn = 0 \<and> y_gap pn = 0 \<and>
     fb_bits_per_pixel pn = 16 \<and> reset_gpio_num pn < 0"

definition statics :: "'a lcd_world_scheme \<Rightarrow> ptr \<times> ptr \<times> (nat \<Rightarrow> int option) \<times> 'a" where
  "statics w = (panel_handle w, io_handle w, i2c_obj w, lcd_world.more w)"

lemma statics_simps [simp]:
  "statics (after w c) = statics w" "lcd_world.more (after w c) = lcd_world.more w" "statics (w\<lparr>ios := x\<rparr>) = statics w" "statics (w\<lparr>panels := y\<rparr>) = statics w"
  by (simp_all add: statics_def after_def)

lemma ready_lcd_panel: "ready p pn w \<Longrightarrow> lcd_panel p w"
  by (auto simp: ready_def lcd_panel_def)

lemma ready_after [simp]: "ready p pn (after w c) = ready p pn w"
  by (simp add: ready_def lcd_io_def)

lemma touched_ready:
  "ready p pn w \<Longrightarrow> touched (panel_io_h pn) w w' bs \<Longrightarrow> ready p pn w' \<and> statics w' = statics w"
  by (auto simp: touched_def ready_def statics_def)

lemma tx_param_ready:
  assumes "ready p pn w" and "panel_io_h pn' = panel_io_h pn" and "0 \<le> c" and "(word_of_int c :: u8) \<noteq> 0x2C"
  shows "\<exists>w'. tx_param pn' c bytes w = Some w' \<and> ready p pn w' \<and> statics w' = statics w \<and> paints w w' id"
proof -
  obtain w' where w': "tx_param pn' c bytes w = Some w'"
    "touched (panel_io_h pn) w w' ((False, word_of_int c) # map (Pair True) bytes)"
    using tx_param_wire [of pn' w c bytes] assms(1-3) by (auto simp: ready_def)
  have "paints w w' id"
    using w'(2) gram_cmd_quiet [OF assms(4)] by (auto simp: touched_def paints_def)
  with w' touched_ready [OF assms(1) w'(2)] show ?thesis by blast
qed

text \<open>The operations that set the panel up keep it in order, show nothing and always return.\<close>

definition settles :: "ptr \<Rightarrow> st7789_panel_t \<Rightarrow> st7789_panel_t \<Rightarrow> 'a lcd_world_scheme \<Rightarrow> 'a lcd_world_scheme \<Rightarrow> bool" where
  "settles p pn pn' w w' \<longleftrightarrow> ready p pn' w' \<and> statics w' = statics w \<and> paints w w' id"

lemma settles_trans: "settles p pn pn1 w w1 \<Longrightarrow> settles p pn1 pn2 w1 w2 \<Longrightarrow> settles p pn pn2 w w2"
  using paints_id_trans by (auto simp: settles_def)

lemma settles_after [simp]:
  "spi_bytes (c, reply_to w' c) = [] \<Longrightarrow> settles p pn pn' w w' \<Longrightarrow> settles p pn pn' w (after w' c)"
  by (simp add: settles_def)

lemma tx_param_settles:
  assumes "ready p pn w" and "0 \<le> c" and "(word_of_int c :: u8) \<noteq> 0x2C"
  shows "\<exists>w'. tx_param pn c bytes w = Some w' \<and> settles p pn pn w w'"
  using tx_param_ready [OF assms(1) refl assms(2,3), of bytes] by (auto simp: settles_def)

lemma reset_settles:
  assumes "ready p pn w"
  shows "\<exists>w'. esp_lcd_panel_reset p w = Some (ESP_OK, w') \<and> settles p pn pn w w'"
proof -
  obtain w1 where "tx_param pn LCD_CMD_SWRESET [] w = Some w1" "settles p pn pn w w1"
    using tx_param_settles [OF assms, of LCD_CMD_SWRESET "[]"] by (auto simp: lcd_consts)
  then show ?thesis using assms
    by (simp add: ready_def esp_lcd_panel_reset_def on_panel_def panel_st7789_reset_def io_simps)
qed

lemma init_settles:
  assumes "ready p pn w"
  shows "\<exists>w'. esp_lcd_panel_init p w = Some (ESP_OK, w') \<and> settles p pn pn w w'"
proof -
  obtain w1 where w1: "tx_param pn LCD_CMD_SLPOUT [] w = Some w1" "settles p pn pn w w1"
    using tx_param_settles [OF assms, of LCD_CMD_SLPOUT "[]"] by (auto simp: lcd_consts)
  let ?w1 = "after w1 (OS (Task_delay (pdMS_TO_TICKS 100)))"
  have s1: "settles p pn pn w ?w1" using w1(2) by simp
  then have "ready p pn ?w1" by (simp add: settles_def)
  then obtain w2 where w2: "tx_param pn LCD_CMD_MADCTL [madctl_val pn] ?w1 = Some w2" "settles p pn pn ?w1 w2"
    using tx_param_settles [of p pn ?w1 LCD_CMD_MADCTL "[madctl_val pn]"] by (auto simp: lcd_consts)
  then have "ready p pn w2" by (simp add: settles_def)
  then obtain w3 where w3: "tx_param pn LCD_CMD_COLMOD [colmod_cal pn] w2 = Some w3" "settles p pn pn w2 w3"
    using tx_param_settles [of p pn w2 LCD_CMD_COLMOD "[colmod_cal pn]"] by (auto simp: lcd_consts)
  then have "ready p pn w3" by (simp add: settles_def)
  then obtain w4 where w4: "tx_param pn ST7789_CMD_RAMCTRL [ramctl_val_1 pn, ramctl_val_2 pn] w3 = Some w4" "settles p pn pn w3 w4"
    using tx_param_settles [of p pn w3 ST7789_CMD_RAMCTRL "[ramctl_val_1 pn, ramctl_val_2 pn]"] by (auto simp: lcd_consts)
  have "settles p pn pn w w4"
    by (rule settles_trans [OF s1 settles_trans [OF w2(2) settles_trans [OF w3(2) w4(2)]]])
  then show ?thesis using assms w1(1) w2(1) w3(1) w4(1)
    by (simp add: ready_def esp_lcd_panel_init_def on_panel_def panel_st7789_init_def io_simps Let_def)
qed

lemma flag_settles:
  assumes "ready p pn w"
  shows "\<exists>w'. esp_lcd_panel_invert_color p b w = Some (ESP_OK, w') \<and> settles p pn pn w w'"
    and "\<exists>w'. esp_lcd_panel_disp_on_off p b w = Some (ESP_OK, w') \<and> settles p pn pn w w'"
proof -
  have s: "\<exists>w'. tx_param pn c [] w = Some w' \<and> settles p pn pn w w'"
    if "c \<in> {LCD_CMD_INVON, LCD_CMD_INVOFF, LCD_CMD_DISPON, LCD_CMD_DISPOFF}" for c
    by (rule tx_param_settles [OF assms]) (use that in \<open>auto simp: lcd_consts\<close>)
  obtain w1 where "tx_param pn (if b then LCD_CMD_INVON else LCD_CMD_INVOFF) [] w = Some w1" "settles p pn pn w w1"
    using s [of "if b then LCD_CMD_INVON else LCD_CMD_INVOFF"] by (cases b) auto
  then show "\<exists>w'. esp_lcd_panel_invert_color p b w = Some (ESP_OK, w') \<and> settles p pn pn w w'"
    using assms by (simp add: ready_def esp_lcd_panel_invert_color_def on_panel_def panel_st7789_invert_color_def)
  obtain w2 where "tx_param pn (if b then LCD_CMD_DISPON else LCD_CMD_DISPOFF) [] w = Some w2" "settles p pn pn w w2"
    using s [of "if b then LCD_CMD_DISPON else LCD_CMD_DISPOFF"] by (cases b) auto
  then show "\<exists>w'. esp_lcd_panel_disp_on_off p b w = Some (ESP_OK, w') \<and> settles p pn pn w w'"
    using assms by (simp add: ready_def esp_lcd_panel_disp_on_off_def on_panel_def panel_st7789_disp_on_off_def)
qed

lemma madctl_settles:
  assumes "ready p pn w"
  shows "\<exists>w'. do { w \<leftarrow> tx_param (pn\<lparr>madctl_val := m\<rparr>) LCD_CMD_MADCTL [m] w;
                  Some (ESP_OK, w\<lparr>panels := (panels w)(p \<mapsto> pn\<lparr>madctl_val := m\<rparr>)\<rparr>) } = Some (ESP_OK, w') \<and>
    settles p pn (pn\<lparr>madctl_val := m\<rparr>) w w'"
proof -
  obtain w1 where w1: "tx_param (pn\<lparr>madctl_val := m\<rparr>) LCD_CMD_MADCTL [m] w = Some w1" "ready p pn w1"
    "statics w1 = statics w" "paints w w1 id"
    using tx_param_ready [OF assms, of "pn\<lparr>madctl_val := m\<rparr>" LCD_CMD_MADCTL "[m]"] by (auto simp: lcd_consts)
  then have "settles p pn (pn\<lparr>madctl_val := m\<rparr>) w (w1\<lparr>panels := (panels w1)(p \<mapsto> pn\<lparr>madctl_val := m\<rparr>)\<rparr>)"
    by (simp add: settles_def ready_def lcd_io_def paints_def spi_up_def)
  with w1(1) show ?thesis by simp
qed

lemma swap_settles:
  assumes "ready p pn w" and "m = (if sw then madctl_val pn OR LCD_CMD_MV_BIT else madctl_val pn AND NOT LCD_CMD_MV_BIT)"
  shows "\<exists>w'. esp_lcd_panel_swap_xy p sw w = Some (ESP_OK, w') \<and> settles p pn (pn\<lparr>madctl_val := m\<rparr>) w w'"
proof -
  have "panel_st7789_swap_xy pn sw w =
      do { w \<leftarrow> tx_param (pn\<lparr>madctl_val := m\<rparr>) LCD_CMD_MADCTL [m] w; Some (ESP_OK, pn\<lparr>madctl_val := m\<rparr>, w) }"
    unfolding panel_st7789_swap_xy_def Let_def assms(2) [symmetric] by (rule refl)
  with madctl_settles [OF assms(1), of m] assms(1) show ?thesis
    by (auto simp: ready_def esp_lcd_panel_swap_xy_def on_panel_def split: bind_splits)
qed

lemma mirror_settles:
  assumes "ready p pn w" and "m0 = (if mx then madctl_val pn OR LCD_CMD_MX_BIT else madctl_val pn AND NOT LCD_CMD_MX_BIT)"
    and "m = (if my then m0 OR LCD_CMD_MY_BIT else m0 AND NOT LCD_CMD_MY_BIT)"
  shows "\<exists>w'. esp_lcd_panel_mirror p mx my w = Some (ESP_OK, w') \<and> settles p pn (pn\<lparr>madctl_val := m\<rparr>) w w'"
proof -
  have "panel_st7789_mirror pn mx my w =
      do { w \<leftarrow> tx_param (pn\<lparr>madctl_val := m\<rparr>) LCD_CMD_MADCTL [m] w; Some (ESP_OK, pn\<lparr>madctl_val := m\<rparr>, w) }"
    unfolding panel_st7789_mirror_def Let_def assms(2,3) [symmetric] by (rule refl)
  with madctl_settles [OF assms(1), of m] assms(1) show ?thesis
    by (auto simp: ready_def esp_lcd_panel_mirror_def on_panel_def split: bind_splits)
qed

text \<open>The chip select goes over I2C and touches nothing else.\<close>

lemma i2c_run_frame:
  "i2c_run port cmds ticks w = (e, bs, w') \<Longrightarrow> only_log w w' \<and> (\<exists>evs. log w' = log w @ evs \<and> wire evs = [] \<and> allocs evs = [] \<and> frees evs = [])"
  by (auto simp: i2c_run_def Let_def split: if_splits)

lemma lcd_cs_frame:
  "\<exists>w' evs. lcd_cs data0 l w = Some w' \<and> only_log w w' \<and> log w' = log w @ evs \<and> wire evs = [] \<and> allocs evs = [] \<and> frees evs = []"
proof -
  let ?l1 = "write_read_link PCA9557_SENSOR_ADDR [PCA9557_OUTPUT_PORT] (length [data0])"
  obtain e bs w1 where r1: "i2c_run BSP_I2C_NUM ?l1 (1000 div 10) w = (e, bs, w1)" by (metis prod_cases3)
  obtain d where d: "overlay bs [data0] = [d]"
    by (cases bs) auto
  let ?l2 = "write_link PCA9557_SENSOR_ADDR [PCA9557_OUTPUT_PORT, SET_BITS d LCD_CS_GPIO l]"
  obtain e2 bs2 w2 where r2: "i2c_run BSP_I2C_NUM ?l2 (1000 div 10) w1 = (e2, bs2, w2)" by (metis prod_cases3)
  have "lcd_cs data0 l w = Some w2"
    using r1 r2 d by (simp add: lcd_cs_def pca9557_set_output_state_def pca9557_register_read_def
        pca9557_register_write_byte_def write_read_device_eq write_to_device_eq)
  moreover obtain evs1 evs2 where "only_log w w1" "log w1 = log w @ evs1" "wire evs1 = []" "allocs evs1 = []" "frees evs1 = []"
    "only_log w1 w2" "log w2 = log w1 @ evs2" "wire evs2 = []" "allocs evs2 = []" "frees evs2 = []"
    using i2c_run_frame [OF r1] i2c_run_frame [OF r2] by blast
  ultimately show ?thesis
    by (intro exI [of _ w2] exI [of _ "evs1 @ evs2"]) (auto dest: only_log_trans)
qed

lemma lcd_cs_settles:
  assumes "ready p pn w"
  shows "\<exists>w'. lcd_cs data0 l w = Some w' \<and> settles p pn pn w w'"
proof -
  obtain w' evs where w': "lcd_cs data0 l w = Some w'" "only_log w w'" "log w' = log w @ evs" "wire evs = []"
    using lcd_cs_frame by blast
  have "w' = w\<lparr>log := log w @ evs\<rparr>" by (rule only_log_eq [OF w'(2,3)])
  with assms w' have "settles p pn pn w w'"
    by (simp add: settles_def ready_def lcd_io_def statics_def paints_def spi_up_def gram_run_def)
  with w'(1) show ?thesis by blast
qed

text \<open>A board whose SPI, LEDC and GPIO drivers and whose heap serve every call.\<close>

definition board_up :: "'a world_scheme \<Rightarrow> bool" where
  "board_up w \<longleftrightarrow> spi_up w \<and> (\<forall>h c. ret (wenv w h (LEDC c)) = ESP_OK) \<and> (\<forall>h c. ret (wenv w h (GPIO c)) = ESP_OK) \<and>
     (\<forall>h n m. 0 < ret (wenv w h (MEM (Calloc n m)))) \<and> (\<forall>h n m. 0 < ret (wenv w h (MEM (Malloc n m)))) \<and>
     (\<forall>h b. 0 < hnd (wenv w h (SPI (Spi_bus_get_max_transaction_len b))))"

lemma board_up_after [simp]: "board_up (after w c) = board_up w"
  by (simp add: board_up_def)

lemma board_up_same: "wenv w' = wenv w \<Longrightarrow> board_up w' = board_up w"
  by (simp add: board_up_def spi_up_def)

lemma board_up_replies:
  assumes "board_up w"
  shows "ret (reply_to w (SPI s)) = ESP_OK" "ret (reply_to w (LEDC l)) = ESP_OK" "ret (reply_to w (GPIO g)) = ESP_OK"
    "0 < handle (ret (reply_to w (MEM (Calloc n m))))" "0 < handle (ret (reply_to w (MEM (Malloc n m))))"
    "0 < hnd (reply_to w (SPI (Spi_bus_get_max_transaction_len b)))"
  using assms by (simp_all add: board_up_def reply_to_def spi_up_def handle_def)

text \<open>The objects that \<^verbatim>\<open>bsp_display_new\<close> creates.\<close>

definition lcd_io_object :: "ptr \<Rightarrow> nat \<Rightarrow> esp_lcd_panel_io_spi_t" where
  "lcd_io_object dev n =
     \<lparr>spi_dev = dev, spi_trans_max_bytes = n, dc_gpio_num = 39, on_color_trans_done = 0, user_ctx = 0, queue_size = 10,
      num_trans_inflight = 0, lcd_cmd_bits = 8, lcd_param_bits = 8, dc_cmd_level = False, dc_data_level = True,
      dc_param_level = True, octal_mode = False, quad_mode = False, busy = []\<rparr>"

lemma new_io_up:
  assumes "board_up w"
  shows "\<exists>h w'. esp_lcd_new_panel_io_spi BSP_LCD_SPI_NUM lcd_io_config w = (ESP_OK, h, w') \<and> h \<noteq> 0 \<and> board_up w' \<and>
    (\<exists>io. ios w' h = Some (Io_spi io) \<and> byte_io io \<and> busy io = [] \<and> num_trans_inflight io = 0 \<and> queue_size io = 10 \<and>
       \<not> dc_cmd_level io \<and> dc_data_level io \<and> dc_param_level io \<and> 0 < spi_trans_max_bytes io) \<and>
    wenv w' = wenv w \<and> (\<exists>evs. log w' = log w @ evs \<and> wire evs = [])"
  using assms
  by (simp add: esp_lcd_new_panel_io_spi_def lcd_io_config_def BSP_LCD_SPI_NUM_def BSP_LCD_DC_def do_call_eq Let_def
      board_up_replies byte_io_def) (simp add: board_up_def spi_up_def)

lemma new_panel_up:
  assumes "board_up w" and "h \<noteq> 0"
  shows "\<exists>p w' pn. esp_lcd_new_panel_st7789 h lcd_panel_config w = (ESP_OK, p, w') \<and> p \<noteq> 0 \<and> board_up w' \<and>
    ios w' = ios w \<and> panels w' p = Some pn \<and> panel_io_h pn = h \<and> reset_gpio_num pn < 0 \<and> x_gap pn = 0 \<and> y_gap pn = 0 \<and>
    fb_bits_per_pixel pn = 16 \<and> madctl_val pn = 0 \<and> wenv w' = wenv w \<and> (\<exists>evs. log w' = log w @ evs \<and> wire evs = [])"
  using assms
  by (simp add: esp_lcd_new_panel_st7789_def lcd_panel_config_def do_call_eq Let_def board_up_replies)
     (simp add: board_up_def spi_up_def)

lemma brightness_init_up:
  assumes "board_up w"
  shows "\<exists>w'. bsp_display_brightness_init w = Some (ESP_OK, w') \<and> board_up w' \<and> only_log w w' \<and>
    (\<exists>evs. log w' = log w @ evs \<and> wire evs = [])"
  using assms by (simp add: bsp_display_brightness_init_def io_simps board_up_replies)

lemma bsp_display_new_up:
  assumes "board_up w"
  shows "\<exists>w' pn. bsp_display_new data0 w = Some (ESP_OK, w') \<and> ready (panel_handle w') pn w' \<and>
    panel_io_h pn = io_handle w' \<and> madctl_val pn = LCD_CMD_MV_BIT OR LCD_CMD_MX_BIT \<and> paints w w' id \<and>
    lcd_world.more w' = lcd_world.more w \<and> i2c_obj w' = i2c_obj w"
proof -
  obtain w1 evs1 where w1: "bsp_display_brightness_init w = Some (ESP_OK, w1)" "board_up w1" "only_log w w1"
    "log w1 = log w @ evs1" "wire evs1 = []"
    using brightness_init_up [OF assms] by blast
  let ?w2 = "after w1 (SPI (Spi_bus_initialize BSP_LCD_SPI_NUM 41 40 (- 1) (BSP_LCD_H_RES * BSP_LCD_V_RES * 2)))"
  have up2: "board_up ?w2" using w1(2) by simp
  obtain h w3 io evs3 where w3: "esp_lcd_new_panel_io_spi BSP_LCD_SPI_NUM lcd_io_config ?w2 = (ESP_OK, h, w3)" "h \<noteq> 0" "board_up w3"
    "ios w3 h = Some (Io_spi io)" "byte_io io" "busy io = []" "num_trans_inflight io = 0" "queue_size io = 10"
    "\<not> dc_cmd_level io" "dc_data_level io" "dc_param_level io" "0 < spi_trans_max_bytes io"
    "wenv w3 = wenv ?w2" "log w3 = log ?w2 @ evs3" "wire evs3 = []"
    using new_io_up [OF up2] by auto
  let ?w3 = "w3\<lparr>io_handle := h\<rparr>"
  have up3: "board_up ?w3" using w3(3) by (simp add: board_up_def spi_up_def)
  obtain p w4 pn evs4 where w4: "esp_lcd_new_panel_st7789 h lcd_panel_config ?w3 = (ESP_OK, p, w4)" "p \<noteq> 0" "board_up w4"
    "ios w4 = ios ?w3" "panels w4 p = Some pn" "panel_io_h pn = h" "reset_gpio_num pn < 0" "x_gap pn = 0" "y_gap pn = 0"
    "fb_bits_per_pixel pn = 16" "madctl_val pn = 0" "wenv w4 = wenv ?w3" "log w4 = log ?w3 @ evs4" "wire evs4 = []"
    using new_panel_up [OF up3 w3(2)] by auto
  let ?w4 = "w4\<lparr>panel_handle := p\<rparr>"
  have io4: "io_handle w4 = h"
    using w4(1) by (auto simp: esp_lcd_new_panel_st7789_def lcd_panel_config_def do_call_eq Let_def new_panel_st7789_err_def
        io_simps split: if_splits)
  have "lcd_world.more w4 = lcd_world.more w3 \<and> i2c_obj w4 = i2c_obj w3"
    using w4(1) by (auto simp: esp_lcd_new_panel_st7789_def lcd_panel_config_def do_call_eq Let_def new_panel_st7789_err_def
        io_simps split: if_splits)
  moreover have "lcd_world.more w3 = lcd_world.more w1 \<and> i2c_obj w3 = i2c_obj w1"
    using w3(1) by (auto simp: esp_lcd_new_panel_io_spi_def lcd_io_config_def do_call_eq Let_def new_panel_io_spi_err_def
        io_simps split: if_splits)
  moreover have "lcd_world.more w1 = lcd_world.more w \<and> i2c_obj w1 = i2c_obj w"
    using w1(3) by (cases w; cases w1) (simp add: only_log_def)
  ultimately have more4: "lcd_world.more w4 = lcd_world.more w" "i2c_obj w4 = i2c_obj w" by simp_all
  have "spi_up ?w4" using w4(3) by (simp add: board_up_def spi_up_def)
  then have ready4: "ready p pn ?w4"
    using w3 w4 by (simp add: ready_def lcd_io_def)
  have wenv1: "wenv w1 = wenv w" using w1(3) only_log_sel by blast
  have paints4: "paints w ?w4 id"
    using w1(4,5) w3(13-15) w4(12-14) wenv1 by (simp add: paints_def gram_run_def)
  obtain w5 where w5: "esp_lcd_panel_reset p ?w4 = Some (ESP_OK, w5)" "settles p pn pn ?w4 w5"
    using reset_settles [OF ready4] by blast
  obtain w6 where w6: "lcd_cs data0 0 w5 = Some w6" "settles p pn pn w5 w6"
    using lcd_cs_settles w5(2) unfolding settles_def by blast
  obtain w7 where w7: "esp_lcd_panel_init p w6 = Some (ESP_OK, w7)" "settles p pn pn w6 w7"
    using init_settles w6(2) unfolding settles_def by blast
  obtain w8 where w8: "esp_lcd_panel_invert_color p True w7 = Some (ESP_OK, w8)" "settles p pn pn w7 w8"
    using flag_settles(1) w7(2) unfolding settles_def by blast
  let ?pn9 = "pn\<lparr>madctl_val := LCD_CMD_MV_BIT\<rparr>"
  obtain w9 where w9: "esp_lcd_panel_swap_xy p True w8 = Some (ESP_OK, w9)" "settles p pn ?pn9 w8 w9"
    using swap_settles [of p pn w8 LCD_CMD_MV_BIT True] w8(2) w4(11) unfolding settles_def by auto
  let ?m = "(LCD_CMD_MV_BIT OR LCD_CMD_MX_BIT) AND NOT LCD_CMD_MY_BIT"
  let ?pn10 = "?pn9\<lparr>madctl_val := ?m\<rparr>"
  obtain w10 where w10: "esp_lcd_panel_mirror p True False w9 = Some (ESP_OK, w10)" "settles p ?pn9 ?pn10 w9 w10"
    using mirror_settles [of p ?pn9 w9 _ True ?m False] w9(2) unfolding settles_def by auto
  have s: "settles p pn ?pn10 ?w4 w10"
    by (intro settles_trans [OF w5(2)] settles_trans [OF w6(2)] settles_trans [OF w7(2)] settles_trans [OF w8(2)]
        settles_trans [OF w9(2)] w10(2))
  have st: "panel_handle w5 = p" "panel_handle w6 = p" "panel_handle w7 = p" "panel_handle w8 = p" "panel_handle w9 = p"
    "panel_handle w10 = p" "io_handle w10 = h"
    using w5(2) w6(2) w7(2) w8(2) w9(2) w10(2) io4 by (simp_all add: settles_def statics_def)
  have run: "bsp_display_new data0 w = Some (ESP_OK, w10)"
    using w1(1,2) w3(1) w4(1) w5(1) w6(1) w7(1) w8(1) w9(1) w10(1) st
    by (simp add: bsp_display_new_def do_call_eq board_up_replies Let_def)
  have "?m = LCD_CMD_MV_BIT OR LCD_CMD_MX_BIT"
    by (simp add: LCD_CMD_MV_BIT_def LCD_CMD_MX_BIT_def LCD_CMD_MY_BIT_def)
  with run s st w4(6) more4 paints_id_trans [OF paints4] show ?thesis
    by (intro exI [of _ w10] exI [of _ ?pn10]) (simp add: settles_def statics_def)
qed

text \<open>What drawing shows.\<close>

lemma only_log_lcd_world:
  "only_log (w\<lparr>ios := x\<rparr>) w' \<Longrightarrow> panels w' = panels w \<and> statics w' = statics w \<and> wenv w' = wenv w"
  by (cases w; cases w') (simp add: only_log_def statics_def)

lemma draw_bitmap_paints:
  assumes "ready p pn w" and "0 \<le> x0" "x0 < x1" "x1 \<le> 65536" "0 \<le> y0" "y0 < y1" "y1 \<le> 65536"
    and "length data = nat ((x1 - x0) * (y1 - y0)) * 2"
  shows "\<exists>w'. esp_lcd_panel_draw_bitmap p x0 y0 x1 y1 color data w = Some (ESP_OK, w') \<and> ready p pn w' \<and>
    statics w' = statics w \<and> paints w w' (blit (nat x0) (nat y0) (nat (x1 - x0)) (pixels data))"
proof -
  note draw = draw_bitmap_gram [OF ready_lcd_panel [OF assms(1)] assms(2-8), of color]
  obtain w' evs where w': "esp_lcd_panel_draw_bitmap p x0 y0 x1 y1 color data w = Some (ESP_OK, w')" "lcd_panel p w'"
    "only_log (w\<lparr>ios := ios w'\<rparr>) w'" "log w' = log w @ evs"
    using draw by blast
  have "g_ram (gram_run (wire evs) g) = blit (nat x0) (nat y0) (nat (x1 - x0)) (pixels data) (g_ram g)" for g
    using draw [of g] w'(1,4) by (auto simp: new_events_def)
  moreover have "ready p pn w'"
    using assms(1) w'(2) only_log_lcd_world [OF w'(3)] by (auto simp: ready_def lcd_panel_def)
  ultimately show ?thesis
    using w'(1,4) only_log_lcd_world [OF w'(3)] unfolding paints_def by blast
qed

text \<open>
  The buffers hold their pixels least significant byte first, the controller takes the most
  significant byte first: what it shows is the colour with its bytes exchanged.
\<close>

definition swapped :: "u16 \<Rightarrow> u16" where
  "swapped c = be16 (ucast c) (ucast (drop_bit 8 c))"

lemma length_line_buffer [simp]: "length (line_buffer n c) = 2 * n"
  by (simp add: line_buffer_def le_bytes_def length_concat sum_list_replicate)

lemma pixels_line_buffer: "pixels (line_buffer n c) = replicate n (swapped c)"
  by (induction n) (simp_all add: line_buffer_def le_bytes_def swapped_def)

definition fill_rows :: "nat set \<Rightarrow> u16 \<Rightarrow> (nat \<times> nat \<Rightarrow> u16) \<Rightarrow> nat \<times> nat \<Rightarrow> u16" where
  "fill_rows ys v ram = (\<lambda>(x, y). if x < BSP_LCD_H_RES \<and> y \<in> ys then v else ram (x, y))"

lemma blit_row:
  "blit 0 y 320 (replicate 320 v) = fill_rows {y} v"
proof -
  have "(yy - y) * 320 + x < 320 \<longleftrightarrow> yy = y" if "x < 320" "y \<le> yy" for x yy :: nat
    using that by auto
  then show ?thesis by (auto simp: blit_def fill_rows_def BSP_LCD_H_RES_def fun_eq_iff)
qed

lemma fill_rows_comp: "fill_rows ys v \<circ> fill_rows zs v = fill_rows (zs \<union> ys) v"
  by (auto simp: fill_rows_def fun_eq_iff)

lemma draw_rows_paints:
  "ready p pn w \<Longrightarrow> panel_handle w = p \<Longrightarrow> \<forall>y \<in> set ys. y < 65535 \<Longrightarrow>
   \<exists>w'. draw_rows ys buffer (line_buffer BSP_LCD_H_RES c) w = Some w' \<and> ready p pn w' \<and> statics w' = statics w \<and>
     paints w w' (fill_rows (set ys) (swapped c))"
proof (induction ys arbitrary: w)
  case Nil
  have "fill_rows {} (swapped c) = id" by (auto simp: fill_rows_def fun_eq_iff)
  with Nil show ?case by simp
next
  case (Cons y ys)
  obtain w1 where w1: "esp_lcd_panel_draw_bitmap p 0 (int y) 320 (int y + 1) buffer (line_buffer BSP_LCD_H_RES c) w = Some (ESP_OK, w1)"
    "ready p pn w1" "statics w1 = statics w" "paints w w1 (blit 0 y 320 (pixels (line_buffer BSP_LCD_H_RES c)))"
    using draw_bitmap_paints [OF Cons.prems(1), of 0 320 "int y" "int y + 1" "line_buffer BSP_LCD_H_RES c" buffer] Cons.prems(3)
    by (auto simp: BSP_LCD_H_RES_def)
  have "panel_handle w1 = p" using w1(3) Cons.prems(2) by (simp add: statics_def)
  with Cons.IH [OF w1(2)] Cons.prems(3) obtain w2 where w2: "draw_rows ys buffer (line_buffer BSP_LCD_H_RES c) w1 = Some w2"
    "ready p pn w2" "statics w2 = statics w1" "paints w1 w2 (fill_rows (set ys) (swapped c))" by auto
  have "paints w w1 (fill_rows {y} (swapped c))"
    using w1(4) by (simp add: pixels_line_buffer blit_row BSP_LCD_H_RES_def)
  from paints_trans [OF this w2(4)] have "paints w w2 (fill_rows (set (y # ys)) (swapped c))"
    by (simp add: fill_rows_comp)
  with w1(1,3) w2 Cons.prems(2) show ?case by auto
qed

lemma lcd_set_color_paints:
  assumes "ready p pn w" and "panel_handle w = p" and "board_up w"
  shows "\<exists>w'. lcd_set_color c w = Some w' \<and> ready p pn w' \<and> statics w' = statics w \<and>
    paints w w' (fill_rows {..<BSP_LCD_V_RES} (swapped c))"
proof -
  let ?w1 = "after w (MEM (Malloc (BSP_LCD_H_RES * 2) spiram_caps))"
  have r1: "ready p pn ?w1" "panel_handle ?w1 = p" using assms(1,2) by simp_all
  obtain w2 where w2: "draw_rows [0..<240] (handle (ret (reply_to w (MEM (Malloc (BSP_LCD_H_RES * 2) spiram_caps)))))
      (line_buffer BSP_LCD_H_RES c) ?w1 = Some w2" "ready p pn w2" "statics w2 = statics ?w1"
      "paints ?w1 w2 (fill_rows (set [0..<240]) (swapped c))"
    using draw_rows_paints [OF r1, of "[0..<240]"] by fastforce
  have "paints w ?w1 id" by simp
  from paints_id_trans [OF this w2(4)] have "paints w w2 (fill_rows {..<BSP_LCD_V_RES} (swapped c))"
    by (simp add: BSP_LCD_V_RES_def atLeast_upt)
  moreover have "handle (ret (reply_to w (MEM (Malloc (BSP_LCD_H_RES * 2) spiram_caps)))) \<noteq> 0"
    using board_up_replies(5) [OF assms(3)] by (metis not_gr_zero)
  ultimately show ?thesis using w2 by (simp add: lcd_set_color_def do_call_eq Let_def io_simps)
qed

section \<open>Properties\<close>

text \<open>
  Setting the backlight clamps to 0..100 percent and scales to the 10-bit PWM: on a working LEDC
  driver exactly a duty of \<open>1023 * percent div 100\<close> is set and latched; it never exceeds 1023, is 0
  exactly for requests up to 0 and 1023 exactly for requests from 100 on.
\<close>

theorem bsp_display_brightness_set_duty:
  fixes b :: int
  assumes "\<forall>h c. ret (wenv w h (LEDC c)) = ESP_OK"
  defines "d \<equiv> 1023 * max 0 (min 100 b) div 100"
  shows "(\<exists>w'. bsp_display_brightness_set b w = Some (ESP_OK, w') \<and>
      map fst (new_events w w') = [LEDC (Ledc_set_duty 0 0 (word_of_int d)), LEDC (Ledc_update_duty 0 0)]) \<and>
    uint (word_of_int d :: u32) = d \<and> 0 \<le> d \<and> d \<le> 1023 \<and> (d = 0 \<longleftrightarrow> b \<le> 0) \<and> (d = 1023 \<longleftrightarrow> 100 \<le> b)"
proof -
  define c where "c = max 0 (min 100 b)"
  have c: "0 \<le> c" "c \<le> 100" "(if b > 100 then 100 else if b < 0 then 0 else b) = c" by (auto simp: c_def)
  have d: "0 \<le> d" "d \<le> 1023" using c by (auto simp: d_def c_def [symmetric])
  have sd: "(1023 * c) sdiv 100 = d"
    using c(1,2) unfolding d_def c_def [symmetric] by (cases "c = 0") (auto simp: signed_divide_int_def sgn_if)
  have "\<exists>w'. bsp_display_brightness_set b w = Some (ESP_OK, w') \<and>
      map fst (new_events w w') = [LEDC (Ledc_set_duty 0 0 (word_of_int d)), LEDC (Ledc_update_duty 0 0)]"
    using assms(1) unfolding bsp_display_brightness_set_def c(3) sd Let_def
    by (simp add: io_simps reply_to_def new_events_def LEDC_LOW_SPEED_MODE_def LCD_LEDC_CH_def)
  moreover have "uint (word_of_int d :: u32) = d"
    using d by (simp add: uint_word_of_int_eq take_bit_int_eq_self)
  moreover have "d = 0 \<longleftrightarrow> b \<le> 0" "d = 1023 \<longleftrightarrow> 100 \<le> b"
    unfolding d_def by (auto simp: max_def min_def)
  ultimately show ?thesis using d(1,2) by blast
qed

theorem bsp_display_brightness_set_duty_witness:
  "\<exists>w'. bsp_display_brightness_set 50 spi_demo = Some (ESP_OK, w') \<and>
     map fst (new_events spi_demo w') = [LEDC (Ledc_set_duty 0 0 511), LEDC (Ledc_update_duty 0 0)]"
proof -
  have "\<forall>h c. ret (wenv spi_demo h (LEDC c)) = ESP_OK" by (simp add: spi_demo_def)
  from bsp_display_brightness_set_duty [OF this, of 50] show ?thesis by simp
qed

text \<open>
  C3. \<^verbatim>\<open>bsp_lcd_init\<close> on a board that serves every call, whatever the bits of the I/O expander do:
  it returns \<^verbatim>\<open>ESP_OK\<close>, the static variables name a live panel whose cached orientation has the axes
  exchanged and X mirrored, every one of the 320 x 240 points of the frame memory is black, no other
  has changed, and the last thing done is to set the backlight to full duty.
\<close>

theorem bsp_lcd_init_screen:
  assumes "board_up w"
  shows "\<exists>w' pn. bsp_lcd_init data0 w = Some (ESP_OK, w') \<and>
    lcd_panel (panel_handle w') w' \<and> panels w' (panel_handle w') = Some pn \<and> panel_io_h pn = io_handle w' \<and>
    madctl_val pn = LCD_CMD_MV_BIT OR LCD_CMD_MX_BIT \<and>
    (\<forall>x y. g_ram (gram_run (wire (new_events w w')) g) (x, y) =
       (if x < BSP_LCD_H_RES \<and> y < BSP_LCD_V_RES then 0 else g_ram g (x, y))) \<and>
    (\<exists>evs. map fst (log w') = evs @ [LEDC (Ledc_set_duty 0 0 1023), LEDC (Ledc_update_duty 0 0)])"
proof -
  obtain w1 pn where w1: "bsp_display_new data0 w = Some (ESP_OK, w1)" "ready (panel_handle w1) pn w1"
    "panel_io_h pn = io_handle w1" "madctl_val pn = LCD_CMD_MV_BIT OR LCD_CMD_MX_BIT" "paints w w1 id"
    using bsp_display_new_up [OF assms] by blast
  have up1: "board_up w1" using w1(5) assms board_up_same by (auto simp: paints_def)
  obtain w2 where w2: "lcd_set_color 0 w1 = Some w2" "ready (panel_handle w1) pn w2" "statics w2 = statics w1"
    "paints w1 w2 (fill_rows {..<BSP_LCD_V_RES} (swapped 0))"
    using lcd_set_color_paints [OF w1(2) refl up1] by blast
  obtain w3 where w3: "esp_lcd_panel_disp_on_off (panel_handle w1) True w2 = Some (ESP_OK, w3)"
    "settles (panel_handle w1) pn pn w2 w3"
    using flag_settles(2) [OF w2(2)] by blast
  have st: "panel_handle w2 = panel_handle w1" "panel_handle w3 = panel_handle w1" "io_handle w3 = io_handle w1"
    using w2(3) w3(2) by (simp_all add: settles_def statics_def)
  have p3: "paints w w3 (fill_rows {..<BSP_LCD_V_RES} 0)"
    using paints_id_trans [OF w1(5) paints_trans [OF w2(4)]] w3(2) by (fastforce simp: settles_def swapped_def be16_def)
  have up3: "board_up w3" using p3 assms board_up_same by (auto simp: paints_def)
  let ?w5 = "after (after w3 (LEDC (Ledc_set_duty 0 0 1023))) (LEDC (Ledc_update_duty 0 0))"
  have "bsp_display_brightness_set 100 w3 = Some (ESP_OK, ?w5)"
    using up3 by (simp add: bsp_display_brightness_set_def io_simps board_up_replies LEDC_LOW_SPEED_MODE_def LCD_LEDC_CH_def)
  then have run: "bsp_lcd_init data0 w = Some (ESP_OK, ?w5)"
    using w1(1) w2(1) w3(1) st by (simp add: bsp_lcd_init_def bsp_display_backlight_on_def)
  have "paints w ?w5 (fill_rows {..<BSP_LCD_V_RES} 0)" using p3 by simp
  from paints_new_events [OF this] have ram: "g_ram (gram_run (wire (new_events w ?w5)) g) (x, y) =
      (if x < BSP_LCD_H_RES \<and> y < BSP_LCD_V_RES then 0 else g_ram g (x, y))" for x y
    by (simp add: fill_rows_def)
  have "ready (panel_handle w1) pn ?w5" using w3(2) by (simp add: settles_def)
  then have "lcd_panel (panel_handle ?w5) ?w5"
    using ready_lcd_panel [of _ pn ?w5] st by simp
  moreover have "panels ?w5 (panel_handle ?w5) = Some pn" "panel_io_h pn = io_handle ?w5"
    using \<open>ready (panel_handle w1) pn ?w5\<close> st w1(3) by (simp_all add: ready_def)
  moreover have "\<exists>evs. map fst (log ?w5) = evs @ [LEDC (Ledc_set_duty 0 0 1023), LEDC (Ledc_update_duty 0 0)]" by simp
  ultimately show ?thesis using run w1(4) ram by blast
qed

definition lcd_board :: lcd_world where
  "lcd_board = \<lparr>wenv = \<lambda>h c. (case c of MEM _ \<Rightarrow> answer (int (length h) + 1)
       | SPI (Spi_bus_get_max_transaction_len _) \<Rightarrow> \<lparr>ret = ESP_OK, out = [], content = [], hnd = 4092\<rparr> | _ \<Rightarrow> answer ESP_OK),
     log = [], i2c_obj = Map.empty, ios = Map.empty, panels = Map.empty, panel_handle = 0, io_handle = 0\<rparr>"

lemma lcd_board_up: "board_up lcd_board"
  by (auto simp: board_up_def spi_up_def lcd_board_def split: spi_call.splits)

theorem bsp_lcd_init_screen_witness:
  "\<exists>w'. bsp_lcd_init 0 lcd_board = Some (ESP_OK, w') \<and>
     g_ram (gram_run (wire (log w')) gram_blank) (319, 239) = 0 \<and> g_ram (gram_run (wire (log w')) gram_blank) (320, 0) = g_ram gram_blank (320, 0)"
  using bsp_lcd_init_screen [OF lcd_board_up, of 0 gram_blank] by (fastforce simp: display_consts new_events_def lcd_board_def)

text \<open>
  What \<^verbatim>\<open>lcd_set_color\<close> fills the screen with is not the colour it is given but the colour with
  its two bytes exchanged (the buffer is little-endian, the panel is set up to take the most
  significant byte first): asked for red, \<^verbatim>\<open>0xF800\<close>, all 320 x 240 points become \<^verbatim>\<open>0x00F8\<close>.
\<close>

theorem lcd_set_color_exchanges_bytes:
  assumes "ready p pn w" and "panel_handle w = p" and "board_up w"
  shows "\<exists>w'. lcd_set_color c w = Some w' \<and>
    (\<forall>x y. g_ram (gram_run (wire (new_events w w')) g) (x, y) =
       (if x < BSP_LCD_H_RES \<and> y < BSP_LCD_V_RES then word_rotl 8 c else g_ram g (x, y)))"
proof -
  obtain w' where w': "lcd_set_color c w = Some w'" "paints w w' (fill_rows {..<BSP_LCD_V_RES} (swapped c))"
    using lcd_set_color_paints [OF assms] by blast
  have m: "(n + 8) mod 16 = n - 8" if "n < 16" "\<not> n < 8" for n :: nat using that by presburger
  have "swapped c = word_rotl 8 c"
    by (rule bit_word_eqI)
       (auto simp: swapped_def be16_def bit_word_cat_iff bit_simps bit_word_rotl_iff m add.commute [of 8])
  with w' paints_new_events [OF w'(2), of g] show ?thesis by (auto simp: fill_rows_def)
qed

definition lcd_demo_world :: lcd_world where
  "lcd_demo_world = lcd_board\<lparr>ios := ios lcd_demo, panels := panels lcd_demo, panel_handle := 9, io_handle := 7\<rparr>"

lemma lcd_demo_ready: "\<exists>pn. ready 9 pn lcd_demo_world" "board_up lcd_demo_world" "panel_handle lcd_demo_world = 9"
proof -
  show "board_up lcd_demo_world" "panel_handle lcd_demo_world = 9"
    using lcd_board_up by (simp_all add: lcd_demo_world_def board_up_def spi_up_def)
  then show "\<exists>pn. ready 9 pn lcd_demo_world"
    by (simp add: ready_def lcd_demo_world_def lcd_demo_def lcd_io_def spi_demo_io_def byte_io_def board_up_def)
qed

theorem lcd_set_color_exchanges_bytes_witness:
  "\<exists>w'. lcd_set_color 0xF800 lcd_demo_world = Some w' \<and>
     g_ram (gram_run (wire (new_events lcd_demo_world w')) gram_blank) (10, 20) = 0x00F8"
proof -
  obtain pn where "ready 9 pn lcd_demo_world" using lcd_demo_ready(1) by blast
  moreover have "word_rotl 8 (0xF800 :: u16) = 0x00F8" by code_simp
  ultimately show ?thesis
    using lcd_set_color_exchanges_bytes [OF _ lcd_demo_ready(3,2), of pn "0xF800" gram_blank] by (fastforce simp: display_consts)
qed

text \<open>Every chunk lies inside the data.\<close>

lemma chunks_addr: "data \<noteq> [] \<Longrightarrow> \<forall>(a, b, l) \<in> set (chunks m color data). color \<le> a \<and> a < color + length data"
proof (induction m color data rule: chunks.induct)
  case (1 m color data)
  show ?case
  proof (cases "m < length data \<and> 0 < m")
    case True
    then have eq: "chunks m color data = (color, take m data, True) # chunks m (color + m) (drop m data)"
      by (simp only: chunks_more)
    have "\<forall>(a, b, l) \<in> set (chunks m (color + m) (drop m data)). color + m \<le> a \<and> a < color + m + length (drop m data)"
      by (rule "1.IH") (use True in auto)
    then show ?thesis unfolding eq using True by fastforce
  next
    case False
    then have eq: "chunks m color data = [(color, data, False)]" by (rule chunks_last)
    show ?thesis unfolding eq using "1.prems" by simp
  qed
qed

lemma chunk_addr: "length data = 2 \<Longrightarrow> color \<le> fst (last (chunks m color data)) \<and> fst (last (chunks m color data)) < color + 2"
  using chunks_addr [of data m color] last_in_set [OF chunks_nonempty, of m color data] by fastforce



text \<open>Failing to create an object gives back what was obtained; creating it obtains its block.\<close>

definition same_but_log :: "'a lcd_world_scheme \<Rightarrow> 'a lcd_world_scheme \<Rightarrow> bool" where
  "same_but_log w w' \<longleftrightarrow> only_log w w' \<and> (\<exists>evs. log w' = log w @ evs \<and> balanced evs)"

lemma same_but_log_trans:
  assumes "same_but_log w w1" and "same_but_log w1 w2"
  shows "same_but_log w w2"
proof -
  obtain evs1 evs2 where "log w1 = log w @ evs1" "balanced evs1" "log w2 = log w1 @ evs2" "balanced evs2"
    using assms by (auto simp: same_but_log_def)
  moreover have "only_log w w2" using assms only_log_trans by (auto simp: same_but_log_def)
  ultimately show ?thesis unfolding same_but_log_def by (intro conjI exI [of _ "evs1 @ evs2"]) (auto simp: balanced_def)
qed

lemma same_but_log_after: "allocated (c, reply_to w c) = [] \<Longrightarrow> freed (c, reply_to w c) = [] \<Longrightarrow> same_but_log w (after w c)"
  by (simp add: same_but_log_def balanced_def)

lemma same_but_log_balanced: "same_but_log w w' \<Longrightarrow> balanced (new_events w w')"
  by (auto simp: same_but_log_def new_events_def)

lemma same_but_log_sel:
  "same_but_log w w' \<Longrightarrow> panel_handle w' = panel_handle w \<and> io_handle w' = io_handle w \<and> ios w' = ios w \<and> panels w' = panels w"
  by (cases w; cases w') (simp add: same_but_log_def only_log_def)

lemma new_io_fails:
  "esp_lcd_new_panel_io_spi BSP_LCD_SPI_NUM lcd_io_config w = (e, h, w') \<Longrightarrow> e \<noteq> ESP_OK \<Longrightarrow> same_but_log w w'"
  by (auto simp: esp_lcd_new_panel_io_spi_def lcd_io_config_def BSP_LCD_SPI_NUM_def BSP_LCD_DC_def do_call_eq Let_def
      new_panel_io_spi_err_def io_simps same_but_log_def balanced_def split: if_splits)

lemma new_io_succeeds:
  "esp_lcd_new_panel_io_spi BSP_LCD_SPI_NUM lcd_io_config w = (ESP_OK, h, w') \<Longrightarrow>
   h \<noteq> 0 \<and> (\<exists>io evs. w' = w\<lparr>log := log w @ evs, ios := (ios w)(h \<mapsto> Io_spi io)\<rparr> \<and>
       num_trans_inflight io = 0 \<and> allocs evs = [h] \<and> frees evs = [])"
proof -
  assume new: "esp_lcd_new_panel_io_spi BSP_LCD_SPI_NUM lcd_io_config w = (ESP_OK, h, w')"
  have r: "h \<noteq> 0 \<and> (\<exists>io w1. w' = w1\<lparr>ios := (ios w)(h \<mapsto> Io_spi io)\<rparr> \<and> only_log w w1 \<and> log w1 = log w @ new_events w w1 \<and>
       num_trans_inflight io = 0 \<and> allocs (new_events w w1) = [h] \<and> frees (new_events w w1) = [])"
    using new by (auto simp: esp_lcd_new_panel_io_spi_def lcd_io_config_def BSP_LCD_SPI_NUM_def BSP_LCD_DC_def do_call_eq
        Let_def new_panel_io_spi_err_def io_simps split: if_splits) (rule exI, rule exI, rule conjI [OF refl], simp add: new_events_def)
  then obtain io w1 where w1: "w' = w1\<lparr>ios := (ios w)(h \<mapsto> Io_spi io)\<rparr>" "only_log w w1"
    "log w1 = log w @ new_events w w1" "num_trans_inflight io = 0" "allocs (new_events w w1) = [h]"
    "frees (new_events w w1) = []" by blast
  have "w1 = w\<lparr>log := log w @ new_events w w1\<rparr>" by (rule only_log_eq [OF w1(2,3)])
  then have "w' = w\<lparr>log := log w @ new_events w w1, ios := (ios w)(h \<mapsto> Io_spi io)\<rparr>"
    using w1(1) by metis
  with r w1(4-6) show ?thesis by blast
qed

lemma new_panel_fails:
  "esp_lcd_new_panel_st7789 h lcd_panel_config w = (e, p, w') \<Longrightarrow> e \<noteq> ESP_OK \<Longrightarrow> same_but_log w w'"
  by (auto simp: esp_lcd_new_panel_st7789_def lcd_panel_config_def do_call_eq Let_def
      new_panel_st7789_err_def io_simps same_but_log_def balanced_def split: if_splits)

lemma idle_io_del:
  assumes "h \<noteq> 0" and "ios w h = Some (Io_spi io)" and "num_trans_inflight io = 0"
  shows "\<exists>evs. esp_lcd_panel_io_del h w = Some (ESP_OK, w\<lparr>log := log w @ evs, ios := (ios w)(h := None)\<rparr>) \<and>
    allocs evs = [] \<and> frees evs = [h]"
proof -
  define w1 where "w1 = after w (SPI (Spi_bus_remove_device (spi_dev io)))"
  define w2 where "w2 = (if dc_gpio_num io \<ge> 0 then after w1 (GPIO (Gpio_reset_pin (dc_gpio_num io))) else w1)"
  define w3 where "w3 = after w2 (MEM (Free h))"
  have del: "esp_lcd_panel_io_del h w = Some (ESP_OK, w3\<lparr>ios := (ios w3)(h := None)\<rparr>)"
    using assms by (simp add: esp_lcd_panel_io_del_def panel_io_spi_del_def io_simps w1_def w2_def w3_def)
  have "\<exists>evs. log w3 = log w @ evs \<and> only_log w w3 \<and> allocs evs = [] \<and> frees evs = [h]"
    by (simp add: w1_def w2_def w3_def)
  then obtain evs where evs: "log w3 = log w @ evs" "only_log w w3" "allocs evs = []" "frees evs = [h]" by blast
  have "w3 = w\<lparr>log := log w @ evs\<rparr>" by (rule only_log_eq [OF evs(2,1)])
  with del evs(3,4) show ?thesis by (intro exI [of _ evs]) simp
qed


definition lcd_board_no_panel :: lcd_world where
  "lcd_board_no_panel = lcd_board\<lparr>wenv := \<lambda>h c. if c = MEM (Calloc 1 68) then answer 0 else wenv lcd_board h c\<rparr>"


end
