(* ===== verification/Touch.thy ===== *)
theory Touch
  imports Display Complex_Main
begin

text \<open>
  The touch screen: the generic layer of managed_components/espressif__esp_lcd_touch
  (esp_lcd_touch.c), the FT5x06 driver of managed_components/espressif__esp_lcd_touch_ft5x06
  (esp_lcd_touch_ft5x06.c) behind an I2C panel IO, and the two users in components/LCD/LCD.c:
  \<^verbatim>\<open>bsp_touch_new\<close> and the direct reader \<^verbatim>\<open>LCD_Touch\<close>.
\<close>

section \<open>Touch objects\<close>

text \<open>
  \<^verbatim>\<open>process_coordinates\<close> is a user function (\<open>None\<close> for \<^verbatim>\<open>NULL\<close>) from the coordinate arrays and the
  number of points to new ones.  The optional functions of a driver are numbers, \<open>0\<close> for \<^verbatim>\<open>NULL\<close>;
  a call of one leaves the modelled code.  The mandatory ones are those of the FT5x06 driver, the only
  driver of the repository.
\<close>

record esp_lcd_touch_config_t =
  x_max :: u16
  y_max :: u16
  rst_gpio_num :: int
  int_gpio_num :: int
  level_reset :: bool
  level_interrupt :: bool
  flag_swap_xy :: bool
  flag_mirror_x :: bool
  flag_mirror_y :: bool
  process_coordinates :: "(u16 list \<times> u16 list \<times> nat \<Rightarrow> u16 list \<times> u16 list \<times> nat) option"
  interrupt_callback :: ptr
  cb_user_data :: ptr

record esp_lcd_touch_t =
  fn_enter_sleep :: ptr
  fn_exit_sleep :: ptr
  fn_get_button_state :: ptr
  fn_set_swap_xy :: ptr
  fn_get_swap_xy :: ptr
  fn_set_mirror_x :: ptr
  fn_get_mirror_x :: ptr
  fn_set_mirror_y :: ptr
  fn_get_mirror_y :: ptr
  tp_config :: esp_lcd_touch_config_t
  tp_io :: ptr
  tp_points :: nat
  tp_coords :: "(u16 \<times> u16 \<times> u16) list"   \<comment> \<open>x, y and strength of the saved points\<close>

record touch_world = lcd_world +
  touches :: "ptr \<Rightarrow> esp_lcd_touch_t option"

lemma touches_after [simp]: "touches (after w c) = touches w"
  by (simp add: after_def)

definition CONFIG_ESP_LCD_TOUCH_MAX_POINTS :: nat where "CONFIG_ESP_LCD_TOUCH_MAX_POINTS = 5"

text \<open>\<^verbatim>\<open>assert(tp != NULL)\<close> and the dereference: \<open>None\<close> for \<^verbatim>\<open>NULL\<close> and for an object that is gone.\<close>

definition on_touch ::
  "ptr \<Rightarrow> (esp_lcd_touch_t \<Rightarrow> 'a touch_world_scheme \<Rightarrow> ('r \<times> 'a touch_world_scheme) option) \<Rightarrow>
   'a touch_world_scheme \<Rightarrow> ('r \<times> 'a touch_world_scheme) option" where
  "on_touch p f w = (if p = 0 then None else case touches w p of None \<Rightarrow> None | Some t \<Rightarrow> f t w)"

definition set_touch :: "ptr \<Rightarrow> esp_lcd_touch_t \<Rightarrow> 'a touch_world_scheme \<Rightarrow> 'a touch_world_scheme" where
  "set_touch p t w = w\<lparr>touches := (touches w)(p \<mapsto> t)\<rparr>"

definition hw_op :: "ptr \<Rightarrow> ptr \<Rightarrow> nat \<Rightarrow> 'a world_scheme \<Rightarrow> (esp_err \<times> 'a world_scheme) option" where
  "hw_op f p a w = call_ret (OS (Hw_op f p a)) w"

section \<open>The FT5x06 driver\<close>

definition FT5x06_TOUCH_POINTS :: u8 where "FT5x06_TOUCH_POINTS = 0x02"
definition FT5x06_TOUCH1_XH :: u8 where "FT5x06_TOUCH1_XH = 0x03"
definition FT5x06_ID_G_THGROUP :: u8 where "FT5x06_ID_G_THGROUP = 0x80"
definition FT5x06_ID_G_THPEAK :: u8 where "FT5x06_ID_G_THPEAK = 0x81"
definition FT5x06_ID_G_THCAL :: u8 where "FT5x06_ID_G_THCAL = 0x82"
definition FT5x06_ID_G_THWATER :: u8 where "FT5x06_ID_G_THWATER = 0x83"
definition FT5x06_ID_G_THTEMP :: u8 where "FT5x06_ID_G_THTEMP = 0x84"
definition FT5x06_ID_G_THDIFF :: u8 where "FT5x06_ID_G_THDIFF = 0x85"
definition FT5x06_ID_G_TIME_ENTER_MONITOR :: u8 where "FT5x06_ID_G_TIME_ENTER_MONITOR = 0x87"
definition FT5x06_ID_G_PERIODACTIVE :: u8 where "FT5x06_ID_G_PERIODACTIVE = 0x88"
definition FT5x06_ID_G_PERIODMONITOR :: u8 where "FT5x06_ID_G_PERIODMONITOR = 0x89"

definition touch_ft5x06_i2c_write ::
  "ptr \<Rightarrow> u8 \<Rightarrow> u8 \<Rightarrow> 'a touch_world_scheme \<Rightarrow> (esp_err \<times> 'a touch_world_scheme) option" where
  "touch_ft5x06_i2c_write p reg data w =
     on_touch p (\<lambda>tp w. esp_lcd_panel_io_tx_param (tp_io tp) (uint reg) (Some [data]) w) w"

text \<open>\<open>buf\<close>: the contents of the caller's buffer before the call, and in the result after it.\<close>

definition touch_ft5x06_i2c_read ::
  "ptr \<Rightarrow> u8 \<Rightarrow> u8 list \<Rightarrow> 'a touch_world_scheme \<Rightarrow> ((esp_err \<times> u8 list) \<times> 'a touch_world_scheme) option" where
  "touch_ft5x06_i2c_read p reg buf w =
     on_touch p (\<lambda>tp w. do {
       (e, b, w) \<leftarrow> esp_lcd_panel_io_rx_param (tp_io tp) (uint reg) (Some buf) w;
       Some ((e, case b of None \<Rightarrow> buf | Some b \<Rightarrow> b), w) }) w"

definition ft5x06_settings :: "(u8 \<times> u8) list" where
  "ft5x06_settings =
     [(FT5x06_ID_G_THGROUP, 70), (FT5x06_ID_G_THPEAK, 60), (FT5x06_ID_G_THCAL, 16), (FT5x06_ID_G_THWATER, 60),
      (FT5x06_ID_G_THTEMP, 10), (FT5x06_ID_G_THDIFF, 20), (FT5x06_ID_G_TIME_ENTER_MONITOR, 2),
      (FT5x06_ID_G_PERIODACTIVE, 12), (FT5x06_ID_G_PERIODMONITOR, 40)]"

definition touch_ft5x06_init :: "ptr \<Rightarrow> 'a touch_world_scheme \<Rightarrow> (esp_err \<times> 'a touch_world_scheme) option" where
  "touch_ft5x06_init p w = write_or (touch_ft5x06_i2c_write p) ft5x06_settings ESP_OK w"

definition touch_ft5x06_reset :: "ptr \<Rightarrow> 'a touch_world_scheme \<Rightarrow> (esp_err \<times> 'a touch_world_scheme) option" where
  "touch_ft5x06_reset p w = on_touch p (\<lambda>tp w.
     let cfg = tp_config tp
     in if rst_gpio_num cfg \<noteq> - 1
     then ESP_RETURN_ON_ERROR
            (call_ret (GPIO (Gpio_set_level (rst_gpio_num cfg) (if level_reset cfg then 1 else 0))))
            (\<lambda>w. let w = call_void (OS (Task_delay (pdMS_TO_TICKS 10))) w
                 in ESP_RETURN_ON_ERROR
                      (call_ret (GPIO (Gpio_set_level (rst_gpio_num cfg) (if level_reset cfg then 0 else 1))))
                      (\<lambda>w. Some (ESP_OK, call_void (OS (Task_delay (pdMS_TO_TICKS 10))) w)) w) w
     else Some (ESP_OK, w)) w"

definition esp_lcd_touch_ft5x06_del :: "ptr \<Rightarrow> 'a touch_world_scheme \<Rightarrow> (esp_err \<times> 'a touch_world_scheme) option" where
  "esp_lcd_touch_ft5x06_del p w = on_touch p (\<lambda>tp w.
     let cfg = tp_config tp;
         w = (if int_gpio_num cfg \<noteq> - 1
              then let w = call_void (GPIO (Gpio_reset_pin (int_gpio_num cfg))) w
                   in if interrupt_callback cfg \<noteq> 0
                      then call_void (GPIO (Gpio_isr_handler_remove (int_gpio_num cfg))) w else w
              else w);
         w = (if rst_gpio_num cfg \<noteq> - 1 then call_void (GPIO (Gpio_reset_pin (rst_gpio_num cfg))) w else w);
         w = call_void (MEM (Free p)) w
     in Some (ESP_OK, w\<lparr>touches := (touches w)(p := None)\<rparr>)) w"

text \<open>One saved point from its six register bytes; \<open>s\<close> is the strength already there.\<close>

definition ft5x06_coord :: "u8 \<Rightarrow> u8 \<Rightarrow> u16" where
  "ft5x06_coord hi lo = push_bit 8 (ucast hi AND 0x0f) + ucast lo"

fun fill_coords :: "nat \<Rightarrow> nat \<Rightarrow> u8 list \<Rightarrow> (u16 \<times> u16 \<times> u16) list \<Rightarrow> (u16 \<times> u16 \<times> u16) list" where
  "fill_coords i 0 data cs = cs"
| "fill_coords i (Suc n) data cs =
     fill_coords (i + 1) n data
       (cs[i := (ft5x06_coord (data ! (i * 6)) (data ! (i * 6 + 1)),
                 ft5x06_coord (data ! (i * 6 + 2)) (data ! (i * 6 + 3)), snd (snd (cs ! i)))])"

text \<open>\<open>points0\<close> and \<open>data0\<close> (30 bytes): the indeterminate locals.\<close>

definition esp_lcd_touch_ft5x06_read_data ::
  "u8 \<Rightarrow> u8 list \<Rightarrow> ptr \<Rightarrow> 'a touch_world_scheme \<Rightarrow> (esp_err \<times> 'a touch_world_scheme) option" where
  "esp_lcd_touch_ft5x06_read_data points0 data0 p w = do {
     ((e, b), w) \<leftarrow> touch_ft5x06_i2c_read p FT5x06_TOUCH_POINTS [points0] w;
     if e \<noteq> ESP_OK then Some (e, w)
     else let points = unat (hd b)
     in if points > 5 \<or> points = 0 then Some (ESP_OK, w)
     else let points = (if points > CONFIG_ESP_LCD_TOUCH_MAX_POINTS then CONFIG_ESP_LCD_TOUCH_MAX_POINTS else points)
     in do {
       ((e, data), w) \<leftarrow> touch_ft5x06_i2c_read p FT5x06_TOUCH1_XH (take (6 * points) data0) w;
       if e \<noteq> ESP_OK then Some (e, w)
       else on_touch p (\<lambda>tp w. Some (ESP_OK,
              set_touch p (tp\<lparr>tp_points := points, tp_coords := fill_coords 0 points data (tp_coords tp)\<rparr>) w)) w } }"

text \<open>
  The arrays are the caller's, \<open>None\<close> for a \<^verbatim>\<open>NULL\<close> \<open>strength\<close>; storing beyond their ends has no meaning.
\<close>

definition esp_lcd_touch_ft5x06_get_xy ::
  "ptr \<Rightarrow> u16 list \<Rightarrow> u16 list \<Rightarrow> u16 list option \<Rightarrow> nat \<Rightarrow> 'a touch_world_scheme \<Rightarrow>
   ((bool \<times> u16 list \<times> u16 list \<times> u16 list option \<times> nat) \<times> 'a touch_world_scheme) option" where
  "esp_lcd_touch_ft5x06_get_xy p x y strength max_point_num w = on_touch p (\<lambda>tp w.
     if \<not> 0 < max_point_num then None
     else let n = (if tp_points tp > max_point_num then max_point_num else tp_points tp);
              saved = take n (tp_coords tp)
     in if length x < n \<or> length y < n \<or> (\<exists>s. strength = Some s \<and> length s < n) \<or> length (tp_coords tp) < n then None
     else Some ((n > 0, overlay (map fst saved) x, overlay (map (fst \<circ> snd) saved) y,
                 map_option (overlay (map (snd \<circ> snd) saved)) strength, n),
                set_touch p (tp\<lparr>tp_points := 0\<rparr>) w)) w"

section \<open>The generic layer\<close>

definition esp_lcd_touch_enter_sleep :: "ptr \<Rightarrow> 'a touch_world_scheme \<Rightarrow> (esp_err \<times> 'a touch_world_scheme) option" where
  "esp_lcd_touch_enter_sleep p w = on_touch p (\<lambda>tp w.
     if fn_enter_sleep tp = 0 then Some (ESP_FAIL, w) else hw_op (fn_enter_sleep tp) p 0 w) w"

definition esp_lcd_touch_exit_sleep :: "ptr \<Rightarrow> 'a touch_world_scheme \<Rightarrow> (esp_err \<times> 'a touch_world_scheme) option" where
  "esp_lcd_touch_exit_sleep p w = on_touch p (\<lambda>tp w.
     if fn_exit_sleep tp = 0 then Some (ESP_FAIL, w) else hw_op (fn_exit_sleep tp) p 0 w) w"

definition esp_lcd_touch_read_data ::
  "u8 \<Rightarrow> u8 list \<Rightarrow> ptr \<Rightarrow> 'a touch_world_scheme \<Rightarrow> (esp_err \<times> 'a touch_world_scheme) option" where
  "esp_lcd_touch_read_data points0 data0 p w = esp_lcd_touch_ft5x06_read_data points0 data0 p w"

text \<open>The adjustment of one point, in the order of the code: mirror X, mirror Y, then swap.\<close>

definition sw_adj_needed :: "esp_lcd_touch_t \<Rightarrow> bool" where
  "sw_adj_needed tp \<longleftrightarrow>
     (flag_mirror_x (tp_config tp) \<and> fn_set_mirror_x tp = 0) \<or>
     (flag_mirror_y (tp_config tp) \<and> fn_set_mirror_y tp = 0) \<or>
     (flag_swap_xy (tp_config tp) \<and> fn_set_swap_xy tp = 0)"

definition adjust_point :: "esp_lcd_touch_t \<Rightarrow> u16 \<times> u16 \<Rightarrow> u16 \<times> u16" where
  "adjust_point tp = (\<lambda>(x, y).
     let x = (if flag_mirror_x (tp_config tp) \<and> fn_set_mirror_x tp = 0 then x_max (tp_config tp) - x else x);
         y = (if flag_mirror_y (tp_config tp) \<and> fn_set_mirror_y tp = 0 then y_max (tp_config tp) - y else y)
     in if flag_swap_xy (tp_config tp) \<and> fn_set_swap_xy tp = 0 then (y, x) else (x, y))"

fun adjust_points :: "esp_lcd_touch_t \<Rightarrow> nat \<Rightarrow> u16 list \<Rightarrow> u16 list \<Rightarrow> u16 list \<times> u16 list" where
  "adjust_points tp 0 xs ys = (xs, ys)"
| "adjust_points tp (Suc n) (x # xs) (y # ys) =
     (let (x, y) = adjust_point tp (x, y); (xs, ys) = adjust_points tp n xs ys in (x # xs, y # ys))"
| "adjust_points tp (Suc n) xs ys = (xs, ys)"

definition esp_lcd_touch_get_coordinates ::
  "ptr \<Rightarrow> u16 list \<Rightarrow> u16 list \<Rightarrow> u16 list option \<Rightarrow> nat \<Rightarrow> 'a touch_world_scheme \<Rightarrow>
   ((bool \<times> u16 list \<times> u16 list \<times> u16 list option \<times> nat) \<times> 'a touch_world_scheme) option" where
  "esp_lcd_touch_get_coordinates p x y strength max_point_num w = do {
     ((touched, x, y, strength, n), w) \<leftarrow> esp_lcd_touch_ft5x06_get_xy p x y strength max_point_num w;
     if \<not> touched then Some ((False, x, y, strength, n), w)
     else on_touch p (\<lambda>tp w.
       let (x, y, n) = (case process_coordinates (tp_config tp) of None \<Rightarrow> (x, y, n) | Some f \<Rightarrow> f (x, y, n))
       in if \<not> sw_adj_needed tp then Some ((True, x, y, strength, n), w)
          else if length x < n \<or> length y < n then None
          else let (x, y) = adjust_points tp n x y in Some ((True, x, y, strength, n), w)) w }"

text \<open>The state of a button: \<open>0\<close> before the driver's function, if there is one, stores it.\<close>

definition esp_lcd_touch_get_button_state ::
  "ptr \<Rightarrow> nat \<Rightarrow> 'a touch_world_scheme \<Rightarrow> ((esp_err \<times> u8) \<times> 'a touch_world_scheme) option" where
  "esp_lcd_touch_get_button_state p n w = on_touch p (\<lambda>tp w.
     if fn_get_button_state tp \<noteq> 0
     then let (r, w) = do_call (OS (Hw_op (fn_get_button_state tp) p n)) w in Some ((ret r, hd (overlay (out r) [0])), w)
     else Some ((ESP_ERR_NOT_SUPPORTED, 0), w)) w"

definition esp_lcd_touch_set_swap_xy :: "ptr \<Rightarrow> bool \<Rightarrow> 'a touch_world_scheme \<Rightarrow> (esp_err \<times> 'a touch_world_scheme) option" where
  "esp_lcd_touch_set_swap_xy p swap w = on_touch p (\<lambda>tp w.
     let w = set_touch p (tp\<lparr>tp_config := (tp_config tp)\<lparr>flag_swap_xy := swap\<rparr>\<rparr>) w
     in if fn_set_swap_xy tp \<noteq> 0 then hw_op (fn_set_swap_xy tp) p (if swap then 1 else 0) w else Some (ESP_OK, w)) w"

definition esp_lcd_touch_set_mirror_x :: "ptr \<Rightarrow> bool \<Rightarrow> 'a touch_world_scheme \<Rightarrow> (esp_err \<times> 'a touch_world_scheme) option" where
  "esp_lcd_touch_set_mirror_x p mirror w = on_touch p (\<lambda>tp w.
     let w = set_touch p (tp\<lparr>tp_config := (tp_config tp)\<lparr>flag_mirror_x := mirror\<rparr>\<rparr>) w
     in if fn_set_mirror_x tp \<noteq> 0 then hw_op (fn_set_mirror_x tp) p (if mirror then 1 else 0) w else Some (ESP_OK, w)) w"

definition esp_lcd_touch_set_mirror_y :: "ptr \<Rightarrow> bool \<Rightarrow> 'a touch_world_scheme \<Rightarrow> (esp_err \<times> 'a touch_world_scheme) option" where
  "esp_lcd_touch_set_mirror_y p mirror w = on_touch p (\<lambda>tp w.
     let w = set_touch p (tp\<lparr>tp_config := (tp_config tp)\<lparr>flag_mirror_y := mirror\<rparr>\<rparr>) w
     in if fn_set_mirror_y tp \<noteq> 0 then hw_op (fn_set_mirror_y tp) p (if mirror then 1 else 0) w else Some (ESP_OK, w)) w"

text \<open>
  The getters: \<open>flag0\<close> is the caller's variable before the call; a driver's function stores a byte.
\<close>

definition get_flag ::
  "(esp_lcd_touch_t \<Rightarrow> ptr) \<Rightarrow> (esp_lcd_touch_config_t \<Rightarrow> bool) \<Rightarrow> ptr \<Rightarrow> bool \<Rightarrow>
   'a touch_world_scheme \<Rightarrow> ((esp_err \<times> bool) \<times> 'a touch_world_scheme) option" where
  "get_flag fn flag p flag0 w = on_touch p (\<lambda>tp w.
     if fn tp \<noteq> 0
     then let (r, w) = do_call (OS (Hw_op (fn tp) p 0)) w
          in Some ((ret r, case out r of [] \<Rightarrow> flag0 | b # _ \<Rightarrow> b \<noteq> 0), w)
     else Some ((ESP_OK, flag (tp_config tp)), w)) w"

definition esp_lcd_touch_get_swap_xy ::
  "ptr \<Rightarrow> bool \<Rightarrow> 'a touch_world_scheme \<Rightarrow> ((esp_err \<times> bool) \<times> 'a touch_world_scheme) option" where
  "esp_lcd_touch_get_swap_xy = get_flag fn_get_swap_xy flag_swap_xy"

definition esp_lcd_touch_get_mirror_x ::
  "ptr \<Rightarrow> bool \<Rightarrow> 'a touch_world_scheme \<Rightarrow> ((esp_err \<times> bool) \<times> 'a touch_world_scheme) option" where
  "esp_lcd_touch_get_mirror_x = get_flag fn_get_mirror_x flag_mirror_x"

definition esp_lcd_touch_get_mirror_y ::
  "ptr \<Rightarrow> bool \<Rightarrow> 'a touch_world_scheme \<Rightarrow> ((esp_err \<times> bool) \<times> 'a touch_world_scheme) option" where
  "esp_lcd_touch_get_mirror_y = get_flag fn_get_mirror_y flag_mirror_y"

definition esp_lcd_touch_del :: "ptr \<Rightarrow> 'a touch_world_scheme \<Rightarrow> (esp_err \<times> 'a touch_world_scheme) option" where
  "esp_lcd_touch_del p w = esp_lcd_touch_ft5x06_del p w"

definition esp_lcd_touch_register_interrupt_callback ::
  "ptr \<Rightarrow> ptr \<Rightarrow> 'a touch_world_scheme \<Rightarrow> (esp_err \<times> 'a touch_world_scheme) option" where
  "esp_lcd_touch_register_interrupt_callback p callback w = on_touch p (\<lambda>tp w.
     let gpio = int_gpio_num (tp_config tp)
     in if gpio = - 1 then Some (ESP_ERR_INVALID_ARG, w)
     else let w = set_touch p (tp\<lparr>tp_config := (tp_config tp)\<lparr>interrupt_callback := callback\<rparr>\<rparr>) w
     in if callback \<noteq> 0
     then let (r, w) = do_call (GPIO (Gpio_install_isr_service 0)) w
          in if ret r \<noteq> ESP_OK \<and> ret r \<noteq> ESP_ERR_INVALID_STATE then Some (ret r, w)
             else ESP_RETURN_ON_ERROR (call_ret (GPIO (Gpio_intr_enable gpio)))
                    (ESP_RETURN_ON_ERROR (call_ret (GPIO (Gpio_isr_handler_add gpio callback p)))
                      (\<lambda>w. Some (ESP_OK, w))) w
     else ESP_RETURN_ON_ERROR (call_ret (GPIO (Gpio_isr_handler_remove gpio)))
            (ESP_RETURN_ON_ERROR (call_ret (GPIO (Gpio_intr_disable gpio))) (\<lambda>w. Some (ESP_OK, w))) w) w"

definition esp_lcd_touch_register_interrupt_callback_with_data ::
  "ptr \<Rightarrow> ptr \<Rightarrow> ptr \<Rightarrow> 'a touch_world_scheme \<Rightarrow> (esp_err \<times> 'a touch_world_scheme) option" where
  "esp_lcd_touch_register_interrupt_callback_with_data p callback user_data w = do {
     (_, w) \<leftarrow> on_touch p (\<lambda>tp w. Some ((), set_touch p (tp\<lparr>tp_config := (tp_config tp)\<lparr>cb_user_data := user_data\<rparr>\<rparr>) w)) w;
     esp_lcd_touch_register_interrupt_callback p callback w }"

section \<open>Creating a touch object\<close>

definition new_touch_object :: "ptr \<Rightarrow> esp_lcd_touch_config_t \<Rightarrow> esp_lcd_touch_t" where
  "new_touch_object io config =
     \<lparr>fn_enter_sleep = 0, fn_exit_sleep = 0, fn_get_button_state = 0, fn_set_swap_xy = 0, fn_get_swap_xy = 0,
      fn_set_mirror_x = 0, fn_get_mirror_x = 0, fn_set_mirror_y = 0, fn_get_mirror_y = 0,
      tp_config = config, tp_io = io, tp_points = 0,
      tp_coords = replicate CONFIG_ESP_LCD_TOUCH_MAX_POINTS (0, 0, 0)\<rparr>"

text \<open>The label \<^verbatim>\<open>err\<close> with an error; the result has the new object, \<open>0\<close> where \<^verbatim>\<open>*out_touch\<close> is not written.\<close>

definition touch_new_err :: "esp_err \<Rightarrow> ptr \<Rightarrow> 'a touch_world_scheme \<Rightarrow> ((esp_err \<times> ptr) \<times> 'a touch_world_scheme) option" where
  "touch_new_err e p w = do { (_, w) \<leftarrow> esp_lcd_touch_ft5x06_del p w; Some ((e, 0), w) }"

definition touch_int_pin :: "ptr \<Rightarrow> esp_lcd_touch_config_t \<Rightarrow> 'a touch_world_scheme \<Rightarrow> (esp_err \<times> 'a touch_world_scheme) option" where
  "touch_int_pin p config w =
    (if int_gpio_num config \<noteq> - 1
     then do {
       (e, w) \<leftarrow> call_ret (GPIO (Gpio_config (2 ^ nat (int_gpio_num config)) 1 (if level_interrupt config then 1 else 2))) w;
       if e \<noteq> ESP_OK then Some (e, w)
       else if interrupt_callback config \<noteq> 0
       then do { (_, w) \<leftarrow> esp_lcd_touch_register_interrupt_callback p (interrupt_callback config) w; Some (ESP_OK, w) }
       else Some (ESP_OK, w) }
     else Some (ESP_OK, w))"

definition touch_rst_pin :: "esp_lcd_touch_config_t \<Rightarrow> 'a world_scheme \<Rightarrow> (esp_err \<times> 'a world_scheme) option" where
  "touch_rst_pin config w =
    (if rst_gpio_num config \<noteq> - 1 then call_ret (GPIO (Gpio_config (2 ^ nat (rst_gpio_num config)) 2 0)) w
     else Some (ESP_OK, w))"

definition esp_lcd_touch_new_i2c_ft5x06 ::
  "ptr \<Rightarrow> esp_lcd_touch_config_t \<Rightarrow> 'a touch_world_scheme \<Rightarrow> ((esp_err \<times> ptr) \<times> 'a touch_world_scheme) option" where
  "esp_lcd_touch_new_i2c_ft5x06 io config w =
    (let (r, w) = do_call (MEM (Calloc 1 132)) w; p = handle (ret r)
     in if p = 0 then Some ((ESP_ERR_NO_MEM, 0), w)
     else let w = set_touch p (new_touch_object io config) w
     in do {
       (e, w) \<leftarrow> ESP_RETURN_ON_ERROR (touch_int_pin p config)
                  (ESP_RETURN_ON_ERROR (touch_rst_pin config)
                    (ESP_RETURN_ON_ERROR (touch_ft5x06_reset p) (touch_ft5x06_init p))) w;
       if e \<noteq> ESP_OK then touch_new_err e p w else Some ((ESP_OK, p), w) })"

section \<open>The touch screen of the board\<close>

definition ESP_LCD_TOUCH_IO_I2C_FT5x06_CONFIG :: esp_lcd_panel_io_i2c_config_t where
  "ESP_LCD_TOUCH_IO_I2C_FT5x06_CONFIG =
     \<lparr>cfg_dev_addr = 0x38, cfg_i2c_color_trans_done = 0, cfg_i2c_user_ctx = 0, cfg_control_phase_bytes = 1,
      cfg_dc_bit_offset = 0, cfg_i2c_cmd_bits = 8, cfg_i2c_param_bits = 0, cfg_i2c_dc_low_on_data = False,
      cfg_disable_control_phase = True\<rparr>"

definition bsp_touch_config :: esp_lcd_touch_config_t where
  "bsp_touch_config =
     \<lparr>x_max = of_nat BSP_LCD_V_RES, y_max = of_nat BSP_LCD_H_RES, rst_gpio_num = - 1, int_gpio_num = - 1,
      level_reset = False, level_interrupt = False, flag_swap_xy = True, flag_mirror_x = True, flag_mirror_y = False,
      process_coordinates = None, interrupt_callback = 0, cb_user_data = 0\<rparr>"

definition bsp_touch_new :: "'a touch_world_scheme \<Rightarrow> ((esp_err \<times> ptr) \<times> 'a touch_world_scheme) option" where
  "bsp_touch_new w =
    (let (e, tp_io_handle, w) = esp_lcd_new_panel_io_i2c BSP_I2C_NUM ESP_LCD_TOUCH_IO_I2C_FT5x06_CONFIG w
     in if e \<noteq> ESP_OK then Some ((e, 0), w)
     else do {
       ((e, p), w) \<leftarrow> esp_lcd_touch_new_i2c_ft5x06 tp_io_handle bsp_touch_config w;
       if e \<noteq> ESP_OK then None else Some ((ESP_OK, p), w) })"

section \<open>Reading the controller directly\<close>

definition LCD_WIDTH :: nat where "LCD_WIDTH = 320"
definition LCD_HEIGHT :: nat where "LCD_HEIGHT = 240"
definition FT6336_I2C_ADDR :: u8 where "FT6336_I2C_ADDR = 0x38"
definition FT6336_REG_STATUS :: u8 where "FT6336_REG_STATUS = 0x02"
definition FT6336_REG_XH :: u8 where "FT6336_REG_XH = 0x03"

definition touch_coord :: "u8 \<Rightarrow> u8 \<Rightarrow> u16" where
  "touch_coord hi lo = push_bit 8 (ucast (hi AND 0x0F)) OR ucast lo"

text \<open>\<open>data0\<close>: the indeterminate local buffer.  No step of the command link is checked.\<close>

definition ft6336_read_touch :: "u8 list \<Rightarrow> 'a world_scheme \<Rightarrow> (u16 \<times> u16 \<times> 'a world_scheme) option" where
  "ft6336_read_touch data0 w =
    (let (cmd, w) = i2c_cmd_link_create w;
         (_, cmd, w) = i2c_master_start cmd w;
         (_, cmd, w) = i2c_master_write_byte cmd (push_bit 1 FT6336_I2C_ADDR OR I2C_MASTER_WRITE) True w;
         (_, cmd, w) = i2c_master_write_byte cmd FT6336_REG_XH True w;
         (_, cmd, w) = i2c_master_start cmd w;
         (_, cmd, w) = i2c_master_write_byte cmd (push_bit 1 FT6336_I2C_ADDR OR I2C_MASTER_READ) True w;
         (_, cmd, w) = i2c_master_read cmd 4 I2C_MASTER_LAST_NACK w;
         (_, cmd, w) = i2c_master_stop cmd w
     in do {
       (_, bytes, w) \<leftarrow> i2c_master_cmd_begin 0 cmd (pdMS_TO_TICKS 100) w;
       let w = i2c_cmd_link_delete cmd w;
       let data = overlay bytes data0;
       let raw_x = touch_coord (data ! 0) (data ! 1);
       let raw_y = touch_coord (data ! 2) (data ! 3);
       Some (raw_y, raw_x, w) })"

text \<open>
  The scales are quotients of constants and the products are below \<open>2\<^sup>2\<^sup>4\<close>, so single precision is exact.
\<close>

definition convert_coordinates :: "u16 \<Rightarrow> u16 \<Rightarrow> u16 \<times> u16" where
  "convert_coordinates x y =
    (let x_scale = real LCD_WIDTH / 320; y_scale = real LCD_HEIGHT / 240;
         scaled_x = word_of_int \<lfloor>real (unat x) * x_scale\<rfloor>;
         scaled_y = word_of_int \<lfloor>real (unat y) * y_scale\<rfloor>
     in (scaled_x, of_nat LCD_HEIGHT - scaled_y))"

text \<open>\<open>slot\<close>: the address of the parameter of \<^verbatim>\<open>lcd_draw_point\<close> on the stack.\<close>

fun draw_cross :: "int list \<Rightarrow> ptr \<Rightarrow> u16 \<Rightarrow> u16 \<Rightarrow> 'a lcd_world_scheme \<Rightarrow> 'a lcd_world_scheme option" where
  "draw_cross [] slot touch_x touch_y w = Some w"
| "draw_cross (i # js) slot touch_x touch_y w = do {
     w \<leftarrow> lcd_draw_point slot (uint touch_x + i) (uint touch_y) 0xF800 w;
     w \<leftarrow> lcd_draw_point slot (uint touch_x) (uint touch_y + i) 0xF800 w;
     draw_cross js slot touch_x touch_y w }"

definition LCD_Touch :: "u8 \<Rightarrow> u8 list \<Rightarrow> ptr \<Rightarrow> 'a lcd_world_scheme \<Rightarrow> 'a lcd_world_scheme option" where
  "LCD_Touch touch_num0 data0 slot w = do {
     (_, b, w) \<leftarrow> i2c_master_write_read_device 0 FT6336_I2C_ADDR [FT6336_REG_STATUS] [touch_num0] (pdMS_TO_TICKS 100) w;
     let touch_num = hd b AND 0x0F;
     if touch_num > 0
     then do {
       (touch_x, touch_y, w) \<leftarrow> ft6336_read_touch data0 w;
       let (touch_x, touch_y) = convert_coordinates touch_x touch_y;
       w \<leftarrow> lcd_draw_point slot (uint touch_x) (uint touch_y) 0xF800 w;
       draw_cross [- 5..5] slot touch_x touch_y w }
     else Some w }"

section \<open>The controller as a register device\<close>

text \<open>The panel IO object of the touch screen, and the command links its transfers build.\<close>

definition touch_io :: lcd_panel_io_i2c_t where
  "touch_io =
     \<lparr>i2c_bus_id = 0, dev_addr = 0x38, i2c_cmd_bits = 8, i2c_param_bits = 0, control_phase_enabled = False,
      control_phase_cmd = 0, control_phase_data = 1, i2c_color_trans_done = 0, i2c_user_ctx = 0\<rparr>"

definition touch_write_link :: "u8 \<Rightarrow> u8 \<Rightarrow> i2c_cmd list" where
  "touch_write_link r v = [I2C_Restart, I2C_Write True [0x70], I2C_Write True [r], I2C_Write True [v], I2C_Stop]"

definition touch_read_link :: "u8 \<Rightarrow> nat \<Rightarrow> i2c_cmd list" where
  "touch_read_link r n =
     [I2C_Restart, I2C_Write True [0x70], I2C_Write True [r], I2C_Restart, I2C_Write True [0x71]] @ read_part n @ [I2C_Stop]"

lemma touch_cmd_bytes: "lcd_cmd_bytes touch_io (uint r) = [r]"
  by (simp add: lcd_cmd_bytes_def touch_io_def)

lemma touch_tx_eq:
  "panel_io_i2c_tx_param touch_io (uint r) (Some [v]) w =
     (let (e, _, w') = i2c_run 0 (touch_write_link r v) portMAX_DELAY w in Some (e, w'))"
  by (simp add: panel_io_i2c_tx_param_def panel_io_i2c_tx_buffer_def link_defs on_link_static cmd_begin_run
      touch_cmd_bytes link_cmd_def then_link_def CMD_HANDLER_BUFFER_SIZE_def touch_write_link_def
      Let_def split: prod.splits) (simp add: touch_io_def)

lemma touch_rx_eq:
  "buf \<noteq> [] \<Longrightarrow> panel_io_i2c_rx_param touch_io (uint r) (Some buf) w =
     (let (e, bytes, w') = i2c_run 0 (touch_read_link r (length buf)) portMAX_DELAY w in Some (e, Some (overlay bytes buf), w'))"
  by (simp add: panel_io_i2c_rx_param_def panel_io_i2c_rx_buffer_def link_defs on_link_static cmd_begin_run
      touch_cmd_bytes link_cmd_def then_link_def CMD_HANDLER_BUFFER_SIZE_def touch_read_link_def read_part_def
      Let_def split: prod.splits) (simp add: touch_io_def)

lemma reg_write_of_touch_links [simp]:
  "reg_write_of 0x38 (touch_write_link r v) = Some (r, v)"
  "0 < n \<Longrightarrow> reg_write_of 0x38 (touch_read_link r n) = None"
  by (simp_all add: reg_write_of_def touch_write_link_def touch_read_link_def read_part_def)

abbreviation ft_write :: "u8 \<Rightarrow> u8 \<Rightarrow> 'a world_scheme \<Rightarrow> (esp_err \<times> 'a world_scheme) option" where
  "ft_write r v \<equiv> panel_io_i2c_tx_param touch_io (uint r) (Some [v])"

abbreviation ft_regs :: "'a world_scheme \<Rightarrow> u8 \<Rightarrow> u8 option" where
  "ft_regs \<equiv> dev_regs 0 0x38"

interpretation ft: reg_device ft_write ft_regs
proof
  fix r v and w :: "'a world_scheme"
  show "\<exists>e w'. ft_write r v w = Some (e, w')" by (simp add: touch_tx_eq split: prod.splits)
next
  fix r v and w w' :: "'a world_scheme"
  assume "ft_write r v w = Some (ESP_OK, w')"
  then show "ft_regs w' = (ft_regs w)(r \<mapsto> v)"
    by (auto simp: touch_tx_eq split: prod.splits dest!: i2c_run_regs [rotated])
next
  fix r v e and w w' :: "'a world_scheme"
  assume "ft_write r v w = Some (e, w')" "e \<noteq> ESP_OK"
  then show "ft_regs w' = ft_regs w"
    by (auto simp: touch_tx_eq split: prod.splits dest!: i2c_run_regs [rotated])
qed

text \<open>A live touch object of the board.\<close>

definition live :: "ptr \<Rightarrow> esp_lcd_touch_t \<Rightarrow> 'a touch_world_scheme \<Rightarrow> bool" where
  "live p tp w \<longleftrightarrow> p \<noteq> 0 \<and> touches w p = Some tp \<and> tp_io tp \<noteq> 0 \<and> ios w (tp_io tp) = Some (Io_i2c touch_io)"

lemma only_log_live: "only_log w w' \<Longrightarrow> live p tp w' = live p tp w"
  by (cases w; cases w') (simp add: only_log_def live_def)

lemma i2c_run_only_log: "i2c_run port cmds ticks w = (e, bs, w') \<Longrightarrow> only_log w w'"
  using i2c_run_frame by blast

lemma touch_write_live:
  "live p tp w \<Longrightarrow> touch_ft5x06_i2c_write p r v w = ft_write r v w"
  by (simp add: touch_ft5x06_i2c_write_def on_touch_def live_def esp_lcd_panel_io_tx_param_def)

lemma touch_read_live:
  assumes "live p tp w" and "buf \<noteq> []"
  shows "touch_ft5x06_i2c_read p r buf w =
    (let (e, bytes, w') = i2c_run 0 (touch_read_link r (length buf)) portMAX_DELAY w in Some ((e, overlay bytes buf), w'))"
  using assms by (simp add: touch_ft5x06_i2c_read_def on_touch_def live_def esp_lcd_panel_io_rx_param_def touch_rx_eq
      split: prod.splits)

lemma ft_write_only_log: "ft_write r v w = Some (e, w') \<Longrightarrow> only_log w w'"
  by (auto simp: touch_tx_eq split: prod.splits dest: i2c_run_only_log)

lemma write_or_live:
  "live p tp w \<Longrightarrow> write_or (touch_ft5x06_i2c_write p) rvs acc w = write_or ft_write rvs acc w"
proof (induction rvs arbitrary: acc w)
  case (Cons rv rvs)
  obtain r v where rv: "rv = (r, v)" by (cases rv)
  obtain e w1 where w1: "ft_write r v w = Some (e, w1)" using ft.wr_returns by blast
  then have "live p tp w1" using Cons.prems only_log_live ft_write_only_log by blast
  with Cons.IH w1 Cons.prems show ?case by (simp add: rv touch_write_live)
qed simp

lemma write_or_only_log: "write_or ft_write rvs acc w = Some (e, w') \<Longrightarrow> only_log w w'"
proof (induction rvs arbitrary: acc w)
  case (Cons rv rvs)
  obtain r v where rv: "rv = (r, v)" by (cases rv)
  obtain e1 w1 where w1: "ft_write r v w = Some (e1, w1)" using ft.wr_returns by blast
  with Cons rv show ?case by (auto intro: only_log_trans ft_write_only_log)
qed simp

lemma write_or_quiet: "write_or ft_write rvs acc w = Some (e, w') \<Longrightarrow> \<exists>evs. world.log w' = world.log w @ evs \<and> wire evs = []"
proof (induction rvs arbitrary: acc w)
  case (Cons rv rvs)
  obtain r v where rv: "rv = (r, v)" by (cases rv)
  obtain e1 w1 where w1: "ft_write r v w = Some (e1, w1)" using ft.wr_returns by blast
  then obtain evs1 where "world.log w1 = world.log w @ evs1" "wire evs1 = []"
    by (auto simp: touch_tx_eq split: prod.splits dest: i2c_run_frame)
  moreover obtain evs2 where "world.log w' = world.log w1 @ evs2" "wire evs2 = []"
    using Cons.IH [of _ w1] Cons.prems w1 by (auto simp: rv)
  ultimately show ?case by (intro exI [of _ "evs1 @ evs2"]) simp
qed simp

lemma touch_init_live:
  assumes "live p tp w"
  shows "\<exists>e w'. touch_ft5x06_init p w = Some (e, w') \<and> only_log w w' \<and>
    (e = ESP_OK \<longrightarrow> ft_regs w' = ft_regs w ++ map_of (rev ft5x06_settings))"
proof -
  obtain e w' where r: "write_or ft_write ft5x06_settings ESP_OK w = Some (e, w')" using ft.write_or_returns by blast
  with assms ft.write_or_ok show ?thesis
    by (auto simp: touch_ft5x06_init_def write_or_live dest: write_or_only_log)
qed

section \<open>Properties\<close>

text \<open>A board whose heap serves every request and whose bus 0 is up and acknowledges everything.\<close>

definition touch_up :: "'a world_scheme \<Rightarrow> bool" where
  "touch_up w \<longleftrightarrow> (\<forall>h n m. 0 < ret (wenv w h (MEM (Calloc n m)))) \<and> bus_up 0 w \<and>
     (\<forall>h port cmds t. ret (wenv w h (I2C (I2C_exec port cmds t))) = ESP_OK)"

lemma touch_up_after [simp]: "touch_up (after w c) = touch_up w"
  by (simp add: touch_up_def)

lemma touch_up_calloc: "touch_up w \<Longrightarrow> handle (ret (reply_to w (MEM (Calloc n m)))) \<noteq> 0"
proof -
  assume "touch_up w"
  then have "0 < ret (reply_to w (MEM (Calloc n m)))" by (simp add: touch_up_def reply_to_def)
  then show ?thesis by (simp add: handle_def)
qed

lemma write_or_up: "touch_up w \<Longrightarrow> \<exists>w'. write_or ft_write rvs acc w = Some (acc, w') \<and> touch_up w'"
proof (induction rvs arbitrary: w)
  case (Cons rv rvs)
  obtain r v where rv: "rv = (r, v)" by (cases rv)
  have "bus_up 0 w" "ret (reply_to w (I2C (I2C_exec 0 (touch_write_link r v) portMAX_DELAY))) = ESP_OK"
    using Cons.prems by (simp_all add: touch_up_def reply_to_def)
  then have "ft_write r v w = Some (ESP_OK, after w (I2C (I2C_exec 0 (touch_write_link r v) portMAX_DELAY)))"
    by (simp add: touch_tx_eq i2c_run_up Let_def)
  with Cons.IH [of "after w (I2C (I2C_exec 0 (touch_write_link r v) portMAX_DELAY))"] Cons.prems show ?case by (simp add: rv)
qed simp

lemma bsp_touch_new_run:
  assumes "touch_up w"
  shows "\<exists>p h w'. bsp_touch_new w = Some ((ESP_OK, p), w') \<and> live p (new_touch_object h bsp_touch_config) w' \<and>
    (\<exists>w2. ft_regs w2 = ft_regs w \<and> write_or ft_write ft5x06_settings ESP_OK w2 = Some (ESP_OK, w')) \<and>
    only_log (w\<lparr>ios := ios w', touches := touches w'\<rparr>) w' \<and> (\<exists>evs. world.log w' = world.log w @ evs \<and> wire evs = [])"
proof -
  define c1 where "c1 = MEM (Calloc 1 (56 + CMD_HANDLER_BUFFER_SIZE))"
  define h where "h = handle (ret (reply_to w c1))"
  define w1 where "w1 = (after w c1)\<lparr>ios := (ios w)(h \<mapsto> Io_i2c touch_io)\<rparr>"
  have h: "h \<noteq> 0" using touch_up_calloc [OF assms] by (simp add: h_def c1_def)
  have io: "esp_lcd_new_panel_io_i2c BSP_I2C_NUM ESP_LCD_TOUCH_IO_I2C_FT5x06_CONFIG w = (ESP_OK, h, w1)"
    using h by (simp add: esp_lcd_new_panel_io_i2c_def ESP_LCD_TOUCH_IO_I2C_FT5x06_CONFIG_def do_call_eq Let_def
        h_def w1_def c1_def touch_io_def BSP_I2C_NUM_def)
  have up1: "touch_up w1" using assms by (simp add: w1_def touch_up_def bus_up_def)
  define c2 where "c2 = MEM (Calloc 1 132)"
  define p where "p = handle (ret (reply_to w1 c2))"
  have p: "p \<noteq> 0" using touch_up_calloc [OF up1] by (simp add: p_def c2_def)
  define w2 where "w2 = set_touch p (new_touch_object h bsp_touch_config) (after w1 c2)"
  have live2: "live p (new_touch_object h bsp_touch_config) w2"
    using p h by (simp add: live_def w2_def set_touch_def new_touch_object_def w1_def)
  have up2: "touch_up w2" using up1 by (simp add: w2_def set_touch_def touch_up_def bus_up_def)
  obtain w3 where w3: "write_or ft_write ft5x06_settings ESP_OK w2 = Some (ESP_OK, w3)" using write_or_up [OF up2] by blast
  have live3: "live p (new_touch_object h bsp_touch_config) w3"
    using only_log_live [OF write_or_only_log [OF w3]] live2 by simp
  have "esp_lcd_touch_new_i2c_ft5x06 h bsp_touch_config w1 = do {
       (e, w) \<leftarrow> ESP_RETURN_ON_ERROR (touch_int_pin p bsp_touch_config)
                  (ESP_RETURN_ON_ERROR (touch_rst_pin bsp_touch_config)
                    (ESP_RETURN_ON_ERROR (touch_ft5x06_reset p) (touch_ft5x06_init p))) w2;
       if e \<noteq> ESP_OK then touch_new_err e p w else Some ((ESP_OK, p), w) }"
    using p unfolding esp_lcd_touch_new_i2c_ft5x06_def do_call_eq Let_def p_def w2_def c2_def prod.case by (simp only: if_False)
  moreover have "touch_int_pin p bsp_touch_config w2 = Some (ESP_OK, w2)" "touch_rst_pin bsp_touch_config w2 = Some (ESP_OK, w2)"
    by (simp_all add: touch_int_pin_def touch_rst_pin_def bsp_touch_config_def)
  moreover have "touch_ft5x06_reset p w2 = Some (ESP_OK, w2)"
    using live2 by (simp add: touch_ft5x06_reset_def on_touch_def live_def new_touch_object_def bsp_touch_config_def)
  moreover have "touch_ft5x06_init p w2 = Some (ESP_OK, w3)"
    using w3 by (simp add: touch_ft5x06_init_def write_or_live [OF live2])
  ultimately have "esp_lcd_touch_new_i2c_ft5x06 h bsp_touch_config w1 = Some ((ESP_OK, p), w3)"
    by (simp add: ESP_RETURN_ON_ERROR_def)
  then have "bsp_touch_new w = Some ((ESP_OK, p), w3)" by (simp add: bsp_touch_new_def io)
  moreover have "ft_regs w2 = ft_regs w" by (simp add: w2_def w1_def set_touch_def dev_regs_def c1_def c2_def)
  moreover have "only_log (w\<lparr>ios := ios w3, touches := touches w3\<rparr>) w3"
    using write_or_only_log [OF w3] by (cases w; cases w3) (simp add: only_log_def w2_def w1_def set_touch_def after_def)
  moreover have "\<exists>evs. world.log w3 = world.log w @ evs \<and> wire evs = []"
    using write_or_quiet [OF w3] by (auto simp: w2_def w1_def set_touch_def c1_def c2_def)
  ultimately show ?thesis using live3 w3 by blast
qed


definition touch_board :: touch_world where
  "touch_board = \<lparr>wenv = \<lambda>h c. (case c of MEM _ \<Rightarrow> answer (int (length h) + 1) | _ \<Rightarrow> answer ESP_OK),
     log = [], i2c_obj = [0 \<mapsto> I2C_MODE_MASTER], ios = Map.empty, panels = Map.empty, panel_handle = 0, io_handle = 0,
     touches = Map.empty\<rparr>"

lemma touch_board_up: "touch_up touch_board"
  by (auto simp: touch_up_def touch_board_def bus_up_def)


lemma length_fill_coords [simp]: "length (fill_coords i n data cs) = length cs"
  by (induction i n data cs rule: fill_coords.induct) auto

lemma fill_coords_nth:
  "j < length cs \<Longrightarrow> fill_coords i n data cs ! j =
     (if i \<le> j \<and> j < i + n
      then (ft5x06_coord (data ! (j * 6)) (data ! (j * 6 + 1)), ft5x06_coord (data ! (j * 6 + 2)) (data ! (j * 6 + 3)),
            snd (snd (cs ! j)))
      else cs ! j)"
proof (induction i n data cs rule: fill_coords.induct)
  case (2 i n data cs)
  then show ?case by (cases "i = j") (auto simp: nth_list_update)
qed auto

lemma adjust_points_nth:
  "n \<le> length xs \<Longrightarrow> n \<le> length ys \<Longrightarrow> adjust_points tp n xs ys = (xs', ys') \<Longrightarrow>
   length xs' = length xs \<and> length ys' = length ys \<and>
   (\<forall>i < length xs. xs' ! i = (if i < n then fst (adjust_point tp (xs ! i, ys ! i)) else xs ! i)) \<and>
   (\<forall>i < length ys. ys' ! i = (if i < n then snd (adjust_point tp (xs ! i, ys ! i)) else ys ! i))"
proof (induction tp n xs ys arbitrary: xs' ys' rule: adjust_points.induct)
  case (2 tp n x xs y ys)
  obtain a b where ab: "adjust_point tp (x, y) = (a, b)" by (cases "adjust_point tp (x, y)")
  obtain xs1 ys1 where r: "adjust_points tp n xs ys = (xs1, ys1)" by (cases "adjust_points tp n xs ys")
  have eq: "xs' = a # xs1" "ys' = b # ys1" using "2.prems"(3) ab r by simp_all
  have "length xs1 = length xs \<and> length ys1 = length ys \<and>
      (\<forall>i < length xs. xs1 ! i = (if i < n then fst (adjust_point tp (xs ! i, ys ! i)) else xs ! i)) \<and>
      (\<forall>i < length ys. ys1 ! i = (if i < n then snd (adjust_point tp (xs ! i, ys ! i)) else ys ! i))"
    using "2.IH" [OF ab [symmetric] refl _ _ r] "2.prems" by simp
  then show ?case unfolding eq by (auto simp: ab nth_Cons split: nat.splits)
qed auto

lemma overlay_nth:
  "i < length buf \<Longrightarrow> overlay xs buf ! i = (if i < length xs then xs ! i else buf ! i)"
  by (auto simp: overlay_def nth_append min_def)

text \<open>
  C17. A touch makes its way from the controller's registers to the caller: when the controller reports
  \<open>n\<close> points, 1 to 5, and their bytes, \<^verbatim>\<open>read_data\<close> succeeds and the next \<^verbatim>\<open>get_coordinates\<close> delivers the
  first \<open>min n max\<close> of them, X being the controller's 12-bit Y and Y being 240 minus its 12-bit X, in the
  leading array elements and nowhere else; and the points are then gone.
\<close>

theorem touch_read_then_get:
  assumes "live p tp w" and "tp_config tp = bsp_touch_config" and "fn_set_mirror_x tp = 0" "fn_set_swap_xy tp = 0"
    and "length (tp_coords tp) = 5" and "length data0 = 30"
    and "touch_ft5x06_i2c_read p FT5x06_TOUCH_POINTS [points0] w = Some ((ESP_OK, [n]), w1)" and "1 \<le> unat n" "unat n \<le> 5"
    and "touch_ft5x06_i2c_read p FT5x06_TOUCH1_XH (take (6 * unat n) data0) w1 = Some ((ESP_OK, data), w2)"
    and "0 < max_points" "min (unat n) max_points \<le> length xs" "min (unat n) max_points \<le> length ys"
  shows "\<exists>w3 w4 xs' ys'. esp_lcd_touch_read_data points0 data0 p w = Some (ESP_OK, w3) \<and>
    esp_lcd_touch_get_coordinates p xs ys None max_points w3 = Some ((True, xs', ys', None, min (unat n) max_points), w4) \<and>
    length xs' = length xs \<and> length ys' = length ys \<and>
    (\<forall>i < length xs. xs' ! i = (if i < min (unat n) max_points
        then ft5x06_coord (data ! (i * 6 + 2)) (data ! (i * 6 + 3)) else xs ! i)) \<and>
    (\<forall>i < length ys. ys' ! i = (if i < min (unat n) max_points
        then 240 - ft5x06_coord (data ! (i * 6)) (data ! (i * 6 + 1)) else ys ! i)) \<and>
    (\<exists>w5. esp_lcd_touch_get_coordinates p xs' ys' None max_points w4 = Some ((False, xs', ys', None, 0), w5))"
proof -
  define m where "m = min (unat n) max_points"
  have live1: "live p tp w1" and live2: "live p tp w2"
  proof -
    obtain e b v where "i2c_run 0 (touch_read_link FT5x06_TOUCH_POINTS (length [points0])) portMAX_DELAY w = (e, b, v)"
      by (metis prod_cases3)
    with assms(7) show live1: "live p tp w1"
      using assms(1) by (auto simp: touch_read_live [OF assms(1)] only_log_live dest: i2c_run_only_log)
    have ne: "take (6 * unat n) data0 \<noteq> []" using assms(6,8) by (cases "data0 = []") auto
    obtain e b v where "i2c_run 0 (touch_read_link FT5x06_TOUCH1_XH (length (take (6 * unat n) data0))) portMAX_DELAY w1 = (e, b, v)"
      by (metis prod_cases3)
    with assms(10) show "live p tp w2"
      using live1 by (auto simp: touch_read_live [OF live1 ne] only_log_live dest: i2c_run_only_log)
  qed
  define tp3 where "tp3 = tp\<lparr>tp_points := unat n, tp_coords := fill_coords 0 (unat n) data (tp_coords tp)\<rparr>"
  define w3 where "w3 = set_touch p tp3 w2"
  have n: "\<not> (5 < unat n \<or> unat n = 0)" "\<not> CONFIG_ESP_LCD_TOUCH_MAX_POINTS < unat n"
    using assms(8,9) by (auto simp: CONFIG_ESP_LCD_TOUCH_MAX_POINTS_def)
  have read: "esp_lcd_touch_read_data points0 data0 p w = Some (ESP_OK, w3)"
    using assms(7,10) n live2 unfolding esp_lcd_touch_read_data_def esp_lcd_touch_ft5x06_read_data_def Let_def
    by (simp add: on_touch_def live_def w3_def tp3_def)
  define saved where "saved = take m (tp_coords tp3)"
  have len: "length saved = m" using assms(5,9) by (simp add: saved_def tp3_def m_def)
  have saved: "saved ! i = (ft5x06_coord (data ! (i * 6)) (data ! (i * 6 + 1)), ft5x06_coord (data ! (i * 6 + 2)) (data ! (i * 6 + 3)),
      snd (snd (tp_coords tp ! i)))" if "i < m" for i
    using that assms(5,9) fill_coords_nth [of i "tp_coords tp" 0 "unat n" data] by (simp add: saved_def tp3_def m_def)
  define w4 where "w4 = set_touch p (tp3\<lparr>tp_points := 0\<rparr>) w3"
  have p: "p \<noteq> 0" using assms(1) by (simp add: live_def)
  have m: "(if unat n > max_points then max_points else unat n) = m" "0 < m" "m \<le> length xs" "m \<le> length ys"
    using assms(8,11-13) by (auto simp: m_def)
  have get: "esp_lcd_touch_ft5x06_get_xy p xs ys None max_points w3 =
      Some ((True, overlay (map fst saved) xs, overlay (map (fst \<circ> snd) saved) ys, None, m), w4)"
    using p m assms(5,9,11) unfolding esp_lcd_touch_ft5x06_get_xy_def
    by (simp add: on_touch_def w3_def set_touch_def Let_def tp3_def w4_def saved_def [unfolded tp3_def]) (auto simp: m_def)
  define xs0 ys0 where "xs0 = overlay (map fst saved) xs" and "ys0 = overlay (map (fst \<circ> snd) saved) ys"
  obtain xs' ys' where adj: "adjust_points (tp3\<lparr>tp_points := 0\<rparr>) m xs0 ys0 = (xs', ys')"
    by (cases "adjust_points (tp3\<lparr>tp_points := 0\<rparr>) m xs0 ys0")
  have cfg: "tp_config tp3 = bsp_touch_config" "fn_set_mirror_x tp3 = 0" "fn_set_swap_xy tp3 = 0"
    using assms(2-4) by (simp_all add: tp3_def)
  have coords: "esp_lcd_touch_get_coordinates p xs ys None max_points w3 = Some ((True, xs', ys', None, m), w4)"
    using get p m(3,4) adj cfg unfolding esp_lcd_touch_get_coordinates_def xs0_def ys0_def
    by (simp add: on_touch_def w4_def set_touch_def sw_adj_needed_def bsp_touch_config_def Let_def)
  have again: "\<exists>w5. esp_lcd_touch_get_coordinates p xs' ys' None max_points w4 = Some ((False, xs', ys', None, 0), w5)"
    using p assms(11) by (simp add: esp_lcd_touch_get_coordinates_def esp_lcd_touch_ft5x06_get_xy_def on_touch_def w4_def set_touch_def Let_def)
  have l0: "length xs0 = length xs" "length ys0 = length ys" by (simp_all add: xs0_def ys0_def)
  note nth = adjust_points_nth [OF _ _ adj, unfolded l0, OF m(3,4)]
  have pt: "adjust_point (tp3\<lparr>tp_points := 0\<rparr>) (a, b) = (b, 240 - a)" for a b
    using cfg by (simp add: adjust_point_def bsp_touch_config_def BSP_LCD_V_RES_def)
  have at: "xs0 ! i = fst (saved ! i)" "ys0 ! i = fst (snd (saved ! i))" if "i < m" for i
    using that len m(3,4) by (simp_all add: xs0_def ys0_def overlay_nth)
  have off: "i < length xs \<Longrightarrow> \<not> i < m \<Longrightarrow> xs0 ! i = xs ! i" "i < length ys \<Longrightarrow> \<not> i < m \<Longrightarrow> ys0 ! i = ys ! i" for i
    using len by (simp_all add: xs0_def ys0_def overlay_nth)
  have "\<forall>i < length xs. xs' ! i = (if i < m then ft5x06_coord (data ! (i * 6 + 2)) (data ! (i * 6 + 3)) else xs ! i)"
    and "\<forall>i < length ys. ys' ! i = (if i < m then 240 - ft5x06_coord (data ! (i * 6)) (data ! (i * 6 + 1)) else ys ! i)"
    using nth by (auto simp: pt at off saved)
  then show ?thesis
    using read coords again nth unfolding m_def [symmetric] by blast
qed

definition touch_one :: touch_world where
  "touch_one = touch_board\<lparr>wenv := \<lambda>h c. \<lparr>ret = ESP_OK, out = (if h = [] then [1] else [0x80, 0, 0x10, 100, 0, 0]), content = [], hnd = 0\<rparr>,
     ios := [5 \<mapsto> Io_i2c touch_io], touches := [6 \<mapsto> new_touch_object 5 bsp_touch_config]\<rparr>"

theorem touch_read_then_get_witness:
  "\<exists>w3 w4. esp_lcd_touch_read_data 0 (replicate 30 0) 6 touch_one = Some (ESP_OK, w3) \<and>
     esp_lcd_touch_get_coordinates 6 [7] [7] None 1 w3 = Some ((True, [100], [240], None, 1), w4)"
proof -
  have live: "live 6 (new_touch_object 5 bsp_touch_config) touch_one"
    by (simp add: live_def touch_one_def new_touch_object_def)
  define w1 where "w1 = after touch_one (I2C (I2C_exec 0 (touch_read_link FT5x06_TOUCH_POINTS 1) portMAX_DELAY))"
  have r1: "touch_ft5x06_i2c_read 6 FT5x06_TOUCH_POINTS [0] touch_one = Some ((ESP_OK, [1]), w1)"
    using touch_read_live [OF live, of "[0]"] by (simp add: i2c_run_def reply_to_def w1_def) (simp add: touch_one_def touch_board_def)
  have w1: "live 6 (new_touch_object 5 bsp_touch_config) w1" "wenv w1 = wenv touch_one" "world.log w1 \<noteq> []" "i2c_obj w1 = i2c_obj touch_one"
    using live by (simp_all add: w1_def live_def)
  obtain w2 where r2: "touch_ft5x06_i2c_read 6 FT5x06_TOUCH1_XH (take (6 * unat (1 :: u8)) (replicate 30 0)) w1 =
      Some ((ESP_OK, [0x80, 0, 0x10, 100, 0, 0]), w2)"
    using w1 by (simp add: touch_read_live [OF w1(1)] i2c_run_def reply_to_def touch_one_def touch_board_def)
  have cfg: "tp_config (new_touch_object 5 bsp_touch_config) = bsp_touch_config" "fn_set_mirror_x (new_touch_object 5 bsp_touch_config) = 0"
    "fn_set_swap_xy (new_touch_object 5 bsp_touch_config) = 0" "length (tp_coords (new_touch_object 5 bsp_touch_config)) = 5"
    by (simp_all add: new_touch_object_def CONFIG_ESP_LCD_TOUCH_MAX_POINTS_def)
  have "ft5x06_coord 0x10 100 = 100" "ft5x06_coord 0x80 0 = 0" by (simp_all add: ft5x06_coord_def)
  with touch_read_then_get [OF live cfg _ r1 _ _ r2, of 1 "[7]" "[7]"] show ?thesis
    by (fastforce simp: length_Suc_conv)
qed

section \<open>Reachable states\<close>

text \<open>The state machine of the board's touch screen: creating it, reading it, and changing its settings, in any order.\<close>

inductive touch_step :: "'a touch_world_scheme \<Rightarrow> 'a touch_world_scheme \<Rightarrow> bool" where
  step_new: "bsp_touch_new w = Some (r, w') \<Longrightarrow> touch_step w w'"
| step_read: "length data0 = 30 \<Longrightarrow> esp_lcd_touch_read_data points0 data0 p w = Some (e, w') \<Longrightarrow> touch_step w w'"
| step_get: "esp_lcd_touch_get_coordinates p xs ys strength max_points w = Some (r, w') \<Longrightarrow> touch_step w w'"
| step_swap: "esp_lcd_touch_set_swap_xy p b w = Some (e, w') \<Longrightarrow> touch_step w w'"
| step_mirror_x: "esp_lcd_touch_set_mirror_x p b w = Some (e, w') \<Longrightarrow> touch_step w w'"
| step_mirror_y: "esp_lcd_touch_set_mirror_y p b w = Some (e, w') \<Longrightarrow> touch_step w w'"
| step_callback: "esp_lcd_touch_register_interrupt_callback_with_data p cb ud w = Some (e, w') \<Longrightarrow> touch_step w w'"
| step_del: "esp_lcd_touch_del p w = Some (e, w') \<Longrightarrow> touch_step w w'"

definition coord_ok :: "u16 \<times> u16 \<times> u16 \<Rightarrow> bool" where
  "coord_ok c \<longleftrightarrow> (case c of (x, y, s) \<Rightarrow> unat x < 4096 \<and> unat y < 4096 \<and> s = 0)"

definition touch_ok :: "esp_lcd_touch_t \<Rightarrow> bool" where
  "touch_ok tp \<longleftrightarrow> tp_points tp \<le> 5 \<and> length (tp_coords tp) = 5 \<and>
     (\<forall>c \<in> set (tp_coords tp). coord_ok c)"

definition touch_inv :: "'a touch_world_scheme \<Rightarrow> bool" where
  "touch_inv w \<longleftrightarrow> (\<forall>p tp. touches w p = Some tp \<longrightarrow>
     touch_ok tp \<and> tp_io tp \<noteq> 0 \<and> ios w (tp_io tp) = Some (Io_i2c touch_io))"

lemma touch_inv_after [simp]: "touch_inv (after w c) = touch_inv w"
  by (simp add: touch_inv_def)

lemma touch_inv_live: "touch_inv w \<Longrightarrow> p \<noteq> 0 \<Longrightarrow> touches w p = Some tp \<Longrightarrow> live p tp w \<and> touch_ok tp"
  by (auto simp: touch_inv_def live_def)

lemma touch_inv_only_log: "only_log w w' \<Longrightarrow> touch_inv w' = touch_inv w"
  by (cases w; cases w') (simp add: only_log_def touch_inv_def)

lemma touch_inv_set:
  "touch_inv w \<Longrightarrow> touches w p = Some tp \<Longrightarrow> touch_ok tp' \<Longrightarrow> tp_io tp' = tp_io tp \<Longrightarrow> touch_inv (set_touch p tp' w)"
  by (auto simp: touch_inv_def set_touch_def)

lemma on_touch_inv:
  assumes "on_touch p f w = Some (r, w')" and "touch_inv w"
    and "\<And>tp. live p tp w \<Longrightarrow> touches w p = Some tp \<Longrightarrow> touch_ok tp \<Longrightarrow> f tp w = Some (r, w') \<Longrightarrow> touch_inv w'"
  shows "touch_inv w'"
  using assms touch_inv_live [OF assms(2)] by (auto simp: on_touch_def split: if_splits option.splits)

lemma ft5x06_coord_or: "ft5x06_coord hi lo = push_bit 8 (ucast hi AND mask 4) OR ucast lo"
proof -
  have "push_bit 8 (ucast hi AND 0x0f) AND (ucast lo :: u16) = 0"
    by (rule bit_word_eqI) (auto simp: bit_simps dest: bit_imp_le_length)
  then have "ft5x06_coord hi lo = push_bit 8 (ucast hi AND 0x0f) OR ucast lo"
    unfolding ft5x06_coord_def by (rule disjunctive_add_eq_or)
  then show ?thesis by (simp add: mask_eq_exp_minus_1)
qed

lemma unat_ft5x06_coord: "unat (ft5x06_coord hi lo) < 4096"
proof -
  have "ft5x06_coord hi lo = push_bit 8 (ucast hi AND mask 4) OR ucast lo" by (rule ft5x06_coord_or)
  also have "\<dots> = take_bit 12 \<dots>"
    by (rule bit_word_eqI) (auto simp: bit_simps dest: bit_imp_le_length)
  finally have "ft5x06_coord hi lo = take_bit 12 (push_bit 8 (ucast hi AND mask 4) OR ucast lo)" .
  then have "unat (ft5x06_coord hi lo) = take_bit 12 (unat (push_bit 8 (ucast hi AND mask 4 :: u16) OR ucast lo))"
    by (simp only: unsigned_take_bit_eq)
  also have "\<dots> < 2 ^ 12" by (rule take_bit_nat_less_exp)
  finally show ?thesis by simp
qed

lemma fill_coords_ok:
  assumes "\<forall>c \<in> set cs. coord_ok c"
  shows "\<forall>c \<in> set (fill_coords i n data cs). coord_ok c"
proof -
  have "coord_ok (fill_coords i n data cs ! j)" if "j < length cs" for j
  proof -
    obtain x y s where c: "cs ! j = (x, y, s)" by (cases "cs ! j")
    with assms nth_mem [OF that] have "coord_ok (x, y, s)" by metis
    with that c show ?thesis by (simp add: fill_coords_nth unat_ft5x06_coord coord_ok_def)
  qed
  then show ?thesis by (metis (no_types, lifting) in_set_conv_nth length_fill_coords)
qed

lemma call_ret_inv: "call_ret c w = Some (e, w') \<Longrightarrow> touch_inv w' = touch_inv w"
  by (auto simp: call_ret_eq)

lemma step_read_inv:
  assumes "esp_lcd_touch_read_data points0 data0 p w = Some (e, w')" and "touch_inv w" and "length data0 = 30"
  shows "touch_inv w'"
proof (cases "p \<noteq> 0 \<and> touches w p \<noteq> None")
  case False
  then have "touch_ft5x06_i2c_read p FT5x06_TOUCH_POINTS [points0] w = None"
    by (auto simp: touch_ft5x06_i2c_read_def on_touch_def)
  with assms(1) show ?thesis by (simp add: esp_lcd_touch_read_data_def esp_lcd_touch_ft5x06_read_data_def)
next
  case True
  then obtain tp where "touches w p = Some tp" "p \<noteq> 0" by blast
  with assms(2) have live: "live p tp w" and ok: "touch_ok tp" using touch_inv_live by blast+
  obtain e1 b1 w1 where r1: "i2c_run 0 (touch_read_link FT5x06_TOUCH_POINTS 1) portMAX_DELAY w = (e1, b1, w1)" by (metis prod_cases3)
  have inv1: "touch_inv w1" and live1: "live p tp w1"
    using assms(2) live i2c_run_only_log [OF r1] touch_inv_only_log only_log_live by blast+
  define n where "n = unat (hd (overlay b1 [points0]))"
  have read: "Some (e, w') = (if e1 \<noteq> ESP_OK then Some (e1, w1) else if n > 5 \<or> n = 0 then Some (ESP_OK, w1)
      else do { ((e, data), w) \<leftarrow> touch_ft5x06_i2c_read p FT5x06_TOUCH1_XH (take (6 * n) data0) w1;
                if e \<noteq> ESP_OK then Some (e, w)
                else on_touch p (\<lambda>tp w. Some (ESP_OK,
                       set_touch p (tp\<lparr>tp_points := n, tp_coords := fill_coords 0 n data (tp_coords tp)\<rparr>) w)) w })"
    using assms(1) touch_read_live [OF live, of "[points0]"] r1
    unfolding esp_lcd_touch_read_data_def esp_lcd_touch_ft5x06_read_data_def n_def CONFIG_ESP_LCD_TOUCH_MAX_POINTS_def Let_def
    by (auto split: if_splits)
  show ?thesis
  proof (cases "e1 \<noteq> ESP_OK \<or> n > 5 \<or> n = 0")
    case True
    then show ?thesis using read inv1 by (auto split: if_splits)
  next
    case False
    then have ne: "take (6 * n) data0 \<noteq> []" using assms(3) by auto
    obtain e2 b2 w2 where r2: "i2c_run 0 (touch_read_link FT5x06_TOUCH1_XH (length (take (6 * n) data0))) portMAX_DELAY w1 = (e2, b2, w2)"
      by (metis prod_cases3)
    have inv2: "touch_inv w2" and live2: "live p tp w2"
      using inv1 live1 i2c_run_only_log [OF r2] touch_inv_only_log only_log_live by blast+
    have "touch_ok (tp\<lparr>tp_points := n, tp_coords := fill_coords 0 n d (tp_coords tp)\<rparr>)" for d
      using ok False fill_coords_ok by (auto simp: touch_ok_def)
    then show ?thesis
      using read False inv2 live2 touch_read_live [OF live1 ne] r2
      by (auto simp: on_touch_def live_def split: if_splits intro: touch_inv_set)
  qed
qed

lemma step_get_inv:
  assumes "esp_lcd_touch_get_coordinates p xs ys strength m w = Some (r, w')" and "touch_inv w"
  shows "touch_inv w'"
proof -
  obtain t x y s n w1 where get: "esp_lcd_touch_ft5x06_get_xy p xs ys strength m w = Some ((t, x, y, s, n), w1)"
    using assms(1) by (auto simp: esp_lcd_touch_get_coordinates_def split: bind_splits)
  have "touch_inv w1"
  proof (rule on_touch_inv [OF get [unfolded esp_lcd_touch_ft5x06_get_xy_def] assms(2)])
    fix tp assume "touches w p = Some tp" "touch_ok tp"
      and r: "(if \<not> 0 < m then None else let n = (if tp_points tp > m then m else tp_points tp);
              saved = take n (tp_coords tp)
     in if length xs < n \<or> length ys < n \<or> (\<exists>s. strength = Some s \<and> length s < n) \<or> length (tp_coords tp) < n then None
     else Some ((n > 0, overlay (map fst saved) xs, overlay (map (fst \<circ> snd) saved) ys,
                 map_option (overlay (map (snd \<circ> snd) saved)) strength, n),
                set_touch p (tp\<lparr>tp_points := 0\<rparr>) w)) = Some ((t, x, y, s, n), w1)"
    moreover have "touch_ok (tp\<lparr>tp_points := 0\<rparr>)" using \<open>touch_ok tp\<close> by (simp add: touch_ok_def)
    ultimately show "touch_inv w1"
      using assms(2) by (auto simp: Let_def split: if_splits intro: touch_inv_set)
  qed
  then show ?thesis
    using assms(1) get by (auto simp: esp_lcd_touch_get_coordinates_def on_touch_def Let_def split: if_splits option.splits prod.splits)
qed

lemma touch_ok_config [simp]: "touch_ok (tp\<lparr>tp_config := c\<rparr>) = touch_ok tp"
  by (simp add: touch_ok_def)

lemma step_set_inv:
  assumes "touch_inv w"
  shows "esp_lcd_touch_set_swap_xy p b w = Some (e, w') \<Longrightarrow> touch_inv w'"
    and "esp_lcd_touch_set_mirror_x p b w = Some (e, w') \<Longrightarrow> touch_inv w'"
    and "esp_lcd_touch_set_mirror_y p b w = Some (e, w') \<Longrightarrow> touch_inv w'"
    and "esp_lcd_touch_register_interrupt_callback p cb w = Some (e, w') \<Longrightarrow> touch_inv w'"
    and "esp_lcd_touch_del p w = Some (e, w') \<Longrightarrow> touch_inv w'"
proof -
  have set: "touches w p = Some tp \<Longrightarrow> touch_inv (set_touch p (tp\<lparr>tp_config := c\<rparr>) w)" for tp c
  proof (rule touch_inv_set [OF assms])
    assume "touches w p = Some tp"
    then show "touches w p = Some tp" "touch_ok (tp\<lparr>tp_config := c\<rparr>)"
      using assms unfolding touch_inv_def by auto
  qed simp
  show "esp_lcd_touch_set_swap_xy p b w = Some (e, w') \<Longrightarrow> touch_inv w'"
    and "esp_lcd_touch_set_mirror_x p b w = Some (e, w') \<Longrightarrow> touch_inv w'"
    and "esp_lcd_touch_set_mirror_y p b w = Some (e, w') \<Longrightarrow> touch_inv w'"
    using set by (auto simp: esp_lcd_touch_set_swap_xy_def esp_lcd_touch_set_mirror_x_def esp_lcd_touch_set_mirror_y_def
        on_touch_def hw_op_def Let_def call_ret_eq split: if_splits option.splits)
  show "esp_lcd_touch_register_interrupt_callback p cb w = Some (e, w') \<Longrightarrow> touch_inv w'"
    using set assms by (auto simp: esp_lcd_touch_register_interrupt_callback_def on_touch_def Let_def do_call_eq call_ret_eq
        ESP_RETURN_ON_ERROR_def split: if_splits option.splits)
  show "esp_lcd_touch_del p w = Some (e, w') \<Longrightarrow> touch_inv w'"
    using assms by (auto simp: esp_lcd_touch_del_def esp_lcd_touch_ft5x06_del_def on_touch_def Let_def call_void_eq
        touch_inv_def split: if_splits option.splits)
qed

lemma step_new_inv:
  assumes "bsp_touch_new w = Some (r, w')" and "touch_inv w"
  shows "touch_inv w'"
proof -
  define c1 where "c1 = MEM (Calloc 1 (56 + CMD_HANDLER_BUFFER_SIZE))"
  define h where "h = handle (ret (reply_to w c1))"
  define w1 where "w1 = (after w c1)\<lparr>ios := (ios w)(h \<mapsto> Io_i2c touch_io)\<rparr>"
  have io: "esp_lcd_new_panel_io_i2c BSP_I2C_NUM ESP_LCD_TOUCH_IO_I2C_FT5x06_CONFIG w =
      (if h = 0 then (ESP_ERR_NO_MEM, 0, after w c1) else (ESP_OK, h, w1))"
    by (simp add: esp_lcd_new_panel_io_i2c_def ESP_LCD_TOUCH_IO_I2C_FT5x06_CONFIG_def do_call_eq Let_def
        h_def w1_def c1_def touch_io_def BSP_I2C_NUM_def)
  show ?thesis
  proof (cases "h = 0")
    case True
    with assms io show ?thesis by (auto simp: bsp_touch_new_def)
  next
    case False
    with assms(1) io obtain e p where new: "esp_lcd_touch_new_i2c_ft5x06 h bsp_touch_config w1 = Some ((e, p), w')" "e = ESP_OK"
      by (auto simp: bsp_touch_new_def split: bind_splits if_splits)
    define c2 where "c2 = MEM (Calloc 1 132)"
    define q where "q = handle (ret (reply_to w1 c2))"
    define w2 where "w2 = set_touch q (new_touch_object h bsp_touch_config) (after w1 c2)"
    have inv2: "touch_inv w2"
      using assms(2) False by (auto simp: touch_inv_def w2_def set_touch_def w1_def new_touch_object_def touch_ok_def coord_ok_def
          CONFIG_ESP_LCD_TOUCH_MAX_POINTS_def)
    have q: "q \<noteq> 0"
      using new unfolding esp_lcd_touch_new_i2c_ft5x06_def do_call_eq Let_def q_def c2_def by (auto split: if_splits)
    then have live2: "live q (new_touch_object h bsp_touch_config) w2"
      using False by (simp add: live_def w2_def set_touch_def w1_def new_touch_object_def)
    obtain e3 w3 where init: "touch_ft5x06_init q w2 = Some (e3, w3)" "only_log w2 w3"
      using touch_init_live [OF live2] by blast
    have pins: "touch_int_pin q bsp_touch_config w2 = Some (ESP_OK, w2)" "touch_rst_pin bsp_touch_config w2 = Some (ESP_OK, w2)"
      by (simp_all add: touch_int_pin_def touch_rst_pin_def bsp_touch_config_def)
    have reset: "touch_ft5x06_reset q w2 = Some (ESP_OK, w2)"
      using live2 by (simp add: touch_ft5x06_reset_def on_touch_def live_def new_touch_object_def bsp_touch_config_def)
    have "esp_lcd_touch_new_i2c_ft5x06 h bsp_touch_config w1 = (if e3 \<noteq> ESP_OK then touch_new_err e3 q w3 else Some ((ESP_OK, q), w3))"
    proof -
      have "esp_lcd_touch_new_i2c_ft5x06 h bsp_touch_config w1 = do {
       (e, w) \<leftarrow> ESP_RETURN_ON_ERROR (touch_int_pin q bsp_touch_config)
                  (ESP_RETURN_ON_ERROR (touch_rst_pin bsp_touch_config)
                    (ESP_RETURN_ON_ERROR (touch_ft5x06_reset q) (touch_ft5x06_init q))) w2;
       if e \<noteq> ESP_OK then touch_new_err e q w else Some ((ESP_OK, q), w) }"
        using q unfolding esp_lcd_touch_new_i2c_ft5x06_def do_call_eq Let_def q_def w2_def c2_def prod.case by (simp only: if_False)
      then show ?thesis using pins reset init(1) by (simp add: ESP_RETURN_ON_ERROR_def)
    qed
    with new have "w' = w3" by (auto simp: touch_new_err_def split: if_splits bind_splits)
    with inv2 init(2) touch_inv_only_log show ?thesis by blast
  qed
qed

text \<open>
  C4. In every state that creating, reading, adjusting and deleting the touch screen can reach from a world
  without touch objects, whatever the controller answers, every touch object has at most five points
  saved in its five slots, all coordinates are 12-bit numbers, and its panel IO is alive.
\<close>

theorem touch_reachable_invariant:
  assumes "touch_step\<^sup>*\<^sup>* w w'" and "touches w = Map.empty" and "touches w' p = Some tp"
  shows "tp_points tp \<le> 5 \<and> length (tp_coords tp) = 5 \<and>
    (\<forall>(x, y, s) \<in> set (tp_coords tp). unat x < 4096 \<and> unat y < 4096) \<and> ios w' (tp_io tp) = Some (Io_i2c touch_io)"
proof -
  have "touch_inv w" using assms(2) by (simp add: touch_inv_def)
  with assms(1) have "touch_inv w'"
  proof (induction rule: rtranclp_induct)
    case (step w1 w2)
    from step.hyps(2) step.IH [OF step.prems] show ?case
    proof cases
      case (step_callback p cb ud e)
      then obtain w3 where w3: "on_touch p (\<lambda>tp w. Some ((), set_touch p (tp\<lparr>tp_config := (tp_config tp)\<lparr>cb_user_data := ud\<rparr>\<rparr>) w)) w1 = Some ((), w3)"
        "esp_lcd_touch_register_interrupt_callback p cb w3 = Some (e, w2)"
        by (auto simp: esp_lcd_touch_register_interrupt_callback_with_data_def split: bind_splits)
      have "touch_inv w3"
        using step.IH [OF step.prems]
        by (rule on_touch_inv [OF w3(1)]) (auto intro: touch_inv_set [OF step.IH [OF step.prems]])
      then show ?thesis using w3(2) step_set_inv(4) by blast
    qed (blast intro: step_new_inv step_read_inv step_get_inv step_set_inv)+
  qed
  with assms(3) show ?thesis unfolding touch_inv_def touch_ok_def coord_ok_def by fastforce
qed

theorem touch_reachable_invariant_witness:
  "\<exists>w' p tp. touch_step\<^sup>*\<^sup>* touch_board w' \<and> touches w' p = Some tp \<and> tp_points tp \<le> 5"
proof -
  obtain p h w' where new: "bsp_touch_new touch_board = Some ((ESP_OK, p), w')" and "live p (new_touch_object h bsp_touch_config) w'"
    using bsp_touch_new_run [OF touch_board_up] by blast
  then have tp: "touches w' p = Some (new_touch_object h bsp_touch_config)" by (simp add: live_def)
  have "touch_step\<^sup>*\<^sup>* touch_board w'" using step_new [OF new] by blast
  with touch_reachable_invariant [OF this _ tp] tp show ?thesis by (auto simp: touch_board_def)
qed

section \<open>The direct reader\<close>

text \<open>A heap link under construction since \<open>w0\<close>: its commands, and its descriptor and nodes the blocks obtained since.\<close>

definition heap_link :: "'a world_scheme \<Rightarrow> i2c_cmd list \<Rightarrow> i2c_cmd_handle \<Rightarrow> 'a world_scheme \<Rightarrow> bool" where
  "heap_link w0 cs cmd w \<longleftrightarrow> (\<exists>d evs. cmd = Some d \<and> \<not> static_buf d \<and> cmd_list d = cs \<and> world.log w = world.log w0 @ evs \<and>
     allocs evs = self_ptr d # node_ptrs d \<and> frees evs = [] \<and> wenv w = wenv w0)"

abbreviation heap_serves :: "'a world_scheme \<Rightarrow> bool" where
  "heap_serves w \<equiv> \<forall>h n m. 0 < ret (wenv w h (MEM (Calloc n m)))"

lemma heap_serves_reply: "heap_serves w \<Longrightarrow> handle (ret (reply_to w (MEM (Calloc n m)))) \<noteq> 0"
proof -
  assume "heap_serves w"
  then have "0 < ret (reply_to w (MEM (Calloc n m)))" by (simp add: reply_to_def)
  then show ?thesis by (simp add: handle_def)
qed

lemma heap_link_create:
  assumes "heap_serves w"
  shows "\<exists>cmd w'. i2c_cmd_link_create w = (cmd, w') \<and> heap_link w [] cmd w'"
  using heap_serves_reply [OF assms] by (auto simp: i2c_cmd_link_create_def do_call_eq heap_link_def)

lemma heap_link_append:
  assumes "heap_serves w0" and "heap_link w0 cs cmd w"
  shows "\<exists>cmd' w'. on_link cmd c w = (ESP_OK, cmd', w') \<and> heap_link w0 (cs @ [c]) cmd' w'"
proof -
  obtain d evs where d: "cmd = Some d" "\<not> static_buf d" "cmd_list d = cs" "world.log w = world.log w0 @ evs"
    "allocs evs = self_ptr d # node_ptrs d" "frees evs = []" "wenv w = wenv w0"
    using assms(2) unfolding heap_link_def by blast
  have "heap_serves w" using assms(1) d(7) by simp
  from heap_serves_reply [OF this] have "handle (ret (reply_to w node_calloc)) \<noteq> 0" .
  with d show ?thesis
    by (auto simp: on_link_heap Let_def heap_link_def)
qed

lemma heap_link_run:
  assumes "heap_link w0 cs cmd w" and "cs \<noteq> []"
  shows "\<exists>e bytes w'. i2c_master_cmd_begin port cmd t w = Some (e, bytes, w') \<and> i2c_run port cs t w = (e, bytes, w') \<and>
    heap_link w0 cs cmd w'"
proof -
  obtain d evs where d: "cmd = Some d" "\<not> static_buf d" "cmd_list d = cs" "world.log w = world.log w0 @ evs"
    "allocs evs = self_ptr d # node_ptrs d" "frees evs = []" "wenv w = wenv w0"
    using assms(1) unfolding heap_link_def by blast
  obtain e bytes w' where run: "i2c_run port cs t w = (e, bytes, w')" by (metis prod_cases3)
  moreover obtain x where "world.log w' = world.log w @ x" "allocs x = []" "frees x = []" "wenv w' = wenv w"
    using run by (auto simp: i2c_run_def Let_def split: if_splits)
  ultimately show ?thesis
    using d assms(2) cmd_begin_run [of d port t w] by (auto simp: heap_link_def)
qed

lemma heap_link_delete: "heap_link w0 cs cmd w \<Longrightarrow> balanced (new_events w0 (i2c_cmd_link_delete cmd w))"
proof -
  assume "heap_link w0 cs cmd w"
  then obtain d evs where d: "cmd = Some d" "\<not> static_buf d" "world.log w = world.log w0 @ evs"
    "allocs evs = self_ptr d # node_ptrs d" "frees evs = []"
    unfolding heap_link_def by blast
  moreover obtain evs' where "world.log (i2c_cmd_link_delete cmd w) = world.log w @ evs'"
    "frees evs' = node_ptrs d @ [self_ptr d]" "allocs evs' = []"
    using link_delete_heap [OF d(2)] d(1) by blast
  ultimately show ?thesis by (simp add: balanced_def new_events_def)
qed

definition ft6336_link :: "i2c_cmd list" where
  "ft6336_link = [I2C_Restart, I2C_Write True [0x70], I2C_Write True [3], I2C_Restart, I2C_Write True [0x71],
     I2C_Read I2C_MASTER_ACK 3, I2C_Read I2C_MASTER_NACK 1, I2C_Stop]"

lemma ft6336_read_touch_run:
  fixes w :: "'a world_scheme"
  assumes "heap_serves w"
  shows "\<exists>(w1 :: 'a world_scheme) e bytes w2 w'. i2c_run 0 ft6336_link 10 w1 = (e, bytes, w2) \<and> balanced (new_events w w') \<and>
    ft6336_read_touch data0 w = Some (touch_coord (overlay bytes data0 ! 2) (overlay bytes data0 ! 3),
      touch_coord (overlay bytes data0 ! 0) (overlay bytes data0 ! 1), w')"
proof -
  note app = heap_link_append [OF assms]
  obtain c0 w0 where s0: "i2c_cmd_link_create w = (c0, w0)" "heap_link w [] c0 w0" using heap_link_create [OF assms] by blast
  obtain c1 w1 where s1: "on_link c0 I2C_Restart w0 = (ESP_OK, c1, w1)" "heap_link w [I2C_Restart] c1 w1"
    using app [OF s0(2)] by fastforce
  obtain c2 w2 where s2: "on_link c1 (I2C_Write True [0x70]) w1 = (ESP_OK, c2, w2)" "heap_link w [I2C_Restart, I2C_Write True [0x70]] c2 w2"
    using app [OF s1(2)] by fastforce
  obtain c3 w3 where s3: "on_link c2 (I2C_Write True [3]) w2 = (ESP_OK, c3, w3)"
    "heap_link w [I2C_Restart, I2C_Write True [0x70], I2C_Write True [3]] c3 w3"
    using app [OF s2(2)] by fastforce
  obtain c4 w4 where s4: "on_link c3 I2C_Restart w3 = (ESP_OK, c4, w4)"
    "heap_link w [I2C_Restart, I2C_Write True [0x70], I2C_Write True [3], I2C_Restart] c4 w4"
    using app [OF s3(2)] by fastforce
  obtain c5 w5 where s5: "on_link c4 (I2C_Write True [0x71]) w4 = (ESP_OK, c5, w5)"
    "heap_link w [I2C_Restart, I2C_Write True [0x70], I2C_Write True [3], I2C_Restart, I2C_Write True [0x71]] c5 w5"
    using app [OF s4(2)] by fastforce
  obtain c6 w6 where s6: "on_link c5 (I2C_Read I2C_MASTER_ACK 3) w5 = (ESP_OK, c6, w6)"
    "heap_link w [I2C_Restart, I2C_Write True [0x70], I2C_Write True [3], I2C_Restart, I2C_Write True [0x71],
       I2C_Read I2C_MASTER_ACK 3] c6 w6"
    using app [OF s5(2)] by fastforce
  obtain c7 w7 where s7: "on_link c6 (I2C_Read I2C_MASTER_NACK 1) w6 = (ESP_OK, c7, w7)"
    "heap_link w [I2C_Restart, I2C_Write True [0x70], I2C_Write True [3], I2C_Restart, I2C_Write True [0x71],
       I2C_Read I2C_MASTER_ACK 3, I2C_Read I2C_MASTER_NACK 1] c7 w7"
    using app [OF s6(2)] by fastforce
  obtain c8 w8 where s8: "on_link c7 I2C_Stop w7 = (ESP_OK, c8, w8)" "heap_link w ft6336_link c8 w8"
    using app [OF s7(2)] unfolding ft6336_link_def by fastforce
  obtain e bytes w9 where run: "i2c_master_cmd_begin 0 c8 10 w8 = Some (e, bytes, w9)" "i2c_run 0 ft6336_link 10 w8 = (e, bytes, w9)"
    "heap_link w ft6336_link c8 w9"
    using heap_link_run [OF s8(2)] by (fastforce simp: ft6336_link_def)
  obtain d5 d6 where some: "c5 = Some d5" "c6 = Some d6" using s5(2) s6(2) by (auto simp: heap_link_def)
  have "ft6336_read_touch data0 w = Some (touch_coord (overlay bytes data0 ! 2) (overlay bytes data0 ! 3),
      touch_coord (overlay bytes data0 ! 0) (overlay bytes data0 ! 1), i2c_cmd_link_delete c8 w9)"
    using s0(1) s1(1) s2(1) s3(1) s4(1) s5(1) s6(1) s7(1) s8(1) run(1) some
    by (simp add: ft6336_read_touch_def i2c_master_start_def i2c_master_stop_def i2c_master_write_byte_def
        i2c_master_read_def i2c_master_read_static_def i2c_master_read_byte_def FT6336_I2C_ADDR_def FT6336_REG_XH_def Let_def)
  with run(2) heap_link_delete [OF run(3)] show ?thesis by blast
qed

lemma touch_coord_eq: "touch_coord hi lo = ft5x06_coord hi lo"
proof -
  have m: "(0x0f :: u8) = mask 4" by (simp add: mask_eq_exp_minus_1)
  show ?thesis
    unfolding touch_coord_def ft5x06_coord_or m by (rule bit_word_eqI) (auto simp: bit_simps)
qed

text \<open>
  Reading the controller directly needs nothing of the bus: whatever it answers, the reader returns,
  frees every block of its command link, and delivers 12-bit numbers, X and Y exchanged, made of the four
  bytes the bus delivered.  The conversion keeps X and turns Y to 240 minus Y modulo \<open>2\<^sup>1\<^sup>6\<close>, so the point is in a row of the
  screen exactly if the number read was 1 to 240.
\<close>

theorem ft6336_touch_point:
  fixes w :: "'a world_scheme"
  assumes "heap_serves w" and "length data0 = 4"
  shows "\<exists>(w1 :: 'a world_scheme) e bytes w2 w' x y. i2c_run 0 ft6336_link 10 w1 = (e, bytes, w2) \<and>
    ft6336_read_touch data0 w = Some (x, y, w') \<and> balanced (new_events w w') \<and>
    x = touch_coord (overlay bytes data0 ! 2) (overlay bytes data0 ! 3) \<and>
    y = touch_coord (overlay bytes data0 ! 0) (overlay bytes data0 ! 1) \<and> unat x < 4096 \<and> unat y < 4096 \<and>
    convert_coordinates x y = (x, 240 - y) \<and> (unat (240 - y) < 240 \<longleftrightarrow> 1 \<le> unat y \<and> unat y \<le> 240)"
proof -
  have lt: "unat (touch_coord hi lo) < 4096" for hi lo by (simp add: touch_coord_eq unat_ft5x06_coord)
  have whole: "word_of_int \<lfloor>real_of_nat (unat x)\<rfloor> = x" for x :: u16
    by (simp only: floor_of_nat) simp
  have conv: "convert_coordinates x y = (x, 240 - y)" for x y
    using whole [of x] whole [of y] by (simp add: convert_coordinates_def LCD_WIDTH_def LCD_HEIGHT_def Let_def)
  have row: "unat (240 - y) < 240 \<longleftrightarrow> 1 \<le> unat y \<and> unat y \<le> 240" for y :: u16
  proof -
    have lt: "unat y < 65536" by (rule order_less_le_trans [OF unsigned_less]) simp
    have "unat (240 - y) = (if unat y \<le> 240 then 240 - unat y else 65776 - unat y)"
      using lt by (simp add: unat_sub_if' word_le_nat_alt)
    then show ?thesis using lt by presburger
  qed
  from ft6336_read_touch_run [OF assms(1), of data0] lt conv row show ?thesis by blast
qed

theorem ft6336_touch_point_witness:
  "\<exists>x y w'. ft6336_read_touch [0, 0, 0, 0] touch_board = Some (x, y, w') \<and> balanced (new_events touch_board w') \<and> unat x < 4096"
proof -
  have "heap_serves touch_board" using touch_board_up by (simp add: touch_up_def)
  from ft6336_touch_point [OF this, of "[0, 0, 0, 0]"] show ?thesis by fastforce
qed

end
