(* ===== verification/Lv_Area.thy ===== *)
theory Lv_Area
  imports Prelude
begin

text \<open>
  Rectangles of LVGL, managed_components/lvgl__lvgl/src/misc/lv_area.c and lv_area.h: areas given by
  their inclusive corners in 16-bit coordinates.  The specification of an area is the set of its
  points.
\<close>

section \<open>Areas\<close>

text \<open>\<^verbatim>\<open>lv_coord_t\<close> is a 16-bit signed integer: what storing a number in one keeps of it.\<close>

definition lv_coord :: "int \<Rightarrow> int" where
  "lv_coord x = signed_take_bit 15 x"

lemma lv_coord_id: "- 32768 \<le> x \<Longrightarrow> x < 32768 \<Longrightarrow> lv_coord x = x"
  unfolding lv_coord_def by (rule signed_take_bit_int_eq_self) simp_all

record lv_area_t =
  ax1 :: int
  ay1 :: int
  ax2 :: int
  ay2 :: int

abbreviation rect :: "int \<Rightarrow> int \<Rightarrow> int \<Rightarrow> int \<Rightarrow> lv_area_t" where
  "rect a b c d \<equiv> \<lparr>ax1 = a, ay1 = b, ax2 = c, ay2 = d\<rparr>"

definition lv_area_set :: "int \<Rightarrow> int \<Rightarrow> int \<Rightarrow> int \<Rightarrow> lv_area_t" where
  "lv_area_set x1 y1 x2 y2 = rect (lv_coord x1) (lv_coord y1) (lv_coord x2) (lv_coord y2)"

definition lv_area_get_width :: "lv_area_t \<Rightarrow> int" where
  "lv_area_get_width a = lv_coord (ax2 a - ax1 a + 1)"

definition lv_area_get_height :: "lv_area_t \<Rightarrow> int" where
  "lv_area_get_height a = lv_coord (ay2 a - ay1 a + 1)"

definition lv_area_set_width :: "lv_area_t \<Rightarrow> int \<Rightarrow> lv_area_t" where
  "lv_area_set_width a w = a\<lparr>ax2 := lv_coord (ax1 a + w - 1)\<rparr>"

definition lv_area_set_height :: "lv_area_t \<Rightarrow> int \<Rightarrow> lv_area_t" where
  "lv_area_set_height a h = a\<lparr>ay2 := lv_coord (ay1 a + h - 1)\<rparr>"

definition lv_area_set_pos :: "lv_area_t \<Rightarrow> int \<Rightarrow> int \<Rightarrow> lv_area_t" where
  "lv_area_set_pos a x y =
    (let w = lv_area_get_width a; h = lv_area_get_height a; a = a\<lparr>ax1 := lv_coord x, ay1 := lv_coord y\<rparr>
     in lv_area_set_height (lv_area_set_width a w) h)"

definition lv_area_get_size :: "lv_area_t \<Rightarrow> u32" where
  "lv_area_get_size a = word_of_int (ax2 a - ax1 a + 1) * word_of_int (ay2 a - ay1 a + 1)"

definition lv_area_increase :: "lv_area_t \<Rightarrow> int \<Rightarrow> int \<Rightarrow> lv_area_t" where
  "lv_area_increase a w_extra h_extra =
     rect (lv_coord (ax1 a - w_extra)) (lv_coord (ay1 a - h_extra)) (lv_coord (ax2 a + w_extra)) (lv_coord (ay2 a + h_extra))"

definition lv_area_move :: "lv_area_t \<Rightarrow> int \<Rightarrow> int \<Rightarrow> lv_area_t" where
  "lv_area_move a x_ofs y_ofs =
     rect (lv_coord (ax1 a + x_ofs)) (lv_coord (ay1 a + y_ofs)) (lv_coord (ax2 a + x_ofs)) (lv_coord (ay2 a + y_ofs))"

text \<open>The result and whether it is an area.\<close>

definition lv_area_intersect :: "lv_area_t \<Rightarrow> lv_area_t \<Rightarrow> bool \<times> lv_area_t" where
  "lv_area_intersect a b =
    (let r = rect (max (ax1 a) (ax1 b)) (max (ay1 a) (ay1 b)) (min (ax2 a) (ax2 b)) (min (ay2 a) (ay2 b))
     in (\<not> (ax1 r > ax2 r \<or> ay1 r > ay2 r), r))"

definition lv_area_join :: "lv_area_t \<Rightarrow> lv_area_t \<Rightarrow> lv_area_t" where
  "lv_area_join a b = rect (min (ax1 a) (ax1 b)) (min (ay1 a) (ay1 b)) (max (ax2 a) (ax2 b)) (max (ay2 a) (ay2 b))"

definition lv_area_is_on :: "lv_area_t \<Rightarrow> lv_area_t \<Rightarrow> bool" where
  "lv_area_is_on a b \<longleftrightarrow> ax1 a \<le> ax2 b \<and> ax2 a \<ge> ax1 b \<and> ay1 a \<le> ay2 b \<and> ay2 a \<ge> ay1 b"

definition lv_area_is_equal :: "lv_area_t \<Rightarrow> lv_area_t \<Rightarrow> bool" where
  "lv_area_is_equal a b \<longleftrightarrow> ax1 a = ax1 b \<and> ax2 a = ax2 b \<and> ay1 a = ay1 b \<and> ay2 a = ay2 b"

definition lv_point_within_circle :: "lv_area_t \<Rightarrow> int \<times> int \<Rightarrow> bool" where
  "lv_point_within_circle a p =
    (let r = lv_coord ((ax2 a - ax1 a) sdiv 2);
         cx = lv_coord (ax1 a + r); cy = lv_coord (ay1 a + r);
         px = lv_coord (fst p - cx); py = lv_coord (snd p - cy);
         r_sqrd = word_of_int (r * r) :: u32; dist = word_of_int (px * px + py * py)
     in dist \<le> r_sqrd)"

text \<open>Whether a point is on an area: the recursion of the source is one level deep (radius \<open>0\<close>).\<close>

definition on_rect :: "lv_area_t \<Rightarrow> int \<times> int \<Rightarrow> bool" where
  "on_rect a p \<longleftrightarrow> fst p \<ge> ax1 a \<and> fst p \<le> ax2 a \<and> snd p \<ge> ay1 a \<and> snd p \<le> ay2 a"

definition lv_area_is_point_on :: "lv_area_t \<Rightarrow> int \<times> int \<Rightarrow> int \<Rightarrow> bool" where
  "lv_area_is_point_on a p radius =
    (if \<not> on_rect a p then False
     else if radius \<le> 0 then True
     else let w = lv_coord (lv_area_get_width a sdiv 2); h = lv_coord (lv_area_get_height a sdiv 2);
              r = min radius (min w h);
              left = lv_coord (ax1 a + r); right = lv_coord (ax2 a - r);
              top = lv_coord (ay1 a + r); bottom = lv_coord (ay2 a - r)
     in if on_rect (rect (ax1 a) (ay1 a) left top) p
        then lv_point_within_circle (rect (ax1 a) (ay1 a) (lv_coord (left + r)) (lv_coord (top + r))) p
        else if on_rect (rect (ax1 a) bottom left (ay2 a)) p
        then lv_point_within_circle (rect (ax1 a) (lv_coord (bottom - r)) (lv_coord (left + r)) (ay2 a)) p
        else if on_rect (rect right bottom (ax2 a) (ay2 a)) p
        then lv_point_within_circle (rect (lv_coord (right - r)) (lv_coord (bottom - r)) (ax2 a) (ay2 a)) p
        else if on_rect (rect right (ay1 a) (ax2 a) top) p
        then lv_point_within_circle (rect (lv_coord (right - r)) (ay1 a) (ax2 a) (lv_coord (top + r))) p
        else True)"

definition corners :: "lv_area_t \<Rightarrow> (int \<times> int) list" where
  "corners a = [(ax1 a, ay1 a), (ax2 a, ay1 a), (ax1 a, ay2 a), (ax2 a, ay2 a)]"

definition lv_area_is_in :: "lv_area_t \<Rightarrow> lv_area_t \<Rightarrow> int \<Rightarrow> bool" where
  "lv_area_is_in ain aholder radius =
    (if \<not> (ax1 ain \<ge> ax1 aholder \<and> ay1 ain \<ge> ay1 aholder \<and> ax2 ain \<le> ax2 aholder \<and> ay2 ain \<le> ay2 aholder) then False
     else if radius = 0 then True
     else list_all (\<lambda>p. lv_area_is_point_on aholder p radius) (corners ain))"

definition lv_area_is_out :: "lv_area_t \<Rightarrow> lv_area_t \<Rightarrow> int \<Rightarrow> bool" where
  "lv_area_is_out aout aholder radius =
    (if ax2 aout < ax1 aholder \<or> ay2 aout < ay1 aholder \<or> ax1 aout > ax2 aholder \<or> ay1 aout > ay2 aholder then True
     else if radius = 0 then False
     else list_all (\<lambda>p. \<not> lv_area_is_point_on aholder p radius) (corners aout))"

text \<open>
  What is left of \<open>a\<close> without \<open>b\<close>: the number of rectangles (\<open>- 1\<close> when nothing is in common) and the
  rectangles, top, bottom, left, right.
\<close>

definition lv_area_diff :: "lv_area_t \<Rightarrow> lv_area_t \<Rightarrow> int \<times> lv_area_t list" where
  "lv_area_diff a b =
    (if \<not> lv_area_is_on a b then (- 1, [])
     else if lv_area_is_in a b 0 then (0, [])
     else let a1_w = lv_coord (lv_area_get_width a - 1); a1_h = lv_coord (lv_area_get_height a - 1);
              th = lv_coord (ay1 b - ay1 a);
              res = (if th > 0 then [rect (ax1 a) (ay1 a) (ax2 a) (lv_coord (ay1 a + th))] else []);
              bh = lv_coord (a1_h - (ay2 b - ay1 a));
              res = (if bh > 0 \<and> ay2 b < ay2 a then res @ [rect (ax1 a) (ay2 b) (ax2 a) (lv_coord (ay2 b + bh))] else res);
              y1 = (if ay1 b > ay1 a then ay1 b else ay1 a);
              y2 = (if ay2 b < ay2 a then ay2 b else ay2 a);
              sh = lv_coord (y2 - y1);
              lw = lv_coord (ax1 b - ax1 a);
              res = (if lw > 0 \<and> sh > 0 then res @ [rect (ax1 a) y1 (lv_coord (ax1 a + lw)) (lv_coord (y1 + sh))] else res);
              rw = lv_coord (a1_w - (ax2 b - ax1 a));
              res = (if rw > 0 then res @ [rect (ax2 b) y1 (lv_coord (ax2 b + rw)) (lv_coord (y1 + sh))] else res)
     in (int (length res), res))"

section \<open>Areas as sets of points\<close>

definition points :: "lv_area_t \<Rightarrow> (int \<times> int) set" where
  "points a = {ax1 a..ax2 a} \<times> {ay1 a..ay2 a}"

text \<open>An area whose coordinates are those of LVGL's own limits (\<^verbatim>\<open>LV_COORD_MAX\<close> is 8191), and not empty.\<close>

definition area_ok :: "lv_area_t \<Rightarrow> bool" where
  "area_ok a \<longleftrightarrow> - 8192 \<le> ax1 a \<and> ax1 a \<le> ax2 a \<and> ax2 a < 8192 \<and> - 8192 \<le> ay1 a \<and> ay1 a \<le> ay2 a \<and> ay2 a < 8192"

lemma mem_points: "(x, y) \<in> points a \<longleftrightarrow> ax1 a \<le> x \<and> x \<le> ax2 a \<and> ay1 a \<le> y \<and> y \<le> ay2 a"
  by (auto simp: points_def)

lemma points_empty: "points a = {} \<longleftrightarrow> ax2 a < ax1 a \<or> ay2 a < ay1 a"
  by (auto simp: points_def)

lemma on_rect_points: "on_rect a p \<longleftrightarrow> p \<in> points a"
  by (cases p) (auto simp: on_rect_def mem_points)

lemma intersect_points: "points (snd (lv_area_intersect a b)) = points a \<inter> points b"
  by (auto simp: lv_area_intersect_def points_def Let_def)

lemma intersect_ok: "fst (lv_area_intersect a b) \<longleftrightarrow> points a \<inter> points b \<noteq> {}"
  unfolding intersect_points [symmetric] points_empty by (auto simp: lv_area_intersect_def Let_def)

lemma is_in_points: "points a \<noteq> {} \<Longrightarrow> lv_area_is_in a b 0 \<longleftrightarrow> points a \<subseteq> points b"
  by (auto simp: lv_area_is_in_def points_def times_subset_iff)

lemma is_on_points: "points a \<noteq> {} \<Longrightarrow> points b \<noteq> {} \<Longrightarrow> lv_area_is_on a b \<longleftrightarrow> points a \<inter> points b \<noteq> {}"
  unfolding intersect_points [symmetric] points_empty by (auto simp: lv_area_intersect_def lv_area_is_on_def Let_def)

lemma join_points: "points a \<union> points b \<subseteq> points (lv_area_join a b)"
  by (auto simp: lv_area_join_def mem_points)

lemma area_ok_points: "area_ok a \<Longrightarrow> points a \<noteq> {}"
  by (auto simp: area_ok_def points_empty)

lemma area_ok_size:
  assumes "area_ok a"
  shows "lv_area_get_width a = ax2 a - ax1 a + 1" "lv_area_get_height a = ay2 a - ay1 a + 1"
    "uint (lv_area_get_size a) = (ax2 a - ax1 a + 1) * (ay2 a - ay1 a + 1)"
proof -
  show "lv_area_get_width a = ax2 a - ax1 a + 1" "lv_area_get_height a = ay2 a - ay1 a + 1"
    using assms by (simp_all add: area_ok_def lv_area_get_width_def lv_area_get_height_def lv_coord_id)
  have "0 \<le> (ax2 a - ax1 a + 1) * (ay2 a - ay1 a + 1)" using assms by (simp add: area_ok_def)
  moreover have "(ax2 a - ax1 a + 1) * (ay2 a - ay1 a + 1) \<le> 16384 * 16384"
    using assms by (intro mult_mono) (auto simp: area_ok_def)
  moreover have "lv_area_get_size a = word_of_int ((ax2 a - ax1 a + 1) * (ay2 a - ay1 a + 1))"
    by (simp only: lv_area_get_size_def of_int_mult)
  ultimately show "uint (lv_area_get_size a) = (ax2 a - ax1 a + 1) * (ay2 a - ay1 a + 1)"
    by (simp only: uint_word_of_int_eq) (simp add: take_bit_int_eq_self)
qed

section \<open>Properties\<close>

text \<open>What the four rectangles of a difference are, without the wrap-around.\<close>

lemma area_diff_pieces:
  assumes "area_ok a" "area_ok b" "lv_area_is_on a b" "\<not> lv_area_is_in a b 0"
  defines "y1 \<equiv> max (ay1 a) (ay1 b)" and "y2 \<equiv> min (ay2 a) (ay2 b)"
  shows "set (snd (lv_area_diff a b)) =
    (if ay1 a < ay1 b then {rect (ax1 a) (ay1 a) (ax2 a) (ay1 b)} else {}) \<union>
    (if ay2 b < ay2 a then {rect (ax1 a) (ay2 b) (ax2 a) (ay2 a)} else {}) \<union>
    (if ax1 a < ax1 b \<and> y1 < y2 then {rect (ax1 a) y1 (ax1 b) y2} else {}) \<union>
    (if ax2 b < ax2 a then {rect (ax2 b) y1 (ax2 a) y2} else {})"
proof -
  have c: "lv_coord (lv_area_get_width a - 1) = ax2 a - ax1 a" "lv_coord (lv_area_get_height a - 1) = ay2 a - ay1 a"
    "lv_coord (ay1 b - ay1 a) = ay1 b - ay1 a" "lv_coord (ay2 a - ay1 a - (ay2 b - ay1 a)) = ay2 a - ay2 b"
    "lv_coord (ax1 b - ax1 a) = ax1 b - ax1 a" "lv_coord (ax2 a - ax1 a - (ax2 b - ax1 a)) = ax2 a - ax2 b"
    "lv_coord (y2 - y1) = y2 - y1" "lv_coord (ay1 b) = ay1 b" "lv_coord (ay2 a) = ay2 a" "lv_coord (ax1 b) = ax1 b"
    "lv_coord (ax2 a) = ax2 a" "lv_coord y2 = y2" "lv_coord (ay2 a - ay2 b) = ay2 a - ay2 b" "lv_coord (ax2 a - ax2 b) = ax2 a - ax2 b"
    using assms(1,2) by (auto simp: area_ok_def area_ok_size [OF assms(1)] y1_def y2_def intro!: lv_coord_id)
  have m: "(if ay1 b > ay1 a then ay1 b else ay1 a) = y1" "(if ay2 b < ay2 a then ay2 b else ay2 a) = y2"
    by (auto simp: y1_def y2_def)
  show ?thesis
    using assms(3,4) unfolding lv_area_diff_def Let_def m
    by (cases "ay1 a < ay1 b"; cases "ay2 b < ay2 a"; cases "ax1 a < ax1 b"; cases "y1 < y2"; cases "ax2 b < ax2 a") (simp_all add: c insert_commute)
qed

text \<open>
  C40. Cutting one rectangle out of another (\<^verbatim>\<open>_lv_area_diff\<close>): the rectangles delivered, never more than four, lie in the
  first one and cover all of it that is outside the second one - except when the first one is a single row and has points left
  of the second one, which are then lost (its left rectangle is dropped because its height comes out as zero).
\<close>

theorem lv_area_diff_covers:
  assumes "area_ok a" "area_ok b" "lv_area_is_on a b" "\<not> lv_area_is_in a b 0"
  shows "(\<Union>r \<in> set (snd (lv_area_diff a b)). points r) \<subseteq> points a \<and> length (snd (lv_area_diff a b)) \<le> 4 \<and>
    fst (lv_area_diff a b) = int (length (snd (lv_area_diff a b))) \<and>
    (points a - points b \<subseteq> (\<Union>r \<in> set (snd (lv_area_diff a b)). points r) \<longleftrightarrow> ay1 a < ay2 a \<or> ax1 b \<le> ax1 a)"
proof -
  note p = area_diff_pieces [OF assms]
  note ok = assms(1,2) [unfolded area_ok_def] assms(3) [unfolded lv_area_is_on_def]
  have "(\<Union>r \<in> set (snd (lv_area_diff a b)). points r) \<subseteq> points a"
    unfolding p using ok by (auto simp: mem_points split: if_splits)
  moreover have "length (snd (lv_area_diff a b)) \<le> 4 \<and> fst (lv_area_diff a b) = int (length (snd (lv_area_diff a b)))"
    using assms(3,4) by (auto simp: lv_area_diff_def Let_def)
  moreover have "points a - points b \<subseteq> (\<Union>r \<in> set (snd (lv_area_diff a b)). points r)" if "ay1 a < ay2 a \<or> ax1 b \<le> ax1 a"
    unfolding p using ok that by (auto simp: mem_points split: if_splits)
  moreover have "ay1 a < ay2 a \<or> ax1 b \<le> ax1 a" if "points a - points b \<subseteq> (\<Union>r \<in> set (snd (lv_area_diff a b)). points r)"
  proof (rule ccontr)
    assume "\<not> (ay1 a < ay2 a \<or> ax1 b \<le> ax1 a)"
    then have row: "ay1 a = ay2 a" "ax1 a < ax1 b" using ok by auto
    then have "(ax1 a, ay1 a) \<in> points a - points b" using ok by (auto simp: mem_points)
    then have "(ax1 a, ay1 a) \<in> (\<Union>r \<in> set (snd (lv_area_diff a b)). points r)" using that by blast
    then show False unfolding p using row ok by (auto simp: mem_points split: if_splits)
  qed
  ultimately show ?thesis by blast
qed

theorem lv_area_diff_covers_witness:
  "\<not> points (rect 0 0 9 0) - points (rect 5 0 6 0) \<subseteq> (\<Union>r \<in> set (snd (lv_area_diff (rect 0 0 9 0) (rect 5 0 6 0))). points r)"
  using lv_area_diff_covers [of "rect 0 0 9 0" "rect 5 0 6 0"] by (simp add: area_ok_def lv_area_is_on_def lv_area_is_in_def)

end
