(* ===== verification/Lvgl_Port.thy ===== *)
theory Lvgl_Port
  imports Touch Lv_Area
begin

text \<open>
  The glue between LVGL and the board, managed_components/espressif__esp_lvgl_port
  (esp_lvgl_port.c): starting and stopping the LVGL task and its tick, the lock, the display with its
  flush and rotation callbacks, and the touch screen as an input device.  LVGL itself is called; of
  its driver structures the fields this file touches are modelled.  The encoder, button and USB parts
  of the file are not compiled for this board.
\<close>

section \<open>Data\<close>

record lvgl_port_cfg_t =
  task_priority :: int
  task_stack :: int
  task_affinity :: int
  cfg_task_max_sleep_ms :: int
  cfg_timer_period_ms :: int

definition ESP_LVGL_PORT_INIT_CONFIG :: lvgl_port_cfg_t where
  "ESP_LVGL_PORT_INIT_CONFIG =
     \<lparr>task_priority = 4, task_stack = 4096, task_affinity = - 1, cfg_task_max_sleep_ms = 500, cfg_timer_period_ms = 5\<rparr>"

record lvgl_port_rotation_cfg_t =
  rot_swap_xy :: bool
  rot_mirror_x :: bool
  rot_mirror_y :: bool

record lvgl_port_display_cfg_t =
  dc_io_handle :: ptr
  dc_panel_handle :: ptr
  buffer_size :: u32
  double_buffer :: bool
  hres :: u32
  vres :: u32
  monochrome :: bool
  dc_rotation :: lvgl_port_rotation_cfg_t
  buff_dma :: bool
  buff_spiram :: bool

record lvgl_port_ctx_t =
  lvgl_mux :: ptr
  tick_timer :: ptr
  task_running :: bool
  task_max_sleep_ms :: int

text \<open>Functions registered with LVGL or with a panel IO, by number; \<open>0\<close> is \<^verbatim>\<open>NULL\<close>.\<close>

abbreviation (input) lvgl_port_flush_callback_fn :: ptr where "lvgl_port_flush_callback_fn \<equiv> 1"
abbreviation (input) lvgl_port_update_callback_fn :: ptr where "lvgl_port_update_callback_fn \<equiv> 2"
abbreviation (input) lvgl_port_flush_ready_callback_fn :: ptr where "lvgl_port_flush_ready_callback_fn \<equiv> 3"
abbreviation (input) lvgl_port_pix_monochrome_callback_fn :: ptr where "lvgl_port_pix_monochrome_callback_fn \<equiv> 4"
abbreviation (input) lvgl_port_touchpad_read_fn :: ptr where "lvgl_port_touchpad_read_fn \<equiv> 5"

datatype lv_disp_rot_t = LV_DISP_ROT_NONE | LV_DISP_ROT_90 | LV_DISP_ROT_180 | LV_DISP_ROT_270

record lv_disp_drv_t =
  hor_res :: int
  ver_res :: int
  draw_buf :: ptr
  full_refresh :: bool
  rotated :: lv_disp_rot_t
  flush_cb :: ptr
  set_px_cb :: ptr
  drv_update_cb :: ptr
  drv_user_data :: ptr

record lv_disp_draw_buf_t =
  buf1 :: ptr
  buf2 :: ptr
  buf_act :: ptr
  buf_px :: u32

record lvgl_port_display_ctx_t =
  ctx_io_handle :: ptr
  ctx_panel_handle :: ptr
  ctx_rotation :: lvgl_port_rotation_cfg_t

record lv_indev_drv_t =
  indev_pointer :: bool     \<comment> \<open>\<^verbatim>\<open>type == LV_INDEV_TYPE_POINTER\<close>\<close>
  indev_disp :: ptr
  read_cb :: ptr
  indev_user_data :: ptr

record lv_indev_data_t =
  point_x :: int
  point_y :: int
  pressed :: bool           \<comment> \<open>\<^verbatim>\<open>state == LV_INDEV_STATE_PRESSED\<close>\<close>

text \<open>
  The static variables of the file and the heap objects it works on, by address: display contexts, the
  display drivers inside them, draw buffers, touch contexts (the touch handle) with the input drivers
  inside them, and the drivers of the displays and input devices LVGL has registered.
\<close>

record port_world = touch_world +
  lvgl_port_ctx :: lvgl_port_ctx_t
  lvgl_port_timer_period_ms :: int
  disp_ctxs :: "ptr \<Rightarrow> lvgl_port_display_ctx_t option"
  disp_drvs :: "ptr \<Rightarrow> lv_disp_drv_t option"
  draw_bufs :: "ptr \<Rightarrow> lv_disp_draw_buf_t option"
  touch_ctxs :: "ptr \<Rightarrow> ptr option"
  indev_drvs :: "ptr \<Rightarrow> lv_indev_drv_t option"
  disps :: "ptr \<Rightarrow> ptr option"
  indevs :: "ptr \<Rightarrow> ptr option"

lemma port_sel_after [simp]:
  "lvgl_port_ctx (after w c) = lvgl_port_ctx w"
  "lvgl_port_timer_period_ms (after w c) = lvgl_port_timer_period_ms w"
  "disp_ctxs (after w c) = disp_ctxs w" "disp_drvs (after w c) = disp_drvs w" "draw_bufs (after w c) = draw_bufs w"
  "touch_ctxs (after w c) = touch_ctxs w" "indev_drvs (after w c) = indev_drvs w"
  "disps (after w c) = disps w" "indevs (after w c) = indevs w"
  by (simp_all add: after_def)

abbreviation (input) MALLOC_CAP_DMA :: nat where "MALLOC_CAP_DMA \<equiv> 8"
abbreviation (input) MALLOC_CAP_SPIRAM :: nat where "MALLOC_CAP_SPIRAM \<equiv> 1024"
abbreviation (input) MALLOC_CAP_DEFAULT :: nat where "MALLOC_CAP_DEFAULT \<equiv> 4096"

text \<open>Sizes and offsets on the 32-bit ESP32-S3; \<^verbatim>\<open>malloc\<close> asks for the default capabilities.\<close>

abbreviation (input) sizeof_lvgl_port_display_ctx_t :: nat where "sizeof_lvgl_port_display_ctx_t \<equiv> 92"
abbreviation (input) offset_disp_drv :: nat where "offset_disp_drv \<equiv> 12"
abbreviation (input) sizeof_lv_disp_draw_buf_t :: nat where "sizeof_lv_disp_draw_buf_t \<equiv> 28"
abbreviation (input) sizeof_lvgl_port_touch_ctx_t :: nat where "sizeof_lvgl_port_touch_ctx_t \<equiv> 36"
abbreviation (input) offset_indev_drv :: nat where "offset_indev_drv \<equiv> 4"
abbreviation (input) configNUM_CORES :: int where "configNUM_CORES \<equiv> 2"

section \<open>Starting and stopping\<close>

definition zero_ctx :: lvgl_port_ctx_t where
  "zero_ctx = \<lparr>lvgl_mux = 0, tick_timer = 0, task_running = False, task_max_sleep_ms = 0\<rparr>"

definition lvgl_port_tick_init :: "'a port_world_scheme \<Rightarrow> (esp_err \<times> 'a port_world_scheme) option" where
  "lvgl_port_tick_init w =
    (let (r, w) = do_call (OS Timer_create) w
     in if ret r \<noteq> ESP_OK then Some (ret r, w)
        else let w = w\<lparr>lvgl_port_ctx := (lvgl_port_ctx w)\<lparr>tick_timer := hnd r\<rparr>\<rparr>
        in call_ret (OS (Timer_start_periodic (tick_timer (lvgl_port_ctx w)) (nat (lvgl_port_timer_period_ms w * 1000)))) w)"

definition lvgl_port_tick_increment :: "'a port_world_scheme \<Rightarrow> 'a port_world_scheme" where
  "lvgl_port_tick_increment w = call_void (LV (Lv_tick_inc (word_of_int (lvgl_port_timer_period_ms w)))) w"

definition lvgl_port_task_deinit :: "'a port_world_scheme \<Rightarrow> 'a port_world_scheme" where
  "lvgl_port_task_deinit w =
    (let w = (if lvgl_mux (lvgl_port_ctx w) \<noteq> 0 then call_void (OS (Sem_delete (lvgl_mux (lvgl_port_ctx w)))) w else w)
     in w\<lparr>lvgl_port_ctx := zero_ctx\<rparr>)"

definition lvgl_port_deinit :: "'a port_world_scheme \<Rightarrow> esp_err \<times> 'a port_world_scheme" where
  "lvgl_port_deinit w =
    (let w = (if tick_timer (lvgl_port_ctx w) \<noteq> 0
              then let w = call_void (OS (Timer_stop (tick_timer (lvgl_port_ctx w)))) w;
                       w = call_void (OS (Timer_delete (tick_timer (lvgl_port_ctx w)))) w
                   in w\<lparr>lvgl_port_ctx := (lvgl_port_ctx w)\<lparr>tick_timer := 0\<rparr>\<rparr>
              else w);
         w = (if \<not> task_running (lvgl_port_ctx w)
              then w\<lparr>lvgl_port_ctx := (lvgl_port_ctx w)\<lparr>task_running := False\<rparr>\<rparr>
              else lvgl_port_task_deinit w)
     in (ESP_OK, w))"

text \<open>The label \<^verbatim>\<open>err\<close> of \<^verbatim>\<open>lvgl_port_init\<close>.\<close>

definition lvgl_port_init_err :: "esp_err \<Rightarrow> 'a port_world_scheme \<Rightarrow> (esp_err \<times> 'a port_world_scheme) option" where
  "lvgl_port_init_err e w = Some (e, if e \<noteq> ESP_OK then snd (lvgl_port_deinit w) else w)"

definition lvgl_port_init :: "lvgl_port_cfg_t option \<Rightarrow> 'a port_world_scheme \<Rightarrow> (esp_err \<times> 'a port_world_scheme) option" where
  "lvgl_port_init cfg w = (case cfg of None \<Rightarrow> lvgl_port_init_err ESP_ERR_INVALID_ARG w
   | Some cfg \<Rightarrow>
     if \<not> task_affinity cfg < configNUM_CORES then lvgl_port_init_err ESP_ERR_INVALID_ARG w
     else let w = w\<lparr>lvgl_port_ctx := zero_ctx\<rparr>;
              w = call_void (LV Lv_init) w;
              w = w\<lparr>lvgl_port_timer_period_ms := cfg_timer_period_ms cfg\<rparr>
     in ESP_RETURN_ON_ERROR lvgl_port_tick_init (\<lambda>w.
       let sleep = (if cfg_task_max_sleep_ms cfg = 0 then 500 else cfg_task_max_sleep_ms cfg);
           w = w\<lparr>lvgl_port_ctx := (lvgl_port_ctx w)\<lparr>task_max_sleep_ms := sleep\<rparr>\<rparr>;
           (r, w) = do_call (OS Sem_create_recursive) w;
           w = w\<lparr>lvgl_port_ctx := (lvgl_port_ctx w)\<lparr>lvgl_mux := handle (ret r)\<rparr>\<rparr>
       in if lvgl_mux (lvgl_port_ctx w) = 0 then lvgl_port_init_err ESP_ERR_NO_MEM w
       else let (r, w) = do_call (OS (Task_create (task_stack cfg) (task_priority cfg)
                                   (if task_affinity cfg < 0 then None else Some (task_affinity cfg)))) w
       in lvgl_port_init_err (if ret r = 1 then ESP_OK else ESP_FAIL) w) w)"

definition lvgl_port_resume :: "'a port_world_scheme \<Rightarrow> (esp_err \<times> 'a port_world_scheme) option" where
  "lvgl_port_resume w =
    (if tick_timer (lvgl_port_ctx w) \<noteq> 0
     then let w = call_void (LV (Lv_timer_enable True)) w
          in call_ret (OS (Timer_start_periodic (tick_timer (lvgl_port_ctx w)) (nat (lvgl_port_timer_period_ms w * 1000)))) w
     else Some (ESP_ERR_INVALID_STATE, w))"

definition lvgl_port_stop :: "'a port_world_scheme \<Rightarrow> (esp_err \<times> 'a port_world_scheme) option" where
  "lvgl_port_stop w =
    (if tick_timer (lvgl_port_ctx w) \<noteq> 0
     then let w = call_void (LV (Lv_timer_enable False)) w
          in call_ret (OS (Timer_stop (tick_timer (lvgl_port_ctx w)))) w
     else Some (ESP_ERR_INVALID_STATE, w))"

definition lvgl_port_lock :: "u32 \<Rightarrow> 'a port_world_scheme \<Rightarrow> (bool \<times> 'a port_world_scheme) option" where
  "lvgl_port_lock timeout_ms w =
    (if lvgl_mux (lvgl_port_ctx w) = 0 then None
     else let timeout_ticks = (if timeout_ms = 0 then portMAX_DELAY else unat (timeout_ms * 100) div 1000);
              (r, w) = do_call (OS (Sem_take (lvgl_mux (lvgl_port_ctx w)) timeout_ticks)) w
     in Some (ret r = 1, w))"

definition lvgl_port_unlock :: "'a port_world_scheme \<Rightarrow> 'a port_world_scheme option" where
  "lvgl_port_unlock w =
    (if lvgl_mux (lvgl_port_ctx w) = 0 then None
     else Some (call_void (OS (Sem_give (lvgl_mux (lvgl_port_ctx w)))) w))"

definition lvgl_port_flush_ready :: "ptr \<Rightarrow> 'a port_world_scheme \<Rightarrow> 'a port_world_scheme option" where
  "lvgl_port_flush_ready disp w = (if disp = 0 then None else case disps w disp of None \<Rightarrow> None
     | Some drv \<Rightarrow> if drv = 0 then None else Some (call_void (LV (Lv_disp_flush_ready drv)) w))"

section \<open>The LVGL task\<close>

text \<open>The delay of the next sleep: unsigned comparison with the (signed) maximum.\<close>

definition clamp_delay :: "u32 \<Rightarrow> int \<Rightarrow> u32" where
  "clamp_delay d max_sleep =
     (if d > word_of_int max_sleep \<or> d = 1 then word_of_int max_sleep else if d < 1 then 1 else d)"

definition lvgl_port_task_iteration :: "u32 \<Rightarrow> 'a port_world_scheme \<Rightarrow> (u32 \<times> 'a port_world_scheme) option" where
  "lvgl_port_task_iteration task_delay_ms w = do {
     (locked, w) \<leftarrow> lvgl_port_lock 0 w;
     (task_delay_ms, w) \<leftarrow> (if locked
        then let (r, w) = do_call (LV Lv_timer_handler) w
             in do { w \<leftarrow> lvgl_port_unlock w; Some (word_of_int (ret r), w) }
        else Some (task_delay_ms, w));
     let task_delay_ms = clamp_delay task_delay_ms (task_max_sleep_ms (lvgl_port_ctx w));
     Some (task_delay_ms, call_void (OS (Task_delay (unat (task_delay_ms * 100) div 1000))) w) }"

text \<open>
  The loop, at most \<open>fuel\<close> rounds (\<open>None\<close> when they do not suffice); \<open>others i\<close> is what the other tasks do to
  the shared state while this one sleeps in round \<open>i\<close>.
\<close>

fun lvgl_port_task_loop ::
  "(nat \<Rightarrow> 'a port_world_scheme \<Rightarrow> 'a port_world_scheme) \<Rightarrow> nat \<Rightarrow> nat \<Rightarrow> u32 \<Rightarrow> 'a port_world_scheme \<Rightarrow> 'a port_world_scheme option" where
  "lvgl_port_task_loop others i 0 d w = None"
| "lvgl_port_task_loop others i (Suc n) d w =
     (if \<not> task_running (lvgl_port_ctx w) then Some w
      else do { (d, w) \<leftarrow> lvgl_port_task_iteration d w; lvgl_port_task_loop others (i + 1) n d (others i w) })"

definition lvgl_port_task ::
  "(nat \<Rightarrow> 'a port_world_scheme \<Rightarrow> 'a port_world_scheme) \<Rightarrow> nat \<Rightarrow> 'a port_world_scheme \<Rightarrow> 'a port_world_scheme option" where
  "lvgl_port_task others fuel w =
    (let d = word_of_int (task_max_sleep_ms (lvgl_port_ctx w));
         w = w\<lparr>lvgl_port_ctx := (lvgl_port_ctx w)\<lparr>task_running := True\<rparr>\<rparr>
     in do { w \<leftarrow> lvgl_port_task_loop others 0 fuel d w; Some (lvgl_port_task_deinit w) })"

section \<open>Displays\<close>

text \<open>\<^verbatim>\<open>lv_disp_drv_init\<close> and \<^verbatim>\<open>lv_disp_draw_buf_init\<close> of LVGL (lv_hal_disp.c), on the fields modelled.\<close>

definition lv_disp_drv_init :: lv_disp_drv_t where
  "lv_disp_drv_init =
     \<lparr>hor_res = 320, ver_res = 240, draw_buf = 0, full_refresh = False, rotated = LV_DISP_ROT_NONE, flush_cb = 0,
      set_px_cb = 0, drv_update_cb = 0, drv_user_data = 0\<rparr>"

definition lv_disp_draw_buf_init :: "ptr \<Rightarrow> ptr \<Rightarrow> u32 \<Rightarrow> lv_disp_draw_buf_t" where
  "lv_disp_draw_buf_init b1 b2 size_in_px_cnt = \<lparr>buf1 = b1, buf2 = b2, buf_act = b1, buf_px = size_in_px_cnt\<rparr>"

text \<open>The label \<^verbatim>\<open>err\<close> of \<^verbatim>\<open>lvgl_port_add_disp\<close> on failure, with the locals it frees.\<close>

definition free_if :: "ptr \<Rightarrow> 'a world_scheme \<Rightarrow> 'a world_scheme" where
  "free_if p w = (if p \<noteq> 0 then call_void (MEM (Free p)) w else w)"

definition add_disp_err ::
  "ptr \<Rightarrow> ptr \<Rightarrow> ptr \<Rightarrow> 'a port_world_scheme \<Rightarrow> (ptr \<times> 'a port_world_scheme) option" where
  "add_disp_err b1 b2 ctx w =
    (let w = free_if b1 w; w = free_if b2 w; w = free_if ctx w
     in Some (0, if ctx = 0 then w
                 else w\<lparr>disp_ctxs := (disp_ctxs w)(ctx := None),
                        disp_drvs := (disp_drvs w)(ctx + offset_disp_drv := None)\<rparr>))"

definition disp_drv_of :: "lvgl_port_display_cfg_t \<Rightarrow> ptr \<Rightarrow> ptr \<Rightarrow> lv_disp_drv_t" where
  "disp_drv_of cfg buf ctx = lv_disp_drv_init
     \<lparr>hor_res := lv_coord (uint (hres cfg)), ver_res := lv_coord (uint (vres cfg)), flush_cb := lvgl_port_flush_callback_fn,
      drv_update_cb := lvgl_port_update_callback_fn, draw_buf := buf, drv_user_data := ctx\<rparr>"

definition lvgl_port_add_disp ::
  "lvgl_port_display_cfg_t option \<Rightarrow> 'a port_world_scheme \<Rightarrow> (ptr \<times> 'a port_world_scheme) option" where
  "lvgl_port_add_disp disp_cfg w = (case disp_cfg of None \<Rightarrow> None | Some cfg \<Rightarrow>
     if dc_io_handle cfg = 0 \<or> dc_panel_handle cfg = 0 \<or> \<not> 0 < buffer_size cfg \<or> \<not> 0 < hres cfg \<or> \<not> 0 < vres cfg then None
     else let (r, w) = do_call (MEM (Malloc sizeof_lvgl_port_display_ctx_t MALLOC_CAP_DEFAULT)) w; ctx = handle (ret r)
     in if ctx = 0 then add_disp_err 0 0 0 w
     else let w = w\<lparr>disp_ctxs := (disp_ctxs w)(ctx \<mapsto>
                    \<lparr>ctx_io_handle = dc_io_handle cfg, ctx_panel_handle = dc_panel_handle cfg, ctx_rotation = dc_rotation cfg\<rparr>)\<rparr>
     in if buff_dma cfg \<and> buff_spiram cfg then add_disp_err 0 0 ctx w
     else let buff_caps = (if buff_dma cfg then MALLOC_CAP_DMA else if buff_spiram cfg then MALLOC_CAP_SPIRAM else MALLOC_CAP_DEFAULT);
              (r, w) = do_call (MEM (Malloc (unat (buffer_size cfg * 2)) buff_caps)) w; b1 = handle (ret r)
     in if b1 = 0 then add_disp_err 0 0 ctx w
     else let (b2, w) = (if double_buffer cfg
                         then let (r, w) = do_call (MEM (Malloc (unat (buffer_size cfg * 2)) buff_caps)) w in (handle (ret r), w)
                         else (0, w))
     in if double_buffer cfg \<and> b2 = 0 then add_disp_err b1 b2 ctx w
     else let (r, w) = do_call (MEM (Malloc sizeof_lv_disp_draw_buf_t MALLOC_CAP_DEFAULT)) w; buf = handle (ret r)
     in if buf = 0 then add_disp_err b1 b2 ctx w
     else let w = w\<lparr>draw_bufs := (draw_bufs w)(buf \<mapsto> lv_disp_draw_buf_init b1 b2 (buffer_size cfg))\<rparr>;
              drv = ctx + offset_disp_drv;
              w = w\<lparr>disp_drvs := (disp_drvs w)(drv \<mapsto> disp_drv_of cfg buf ctx)\<rparr>
     in do {
       (_, w) \<leftarrow> esp_lcd_panel_io_register_event_callbacks (dc_io_handle cfg) lvgl_port_flush_ready_callback_fn drv w;
       if monochrome cfg \<and> hres cfg * vres cfg \<noteq> buffer_size cfg then add_disp_err b1 b2 ctx w
       else let d = disp_drv_of cfg buf ctx;
                d = (if monochrome cfg then d\<lparr>full_refresh := True, set_px_cb := lvgl_port_pix_monochrome_callback_fn\<rparr> else d);
                w = w\<lparr>disp_drvs := (disp_drvs w)(drv \<mapsto> d)\<rparr>;
                (r, w) = do_call (LV (Lv_disp_drv_register drv (hor_res d) (ver_res d) (full_refresh d))) w; disp = handle (ret r)
       in Some (disp, if disp = 0 then w else w\<lparr>disps := (disps w)(disp \<mapsto> drv)\<rparr>) })"

definition lvgl_port_remove_disp :: "ptr \<Rightarrow> 'a port_world_scheme \<Rightarrow> (esp_err \<times> 'a port_world_scheme) option" where
  "lvgl_port_remove_disp disp w =
    (if disp = 0 then None else case disps w disp of None \<Rightarrow> None
     | Some drv \<Rightarrow> if drv = 0 then None else case disp_drvs w drv of None \<Rightarrow> None
     | Some d \<Rightarrow>
       let ctx = drv_user_data d;
           w = call_void (LV (Lv_disp_remove disp)) w;
           w = w\<lparr>disps := (disps w)(disp := None)\<rparr>
       in do {
         w \<leftarrow> (if draw_buf d = 0 then Some w else case draw_bufs w (draw_buf d) of None \<Rightarrow> None
              | Some b \<Rightarrow>
                let w = free_if (buf1 b) w; w = free_if (buf2 b) w; w = call_void (MEM (Free (draw_buf d))) w
                in Some (w\<lparr>draw_bufs := (draw_bufs w)(draw_buf d := None)\<rparr>));
         let w = call_void (MEM (Free ctx)) w;
         Some (ESP_OK, w\<lparr>disp_ctxs := (disp_ctxs w)(ctx := None), disp_drvs := (disp_drvs w)(drv := None)\<rparr>) })"

section \<open>Callbacks of a display\<close>

text \<open>The driver and its context: \<open>None\<close> for a pointer that names none.\<close>

definition on_disp_drv ::
  "ptr \<Rightarrow> (lv_disp_drv_t \<Rightarrow> lvgl_port_display_ctx_t \<Rightarrow> 'a port_world_scheme \<Rightarrow> 'r option) \<Rightarrow> 'a port_world_scheme \<Rightarrow> 'r option" where
  "on_disp_drv drv f w = (if drv = 0 then None else case disp_drvs w drv of None \<Rightarrow> None
     | Some d \<Rightarrow> if drv_user_data d = 0 then None else case disp_ctxs w (drv_user_data d) of None \<Rightarrow> None
     | Some ctx \<Rightarrow> f d ctx w)"

definition lvgl_port_flush_ready_callback :: "ptr \<Rightarrow> 'a port_world_scheme \<Rightarrow> (bool \<times> 'a port_world_scheme) option" where
  "lvgl_port_flush_ready_callback drv w =
    (if drv = 0 then None else Some (False, call_void (LV (Lv_disp_flush_ready drv)) w))"

text \<open>The colours are the bytes readable at \<open>color_map\<close>.\<close>

definition lvgl_port_flush_callback ::
  "ptr \<Rightarrow> lv_area_t \<Rightarrow> ptr \<Rightarrow> u8 list \<Rightarrow> 'a port_world_scheme \<Rightarrow> 'a port_world_scheme option" where
  "lvgl_port_flush_callback drv a color_map colors w = on_disp_drv drv (\<lambda>d ctx w.
     let offsetx1 = ax1 a; offsetx2 = ax2 a; offsety1 = ay1 a; offsety2 = ay2 a
     in map_option snd (esp_lcd_panel_draw_bitmap (ctx_panel_handle ctx) offsetx1 offsety1 (offsetx2 + 1) (offsety2 + 1)
          color_map colors w)) w"

definition set_orientation ::
  "ptr \<Rightarrow> bool \<times> bool \<times> bool \<Rightarrow> 'a port_world_scheme \<Rightarrow> 'a port_world_scheme option" where
  "set_orientation p sm w = (case sm of (swap, mx, my) \<Rightarrow> do {
     (_, w) \<leftarrow> esp_lcd_panel_swap_xy p swap w;
     (_, w) \<leftarrow> esp_lcd_panel_mirror p mx my w;
     Some w })"

definition lvgl_port_update_callback :: "ptr \<Rightarrow> 'a port_world_scheme \<Rightarrow> 'a port_world_scheme option" where
  "lvgl_port_update_callback drv w = on_disp_drv drv (\<lambda>d ctx w.
     let swap = rot_swap_xy (ctx_rotation ctx); mx = rot_mirror_x (ctx_rotation ctx); my = rot_mirror_y (ctx_rotation ctx)
     in set_orientation (ctx_panel_handle ctx) (case rotated d of
          LV_DISP_ROT_NONE \<Rightarrow> (swap, mx, my)
        | LV_DISP_ROT_90 \<Rightarrow> if swap then (\<not> swap, \<not> mx, my) else (\<not> swap, mx, \<not> my)
        | LV_DISP_ROT_180 \<Rightarrow> (swap, \<not> mx, \<not> my)
        | LV_DISP_ROT_270 \<Rightarrow> if swap then (\<not> swap, mx, \<not> my) else (\<not> swap, \<not> mx, my)) w) w"

text \<open>
  The channels of a 16-bit colour whose bytes are exchanged (\<^verbatim>\<open>LV_COLOR_16_SWAP\<close>): red in bits 3 to 7,
  the high part of green in bits 0 to 2, blue in bits 8 to 12 of the stored word.  \<^verbatim>\<open>lv_color_to1\<close> tests
  the top bit of each channel.
\<close>

definition lv_color_to1 :: "u16 \<Rightarrow> bool" where
  "lv_color_to1 color \<longleftrightarrow> bit color 7 \<or> bit color 2 \<or> bit color 12"

definition lvgl_port_pix_monochrome_callback ::
  "lv_disp_drv_t \<Rightarrow> u8 list \<Rightarrow> int \<Rightarrow> int \<Rightarrow> u16 \<Rightarrow> u8 list option" where
  "lvgl_port_pix_monochrome_callback drv buf x y color =
    (let (x, y) = (if rotated drv = LV_DISP_ROT_90 \<or> rotated drv = LV_DISP_ROT_270 then (y, x) else (x, y));
         i = hor_res drv * drop_bit 3 y + x
     in if i < 0 \<or> int (length buf) \<le> i \<or> y < 0 then None
        else Some (buf[nat i := (if lv_color_to1 color
                                 then buf ! nat i AND NOT (push_bit (nat y mod 8) 1)
                                 else buf ! nat i OR push_bit (nat y mod 8) 1)]))"

section \<open>The touch screen as an input device\<close>

definition lv_indev_drv_init :: lv_indev_drv_t where
  "lv_indev_drv_init = \<lparr>indev_pointer = False, indev_disp = 0, read_cb = 0, indev_user_data = 0\<rparr>"

definition lvgl_port_add_touch :: "(ptr \<times> ptr) option \<Rightarrow> 'a port_world_scheme \<Rightarrow> (ptr \<times> 'a port_world_scheme) option" where
  \<comment> \<open>the configuration: the display and the touch handle\<close>
  "lvgl_port_add_touch touch_cfg w = (case touch_cfg of None \<Rightarrow> None | Some (disp, tp) \<Rightarrow>
     if disp = 0 \<or> tp = 0 then None
     else let (r, w) = do_call (MEM (Malloc sizeof_lvgl_port_touch_ctx_t MALLOC_CAP_DEFAULT)) w; ctx = handle (ret r)
     in if ctx = 0 then Some (0, w)
     else let drv = ctx + offset_indev_drv;
              w = w\<lparr>touch_ctxs := (touch_ctxs w)(ctx \<mapsto> tp),
                    indev_drvs := (indev_drvs w)(drv \<mapsto> lv_indev_drv_init
                      \<lparr>indev_pointer := True, indev_disp := disp, read_cb := lvgl_port_touchpad_read_fn, indev_user_data := ctx\<rparr>)\<rparr>;
              (r, w) = do_call (LV (Lv_indev_drv_register drv disp)) w; indev = handle (ret r)
     in Some (indev, if indev = 0 then w else w\<lparr>indevs := (indevs w)(indev \<mapsto> drv)\<rparr>))"

definition lvgl_port_remove_touch :: "ptr \<Rightarrow> 'a port_world_scheme \<Rightarrow> (esp_err \<times> 'a port_world_scheme) option" where
  "lvgl_port_remove_touch touch w =
    (if touch = 0 then None else case indevs w touch of None \<Rightarrow> None
     | Some drv \<Rightarrow> if drv = 0 then None else case indev_drvs w drv of None \<Rightarrow> None
     | Some d \<Rightarrow>
       let ctx = indev_user_data d;
           w = call_void (LV (Lv_indev_delete touch)) w;
           w = w\<lparr>indevs := (indevs w)(touch := None)\<rparr>;
           w = (if ctx \<noteq> 0
                then (call_void (MEM (Free ctx)) w)\<lparr>touch_ctxs := (touch_ctxs w)(ctx := None),
                                                    indev_drvs := (indev_drvs w)(drv := None)\<rparr>
                else w)
       in Some (ESP_OK, w))"

text \<open>\<open>points0\<close> and \<open>data0\<close>: the indeterminate locals of the touch driver.\<close>

definition lvgl_port_touchpad_read ::
  "u8 \<Rightarrow> u8 list \<Rightarrow> ptr \<Rightarrow> lv_indev_data_t \<Rightarrow> 'a port_world_scheme \<Rightarrow> (lv_indev_data_t \<times> 'a port_world_scheme) option" where
  "lvgl_port_touchpad_read points0 data0 indev_drv data w =
    (if indev_drv = 0 then None else case indev_drvs w indev_drv of None \<Rightarrow> None
     | Some d \<Rightarrow> case touch_ctxs w (indev_user_data d) of None \<Rightarrow> None
     | Some tp \<Rightarrow> if tp = 0 then None else do {
         (_, w) \<leftarrow> esp_lcd_touch_read_data points0 data0 tp w;
         ((touchpad_pressed, xs, ys, _, touchpad_cnt), w) \<leftarrow> esp_lcd_touch_get_coordinates tp [0] [0] None 1 w;
         if touchpad_pressed \<and> touchpad_cnt > 0
         then Some (data\<lparr>point_x := lv_coord (uint (hd xs)), point_y := lv_coord (uint (hd ys)), pressed := True\<rparr>, w)
         else Some (data\<lparr>pressed := False\<rparr>, w) })"

section \<open>Properties\<close>

lemma lvgl_port_task_iteration_run:
  assumes "lvgl_mux (lvgl_port_ctx w) \<noteq> 0"
  shows "\<exists>d' w' evs. lvgl_port_task_iteration d w = Some (d', w') \<and> lvgl_port_ctx w' = lvgl_port_ctx w \<and>
    d' = clamp_delay (if ret (reply_to w (OS (Sem_take (lvgl_mux (lvgl_port_ctx w)) portMAX_DELAY))) = 1
                      then word_of_int (ret (reply_to (after w (OS (Sem_take (lvgl_mux (lvgl_port_ctx w)) portMAX_DELAY))) (LV Lv_timer_handler)))
                      else d) (task_max_sleep_ms (lvgl_port_ctx w)) \<and>
    map fst (world.log w') = map fst (world.log w) @ evs @ [OS (Task_delay (unat (d' * 100) div 1000))]"
  using assms by (simp add: lvgl_port_task_iteration_def lvgl_port_lock_def lvgl_port_unlock_def do_call_eq Let_def io_simps)

lemma clamp_delay_bounds:
  assumes "1 \<le> m" and "m < 2 ^ 31"
  shows "1 \<le> unat (clamp_delay d m) \<and> unat (clamp_delay d m) \<le> nat m"
proof -
  have m: "unat (word_of_int m :: u32) = nat m"
    using assms by (simp add: unat_eq_nat_uint uint_word_of_int_eq take_bit_int_eq_self)
  have d: "unat d \<noteq> 0" if "\<not> d < 1" using that by (simp add: word_less_nat_alt)
  have "d \<noteq> 0 \<Longrightarrow> 1 \<le> unat d" by (metis One_nat_def Suc_leI unat_eq_zero not_gr_zero)
  then show ?thesis
    using assms m d by (auto simp: clamp_delay_def word_less_nat_alt not_less)
qed

text \<open>
  A round of the LVGL task always comes to its sleep, whatever LVGL asks for and whether or not the
  lock is obtained: with a maximum of 1 to 42949672 ms the sleep is at least 1 ms and at most the maximum,
  and the round keeps the port's own state.  A request of exactly 1 ms gets the maximum.
\<close>

theorem lvgl_port_task_sleep:
  assumes "lvgl_mux (lvgl_port_ctx w) \<noteq> 0" and "1 \<le> task_max_sleep_ms (lvgl_port_ctx w)"
    and "task_max_sleep_ms (lvgl_port_ctx w) \<le> 42949672"
  shows "\<exists>d' w' evs. lvgl_port_task_iteration d w = Some (d', w') \<and> lvgl_port_ctx w' = lvgl_port_ctx w \<and>
    1 \<le> unat d' \<and> unat d' \<le> nat (task_max_sleep_ms (lvgl_port_ctx w)) \<and>
    map fst (world.log w') = map fst (world.log w) @ evs @ [OS (Task_delay (pdMS_TO_TICKS (unat d')))] \<and>
    clamp_delay 1 (task_max_sleep_ms (lvgl_port_ctx w)) = word_of_int (task_max_sleep_ms (lvgl_port_ctx w))"
proof -
  obtain d' w' evs d0 where it: "lvgl_port_task_iteration d w = Some (d', w')" "lvgl_port_ctx w' = lvgl_port_ctx w"
    "d' = clamp_delay d0 (task_max_sleep_ms (lvgl_port_ctx w))"
    "map fst (world.log w') = map fst (world.log w) @ evs @ [OS (Task_delay (unat (d' * 100) div 1000))]"
    using lvgl_port_task_iteration_run [OF assms(1)] by blast
  have b: "1 \<le> unat d'" "unat d' \<le> nat (task_max_sleep_ms (lvgl_port_ctx w))"
    using clamp_delay_bounds [of "task_max_sleep_ms (lvgl_port_ctx w)" d0] assms(2,3) it(3) by simp_all
  have "unat (d' * 100) = unat d' * 100"
    using b(2) assms(3) by (subst unat_word_ariths) simp
  then show ?thesis using it(1,2,4) b by (auto simp: clamp_delay_def)
qed

definition lvgl_port_board :: port_world where
  "lvgl_port_board = \<lparr>wenv = \<lambda>_ _. answer 1, log = [], i2c_obj = Map.empty, ios = Map.empty, panels = Map.empty, panel_handle = 0,
     io_handle = 0, touches = Map.empty,
     lvgl_port_ctx = \<lparr>lvgl_mux = 1, tick_timer = 1, task_running = False, task_max_sleep_ms = 500\<rparr>,
     lvgl_port_timer_period_ms = 5, disp_ctxs = Map.empty, disp_drvs = Map.empty, draw_bufs = Map.empty, touch_ctxs = Map.empty,
     indev_drvs = Map.empty, disps = Map.empty, indevs = Map.empty\<rparr>"

theorem lvgl_port_task_sleep_witness:
  "\<exists>d' w'. lvgl_port_task_iteration 500 lvgl_port_board = Some (d', w') \<and> 1 \<le> unat d' \<and> unat d' \<le> 500"
  using lvgl_port_task_sleep [of lvgl_port_board 500] by (auto simp: lvgl_port_board_def)

lemma task_loop_ends:
  assumes "\<forall>i v. lvgl_port_ctx (others i v) = (if i < m then lvgl_port_ctx v else zero_ctx)"
  shows "lvgl_mux (lvgl_port_ctx w) \<noteq> 0 \<Longrightarrow> i \<le> m \<Longrightarrow> m + 1 < i + n \<Longrightarrow>
    \<exists>w'. lvgl_port_task_loop others i n d w = Some w' \<and> lvgl_mux (lvgl_port_ctx w') = (if task_running (lvgl_port_ctx w) then 0 else lvgl_mux (lvgl_port_ctx w))"
proof (induction n arbitrary: i d w)
  case (Suc n)
  show ?case
  proof (cases "task_running (lvgl_port_ctx w)")
    case True
    obtain d' w' where it: "lvgl_port_task_iteration d w = Some (d', w')" "lvgl_port_ctx w' = lvgl_port_ctx w"
      using lvgl_port_task_iteration_run [OF Suc.prems(1)] by blast
    show ?thesis
    proof (cases "i < m")
      case less: True
      then have "lvgl_port_ctx (others i w') = lvgl_port_ctx w" using assms it(2) by simp
      with Suc.IH [of "others i w'" "i + 1" d'] Suc.prems less True it(1) show ?thesis by simp
    next
      case False
      then have c: "lvgl_port_ctx (others i w') = zero_ctx" using assms by simp
      obtain k where "n = Suc k" using Suc.prems False by (cases n) auto
      with True it(1) c show ?thesis by (simp add: zero_ctx_def)
    qed
  next
    case False
    then show ?thesis by simp
  qed
qed simp



lemma on_disp_drv_live:
  "drv \<noteq> 0 \<Longrightarrow> disp_drvs w drv = Some d \<Longrightarrow> drv_user_data d \<noteq> 0 \<Longrightarrow> disp_ctxs w (drv_user_data d) = Some ctx \<Longrightarrow>
   on_disp_drv drv f w = f d ctx w"
  by (simp add: on_disp_drv_def)


definition flush_board :: port_world where
  "flush_board = \<lparr>wenv = wenv lcd_demo, log = [], i2c_obj = Map.empty, ios = ios lcd_demo, panels = panels lcd_demo,
     panel_handle = 9, io_handle = 7, touches = Map.empty,
     lvgl_port_ctx = \<lparr>lvgl_mux = 1, tick_timer = 1, task_running = True, task_max_sleep_ms = 500\<rparr>,
     lvgl_port_timer_period_ms = 5,
     disp_ctxs = [20 \<mapsto> \<lparr>ctx_io_handle = 7, ctx_panel_handle = 9,
                         ctx_rotation = \<lparr>rot_swap_xy = True, rot_mirror_x = True, rot_mirror_y = False\<rparr>\<rparr>],
     disp_drvs = [32 \<mapsto> lv_disp_drv_init\<lparr>rotated := LV_DISP_ROT_90, drv_user_data := 20\<rparr>],
     draw_bufs = Map.empty, touch_ctxs = Map.empty, indev_drvs = Map.empty, disps = [50 \<mapsto> 32], indevs = Map.empty\<rparr>"

lemma flush_board_live:
  "lcd_panel 9 flush_board"
  "disp_drvs flush_board 32 = Some (lv_disp_drv_init\<lparr>rotated := LV_DISP_ROT_90, drv_user_data := 20\<rparr>)"
  "disp_ctxs flush_board 20 = Some \<lparr>ctx_io_handle = 7, ctx_panel_handle = 9,
     ctx_rotation = \<lparr>rot_swap_xy = True, rot_mirror_x = True, rot_mirror_y = False\<rparr>\<rparr>"
  using lcd_demo_panel
  by (simp_all add: flush_board_def lcd_panel_def lcd_io_def spi_up_def)


text \<open>A quarter turn of an orientation (axes exchanged, X mirrored, Y mirrored), and how many of them a rotation is.\<close>

definition quarter_turn :: "bool \<times> bool \<times> bool \<Rightarrow> bool \<times> bool \<times> bool" where
  "quarter_turn = (\<lambda>(swap, mx, my). if swap then (False, \<not> mx, my) else (True, mx, \<not> my))"

fun quarter_turns :: "lv_disp_rot_t \<Rightarrow> nat" where
  "quarter_turns LV_DISP_ROT_NONE = 0"
| "quarter_turns LV_DISP_ROT_90 = 1"
| "quarter_turns LV_DISP_ROT_180 = 2"
| "quarter_turns LV_DISP_ROT_270 = 3"

lemma set_orientation_ready:
  assumes "ready p pn w"
  shows "\<exists>w' pn'. set_orientation p (sw, mx, my) w = Some w' \<and> ready p pn' w' \<and> paints w w' id \<and>
    (\<forall>j < 8. bit (madctl_val pn') j = (if j = 5 then sw else if j = 6 then mx else if j = 7 then my else bit (madctl_val pn) j))"
proof -
  define m1 where "m1 = (if sw then madctl_val pn OR LCD_CMD_MV_BIT else madctl_val pn AND NOT LCD_CMD_MV_BIT)"
  obtain w1 where w1: "esp_lcd_panel_swap_xy p sw w = Some (ESP_OK, w1)" "settles p pn (pn\<lparr>madctl_val := m1\<rparr>) w w1"
    using swap_settles [OF assms m1_def] by blast
  then have r1: "ready p (pn\<lparr>madctl_val := m1\<rparr>) w1" by (simp add: settles_def)
  define m2 where "m2 = (if mx then m1 OR LCD_CMD_MX_BIT else m1 AND NOT LCD_CMD_MX_BIT)"
  define m3 where "m3 = (if my then m2 OR LCD_CMD_MY_BIT else m2 AND NOT LCD_CMD_MY_BIT)"
  have m2': "m2 = (if mx then madctl_val (pn\<lparr>madctl_val := m1\<rparr>) OR LCD_CMD_MX_BIT else madctl_val (pn\<lparr>madctl_val := m1\<rparr>) AND NOT LCD_CMD_MX_BIT)"
    by (simp add: m2_def)
  obtain w2 where w2: "esp_lcd_panel_mirror p mx my w1 = Some (ESP_OK, w2)"
    "settles p (pn\<lparr>madctl_val := m1\<rparr>) (pn\<lparr>madctl_val := m1\<rparr>\<lparr>madctl_val := m3\<rparr>) w1 w2"
    using mirror_settles [OF r1 m2' m3_def] by blast
  have s: "settles p pn (pn\<lparr>madctl_val := m1\<rparr>\<lparr>madctl_val := m3\<rparr>) w w2" by (rule settles_trans [OF w1(2) w2(2)])
  have "\<forall>j < 8. bit m3 j = (if j = 5 then sw else if j = 6 then mx else if j = 7 then my else bit (madctl_val pn) j)"
    unfolding m3_def m2_def m1_def LCD_CMD_MV_BIT_def LCD_CMD_MX_BIT_def LCD_CMD_MY_BIT_def
    by (cases sw; cases mx; cases my) (simp_all del: push_bit_of_1 push_bit_numeral add: bit_madctl)
  with s w1(1) w2(1) show ?thesis
    by (intro exI [of _ w2] exI [of _ "pn\<lparr>madctl_val := m1\<rparr>\<lparr>madctl_val := m3\<rparr>"]) (simp add: set_orientation_def settles_def)
qed

text \<open>
  C24. Rotating the screen: for every rotation LVGL can ask for and every orientation configured, the update
  callback gives the panel the configured orientation turned by that many quarter turns, shows nothing and keeps
  every other bit of the panel's MADCTL value; and four quarter turns are none.
\<close>

theorem lvgl_port_update_callback_rotates:
  assumes "drv \<noteq> 0" "disp_drvs w drv = Some d" "drv_user_data d \<noteq> 0" "disp_ctxs w (drv_user_data d) = Some ctx"
    and "ctx_panel_handle ctx = p" and "ready p pn w" and "rot = ctx_rotation ctx"
    and "(quarter_turn ^^ quarter_turns (rotated d)) (rot_swap_xy rot, rot_mirror_x rot, rot_mirror_y rot) = (swap, mx, my)"
  shows "\<exists>w' pn'. lvgl_port_update_callback drv w = Some w' \<and> ready p pn' w' \<and> paints w w' id \<and>
    (\<forall>j < 8. bit (madctl_val pn') j = (if j = 5 then swap else if j = 6 then mx else if j = 7 then my else bit (madctl_val pn) j)) \<and>
    (quarter_turn ^^ 4) = id"
proof -
  have "lvgl_port_update_callback drv w = set_orientation p (swap, mx, my) w"
    using assms(5,7,8) unfolding lvgl_port_update_callback_def on_disp_drv_live [OF assms(1-4)] Let_def
    by (cases "rotated d"; cases "rot_swap_xy rot") (auto simp: quarter_turn_def numeral_eq_Suc)
  moreover have "(quarter_turn ^^ 4) = id"
    by (auto simp: quarter_turn_def numeral_eq_Suc fun_eq_iff)
  ultimately show ?thesis using set_orientation_ready [OF assms(6), of swap mx my] by presburger
qed

theorem lvgl_port_update_callback_rotates_witness:
  "\<exists>w' pn'. lvgl_port_update_callback 32 flush_board = Some w' \<and> ready 9 pn' w' \<and>
     \<not> bit (madctl_val pn') 5 \<and> \<not> bit (madctl_val pn') 6 \<and> \<not> bit (madctl_val pn') 7"
proof -
  have "\<exists>pn. ready 9 pn flush_board"
    using flush_board_live(1) by (auto simp: ready_def lcd_panel_def flush_board_def lcd_demo_def)
  then obtain pn where pn: "ready 9 pn flush_board" by blast
  have "(quarter_turn ^^ quarter_turns (rotated (lv_disp_drv_init\<lparr>rotated := LV_DISP_ROT_90, drv_user_data := 20\<rparr>))) (True, True, False) =
      (False, False, False)" by (simp add: quarter_turn_def)
  with lvgl_port_update_callback_rotates [OF _ flush_board_live(2) _ _ _ pn, of _ _ False False False] flush_board_live(3)
  show ?thesis by fastforce
qed

lemma register_callbacks_io:
  "esp_lcd_panel_io_register_event_callbacks p cb ctx w = Some (e, w') \<Longrightarrow> only_log (w\<lparr>ios := ios w'\<rparr>) w' \<and> world.log w' = world.log w"
  by (cases w) (auto simp: esp_lcd_panel_io_register_event_callbacks_def only_log_def Let_def split: if_splits option.splits
      panel_io.splits prod.splits)


definition poor_board :: port_world where
  "poor_board = lvgl_port_board\<lparr>wenv := \<lambda>h c. answer (case c of MEM (Malloc n _) \<Rightarrow> if n = 92 then 100 else 0 | _ \<Rightarrow> 1)\<rparr>"

definition poor_cfg :: lvgl_port_display_cfg_t where
  "poor_cfg = \<lparr>dc_io_handle = 7, dc_panel_handle = 9, buffer_size = 6400, double_buffer = False, hres = 320, vres = 240,
     monochrome = False, dc_rotation = \<lparr>rot_swap_xy = True, rot_mirror_x = True, rot_mirror_y = False\<rparr>,
     buff_dma = False, buff_spiram = True\<rparr>"


text \<open>
  A monochrome display whose buffer is not screen-sized is refused only after the panel IO has got
  its callback: the call delivers \<^verbatim>\<open>NULL\<close> and frees the display context, but the draw buffer structure
  is never freed, and the panel IO will call LVGL with the address of a driver that is gone.
\<close>

theorem lvgl_port_add_disp_monochrome_leak:
  assumes "monochrome cfg" "hres cfg * vres cfg \<noteq> buffer_size cfg" "0 < buffer_size cfg" "0 < hres cfg" "0 < vres cfg"
    and "dc_panel_handle cfg \<noteq> 0" "dc_io_handle cfg \<noteq> 0" "ios w (dc_io_handle cfg) = Some (Io_spi io)" "\<not> (buff_dma cfg \<and> buff_spiram cfg)"
    and "\<forall>h n m. 0 < ret (wenv w h (MEM (Malloc n m)))"
  shows "\<exists>w' io' ctx. lvgl_port_add_disp (Some cfg) w = Some (0, w') \<and> \<not> balanced (new_events w w') \<and>
    ios w' (dc_io_handle cfg) = Some (Io_spi io') \<and> on_color_trans_done io' = lvgl_port_flush_ready_callback_fn \<and>
    user_ctx io' = ctx + offset_disp_drv \<and> ctx \<in> set (frees (new_events w w')) \<and> disp_drvs w' (ctx + offset_disp_drv) = None"
proof -
  have h: "handle (ret (reply_to v (MEM (Malloc n m)))) \<noteq> 0" if "wenv v = wenv w" for v :: "'a port_world_scheme" and n m
  proof -
    have "0 < ret (reply_to v (MEM (Malloc n m)))" using assms(10) that by (simp add: reply_to_def)
    then show ?thesis by (simp add: handle_def)
  qed
  have "\<not> balanced evs" if "length (frees evs) < length (allocs evs)" for evs
    using that by (metis balanced_def less_irrefl size_mset)
  then show ?thesis
    using assms(1-9)
    by (cases "double_buffer cfg"; cases "buff_dma cfg"; cases "buff_spiram cfg")
       (simp_all add: lvgl_port_add_disp_def add_disp_err_def free_if_def do_call_eq Let_def io_simps new_events_def h
         esp_lcd_panel_io_register_event_callbacks_def panel_io_spi_register_event_callbacks_def)
qed

theorem lvgl_port_add_disp_monochrome_leak_witness:
  "\<exists>w'. lvgl_port_add_disp (Some (poor_cfg\<lparr>monochrome := True\<rparr>)) (flush_board\<lparr>wenv := \<lambda>h c. answer (int (length h) + 1)\<rparr>) = Some (0, w') \<and>
     \<not> balanced (new_events (flush_board\<lparr>wenv := \<lambda>h c. answer (int (length h) + 1)\<rparr>) w')"
proof -
  have "\<forall>h n m. 0 < ret (wenv (flush_board\<lparr>wenv := \<lambda>h c. answer (int (length h) + 1)\<rparr>) h (MEM (Malloc n m)))" by simp
  moreover have "ios (flush_board\<lparr>wenv := \<lambda>h c. answer (int (length h) + 1)\<rparr>) (dc_io_handle (poor_cfg\<lparr>monochrome := True\<rparr>)) = Some (Io_spi spi_demo_io)"
    by (simp add: flush_board_def lcd_demo_def poor_cfg_def)
  ultimately show ?thesis
    using lvgl_port_add_disp_monochrome_leak [of "poor_cfg\<lparr>monochrome := True\<rparr>" "flush_board\<lparr>wenv := \<lambda>h c. answer (int (length h) + 1)\<rparr>" spi_demo_io]
    by (auto simp: poor_cfg_def)
qed

end
