(* ===== verification/App.thy ===== *)
theory App
  imports Lvgl_Port
begin

text \<open>
  The program: the LVGL part of components/LCD/LCD.c (\<^verbatim>\<open>bsp_display_lcd_init\<close>, \<^verbatim>\<open>bsp_display_indev_init\<close>,
  \<^verbatim>\<open>bsp_lvgl_start\<close>) and \<^verbatim>\<open>app_main\<close> of main/main.c, which bring up the I/O expander, the display, the
  touch screen and LVGL, and start the demo.
\<close>

section \<open>Starting the board\<close>

text \<open>The remaining static variables of LCD.c: the display, its input device and the touch handle.\<close>

record app_world = port_world +
  s_disp :: ptr
  s_disp_indev :: ptr
  s_tp :: ptr

lemma app_sel_after [simp]:
  "s_disp (after w c) = s_disp w" "s_disp_indev (after w c) = s_disp_indev w" "s_tp (after w c) = s_tp w"
  by (simp_all add: after_def)

definition BSP_LCD_RAM :: nat where "BSP_LCD_RAM = 20"

definition bsp_disp_cfg :: "ptr \<Rightarrow> ptr \<Rightarrow> lvgl_port_display_cfg_t" where
  "bsp_disp_cfg io panel =
     \<lparr>dc_io_handle = io, dc_panel_handle = panel, buffer_size = of_nat (BSP_LCD_H_RES * BSP_LCD_RAM), double_buffer = False,
      hres = of_nat BSP_LCD_H_RES, vres = of_nat BSP_LCD_V_RES, monochrome = False,
      dc_rotation = \<lparr>rot_swap_xy = True, rot_mirror_x = True, rot_mirror_y = False\<rparr>,
      buff_dma = False, buff_spiram = True\<rparr>"

text \<open>\<open>data0\<close>: the indeterminate local of \<^verbatim>\<open>pca9557_set_output_state\<close>.\<close>

definition bsp_display_lcd_init :: "u8 \<Rightarrow> 'a app_world_scheme \<Rightarrow> (ptr \<times> 'a app_world_scheme) option" where
  "bsp_display_lcd_init data0 w = do {
     (_, w) \<leftarrow> bsp_display_new data0 w;
     w \<leftarrow> lcd_set_color 0xffff w;
     (_, w) \<leftarrow> esp_lcd_panel_disp_on_off (panel_handle w) True w;
     lvgl_port_add_disp (Some (bsp_disp_cfg (io_handle w) (panel_handle w))) w }"

definition bsp_display_indev_init :: "ptr \<Rightarrow> 'a app_world_scheme \<Rightarrow> (ptr \<times> 'a app_world_scheme) option" where
  "bsp_display_indev_init disp w = do {
     ((e, tp), w) \<leftarrow> bsp_touch_new w;
     if e \<noteq> ESP_OK then None
     else let w = w\<lparr>s_tp := tp\<rparr>
     in if s_tp w = 0 then None else lvgl_port_add_touch (Some (disp, s_tp w)) w }"

definition bsp_lvgl_start :: "u8 \<Rightarrow> 'a app_world_scheme \<Rightarrow> 'a app_world_scheme option" where
  "bsp_lvgl_start data0 w = do {
     (_, w) \<leftarrow> lvgl_port_init (Some ESP_LVGL_PORT_INIT_CONFIG) w;
     (d, w) \<leftarrow> bsp_display_lcd_init data0 w;
     let w = w\<lparr>s_disp := d\<rparr>;
     (i, w) \<leftarrow> bsp_display_indev_init (s_disp w) w;
     let w = w\<lparr>s_disp_indev := i\<rparr>;
     (_, w) \<leftarrow> bsp_display_backlight_on w;
     Some w }"

definition app_main :: "u8 \<Rightarrow> 'a app_world_scheme \<Rightarrow> 'a app_world_scheme option" where
  "app_main data0 w = do {
     let w = snd (bsp_i2c_init w);
     w \<leftarrow> pca9557_init w;
     w \<leftarrow> bsp_lvgl_start data0 w;
     Some (call_void (LV Lv_demo_benchmark) w) }"

section \<open>A board that works\<close>

text \<open>
  SPI, LEDC, GPIO, heap, timers, RTOS objects and LVGL serve every call, and I2C transfers are
  acknowledged.
\<close>

definition app_up :: "'a world_scheme \<Rightarrow> bool" where
  "app_up w \<longleftrightarrow> board_up w \<and> (\<forall>h c. ret (wenv w h (I2C c)) = ESP_OK) \<and>
     (\<forall>h. ret (wenv w h (OS Timer_create)) = ESP_OK \<and> 0 < hnd (wenv w h (OS Timer_create))) \<and>
     (\<forall>h p n. ret (wenv w h (OS (Timer_start_periodic p n))) = ESP_OK) \<and>
     (\<forall>h. 0 < ret (wenv w h (OS Sem_create_recursive))) \<and> (\<forall>h s p c. ret (wenv w h (OS (Task_create s p c))) = 1) \<and>
     (\<forall>h d x y f. 0 < ret (wenv w h (LV (Lv_disp_drv_register d x y f)))) \<and>
     (\<forall>h d p. 0 < ret (wenv w h (LV (Lv_indev_drv_register d p))))"

lemma app_up_same: "wenv w' = wenv w \<Longrightarrow> app_up w' = app_up w"
  by (simp add: app_up_def board_up_def spi_up_def)

lemma app_up_board: "app_up w \<Longrightarrow> board_up w"
  by (simp add: app_up_def)

lemma app_up_touch: "app_up w \<Longrightarrow> i2c_obj w 0 = Some I2C_MODE_MASTER \<Longrightarrow> touch_up w"
  by (simp add: app_up_def touch_up_def board_up_def bus_up_def)

lemma app_up_replies:
  assumes "app_up w"
  shows "ret (reply_to w (I2C c)) = ESP_OK" "ret (reply_to w (OS Timer_create)) = ESP_OK" "hnd (reply_to w (OS Timer_create)) \<noteq> 0"
    "ret (reply_to w (OS (Timer_start_periodic p n))) = ESP_OK" "handle (ret (reply_to w (OS Sem_create_recursive))) \<noteq> 0"
    "ret (reply_to w (OS (Task_create s q x))) = 1" "handle (ret (reply_to w (LV (Lv_disp_drv_register d i j f)))) \<noteq> 0"
    "handle (ret (reply_to w (LV (Lv_indev_drv_register d p)))) \<noteq> 0" "handle (ret (reply_to w (MEM (Malloc n m)))) \<noteq> 0"
  using assms by (simp_all add: app_up_def reply_to_def handle_def board_up_def not_le)

lemmas app_up_pos = app_up_replies(3,5,7,8,9) [unfolded neq0_conv]

lemma app_up_after [simp]: "app_up (after w c) = app_up w"
  by (rule app_up_same) simp

text \<open>Setting up the bus and the I/O expander touches nothing but the bus and shows nothing.\<close>

lemma i2c_init_up:
  assumes "app_up w" and "i2c_obj w 0 = None"
  shows "snd (bsp_i2c_init w) = (after (after w (I2C (I2C_param_config 0 1 2 True True 100000)))
      (I2C (I2C_driver_alloc 0 1 0 0 0)))\<lparr>i2c_obj := (i2c_obj w)(0 \<mapsto> I2C_MODE_MASTER)\<rparr>"
  using assms by (simp add: bsp_i2c_init_def i2c_driver_install_def do_call_eq io_simps app_up_replies BSP_I2C_NUM_def Let_def)

lemma write_each_quiet:
  "\<exists>w' evs. write_each pca9557_register_write_byte rvs w = Some w' \<and> only_log w w' \<and> world.log w' = world.log w @ evs \<and> wire evs = []"
proof (induction rvs arbitrary: w)
  case (Cons rv rvs)
  obtain r v where rv: "rv = (r, v)" by (cases rv)
  obtain e bs w1 where r1: "i2c_run BSP_I2C_NUM (write_link PCA9557_SENSOR_ADDR [r, v]) (1000 div 10) w = (e, bs, w1)"
    by (metis prod_cases3)
  then have "pca9557_register_write_byte r v w = Some (e, w1)"
    by (simp add: pca9557_register_write_byte_def write_to_device_eq)
  moreover obtain evs1 where "only_log w w1" "world.log w1 = world.log w @ evs1" "wire evs1 = []" using i2c_run_frame [OF r1] by blast
  moreover obtain w2 evs2 where "write_each pca9557_register_write_byte rvs w1 = Some w2" "only_log w1 w2"
    "world.log w2 = world.log w1 @ evs2" "wire evs2 = []" using Cons by blast
  ultimately show ?case by (auto simp: rv intro: only_log_trans)
qed simp

text \<open>Storing in a static variable or in a heap object of the port is no call.\<close>

lemma app_up_upd [simp]:
  "app_up (w\<lparr>lvgl_port_ctx := a\<rparr>) = app_up w" "app_up (w\<lparr>lvgl_port_timer_period_ms := b\<rparr>) = app_up w"
  "app_up (w\<lparr>disp_ctxs := c\<rparr>) = app_up w" "app_up (w\<lparr>disp_drvs := d\<rparr>) = app_up w" "app_up (w\<lparr>draw_bufs := e\<rparr>) = app_up w"
  "app_up (w\<lparr>touch_ctxs := f\<rparr>) = app_up w" "app_up (w\<lparr>indev_drvs := g\<rparr>) = app_up w" "app_up (v\<lparr>ios := h\<rparr>) = app_up v"
  by (rule app_up_same, simp)+

lemma paints_upd [simp]:
  "paints v (w\<lparr>lvgl_port_ctx := a\<rparr>) f = paints v w f" "paints v (w\<lparr>lvgl_port_timer_period_ms := b\<rparr>) f = paints v w f"
  "paints v (w\<lparr>disp_ctxs := c\<rparr>) f = paints v w f" "paints v (w\<lparr>disp_drvs := d\<rparr>) f = paints v w f"
  "paints v (w\<lparr>draw_bufs := e\<rparr>) f = paints v w f" "paints v (w\<lparr>touch_ctxs := x\<rparr>) f = paints v w f"
  "paints v (w\<lparr>indev_drvs := g\<rparr>) f = paints v w f" "paints v (w\<lparr>disps := h\<rparr>) f = paints v w f"
  "paints v (w\<lparr>indevs := i\<rparr>) f = paints v w f" "paints q (u\<lparr>ios := j\<rparr>) f = paints q u f"
  "paints r (t\<lparr>s_disp := k\<rparr>) f = paints r t f" "paints r (t\<lparr>s_disp_indev := l\<rparr>) f = paints r t f"
  "paints r (t\<lparr>s_tp := m\<rparr>) f = paints r t f" "paints q (u\<lparr>i2c_obj := n\<rparr>) f = paints q u f"
  by (simp_all add: paints_def)

lemma paints_quiet: "only_log w w' \<Longrightarrow> world.log w' = world.log w @ evs \<Longrightarrow> wire evs = [] \<Longrightarrow> paints w w' id"
  using only_log_sel by (auto simp: paints_def gram_run_def)

text \<open>LVGL's port comes up.\<close>

lemma lvgl_port_init_up:
  assumes "app_up w"
  shows "\<exists>w'. lvgl_port_init (Some ESP_LVGL_PORT_INIT_CONFIG) w = Some (ESP_OK, w') \<and> paints w w' id \<and> i2c_obj w' = i2c_obj w \<and>
    lvgl_mux (lvgl_port_ctx w') \<noteq> 0 \<and> tick_timer (lvgl_port_ctx w') \<noteq> 0 \<and> task_max_sleep_ms (lvgl_port_ctx w') = 500"
  using assms
  by (simp add: lvgl_port_init_def lvgl_port_init_err_def lvgl_port_tick_init_def ESP_LVGL_PORT_INIT_CONFIG_def ESP_RETURN_ON_ERROR_def
      do_call_eq io_simps app_up_replies app_up_pos Let_def zero_ctx_def)

text \<open>The display is registered: what LVGL will call it with leads back to the panel.\<close>

definition shown_by :: "'a port_world_scheme \<Rightarrow> ptr \<Rightarrow> ptr \<Rightarrow> bool" where
  "shown_by w disp panel \<longleftrightarrow> disp \<noteq> 0 \<and> (\<exists>drv d ctx. disps w disp = Some drv \<and> drv \<noteq> 0 \<and> disp_drvs w drv = Some d \<and>
     hor_res d = 320 \<and> ver_res d = 240 \<and> flush_cb d = lvgl_port_flush_callback_fn \<and> drv_user_data d \<noteq> 0 \<and>
     disp_ctxs w (drv_user_data d) = Some ctx \<and> ctx_panel_handle ctx = panel)"

lemma add_disp_up:
  assumes "app_up w" and "io \<noteq> 0" "panel \<noteq> 0" "ios w io = Some (Io_spi ob)"
  shows "\<exists>w' disp. lvgl_port_add_disp (Some (bsp_disp_cfg io panel)) w = Some (disp, w') \<and> shown_by w' disp panel \<and>
    paints w w' id \<and> i2c_obj w' = i2c_obj w \<and> lvgl_port_ctx w' = lvgl_port_ctx w \<and>
    panel_handle w' = panel_handle w \<and> io_handle w' = io_handle w"
proof -
  have "lv_coord 320 = 320" "lv_coord 240 = 240" by (simp_all add: lv_coord_def)
  then show ?thesis
    using assms
    by (simp add: lvgl_port_add_disp_def bsp_disp_cfg_def BSP_LCD_H_RES_def BSP_LCD_V_RES_def BSP_LCD_RAM_def do_call_eq Let_def
        app_up_replies app_up_pos esp_lcd_panel_io_register_event_callbacks_def panel_io_spi_register_event_callbacks_def shown_by_def
        disp_drv_of_def lv_disp_drv_init_def)
qed

lemma add_touch_up:
  assumes "app_up w" and "disp \<noteq> 0" "tp \<noteq> 0"
  shows "\<exists>w' indev drv d. lvgl_port_add_touch (Some (disp, tp)) w = Some (indev, w') \<and> indev \<noteq> 0 \<and>
    indevs w' indev = Some drv \<and> indev_drvs w' drv = Some d \<and> indev_disp d = disp \<and> read_cb d = lvgl_port_touchpad_read_fn \<and>
    touch_ctxs w' (indev_user_data d) = Some tp \<and> paints w w' id \<and>
    lvgl_port_ctx w' = lvgl_port_ctx w \<and> disps w' = disps w \<and> disp_drvs w' = disp_drvs w \<and> disp_ctxs w' = disp_ctxs w \<and>
    touches w' = touches w \<and> panel_handle w' = panel_handle w"
  using assms by (simp add: lvgl_port_add_touch_def do_call_eq Let_def app_up_replies app_up_pos lv_indev_drv_init_def)

lemma only_log_port_world:
  "only_log (w\<lparr>ios := x, touches := y\<rparr>) (w' :: 'a app_world_scheme) \<Longrightarrow>
     lvgl_port_ctx w' = lvgl_port_ctx w \<and> disps w' = disps w \<and> disp_drvs w' = disp_drvs w \<and> disp_ctxs w' = disp_ctxs w \<and>
     panel_handle w' = panel_handle w \<and> s_disp w' = s_disp w \<and> i2c_obj w' = i2c_obj w \<and> wenv w' = wenv w"
  by (cases w; cases w') (simp add: only_log_def)

lemma paints_app_up: "paints w w' f \<Longrightarrow> app_up w' = app_up w"
  by (rule app_up_same) (simp add: paints_def)

text \<open>The I/O expander and LVGL's port.\<close>

lemma bring_up:
  assumes "app_up w" and "i2c_obj w 0 = None"
  shows "\<exists>w1 w2. pca9557_init (snd (bsp_i2c_init w)) = Some w1 \<and>
    lvgl_port_init (Some ESP_LVGL_PORT_INIT_CONFIG) w1 = Some (ESP_OK, w2) \<and> paints w w2 id \<and> i2c_obj w2 0 = Some I2C_MODE_MASTER \<and>
    lvgl_mux (lvgl_port_ctx w2) \<noteq> 0 \<and> tick_timer (lvgl_port_ctx w2) \<noteq> 0"
proof -
  have p0: "paints w (snd (bsp_i2c_init w)) id" and i0: "i2c_obj (snd (bsp_i2c_init w)) 0 = Some I2C_MODE_MASTER"
    using i2c_init_up [OF assms] by simp_all
  obtain w1 evs where w1: "pca9557_init (snd (bsp_i2c_init w)) = Some w1" "only_log (snd (bsp_i2c_init w)) w1"
    "world.log w1 = world.log (snd (bsp_i2c_init w)) @ evs" "wire evs = []"
    unfolding pca9557_init_def using write_each_quiet by blast
  then have p1: "paints w w1 id" using paints_id_trans [OF p0 paints_quiet] by blast
  have i1: "i2c_obj w1 0 = Some I2C_MODE_MASTER" using w1(2) i0 only_log_sel by metis
  have "app_up w1" using paints_app_up [OF p1] assms(1) by simp
  from lvgl_port_init_up [OF this] obtain w2 where
    "lvgl_port_init (Some ESP_LVGL_PORT_INIT_CONFIG) w1 = Some (ESP_OK, w2)" "paints w1 w2 id" "i2c_obj w2 = i2c_obj w1"
    "lvgl_mux (lvgl_port_ctx w2) \<noteq> 0" "tick_timer (lvgl_port_ctx w2) \<noteq> 0" by blast
  with w1(1) i1 paints_id_trans [OF p1] show ?thesis by auto
qed

text \<open>The display: white, and registered with LVGL.\<close>

lemma display_up:
  assumes "app_up w" and "i2c_obj w 0 = Some I2C_MODE_MASTER"
  shows "\<exists>disp w'. bsp_display_lcd_init data0 w = Some (disp, w') \<and> shown_by w' disp (panel_handle w') \<and>
    paints w w' (fill_rows {..<BSP_LCD_V_RES} 0xffff) \<and> i2c_obj w' 0 = Some I2C_MODE_MASTER \<and> lvgl_port_ctx w' = lvgl_port_ctx w"
proof -
  obtain w1 pn where w1: "bsp_display_new data0 w = Some (ESP_OK, w1)" "ready (panel_handle w1) pn w1" "panel_io_h pn = io_handle w1"
    "paints w w1 id" "lcd_world.more w1 = lcd_world.more w" "i2c_obj w1 = i2c_obj w"
    using bsp_display_new_up [OF app_up_board [OF assms(1)]] by blast
  have "board_up w1" using paints_app_up [OF w1(4)] assms(1) app_up_board by blast
  then obtain w2 where w2: "lcd_set_color 0xffff w1 = Some w2" "ready (panel_handle w1) pn w2" "statics w2 = statics w1"
    "paints w1 w2 (fill_rows {..<BSP_LCD_V_RES} (swapped 0xffff))"
    using lcd_set_color_paints [OF w1(2) refl] by blast
  obtain w3 where w3: "esp_lcd_panel_disp_on_off (panel_handle w1) True w2 = Some (ESP_OK, w3)" "settles (panel_handle w1) pn pn w2 w3"
    using flag_settles(2) [OF w2(2)] by blast
  have st: "panel_handle w2 = panel_handle w1" "panel_handle w3 = panel_handle w1" "io_handle w3 = io_handle w1"
    "i2c_obj w3 = i2c_obj w" "lcd_world.more w3 = lcd_world.more w"
    using w2(3) w3(2) w1(5,6) by (simp_all add: settles_def statics_def)
  have "swapped 0xffff = 0xffff" by (simp add: swapped_def be16_def) code_simp
  then have p3: "paints w w3 (fill_rows {..<BSP_LCD_V_RES} 0xffff)"
    using paints_trans [OF paints_id_trans [OF w1(4) w2(4)], of w3 id] w3(2) by (simp add: settles_def)
  have r3: "ready (panel_handle w3) pn w3" using w3(2) st by (simp add: settles_def)
  then obtain ob where ob: "ios w3 (io_handle w3) = Some (Io_spi ob)" "io_handle w3 \<noteq> 0" "panel_handle w3 \<noteq> 0"
    using w1(3) st(3) by (auto simp: ready_def lcd_io_def)
  have "app_up w3" using paints_app_up [OF p3] assms(1) by simp
  from add_disp_up [OF this ob(2,3,1)] obtain disp w4 where w4:
    "lvgl_port_add_disp (Some (bsp_disp_cfg (io_handle w3) (panel_handle w3))) w3 = Some (disp, w4)"
    "shown_by w4 disp (panel_handle w3)" "paints w3 w4 id" "i2c_obj w4 = i2c_obj w3" "lvgl_port_ctx w4 = lvgl_port_ctx w3"
    "panel_handle w4 = panel_handle w3" by blast
  have "bsp_display_lcd_init data0 w = Some (disp, w4)"
    using w1(1) w2(1) w3(1) w4(1) st by (simp add: bsp_display_lcd_init_def)
  moreover have "paints w w4 (fill_rows {..<BSP_LCD_V_RES} 0xffff)" using paints_trans [OF p3 w4(3)] by simp
  moreover have "lvgl_port_ctx w3 = lvgl_port_ctx w" using st(5) by (cases w; cases w3) simp
  ultimately show ?thesis using w4 st(4) assms(2) by auto
qed

text \<open>The touch screen: created and registered as LVGL's input device, without a byte to the panel.\<close>

definition touched_by :: "'a app_world_scheme \<Rightarrow> ptr \<Rightarrow> ptr \<Rightarrow> bool" where
  "touched_by w indev disp \<longleftrightarrow> indev \<noteq> 0 \<and> (\<exists>drv d tp. indevs w indev = Some drv \<and> indev_drvs w drv = Some d \<and>
     indev_disp d = disp \<and> read_cb d = lvgl_port_touchpad_read_fn \<and> touch_ctxs w (indev_user_data d) = Some (s_tp w) \<and>
     touches w (s_tp w) = Some tp \<and> tp_config tp = bsp_touch_config \<and> tp_points tp = 0)"

lemma indev_up:
  assumes "app_up w" and "i2c_obj w 0 = Some I2C_MODE_MASTER" and "disp \<noteq> 0"
  shows "\<exists>indev w'. bsp_display_indev_init disp w = Some (indev, w') \<and> touched_by w' indev disp \<and> paints w w' id \<and>
    lvgl_port_ctx w' = lvgl_port_ctx w \<and> disps w' = disps w \<and> disp_drvs w' = disp_drvs w \<and> disp_ctxs w' = disp_ctxs w \<and>
    panel_handle w' = panel_handle w \<and> s_disp w' = s_disp w"
proof -
  obtain p h w1 evs where w1: "bsp_touch_new w = Some ((ESP_OK, p), w1)" "live p (new_touch_object h bsp_touch_config) w1"
    "only_log (w\<lparr>ios := ios w1, touches := touches w1\<rparr>) w1" "world.log w1 = world.log w @ evs" "wire evs = []"
    using bsp_touch_new_run [OF app_up_touch [OF assms(1,2)]] by blast
  note fr = only_log_port_world [OF w1(3)]
  have p1: "paints w w1 id" using fr w1(4,5) by (simp add: paints_def gram_run_def)
  have p: "p \<noteq> 0" "touches w1 p = Some (new_touch_object h bsp_touch_config)" using w1(2) by (simp_all add: live_def)
  have "app_up (w1\<lparr>s_tp := p\<rparr>)" using paints_app_up [OF p1] assms(1) app_up_same [of "w1\<lparr>s_tp := p\<rparr>" w1] by simp
  from add_touch_up [OF this assms(3) p(1)] obtain w2 indev drv d where w2:
    "lvgl_port_add_touch (Some (disp, p)) (w1\<lparr>s_tp := p\<rparr>) = Some (indev, w2)" "indev \<noteq> 0"
    "indevs w2 indev = Some drv" "indev_drvs w2 drv = Some d" "indev_disp d = disp" "read_cb d = lvgl_port_touchpad_read_fn"
    "touch_ctxs w2 (indev_user_data d) = Some p" "paints (w1\<lparr>s_tp := p\<rparr>) w2 id"
    "lvgl_port_ctx w2 = lvgl_port_ctx w1" "disps w2 = disps w1" "disp_drvs w2 = disp_drvs w1" "disp_ctxs w2 = disp_ctxs w1"
    "touches w2 = touches w1" "panel_handle w2 = panel_handle w1"
    by auto
  have app: "s_tp w2 = p" "s_disp w2 = s_disp w1"
    using w2(1) by (auto simp: lvgl_port_add_touch_def do_call_eq Let_def split: if_splits)
  have "paints w1 (w1\<lparr>s_tp := p\<rparr>) id" by simp
  then have p2: "paints w w2 id" using paints_id_trans [OF p1 paints_id_trans [OF _ w2(8)]] by blast
  have "bsp_display_indev_init disp w = Some (indev, w2)"
    using w1(1) w2(1) p(1) by (simp add: bsp_display_indev_init_def)
  moreover have "touched_by w2 indev disp"
    using w2 app p(2) by (simp add: touched_by_def new_touch_object_def)
  ultimately show ?thesis using p2 w2(9-12,14) app(2) fr by auto
qed

section \<open>The program\<close>

lemma shown_by_same:
  "disps w' = disps w \<Longrightarrow> disp_drvs w' = disp_drvs w \<Longrightarrow> disp_ctxs w' = disp_ctxs w \<Longrightarrow> shown_by w' disp p = shown_by w disp p"
  by (simp add: shown_by_def)

text \<open>
  C1. \<^verbatim>\<open>app_main\<close> on a working board with the I2C driver still free: it returns, with the screen white (and
  no other point of the frame memory changed), LVGL's lock and tick in place, the display registered with LVGL as 320 x 240
  and its driver leading back to the panel that was set up, the touch screen created and registered as the
  input device of that display, the backlight at full duty, and the demo started last.
\<close>

theorem app_main_ready:
  assumes "app_up w" and "i2c_obj w 0 = None"
  shows "\<exists>w'. app_main data0 w = Some w' \<and>
    (\<forall>x y. g_ram (gram_run (wire (new_events w w')) g) (x, y) =
       (if x < BSP_LCD_H_RES \<and> y < BSP_LCD_V_RES then 0xffff else g_ram g (x, y))) \<and>
    lvgl_mux (lvgl_port_ctx w') \<noteq> 0 \<and> tick_timer (lvgl_port_ctx w') \<noteq> 0 \<and>
    shown_by w' (s_disp w') (panel_handle w') \<and> touched_by w' (s_disp_indev w') (s_disp w') \<and>
    (\<exists>evs. map fst (world.log w') =
       evs @ [LEDC (Ledc_set_duty 0 0 1023), LEDC (Ledc_update_duty 0 0), LV Lv_demo_benchmark])"
proof -
  obtain w1 w2 where w2: "pca9557_init (snd (bsp_i2c_init w)) = Some w1"
    "lvgl_port_init (Some ESP_LVGL_PORT_INIT_CONFIG) w1 = Some (ESP_OK, w2)" "paints w w2 id" "i2c_obj w2 0 = Some I2C_MODE_MASTER"
    "lvgl_mux (lvgl_port_ctx w2) \<noteq> 0" "tick_timer (lvgl_port_ctx w2) \<noteq> 0"
    using bring_up [OF assms] by blast
  have up2: "app_up w2" using paints_app_up [OF w2(3)] assms(1) by simp
  obtain disp w3 where w3: "bsp_display_lcd_init data0 w2 = Some (disp, w3)" "shown_by w3 disp (panel_handle w3)"
    "paints w2 w3 (fill_rows {..<BSP_LCD_V_RES} 0xffff)" "i2c_obj w3 0 = Some I2C_MODE_MASTER" "lvgl_port_ctx w3 = lvgl_port_ctx w2"
    using display_up [OF up2 w2(4)] by blast
  define v3 where "v3 = w3\<lparr>s_disp := disp\<rparr>"
  have p3: "paints w v3 (fill_rows {..<BSP_LCD_V_RES} 0xffff)" using paints_id_trans [OF w2(3) w3(3)] by (simp add: v3_def)
  have "app_up v3" using paints_app_up [OF p3] assms(1) by simp
  moreover have "i2c_obj v3 0 = Some I2C_MODE_MASTER" "disp \<noteq> 0" using w3(2,4) by (simp_all add: v3_def shown_by_def)
  ultimately obtain indev w4 where w4: "bsp_display_indev_init disp v3 = Some (indev, w4)" "touched_by w4 indev disp" "paints v3 w4 id"
    "lvgl_port_ctx w4 = lvgl_port_ctx v3" "disps w4 = disps v3" "disp_drvs w4 = disp_drvs v3" "disp_ctxs w4 = disp_ctxs v3"
    "panel_handle w4 = panel_handle v3" "s_disp w4 = s_disp v3"
    using indev_up by blast
  define v4 where "v4 = w4\<lparr>s_disp_indev := indev\<rparr>"
  have p4: "paints w v4 (fill_rows {..<BSP_LCD_V_RES} 0xffff)" using paints_trans [OF p3 w4(3)] by (simp add: v4_def)
  have "board_up v4" using paints_app_up [OF p4] assms(1) app_up_board by blast
  define w6 where "w6 = after (after (after v4 (LEDC (Ledc_set_duty 0 0 1023))) (LEDC (Ledc_update_duty 0 0))) (LV Lv_demo_benchmark)"
  have light: "bsp_display_backlight_on v4 = Some (ESP_OK, after (after v4 (LEDC (Ledc_set_duty 0 0 1023))) (LEDC (Ledc_update_duty 0 0)))"
    using \<open>board_up v4\<close>
    by (simp add: board_up_replies bsp_display_backlight_on_def bsp_display_brightness_set_def io_simps display_consts)
  have run: "app_main data0 w = Some w6"
    using w2(1,2) w3(1) w4(1) light by (simp add: app_main_def bsp_lvgl_start_def v3_def v4_def w6_def Let_def io_simps)
  have p6: "paints w w6 (fill_rows {..<BSP_LCD_V_RES} 0xffff)" using p4 by (simp add: w6_def)
  have ram: "g_ram (gram_run (wire (new_events w w6)) g) (x, y) =
       (if x < BSP_LCD_H_RES \<and> y < BSP_LCD_V_RES then 0xffff else g_ram g (x, y))" for x y
    unfolding paints_new_events [OF p6] by (simp add: fill_rows_def)
  have "shown_by w6 (s_disp w6) (panel_handle w6)"
    using w3(2) w4(5-9) by (simp add: w6_def v4_def v3_def shown_by_def)
  moreover have "touched_by w6 (s_disp_indev w6) (s_disp w6)"
    using w4(2,9) by (simp add: w6_def v4_def v3_def touched_by_def)
  moreover have "lvgl_mux (lvgl_port_ctx w6) \<noteq> 0" "tick_timer (lvgl_port_ctx w6) \<noteq> 0"
    using w2(5,6) w3(5) w4(4) by (simp_all add: w6_def v4_def v3_def)
  moreover have "\<exists>evs. map fst (world.log w6) = evs @ [LEDC (Ledc_set_duty 0 0 1023), LEDC (Ledc_update_duty 0 0), LV Lv_demo_benchmark]"
    by (simp add: w6_def)
  ultimately show ?thesis using run ram by blast
qed

definition app_board :: app_world where
  "app_board = \<lparr>wenv = \<lambda>h c. (case c of MEM _ \<Rightarrow> answer (int (length h) + 1)
       | SPI (Spi_bus_get_max_transaction_len _) \<Rightarrow> \<lparr>ret = ESP_OK, out = [], content = [], hnd = 4092\<rparr>
       | OS Timer_create \<Rightarrow> \<lparr>ret = ESP_OK, out = [], content = [], hnd = 77\<rparr>
       | OS Sem_create_recursive \<Rightarrow> answer 78 | OS (Task_create _ _ _) \<Rightarrow> answer 1
       | LV _ \<Rightarrow> answer 79 | _ \<Rightarrow> answer ESP_OK),
     log = [], i2c_obj = Map.empty, ios = Map.empty, panels = Map.empty, panel_handle = 0, io_handle = 0, touches = Map.empty,
     lvgl_port_ctx = zero_ctx, lvgl_port_timer_period_ms = 5, disp_ctxs = Map.empty, disp_drvs = Map.empty, draw_bufs = Map.empty,
     touch_ctxs = Map.empty, indev_drvs = Map.empty, disps = Map.empty, indevs = Map.empty, s_disp = 0, s_disp_indev = 0, s_tp = 0\<rparr>"

lemma app_board_up: "app_up app_board" "i2c_obj app_board 0 = None"
  by (auto simp: app_up_def board_up_def spi_up_def app_board_def split: spi_call.splits)

theorem app_main_ready_witness:
  "\<exists>w'. app_main 0 app_board = Some w' \<and> g_ram (gram_run (wire (world.log w')) gram_blank) (319, 239) = 0xffff \<and>
     g_ram (gram_run (wire (world.log w')) gram_blank) (320, 0) = g_ram gram_blank (320, 0) \<and> lvgl_mux (lvgl_port_ctx w') \<noteq> 0"
  using app_main_ready [OF app_board_up, of 0 gram_blank]
  by (fastforce simp: display_consts new_events_def app_board_def)

end
