(* ===== verification/Lv_Refr.thy ===== *)
theory Lv_Refr
  imports Lvgl_Port Lv_Area
begin

text \<open>
  How LVGL redraws a display, managed_components/lvgl__lvgl/src/core/lv_refr.c: collecting the areas to
  redraw, joining them, cutting each into bands that fit the draw buffer, and flushing the bands through the
  port's callback.  What the widgets draw into the buffer is a parameter: a function from a band
  to its bytes.  The abstract state of a display is the set of points that wait to be redrawn.
\<close>

section \<open>Collecting areas\<close>

definition LV_INV_BUF_SIZE :: nat where "LV_INV_BUF_SIZE = 32"

text \<open>
  The fields of \<^verbatim>\<open>lv_disp_t\<close> the collection works on: the first \<^verbatim>\<open>inv_p\<close> entries of \<^verbatim>\<open>inv_areas\<close>, and the flags of
  \<^verbatim>\<open>inv_area_joined\<close>.  \<open>rounder_cb\<close> is the driver's (\<open>None\<close> for \<^verbatim>\<open>NULL\<close>, as on this board).
\<close>

record lv_disp_t =
  disp_driver :: lv_disp_drv_t
  rounder_cb :: "(lv_area_t \<Rightarrow> lv_area_t) option"
  inv_areas :: "lv_area_t list"
  inv_area_joined :: "nat \<Rightarrow> bool"
  inv_en_cnt :: int
  rendering_in_progress :: bool
  refr_timer_paused :: bool

definition lv_disp_get_hor_res :: "lv_disp_t \<Rightarrow> int" where
  "lv_disp_get_hor_res disp = (case rotated (disp_driver disp) of
       LV_DISP_ROT_90 \<Rightarrow> ver_res (disp_driver disp) | LV_DISP_ROT_270 \<Rightarrow> ver_res (disp_driver disp)
     | _ \<Rightarrow> hor_res (disp_driver disp))"

definition lv_disp_get_ver_res :: "lv_disp_t \<Rightarrow> int" where
  "lv_disp_get_ver_res disp = (case rotated (disp_driver disp) of
       LV_DISP_ROT_90 \<Rightarrow> hor_res (disp_driver disp) | LV_DISP_ROT_270 \<Rightarrow> hor_res (disp_driver disp)
     | _ \<Rightarrow> ver_res (disp_driver disp))"

definition lv_disp_enable_invalidation :: "bool \<Rightarrow> lv_disp_t \<Rightarrow> lv_disp_t" where
  "lv_disp_enable_invalidation en disp = disp\<lparr>inv_en_cnt := inv_en_cnt disp + (if en then 1 else - 1)\<rparr>"

definition lv_disp_is_invalidation_enabled :: "lv_disp_t \<Rightarrow> bool" where
  "lv_disp_is_invalidation_enabled disp \<longleftrightarrow> inv_en_cnt disp > 0"

definition scr_area :: "lv_disp_t \<Rightarrow> lv_area_t" where
  "scr_area disp = rect 0 0 (lv_coord (lv_disp_get_hor_res disp - 1)) (lv_coord (lv_disp_get_ver_res disp - 1))"

definition lv_inv_area :: "lv_area_t option \<Rightarrow> lv_disp_t \<Rightarrow> lv_disp_t" where
  "lv_inv_area area_p disp =
    (if \<not> lv_disp_is_invalidation_enabled disp then disp
     else if rendering_in_progress disp then disp
     else case area_p of None \<Rightarrow> disp\<lparr>inv_areas := []\<rparr>
     | Some a \<Rightarrow>
       let (suc, com) = lv_area_intersect a (scr_area disp)
       in if \<not> suc then disp
       else if full_refresh (disp_driver disp) then disp\<lparr>inv_areas := [scr_area disp], refr_timer_paused := False\<rparr>
       else let com = (case rounder_cb disp of None \<Rightarrow> com | Some f \<Rightarrow> f com)
       in if \<exists>b \<in> set (inv_areas disp). lv_area_is_in com b 0 then disp
       else disp\<lparr>inv_areas := (if length (inv_areas disp) < LV_INV_BUF_SIZE then inv_areas disp @ [com] else [scr_area disp]),
                 refr_timer_paused := False\<rparr>)"

section \<open>Joining them\<close>

definition join_from_step ::
  "nat \<Rightarrow> nat \<Rightarrow> lv_area_t list \<times> (nat \<Rightarrow> bool) \<Rightarrow> lv_area_t list \<times> (nat \<Rightarrow> bool)" where
  "join_from_step join_in join_from = (\<lambda>(areas, joined).
     if joined join_from \<or> join_in = join_from then (areas, joined)
     else if \<not> lv_area_is_on (areas ! join_in) (areas ! join_from) then (areas, joined)
     else let joined_area = lv_area_join (areas ! join_in) (areas ! join_from)
     in if lv_area_get_size joined_area < lv_area_get_size (areas ! join_in) + lv_area_get_size (areas ! join_from)
        then (areas[join_in := joined_area], joined(join_from := True))
        else (areas, joined))"

definition join_in_step :: "nat \<Rightarrow> lv_area_t list \<times> (nat \<Rightarrow> bool) \<Rightarrow> lv_area_t list \<times> (nat \<Rightarrow> bool)" where
  "join_in_step join_in s = (if snd s join_in then s else fold (join_from_step join_in) [0..<length (fst s)] s)"

definition lv_refr_join_area :: "lv_disp_t \<Rightarrow> lv_disp_t" where
  "lv_refr_join_area disp =
    (let (areas, joined) = fold join_in_step [0..<length (inv_areas disp)] (inv_areas disp, inv_area_joined disp)
     in disp\<lparr>inv_areas := areas, inv_area_joined := joined\<rparr>)"

section \<open>Cutting an area into bands\<close>

text \<open>
  The number of rows of the draw buffer.  With a rounder: the largest height not above it that the rounder leaves
  within it (\<open>round_rows f m h tmp\<close> tries \<open>h\<close>, \<open>h - 1\<close>, ... on the local \<open>tmp\<close> and gives \<open>0\<close> when none fits).
\<close>

fun round_rows :: "(lv_area_t \<Rightarrow> lv_area_t) \<Rightarrow> int \<Rightarrow> nat \<Rightarrow> lv_area_t \<Rightarrow> int" where
  "round_rows f m h tmp =
    (let tmp = f (tmp\<lparr>ay2 := int h - 1\<rparr>)
     in if lv_area_get_height tmp \<le> m then (if h = 0 then 0 else ay2 tmp + 1)
        else if h \<le> 1 then 0 else round_rows f m (h - 1) tmp)"

declare round_rows.simps [simp del]

definition get_max_row :: "lv_disp_t \<Rightarrow> u32 \<Rightarrow> int \<Rightarrow> int \<Rightarrow> int" where
  "get_max_row disp buf_size area_w area_h =
    (let max_row = sint (buf_size div word_of_int area_w);
         max_row = (if max_row > area_h then area_h else max_row)
     in case rounder_cb disp of None \<Rightarrow> max_row | Some f \<Rightarrow> round_rows f max_row (nat (lv_coord max_row)) (rect 0 0 0 0))"

text \<open>
  The loop over the rows: the bands in order, each with its \<^verbatim>\<open>last_part\<close> flag; \<open>None\<close> when \<open>fuel\<close> rounds do not suffice.
\<close>

fun refr_rows :: "nat \<Rightarrow> lv_area_t \<Rightarrow> int \<Rightarrow> int \<Rightarrow> int \<Rightarrow> int \<Rightarrow> (lv_area_t \<times> bool) list option" where
  "refr_rows 0 a max_row y2 row row_last = None"
| "refr_rows (Suc n) a max_row y2 row row_last =
    (if row + max_row - 1 \<le> y2
     then let e = lv_coord (row + max_row - 1); e = (if e > y2 then y2 else e)
          in do { bs \<leftarrow> refr_rows n a max_row y2 (lv_coord (row + max_row)) e;
                  Some ((rect (ax1 a) row (ax2 a) e, e = y2) # bs) }
     else if y2 \<noteq> row_last then Some [(rect (ax1 a) row (ax2 a) y2, True)] else Some [])"

definition refr_area :: "nat \<Rightarrow> u32 \<Rightarrow> lv_disp_t \<Rightarrow> lv_area_t \<Rightarrow> (lv_area_t \<times> bool) list option" where
  "refr_area fuel buf_size disp a =
    (if full_refresh (disp_driver disp) then Some [(scr_area disp, True)]
     else let w = lv_area_get_width a; h = lv_area_get_height a;
              y2 = (if ay2 a \<ge> lv_disp_get_ver_res disp then lv_coord (lv_disp_get_ver_res disp - 1) else ay2 a)
     in refr_rows fuel a (get_max_row disp buf_size w h) y2 (ay1 a) 0)"

text \<open>The areas that were not joined into others, and all their bands.\<close>

definition unjoined :: "lv_disp_t \<Rightarrow> lv_area_t list" where
  "unjoined disp = map (\<lambda>i. inv_areas disp ! i) (filter (\<lambda>i. \<not> inv_area_joined disp i) [0..<length (inv_areas disp)])"

fun refr_all :: "nat \<Rightarrow> u32 \<Rightarrow> lv_disp_t \<Rightarrow> lv_area_t list \<Rightarrow> (lv_area_t \<times> bool) list option" where
  "refr_all fuel buf_size disp [] = Some []"
| "refr_all fuel buf_size disp (a # as) = do {
     bs \<leftarrow> refr_area fuel buf_size disp a;
     bs' \<leftarrow> refr_all fuel buf_size disp as;
     Some (map (\<lambda>(b, last_part). (b, last_part \<and> as = [])) bs @ bs') }"

definition refr_invalid_areas :: "nat \<Rightarrow> u32 \<Rightarrow> lv_disp_t \<Rightarrow> (lv_area_t \<times> bool) list option" where
  "refr_invalid_areas fuel buf_size disp = refr_all fuel buf_size disp (unjoined disp)"

section \<open>Flushing the bands\<close>

text \<open>
  A band of a display with one buffer: wait until the previous flush is over (\<open>ready k\<close>: the \<open>k\<close>-th wait ends), draw the band
  into the buffer, and hand it to the flush callback at the driver's offset \<open>0\<close>.
\<close>

fun flush_bands ::
  "(nat \<Rightarrow> bool) \<Rightarrow> (lv_area_t \<Rightarrow> u8 list) \<Rightarrow> ptr \<Rightarrow> ptr \<Rightarrow> nat \<Rightarrow> lv_area_t list \<Rightarrow> 'a port_world_scheme \<Rightarrow> 'a port_world_scheme option" where
  "flush_bands flushed render drv buf k [] w = Some w"
| "flush_bands flushed render drv buf k (b # bs) w =
    (if \<not> flushed k then None
     else do { w \<leftarrow> lvgl_port_flush_callback drv b buf (render b) w;
               flush_bands flushed render drv buf (k + 1) bs w })"

text \<open>One refresh: join, redraw every area, forget them.\<close>

definition lv_disp_refr ::
  "nat \<Rightarrow> u32 \<Rightarrow> (nat \<Rightarrow> bool) \<Rightarrow> (lv_area_t \<Rightarrow> u8 list) \<Rightarrow> ptr \<Rightarrow> ptr \<Rightarrow> lv_disp_t \<Rightarrow> 'a port_world_scheme \<Rightarrow>
   (lv_disp_t \<times> 'a port_world_scheme) option" where
  "lv_disp_refr fuel buf_size flushed render drv buf disp w =
    (let disp = disp\<lparr>refr_timer_paused := True\<rparr>; disp = lv_refr_join_area disp
     in do {
       bs \<leftarrow> refr_invalid_areas fuel buf_size disp;
       w \<leftarrow> flush_bands flushed render drv buf 0 (map fst bs) w;
       Some (if inv_areas disp \<noteq> [] then disp\<lparr>inv_areas := [], inv_area_joined := (\<lambda>_. False)\<rparr> else disp, w) })"

section \<open>The abstract state: what waits to be redrawn\<close>

definition region :: "lv_area_t list \<times> (nat \<Rightarrow> bool) \<Rightarrow> (int \<times> int) set" where
  "region s = (\<Union>i \<in> {i. i < length (fst s) \<and> \<not> snd s i}. points (fst s ! i))"

definition pending :: "lv_disp_t \<Rightarrow> (int \<times> int) set" where
  "pending disp = region (inv_areas disp, inv_area_joined disp)"

definition on_screen :: "lv_disp_t \<Rightarrow> lv_area_t \<Rightarrow> bool" where
  "on_screen disp a \<longleftrightarrow> area_ok a \<and> points a \<subseteq> points (scr_area disp)"

text \<open>A display between two refreshes, without a rounder.\<close>

definition disp_ok :: "lv_disp_t \<Rightarrow> bool" where
  "disp_ok disp \<longleftrightarrow> inv_en_cnt disp > 0 \<and> \<not> rendering_in_progress disp \<and> rounder_cb disp = None \<and>
     inv_area_joined disp = (\<lambda>_. False) \<and> length (inv_areas disp) \<le> LV_INV_BUF_SIZE \<and>
     0 < lv_disp_get_hor_res disp \<and> lv_disp_get_hor_res disp \<le> 8192 \<and>
     0 < lv_disp_get_ver_res disp \<and> lv_disp_get_ver_res disp \<le> 8192 \<and>
     (\<forall>a \<in> set (inv_areas disp). on_screen disp a)"

lemma scr_area_ok: "disp_ok disp \<Longrightarrow> on_screen disp (scr_area disp)"
  by (auto simp: disp_ok_def on_screen_def scr_area_def area_ok_def lv_coord_id)

lemma disp_sel_upd [simp]:
  "lv_disp_get_hor_res (disp\<lparr>inv_areas := as\<rparr>) = lv_disp_get_hor_res disp" "lv_disp_get_ver_res (disp\<lparr>inv_areas := as\<rparr>) = lv_disp_get_ver_res disp"
  "scr_area (disp\<lparr>inv_areas := as\<rparr>) = scr_area disp"
  "lv_disp_get_hor_res (disp\<lparr>inv_area_joined := js\<rparr>) = lv_disp_get_hor_res disp" "lv_disp_get_ver_res (disp\<lparr>inv_area_joined := js\<rparr>) = lv_disp_get_ver_res disp"
  "scr_area (disp\<lparr>inv_area_joined := js\<rparr>) = scr_area disp"
  "lv_disp_get_hor_res (disp\<lparr>refr_timer_paused := p\<rparr>) = lv_disp_get_hor_res disp" "lv_disp_get_ver_res (disp\<lparr>refr_timer_paused := p\<rparr>) = lv_disp_get_ver_res disp"
  "scr_area (disp\<lparr>refr_timer_paused := p\<rparr>) = scr_area disp"
  by (simp_all add: lv_disp_get_hor_res_def lv_disp_get_ver_res_def scr_area_def split: lv_disp_rot_t.split)

lemma pending_fresh: "disp_ok disp \<Longrightarrow> pending disp = (\<Union>a \<in> set (inv_areas disp). points a)"
  by (auto simp: pending_def region_def disp_ok_def set_conv_nth)

lemma pending_list: "inv_area_joined disp = (\<lambda>_. False) \<Longrightarrow> pending (disp\<lparr>inv_areas := as, refr_timer_paused := p\<rparr>) = (\<Union>a \<in> set as. points a)"
  by (auto simp: pending_def region_def set_conv_nth)

lemma disp_ok_upd:
  "disp_ok disp \<Longrightarrow> length as \<le> LV_INV_BUF_SIZE \<Longrightarrow> \<forall>a \<in> set as. on_screen disp a \<Longrightarrow> disp_ok (disp\<lparr>inv_areas := as, refr_timer_paused := p\<rparr>)"
  by (simp add: disp_ok_def on_screen_def)

lemma intersect_on_screen:
  assumes "disp_ok disp" and "fst (lv_area_intersect a (scr_area disp))"
  shows "on_screen disp (snd (lv_area_intersect a (scr_area disp)))"
proof -
  let ?r = "snd (lv_area_intersect a (scr_area disp))"
  have p: "points ?r = points a \<inter> points (scr_area disp)" by (rule intersect_points)
  then have "points ?r \<noteq> {}" using assms(2) by (simp add: intersect_ok)
  moreover have "area_ok (scr_area disp)" using scr_area_ok [OF assms(1)] by (simp add: on_screen_def)
  ultimately have "area_ok ?r"
    unfolding points_empty by (auto simp: lv_area_intersect_def Let_def area_ok_def)
  with p show ?thesis by (simp add: on_screen_def)
qed

lemma lv_inv_area_cases:
  assumes "disp_ok disp"
  shows "disp_ok (lv_inv_area (Some a) disp) \<and> scr_area (lv_inv_area (Some a) disp) = scr_area disp \<and>
    (pending (lv_inv_area (Some a) disp) = pending disp \<union> (points a \<inter> points (scr_area disp)) \<or>
     pending (lv_inv_area (Some a) disp) = points (scr_area disp))"
proof -
  define com where "com = snd (lv_area_intersect a (scr_area disp))"
  define suc where "suc = fst (lv_area_intersect a (scr_area disp))"
  have i: "lv_area_intersect a (scr_area disp) = (suc, com)" by (simp add: suc_def com_def)
  have com: "points com = points a \<inter> points (scr_area disp)" unfolding com_def by (rule intersect_points)
  have ok: "inv_en_cnt disp > 0" "\<not> rendering_in_progress disp" "rounder_cb disp = None" "inv_area_joined disp = (\<lambda>_. False)"
    "length (inv_areas disp) \<le> LV_INV_BUF_SIZE" "\<forall>b \<in> set (inv_areas disp). on_screen disp b"
    using assms by (simp_all add: disp_ok_def)
  have pd: "pending disp = (\<Union>b \<in> set (inv_areas disp). points b)" by (rule pending_fresh [OF assms])
  have scr: "on_screen disp (scr_area disp)" by (rule scr_area_ok [OF assms])
  show ?thesis
  proof (cases "suc")
    case False
    then have "points a \<inter> points (scr_area disp) = {}" unfolding suc_def intersect_ok by simp
    with False assms i ok show ?thesis by (simp add: lv_inv_area_def lv_disp_is_invalidation_enabled_def)
  next
    case True
    then have com_ok: "on_screen disp com" "points com \<noteq> {}"
      using intersect_on_screen [OF assms] area_ok_points unfolding suc_def com_def on_screen_def by blast+
    show ?thesis
    proof (cases "full_refresh (disp_driver disp)")
      case full: True
      then have "lv_inv_area (Some a) disp = disp\<lparr>inv_areas := [scr_area disp], refr_timer_paused := False\<rparr>"
        using True i ok by (simp add: lv_inv_area_def lv_disp_is_invalidation_enabled_def)
      then show ?thesis using assms scr ok(4) by (simp add: disp_ok_upd pending_list LV_INV_BUF_SIZE_def)
    next
      case part: False
      show ?thesis
      proof (cases "\<exists>b \<in> set (inv_areas disp). lv_area_is_in com b 0")
        case inn: True
        then have "points com \<subseteq> pending disp" using com_ok(2) is_in_points unfolding pd by blast
        then have "pending disp = pending disp \<union> (points a \<inter> points (scr_area disp))" using com by blast
        moreover have "lv_inv_area (Some a) disp = disp"
          using True part inn i ok by (simp add: lv_inv_area_def lv_disp_is_invalidation_enabled_def)
        ultimately show ?thesis using assms by simp
      next
        case new: False
        define as where "as = (if length (inv_areas disp) < LV_INV_BUF_SIZE then inv_areas disp @ [com] else [scr_area disp])"
        have "lv_inv_area (Some a) disp = disp\<lparr>inv_areas := as, refr_timer_paused := False\<rparr>"
          using True part new i ok by (simp add: lv_inv_area_def lv_disp_is_invalidation_enabled_def as_def)
        moreover have "disp_ok (disp\<lparr>inv_areas := as, refr_timer_paused := False\<rparr>)"
          by (rule disp_ok_upd [OF assms]) (use ok(5,6) com_ok(1) scr in \<open>auto simp: as_def LV_INV_BUF_SIZE_def\<close>)
        moreover have "pending (disp\<lparr>inv_areas := as, refr_timer_paused := False\<rparr>) = (\<Union>b \<in> set as. points b)"
          by (rule pending_list [OF ok(4)])
        ultimately show ?thesis using com pd by (auto simp: as_def)
      qed
    qed
  qed
qed

section \<open>Requests collect\<close>

text \<open>
  What a client that asks for redraws relies on: a request is never lost and nothing off the screen is
  drawn, whatever the provider does to keep its list short.
\<close>

locale redraw_queue =
  fixes inv :: "'a \<Rightarrow> 's \<Rightarrow> 's"
    and want :: "'s \<Rightarrow> 'p set"
    and visible :: "'s \<Rightarrow> 'p set"
    and req :: "'a \<Rightarrow> 'p set"
    and ok :: "'s \<Rightarrow> bool"
  assumes inv_ok: "ok s \<Longrightarrow> ok (inv a s)"
    and inv_visible: "ok s \<Longrightarrow> visible (inv a s) = visible s"
    and inv_covers: "ok s \<Longrightarrow> want s \<union> (req a \<inter> visible s) \<subseteq> want (inv a s)"
    and inside: "ok s \<Longrightarrow> want s \<subseteq> visible s"
begin

lemma fold_ok: "ok s \<Longrightarrow> ok (fold inv as s)"
  by (induction as arbitrary: s) (simp_all add: inv_ok)

lemma fold_visible: "ok s \<Longrightarrow> visible (fold inv as s) = visible s"
  by (induction as arbitrary: s) (simp_all add: inv_ok inv_visible)

lemma fold_covers: "ok s \<Longrightarrow> want s \<union> ((\<Union>a \<in> set as. req a) \<inter> visible s) \<subseteq> want (fold inv as s)"
proof (induction as arbitrary: s)
  case (Cons a as)
  have "want (inv a s) \<union> ((\<Union>a \<in> set as. req a) \<inter> visible s) \<subseteq> want (fold inv as (inv a s))"
    using Cons.IH [OF inv_ok [OF Cons.prems]] by (simp add: inv_visible [OF Cons.prems])
  with inv_covers [OF Cons.prems, of a] show ?case by auto
qed simp

lemma fold_inside: "ok s \<Longrightarrow> want (fold inv as s) \<subseteq> visible s"
  using inside [OF fold_ok] fold_visible by fastforce

end

interpretation rq: redraw_queue "\<lambda>a. lv_inv_area (Some a)" pending "\<lambda>d. points (scr_area d)" points disp_ok
proof unfold_locales
  fix d :: lv_disp_t and a assume d: "disp_ok d"
  show in_scr: "pending d \<subseteq> points (scr_area d)"
    using d by (auto simp: pending_fresh disp_ok_def on_screen_def)
  show "disp_ok (lv_inv_area (Some a) d)" "points (scr_area (lv_inv_area (Some a) d)) = points (scr_area d)"
    using lv_inv_area_cases [OF d, of a] by simp_all
  show "pending d \<union> (points a \<inter> points (scr_area d)) \<subseteq> pending (lv_inv_area (Some a) d)"
    using lv_inv_area_cases [OF d, of a] in_scr by auto
qed

text \<open>
  C5. Collecting redraw requests refines a set of points: after any sequence of requests to an idle display the list is
  well formed and within its 32 entries, the points it covers are on the screen and include every point that waited before and every point
  of every request that is on the screen - also when the list ran full and was replaced by the whole screen.
\<close>

theorem lv_inv_area_refines:
  assumes "disp_ok d"
  shows "let d' = fold (\<lambda>a. lv_inv_area (Some a)) as d
    in disp_ok d' \<and> length (inv_areas d') \<le> 32 \<and> pending d' \<subseteq> points (scr_area d) \<and>
      pending d \<union> ((\<Union>a \<in> set as. points a) \<inter> points (scr_area d)) \<subseteq> pending d'"
proof -
  have "disp_ok (fold (\<lambda>a. lv_inv_area (Some a)) as d)" by (rule rq.fold_ok [OF assms])
  then have "length (inv_areas (fold (\<lambda>a. lv_inv_area (Some a)) as d)) \<le> 32"
    by (simp add: disp_ok_def LV_INV_BUF_SIZE_def)
  then show ?thesis
    unfolding Let_def using rq.fold_ok [OF assms] rq.fold_inside [OF assms] rq.fold_covers [OF assms] by blast
qed

text \<open>A display of this board, with nothing to redraw.\<close>

definition idle_display :: lv_disp_t where
  "idle_display = \<lparr>disp_driver = lv_disp_drv_init, rounder_cb = None, inv_areas = [], inv_area_joined = (\<lambda>_. False),
     inv_en_cnt = 1, rendering_in_progress = False, refr_timer_paused = True\<rparr>"

lemma idle_display_ok: "disp_ok idle_display" "lv_disp_get_hor_res idle_display = 320" "lv_disp_get_ver_res idle_display = 240"
  by (simp_all add: disp_ok_def idle_display_def lv_disp_get_hor_res_def lv_disp_get_ver_res_def lv_disp_drv_init_def)

theorem lv_inv_area_refines_witness:
  "(10, 5) \<in> pending (fold (\<lambda>a. lv_inv_area (Some a)) [rect 300 0 310 10, rect (- 5) 3 400 7] idle_display)"
  using lv_inv_area_refines [OF idle_display_ok(1), of "[rect 300 0 310 10, rect (- 5) 3 400 7]"]
  by (auto simp: Let_def mem_points scr_area_def idle_display_ok lv_coord_id)

section \<open>Joining keeps every point\<close>

lemma on_screen_iff:
  assumes "disp_ok d"
  shows "on_screen d a \<longleftrightarrow> 0 \<le> ax1 a \<and> ax1 a \<le> ax2 a \<and> ax2 a < lv_disp_get_hor_res d \<and>
    0 \<le> ay1 a \<and> ay1 a \<le> ay2 a \<and> ay2 a < lv_disp_get_ver_res d"
proof -
  have "lv_coord (lv_disp_get_hor_res d - 1) = lv_disp_get_hor_res d - 1" "lv_coord (lv_disp_get_ver_res d - 1) = lv_disp_get_ver_res d - 1"
    using assms by (simp_all add: disp_ok_def lv_coord_id)
  then show ?thesis
    using assms by (auto simp: disp_ok_def on_screen_def area_ok_def scr_area_def points_def times_subset_iff)
qed

text \<open>What one step of the two loops keeps of the list of areas and its flags.\<close>

definition join_ok :: "lv_disp_t \<Rightarrow> lv_area_t list \<times> (nat \<Rightarrow> bool) \<Rightarrow> lv_area_t list \<times> (nat \<Rightarrow> bool) \<Rightarrow> bool" where
  "join_ok d s s' \<longleftrightarrow> length (fst s') = length (fst s) \<and> (\<forall>a \<in> set (fst s'). on_screen d a) \<and> region s \<subseteq> region s'"

lemma join_from_step_ok:
  assumes d: "disp_ok d" and s: "\<forall>a \<in> set (fst s). on_screen d a" and jk: "j < length (fst s)" "k < length (fst s)" "\<not> snd s j"
  shows "join_ok d s (join_from_step j k s) \<and> \<not> snd (join_from_step j k s) j"
proof -
  obtain areas joined where s_eq: "s = (areas, joined)" by (cases s)
  define u where "u = lv_area_join (areas ! j) (areas ! k)"
  have "on_screen d (areas ! j)" "on_screen d (areas ! k)" using s jk by (simp_all add: s_eq)
  then have u: "on_screen d u"
    unfolding on_screen_iff [OF d] by (auto simp: u_def lv_area_join_def)
  have cov: "points (areas ! j) \<subseteq> points u" "points (areas ! k) \<subseteq> points u"
    using join_points [of "areas ! j" "areas ! k"] by (auto simp: u_def)
  have "region s \<subseteq> region (areas[j := u], joined(k := True))" if "j \<noteq> k"
  proof
    fix p assume "p \<in> region s"
    then obtain i where i: "i < length areas" "\<not> joined i" "p \<in> points (areas ! i)" by (auto simp: region_def s_eq)
    define i' where "i' = (if i = k then j else i)"
    have "i' < length areas" "\<not> (joined(k := True)) i'" "p \<in> points (areas[j := u] ! i')"
      using i cov jk that by (auto simp: i'_def s_eq nth_list_update)
    then show "p \<in> region (areas[j := u], joined(k := True))" by (auto simp: region_def simp del: fun_upd_apply)
  qed
  moreover have "\<forall>a \<in> set (areas[j := u]). on_screen d a"
    using s u set_update_subset_insert [of areas j u] by (auto simp: s_eq)
  ultimately show ?thesis
    using s jk by (auto simp: join_ok_def s_eq join_from_step_def Let_def u_def [symmetric])
qed

lemma join_ok_trans: "join_ok d s s1 \<Longrightarrow> join_ok d s1 s2 \<Longrightarrow> join_ok d s s2"
  by (auto simp: join_ok_def)

lemma join_ok_refl: "\<forall>a \<in> set (fst s). on_screen d a \<Longrightarrow> join_ok d s s"
  by (simp add: join_ok_def)

lemma join_from_fold_ok:
  assumes "disp_ok d"
  shows "\<forall>a \<in> set (fst s). on_screen d a \<Longrightarrow> j < length (fst s) \<Longrightarrow> \<not> snd s j \<Longrightarrow> \<forall>k \<in> set ks. k < length (fst s) \<Longrightarrow>
    join_ok d s (fold (join_from_step j) ks s)"
proof (induction ks arbitrary: s)
  case (Cons k ks)
  note step = join_from_step_ok [OF assms Cons.prems(1,2) _ Cons.prems(3), of k]
  then have "join_ok d s (join_from_step j k s)" "\<not> snd (join_from_step j k s) j" using Cons.prems(4) by simp_all
  then show ?case using Cons.IH [of "join_from_step j k s"] Cons.prems join_ok_trans [of d s] by (auto simp: join_ok_def)
qed (simp add: join_ok_refl)

lemma join_in_fold_ok:
  assumes "disp_ok d"
  shows "\<forall>a \<in> set (fst s). on_screen d a \<Longrightarrow> \<forall>j \<in> set js. j < length (fst s) \<Longrightarrow> join_ok d s (fold join_in_step js s)"
proof (induction js arbitrary: s)
  case (Cons j js)
  have "join_ok d s (join_in_step j s)"
    using join_from_fold_ok [OF assms Cons.prems(1), of j "[0..<length (fst s)]"] Cons.prems by (auto simp: join_in_step_def join_ok_refl)
  then show ?case using Cons.IH [of "join_in_step j s"] Cons.prems join_ok_trans [of d s] by (auto simp: join_ok_def)
qed (simp add: join_ok_refl)

lemma lv_refr_join_area_keeps:
  assumes "disp_ok d"
  shows "pending d \<subseteq> pending (lv_refr_join_area d) \<and> (\<forall>a \<in> set (inv_areas (lv_refr_join_area d)). on_screen d a) \<and>
    (\<exists>as js. lv_refr_join_area d = d\<lparr>inv_areas := as, inv_area_joined := js\<rparr> \<and> length as = length (inv_areas d))"
proof -
  obtain as js where f: "fold join_in_step [0..<length (inv_areas d)] (inv_areas d, inv_area_joined d) = (as, js)"
    by (cases "fold join_in_step [0..<length (inv_areas d)] (inv_areas d, inv_area_joined d)")
  have "join_ok d (inv_areas d, inv_area_joined d) (as, js)"
    using join_in_fold_ok [OF assms, of "(inv_areas d, inv_area_joined d)" "[0..<length (inv_areas d)]"] assms
    by (simp add: f disp_ok_def)
  then show ?thesis by (auto simp: lv_refr_join_area_def f pending_def join_ok_def)
qed

section \<open>The bands of an area\<close>

text \<open>Bands of at most \<open>m\<close> rows that cut the rows from \<open>row\<close> to \<open>y2\<close> of an area, the last one flagged.\<close>

fun tiles :: "lv_area_t \<Rightarrow> int \<Rightarrow> int \<Rightarrow> int \<Rightarrow> (lv_area_t \<times> bool) list \<Rightarrow> bool" where
  "tiles a m row y2 [] = (row = y2 + 1)"
| "tiles a m row y2 ((b, l) # bs) =
    (b = rect (ax1 a) row (ax2 a) (ay2 b) \<and> row \<le> ay2 b \<and> ay2 b \<le> y2 \<and> ay2 b < row + m \<and> l = (ay2 b = y2) \<and>
     tiles a m (ay2 b + 1) y2 bs)"

lemma refr_rows_tiles:
  assumes "1 \<le> m" "m \<le> 8192" "y2 < 8192"
  shows "0 \<le> row \<Longrightarrow> row \<le> y2 + 1 \<Longrightarrow> (row \<le> y2 \<Longrightarrow> row_last \<noteq> y2 \<or> row + m - 1 \<le> y2) \<Longrightarrow> (row = y2 + 1 \<Longrightarrow> row_last = y2) \<Longrightarrow>
    nat (y2 + 1 - row) < fuel \<Longrightarrow> \<exists>bs. refr_rows fuel a m y2 row row_last = Some bs \<and> tiles a m row y2 bs"
proof (induction fuel arbitrary: row row_last)
  case (Suc n)
  show ?case
  proof (cases "row + m - 1 \<le> y2")
    case True
    have c: "lv_coord (row + m - 1) = row + m - 1" "lv_coord (row + m) = row + m"
      using True assms Suc.prems(1) by (simp_all add: lv_coord_id)
    have "nat (y2 + 1 - (row + m)) < n" using True assms(1) Suc.prems(5) by linarith
    then obtain bs where "refr_rows n a m y2 (row + m) (row + m - 1) = Some bs" "tiles a m (row + m) y2 bs"
      using Suc.IH [of "row + m" "row + m - 1"] True assms(1) Suc.prems(1) by auto
    then show ?thesis using True assms(1) by (auto simp: c Let_def)
  next
    case False
    show ?thesis
    proof (cases "row \<le> y2")
      case True
      then show ?thesis using False Suc.prems(3) by auto
    next
      case end_row: False
      then have "row = y2 + 1" using Suc.prems(2) by simp
      then show ?thesis using False Suc.prems(4) by simp
    qed
  qed
qed simp

lemma tiles_points: "tiles a m row y2 bs \<Longrightarrow> (\<Union>b \<in> set bs. points (fst b)) = {ax1 a..ax2 a} \<times> {row..y2}"
proof (induction bs arbitrary: row)
  case (Cons b bs)
  obtain b' l where b: "b = (b', l)" by (cases b)
  have t: "b' = rect (ax1 a) row (ax2 a) (ay2 b')" "row \<le> ay2 b'" "ay2 b' \<le> y2" "tiles a m (ay2 b' + 1) y2 bs"
    using Cons.prems by (simp_all add: b)
  have "points b' = {ax1 a..ax2 a} \<times> {row..ay2 b'}" by (subst t(1)) (simp add: points_def)
  then show ?case using Cons.IH [OF t(4)] t(2,3) by (auto simp: b)
qed simp

lemma tiles_band:
  "tiles a m row y2 bs \<Longrightarrow> (b, l) \<in> set bs \<Longrightarrow>
     ax1 b = ax1 a \<and> ax2 b = ax2 a \<and> row \<le> ay1 b \<and> ay1 b \<le> ay2 b \<and> ay2 b \<le> y2 \<and> ay2 b < ay1 b + m"
proof (induction bs arbitrary: row)
  case (Cons c bs)
  obtain c' k where c: "c = (c', k)" by (cases c)
  have t: "c' = rect (ax1 a) row (ax2 a) (ay2 c')" "row \<le> ay2 c'" "ay2 c' \<le> y2" "ay2 c' < row + m" "tiles a m (ay2 c' + 1) y2 bs"
    using Cons.prems by (simp_all add: c)
  show ?case
  proof (cases "(b, l) \<in> set bs")
    case True
    then show ?thesis using Cons.IH [OF t(5) True] t(2) by auto
  next
    case False
    then have "b = c'" using Cons.prems(2) by (simp add: c)
    moreover have "ax1 c' = ax1 a" "ay1 c' = row" "ax2 c' = ax2 a" by (subst t(1), simp)+
    ultimately show ?thesis using t(2-4) by simp
  qed
qed simp

lemma tiles_disjoint: "tiles a m row y2 bs \<Longrightarrow> sorted_wrt (\<lambda>b c. points (fst b) \<inter> points (fst c) = {}) bs"
proof (induction bs arbitrary: row)
  case (Cons b bs)
  obtain b' l where b: "b = (b', l)" by (cases b)
  have t: "tiles a m (ay2 b' + 1) y2 bs" using Cons.prems by (simp add: b)
  have "points b' \<inter> points (fst c) = {}" if "c \<in> set bs" for c
    using tiles_band [OF t, of "fst c" "snd c"] that by (auto simp: points_def)
  then show ?case using Cons.IH [OF t] by (simp add: b)
qed simp

lemma tiles_last: "tiles a m row y2 bs \<Longrightarrow> row \<le> y2 \<Longrightarrow> bs \<noteq> [] \<and> map snd bs = replicate (length bs - 1) False @ [True]"
proof (induction bs arbitrary: row)
  case (Cons b bs)
  obtain b' l where b: "b = (b', l)" by (cases b)
  have t: "tiles a m (ay2 b' + 1) y2 bs" "l = (ay2 b' = y2)" "ay2 b' \<le> y2" using Cons.prems by (simp_all add: b)
  show ?case
  proof (cases "ay2 b' = y2")
    case True
    moreover have "bs = []"
    proof (rule ccontr)
      assume "bs \<noteq> []"
      then obtain c k where "(c, k) \<in> set bs" by (cases bs) auto
      from tiles_band [OF t(1) this] True show False by auto
    qed
    ultimately show ?thesis using t by (simp add: b)
  next
    case False
    then have "bs \<noteq> []" "map snd bs = replicate (length bs - 1) False @ [True]" using Cons.IH [OF t(1)] t(3) by auto
    then show ?thesis using False t(2) by (cases bs) (simp_all add: b)
  qed
qed simp

text \<open>The rows that fit the buffer: at least one when a row of the area does, and none otherwise.\<close>

lemma get_max_row_bounds:
  assumes "disp_ok d" "on_screen d a" "uint buf_size < 2 ^ 31"
  defines "m \<equiv> get_max_row d buf_size (lv_area_get_width a) (lv_area_get_height a)" and "wd \<equiv> ax2 a - ax1 a + 1"
  shows "wd \<le> uint buf_size \<Longrightarrow> 1 \<le> m \<and> m \<le> ay2 a - ay1 a + 1 \<and> m * wd \<le> uint buf_size"
    and "uint buf_size < wd \<Longrightarrow> m = 0"
proof -
  have ok: "area_ok a" using assms(2) by (simp add: on_screen_def)
  note size = area_ok_size [OF ok]
  have wd: "1 \<le> wd" "wd < 2 ^ 31" using ok by (simp_all add: wd_def area_ok_def)
  have q: "uint (buf_size div word_of_int wd) = uint buf_size div wd"
    using wd by (simp add: uint_div uint_word_of_int_eq take_bit_int_eq_self)
  have "uint buf_size div wd \<le> uint buf_size" using zdiv_mono2 [of "uint buf_size" 1 wd] wd by simp
  then have "sint (buf_size div word_of_int wd) = uint buf_size div wd"
    using assms(3) q pos_imp_zdiv_nonneg_iff [of wd "uint buf_size"] wd by (simp add: sint_uint signed_take_bit_int_eq_self)
  moreover have "rounder_cb d = None" using assms(1) by (simp add: disp_ok_def)
  ultimately have m: "m = min (uint buf_size div wd) (ay2 a - ay1 a + 1)"
    unfolding m_def by (simp add: get_max_row_def Let_def min_def size wd_def [symmetric])
  show "1 \<le> m \<and> m \<le> ay2 a - ay1 a + 1 \<and> m * wd \<le> uint buf_size" if "wd \<le> uint buf_size"
  proof -
    have "1 \<le> uint buf_size div wd" using that wd by (simp add: pos_imp_zdiv_pos_iff int_one_le_iff_zero_less)
    moreover have "uint buf_size div wd * wd \<le> uint buf_size" using wd by (simp add: minus_mod_eq_div_mult [symmetric])
    moreover have "m * wd \<le> uint buf_size div wd * wd" using wd by (intro mult_right_mono) (simp_all add: m)
    ultimately show ?thesis using ok by (auto simp: m area_ok_def)
  qed
  show "m = 0" if "uint buf_size < wd" using that ok by (simp add: m area_ok_def)
qed

lemma refr_area_tiles:
  assumes "disp_ok d" "on_screen d a" "\<not> full_refresh (disp_driver d)" "uint buf_size < 2 ^ 31"
    and "ax2 a - ax1 a + 1 \<le> uint buf_size" "nat (lv_disp_get_ver_res d) < fuel"
  shows "\<exists>bs m. refr_area fuel buf_size d a = Some bs \<and> tiles a m (ay1 a) (ay2 a) bs \<and> ay1 a \<le> ay2 a \<and>
    (\<forall>b \<in> set bs. on_screen d (fst b) \<and> uint (lv_area_get_size (fst b)) \<le> uint buf_size)"
proof -
  define m where "m = get_max_row d buf_size (lv_area_get_width a) (lv_area_get_height a)"
  have m: "1 \<le> m" "m \<le> ay2 a - ay1 a + 1" "m * (ax2 a - ax1 a + 1) \<le> uint buf_size"
    using get_max_row_bounds(1) [OF assms(1,2,4,5)] by (simp_all add: m_def)
  have a: "0 \<le> ax1 a" "ax1 a \<le> ax2 a" "0 \<le> ay1 a" "ay1 a \<le> ay2 a" "ay2 a < lv_disp_get_ver_res d" "lv_disp_get_ver_res d \<le> 8192"
    using assms(1,2) on_screen_iff [OF assms(1)] by (auto simp: disp_ok_def)
  have "nat (ay2 a + 1 - ay1 a) < fuel" using a assms(6) by linarith
  then obtain bs where bs: "refr_rows fuel a m (ay2 a) (ay1 a) 0 = Some bs" "tiles a m (ay1 a) (ay2 a) bs"
    using refr_rows_tiles [of m "ay2 a" "ay1 a" 0 fuel a] m a by auto
  have "refr_area fuel buf_size d a = Some bs"
    using bs(1) a(5) assms(3) by (simp add: refr_area_def Let_def m_def [symmetric])
  moreover have "on_screen d (fst b) \<and> uint (lv_area_get_size (fst b)) \<le> uint buf_size" if "b \<in> set bs" for b
  proof -
    have b: "ax1 (fst b) = ax1 a" "ax2 (fst b) = ax2 a" "ay1 a \<le> ay1 (fst b)" "ay1 (fst b) \<le> ay2 (fst b)" "ay2 (fst b) \<le> ay2 a"
      "ay2 (fst b) < ay1 (fst b) + m"
      using tiles_band [OF bs(2), of "fst b" "snd b"] that by auto
    then have on: "on_screen d (fst b)" using assms(2) by (auto simp: on_screen_iff [OF assms(1)])
    then have "uint (lv_area_get_size (fst b)) = (ax2 a - ax1 a + 1) * (ay2 (fst b) - ay1 (fst b) + 1)"
      using area_ok_size(3) [of "fst b"] b by (simp add: on_screen_def)
    also have "\<dots> \<le> (ax2 a - ax1 a + 1) * m" using a b by (intro mult_left_mono) simp_all
    finally show ?thesis using on m(3) by (simp add: mult.commute)
  qed
  ultimately show ?thesis using bs(2) a(4) by blast
qed

text \<open>
  C18. Redrawing an area in parts (\<^verbatim>\<open>refr_area\<close>): when the draw buffer holds at least one row of it, the loop ends and the bands it
  draws are disjoint, together are exactly the area, fit the buffer each, and only the last one carries the mark
  of the last part.
\<close>

theorem refr_area_bands:
  assumes "disp_ok d" "on_screen d a" "\<not> full_refresh (disp_driver d)" "uint buf_size < 2 ^ 31"
    and "ax2 a - ax1 a + 1 \<le> uint buf_size" "nat (lv_disp_get_ver_res d) < fuel"
  shows "\<exists>bs. refr_area fuel buf_size d a = Some bs \<and> (\<Union>b \<in> set bs. points (fst b)) = points a \<and>
    sorted_wrt (\<lambda>b c. points (fst b) \<inter> points (fst c) = {}) bs \<and>
    (\<forall>b \<in> set bs. on_screen d (fst b) \<and> uint (lv_area_get_size (fst b)) \<le> uint buf_size) \<and>
    map snd bs = replicate (length bs - 1) False @ [True]"
proof -
  obtain bs m where "refr_area fuel buf_size d a = Some bs" "tiles a m (ay1 a) (ay2 a) bs" "ay1 a \<le> ay2 a"
    "\<forall>b \<in> set bs. on_screen d (fst b) \<and> uint (lv_area_get_size (fst b)) \<le> uint buf_size"
    using refr_area_tiles [OF assms] by blast
  then show ?thesis
    using tiles_points tiles_disjoint tiles_last by (intro exI [of _ bs]) (simp add: points_def)
qed

theorem refr_area_bands_witness:
  "\<exists>bs. refr_area 241 6400 idle_display (rect 0 0 319 239) = Some bs \<and> (\<Union>b \<in> set bs. points (fst b)) = points (rect 0 0 319 239)"
proof -
  have "on_screen idle_display (rect 0 0 319 239)" "\<not> full_refresh (disp_driver idle_display)"
    by (simp_all add: on_screen_iff [OF idle_display_ok(1)] idle_display_ok) (simp add: idle_display_def lv_disp_drv_init_def)
  then show ?thesis using refr_area_bands [OF idle_display_ok(1), of "rect 0 0 319 239" 6400 241] by (auto simp: idle_display_ok)
qed

text \<open>A buffer smaller than one row of the area: no row is ever finished.\<close>

lemma refr_rows_stuck:
  assumes "0 \<le> row" "row \<le> y2 + 1" "y2 < 8192"
  shows "refr_rows fuel a 0 y2 row row_last = None"
  using assms by (induction fuel arbitrary: row_last) (simp_all add: lv_coord_id Let_def)

text \<open>
  A draw buffer too small for one row of the area to redraw makes the redraw loop endless: the number of rows comes
  out as zero, and no number of rounds finishes the area.  (\<^verbatim>\<open>lvgl_port_add_disp\<close> only rejects a buffer of size zero.)
\<close>

theorem refr_area_small_buffer:
  assumes "disp_ok d" "on_screen d a" "\<not> full_refresh (disp_driver d)" "uint buf_size < ax2 a - ax1 a + 1"
  shows "refr_area fuel buf_size d a = None"
proof -
  have a: "0 \<le> ay1 a" "ay1 a \<le> ay2 a" "ay2 a < lv_disp_get_ver_res d" "lv_disp_get_ver_res d \<le> 8192" "ax2 a - ax1 a + 1 < 2 ^ 31"
    using assms(1,2) on_screen_iff [OF assms(1)] by (auto simp: disp_ok_def)
  have "get_max_row d buf_size (lv_area_get_width a) (lv_area_get_height a) = 0"
    by (rule get_max_row_bounds(2) [OF assms(1,2)]) (use a(5) assms(4) in simp_all)
  then show ?thesis using a assms(3) by (simp add: refr_area_def Let_def refr_rows_stuck)
qed

theorem refr_area_small_buffer_witness:
  "refr_area 1000 319 idle_display (rect 0 0 319 239) = None"
proof -
  have "on_screen idle_display (rect 0 0 319 239)" "\<not> full_refresh (disp_driver idle_display)"
    by (simp_all add: on_screen_iff [OF idle_display_ok(1)] idle_display_ok) (simp add: idle_display_def lv_disp_drv_init_def)
  then show ?thesis using refr_area_small_buffer [OF idle_display_ok(1), of "rect 0 0 319 239" 319 1000] by simp
qed

section \<open>A refresh shows what was requested\<close>

text \<open>
  The pixels of a display as a function of the point; what it means that bytes in the draw buffer are those pixels
  on an area; and the frame memory after they were painted on a set of points.
\<close>

definition renders :: "(int \<times> int \<Rightarrow> u16) \<Rightarrow> lv_area_t \<Rightarrow> u8 list \<Rightarrow> bool" where
  "renders pix b colors \<longleftrightarrow> length colors = nat ((ax2 b - ax1 b + 1) * (ay2 b - ay1 b + 1)) * 2 \<and>
     (\<forall>x y. (int x, int y) \<in> points b \<longrightarrow>
        (let i = (y - nat (ay1 b)) * nat (ax2 b - ax1 b + 1) + (x - nat (ax1 b))
         in be16 (colors ! (2 * i)) (colors ! (2 * i + 1)) = pix (int x, int y)))"

definition paint :: "(int \<times> int \<Rightarrow> u16) \<Rightarrow> (int \<times> int) set \<Rightarrow> (nat \<times> nat \<Rightarrow> u16) \<Rightarrow> nat \<times> nat \<Rightarrow> u16" where
  "paint pix S ram = (\<lambda>(x, y). if (int x, int y) \<in> S then pix (int x, int y) else ram (x, y))"

lemma paint_simps: "paint pix {} = id" "paint pix T \<circ> paint pix S = paint pix (S \<union> T)"
  by (auto simp: paint_def fun_eq_iff)

text \<open>A display whose driver, context and panel are in place.\<close>

definition shows_on :: "ptr \<Rightarrow> lv_disp_drv_t \<Rightarrow> st7789_panel_t \<Rightarrow> 'a port_world_scheme \<Rightarrow> bool" where
  "shows_on drv dr pn w \<longleftrightarrow> drv \<noteq> 0 \<and> disp_drvs w drv = Some dr \<and> drv_user_data dr \<noteq> 0 \<and>
     (\<exists>ctx. disp_ctxs w (drv_user_data dr) = Some ctx \<and> ready (ctx_panel_handle ctx) pn w)"

lemma statics_ctxs:
  fixes w w' :: "'a port_world_scheme"
  shows "statics w' = statics w \<Longrightarrow> disp_drvs w' = disp_drvs w \<and> disp_ctxs w' = disp_ctxs w"
  by (cases w; cases w') (simp add: statics_def)

lemma flush_callback_paints:
  assumes d: "disp_ok d" and b: "on_screen d b" and live: "shows_on drv dr pn w" and r: "renders pix b colors"
  shows "\<exists>w'. lvgl_port_flush_callback drv b buf colors w = Some w' \<and> shows_on drv dr pn w' \<and> paints w w' (paint pix (points b))"
proof -
  obtain ctx where ctx: "drv \<noteq> 0" "disp_drvs w drv = Some dr" "drv_user_data dr \<noteq> 0" "disp_ctxs w (drv_user_data dr) = Some ctx"
    "ready (ctx_panel_handle ctx) pn w"
    using live by (auto simp: shows_on_def)
  have a: "0 \<le> ax1 b" "ax1 b < ax2 b + 1" "ax2 b + 1 \<le> 65536" "0 \<le> ay1 b" "ay1 b < ay2 b + 1" "ay2 b + 1 \<le> 65536"
    using b d on_screen_iff [OF d, of b] by (auto simp: disp_ok_def)
  have len: "length colors = nat ((ax2 b + 1 - ax1 b) * (ay2 b + 1 - ay1 b)) * 2"
    using r by (simp add: renders_def algebra_simps)
  obtain w' where w': "esp_lcd_panel_draw_bitmap (ctx_panel_handle ctx) (ax1 b) (ay1 b) (ax2 b + 1) (ay2 b + 1) buf colors w = Some (ESP_OK, w')"
    "ready (ctx_panel_handle ctx) pn w'" "statics w' = statics w"
    "paints w w' (blit (nat (ax1 b)) (nat (ay1 b)) (nat (ax2 b + 1 - ax1 b)) (pixels colors))"
    using draw_bitmap_paints [OF ctx(5) a len, of buf] by blast
  have wd: "ax2 b + 1 - ax1 b = ax2 b - ax1 b + 1" by simp
  have "blit (nat (ax1 b)) (nat (ay1 b)) (nat (ax2 b + 1 - ax1 b)) (pixels colors) ram (x, y) = paint pix (points b) ram (x, y)" for ram x y
    unfolding blit_pixels [OF a(1,2,4,5) len] unfolding wd using r by (auto simp: paint_def renders_def Let_def mem_points)
  then have "blit (nat (ax1 b)) (nat (ay1 b)) (nat (ax2 b + 1 - ax1 b)) (pixels colors) = paint pix (points b)"
    by (auto simp: fun_eq_iff)
  moreover have "shows_on drv dr pn w'" using statics_ctxs [OF w'(3)] ctx w'(2) by (auto simp: shows_on_def)
  moreover have "lvgl_port_flush_callback drv b buf colors w = Some w'"
    using w'(1) by (simp add: lvgl_port_flush_callback_def on_disp_drv_live [OF ctx(1-4)])
  ultimately show ?thesis using w'(4) by auto
qed

lemma flush_bands_paint:
  assumes d: "disp_ok d" and fl: "\<forall>k. flushed k"
  shows "\<forall>b \<in> set bs. on_screen d b \<and> renders pix b (render b) \<Longrightarrow> shows_on drv dr pn w \<Longrightarrow>
    \<exists>w'. flush_bands flushed render drv buf k bs w = Some w' \<and> shows_on drv dr pn w' \<and> paints w w' (paint pix (\<Union>b \<in> set bs. points b))"
proof (induction bs arbitrary: k w)
  case (Cons b bs)
  obtain w1 where w1: "lvgl_port_flush_callback drv b buf (render b) w = Some w1" "shows_on drv dr pn w1" "paints w w1 (paint pix (points b))"
    using flush_callback_paints [OF d _ Cons.prems(2), of b pix "render b" buf] Cons.prems(1) by auto
  obtain w2 where w2: "flush_bands flushed render drv buf (k + 1) bs w1 = Some w2" "shows_on drv dr pn w2"
    "paints w1 w2 (paint pix (\<Union>b \<in> set bs. points b))"
    using Cons.IH [OF _ w1(2), of "k + 1"] Cons.prems(1) by auto
  have "paints w w2 (paint pix (\<Union>b \<in> set (b # bs). points b))"
    using paints_trans [OF w1(3) w2(3)] by (simp add: paint_simps)
  moreover have "flushed k" using fl by blast
  ultimately show ?case using w1(1) w2(1,2) by (intro exI [of _ w2]) simp
qed (simp add: paint_simps paints_refl)

text \<open>Redrawing depends on the driver and the rounder only.\<close>

lemma refr_all_upd:
  "refr_all fuel buf_size (d\<lparr>inv_areas := as, inv_area_joined := js\<rparr>) bs = refr_all fuel buf_size d bs"
  by (induction bs) (simp_all add: refr_area_def get_max_row_def Let_def)

lemma unjoined_pending: "(\<Union>a \<in> set (unjoined d). points a) = pending d" "set (unjoined d) \<subseteq> set (inv_areas d)"
  by (auto simp: unjoined_def pending_def region_def)

lemma refr_all_bands:
  assumes "disp_ok d" "\<not> full_refresh (disp_driver d)" "uint buf_size < 2 ^ 31"
    and "lv_disp_get_hor_res d \<le> uint buf_size" "nat (lv_disp_get_ver_res d) < fuel"
  shows "\<forall>a \<in> set as. on_screen d a \<Longrightarrow> \<exists>bs. refr_all fuel buf_size d as = Some bs \<and>
    (\<Union>b \<in> set bs. points (fst b)) = (\<Union>a \<in> set as. points a) \<and> (\<forall>b \<in> set bs. on_screen d (fst b))"
proof (induction as)
  case (Cons a as)
  have a: "on_screen d a" using Cons.prems by simp
  then have "ax2 a - ax1 a + 1 \<le> uint buf_size" using assms(4) by (auto simp: on_screen_iff [OF assms(1)])
  then obtain bs m where bs: "refr_area fuel buf_size d a = Some bs" "tiles a m (ay1 a) (ay2 a) bs" "\<forall>b \<in> set bs. on_screen d (fst b)"
    using refr_area_tiles [OF assms(1) a assms(2,3) _ assms(5)] by blast
  obtain bs' where bs': "refr_all fuel buf_size d as = Some bs'" "(\<Union>b \<in> set bs'. points (fst b)) = (\<Union>a \<in> set as. points a)"
    "\<forall>b \<in> set bs'. on_screen d (fst b)"
    using Cons by auto
  have "(\<Union>b \<in> set bs. points (fst b)) = points a" using tiles_points [OF bs(2)] by (simp add: points_def)
  then show ?case using bs(1,3) bs' by (auto simp: case_prod_unfold image_Un)
qed simp

lemma lv_refr_join_area_idle: "inv_areas d = [] \<Longrightarrow> lv_refr_join_area d = d"
  by (simp add: lv_refr_join_area_def)

text \<open>
  C2. A refresh shows what was requested: when the draw buffer holds a row of the screen, the widgets draw the pixels \<open>pix\<close> and
  every flush ends, refreshing a display of this board returns; the controller's frame memory then has the pixels on
  a set of screen points that includes every point that waited to be redrawn and is unchanged elsewhere; nothing waits any more, and the
  display and its panel are ready for the next refresh.
\<close>

theorem lv_disp_refr_shows:
  fixes w :: "'a port_world_scheme"
  assumes "disp_ok d" "\<not> full_refresh (disp_driver d)" "uint buf_size < 2 ^ 31"
    and "lv_disp_get_hor_res d \<le> uint buf_size" "nat (lv_disp_get_ver_res d) < fuel"
    and "\<forall>k. flushed k" "\<forall>b. on_screen d b \<longrightarrow> renders pix b (render b)" "shows_on drv (disp_driver d) pn w"
  shows "\<exists>d' w' S. lv_disp_refr fuel buf_size flushed render drv buf d w = Some (d', w') \<and>
    pending d \<subseteq> S \<and> S \<subseteq> points (scr_area d) \<and>
    (\<forall>g. g_ram (gram_run (wire (new_events w w')) g) = paint pix S (g_ram g)) \<and>
    disp_ok d' \<and> pending d' = {} \<and> scr_area d' = scr_area d \<and> shows_on drv (disp_driver d') pn w'"
proof -
  define d0 where "d0 = d\<lparr>refr_timer_paused := True\<rparr>"
  define d1 where "d1 = lv_refr_join_area d0"
  have d0: "disp_ok d0" "pending d0 = pending d" "scr_area d0 = scr_area d" "disp_driver d0 = disp_driver d"
    "lv_disp_get_hor_res d0 = lv_disp_get_hor_res d" "lv_disp_get_ver_res d0 = lv_disp_get_ver_res d"
    using assms(1) by (simp_all add: d0_def disp_ok_def pending_def on_screen_def)
  obtain as js where j: "pending d0 \<subseteq> pending d1" "\<forall>a \<in> set as. on_screen d0 a" "d1 = d0\<lparr>inv_areas := as, inv_area_joined := js\<rparr>"
    using lv_refr_join_area_keeps [OF d0(1)] by (auto simp: d1_def)
  have un: "\<forall>a \<in> set (unjoined d1). on_screen d0 a" using unjoined_pending(2) [of d1] j(2,3) by auto
  obtain bs where bs: "refr_invalid_areas fuel buf_size d1 = Some bs" "(\<Union>b \<in> set bs. points (fst b)) = pending d1"
    "\<forall>b \<in> set bs. on_screen d0 (fst b)"
    using refr_all_bands [OF d0(1) _ assms(3) _ _ un, of fuel] assms(2,4,5) d0(4-6) unjoined_pending(1) [of d1]
    by (auto simp: refr_invalid_areas_def j(3) refr_all_upd)
  have os: "on_screen d0 b = on_screen d b" for b by (simp add: on_screen_def d0(3))
  obtain w' where w': "flush_bands flushed render drv buf 0 (map fst bs) w = Some w'" "shows_on drv (disp_driver d) pn w'"
    "paints w w' (paint pix (pending d1))"
    using flush_bands_paint [where bs = "map fst bs" and k = 0 and buf = buf and render = render and pix = pix, OF d0(1) assms(6) _ assms(8)]
      assms(7) bs(2,3)
    by (auto simp: os image_image)
  define d2 where "d2 = (if inv_areas d1 \<noteq> [] then d1\<lparr>inv_areas := [], inv_area_joined := (\<lambda>_. False)\<rparr> else d1)"
  have d2: "d2 = d0\<lparr>inv_areas := [], inv_area_joined := (\<lambda>_. False)\<rparr>"
  proof (cases "inv_areas d1 = []")
    case True
    then have "inv_areas d0 = []" using lv_refr_join_area_keeps [OF d0(1)] by (auto simp: d1_def)
    then show ?thesis using True lv_refr_join_area_idle [of d0] d0(1) by (simp add: d2_def d1_def disp_ok_def)
  qed (simp add: d2_def j(3))
  have "lv_disp_refr fuel buf_size flushed render drv buf d w = Some (d2, w')"
    using bs(1) w'(1) by (simp add: lv_disp_refr_def Let_def d0_def [symmetric] d1_def [symmetric] d2_def)
  moreover have "pending d1 \<subseteq> points (scr_area d)"
    using bs(2,3) by (auto simp: on_screen_def d0(3))
  moreover have "disp_ok d2" "pending d2 = {}" "scr_area d2 = scr_area d" "disp_driver d2 = disp_driver d"
    using d0 by (simp_all add: d2 disp_ok_def pending_def region_def)
  ultimately show ?thesis
    using j(1) d0(2) paints_new_events [OF w'(3)] w'(2) by (intro exI [of _ d2] exI [of _ w'] exI [of _ "pending d1"]) simp
qed

text \<open>The whole screen in one colour, on a board with its display.\<close>

definition one_colour :: "lv_area_t \<Rightarrow> u8 list" where
  "one_colour b = map (\<lambda>i. if even i then 0xF8 else 0x1F) [0..<nat ((ax2 b - ax1 b + 1) * (ay2 b - ay1 b + 1)) * 2]"

definition dirty_display :: lv_disp_t where
  "dirty_display = idle_display\<lparr>disp_driver := lv_disp_drv_init\<lparr>drv_user_data := 20\<rparr>, inv_areas := [rect 10 10 19 19, rect 15 15 29 24]\<rparr>"

definition refr_board :: port_world where
  "refr_board = flush_board\<lparr>wenv := wenv lcd_board, disp_drvs := [32 \<mapsto> lv_disp_drv_init\<lparr>drv_user_data := 20\<rparr>]\<rparr>"

lemma one_colour_renders:
  assumes "disp_ok d" "on_screen d b"
  shows "renders (\<lambda>_. 0xF81F) b (one_colour b)"
proof -
  define wd ht where "wd = ax2 b - ax1 b + 1" and "ht = ay2 b - ay1 b + 1"
  have be: "be16 0xF8 0x1F = 0xF81F" by (simp add: be16_def) code_simp
  have pos: "0 \<le> ax1 b" "0 \<le> ay1 b" "0 < wd" "0 < ht"
    using assms by (auto simp: on_screen_iff wd_def ht_def)
  have idx: "(y - nat (ay1 b)) * nat wd + (x - nat (ax1 b)) < nat (wd * ht)" if "(int x, int y) \<in> points b" for x y
  proof -
    have "nat (ax1 b) \<le> x" "x < nat (ax1 b) + nat wd" "nat (ay1 b) \<le> y" "y < nat (ay1 b) + nat ht"
      using that pos by (auto simp: mem_points wd_def ht_def)
    moreover have "nat (wd * ht) = nat wd * nat ht" using pos by (simp add: nat_mult_distrib)
    ultimately show ?thesis using index_in_rect by simp
  qed
  have col: "one_colour b = map (\<lambda>i. if even i then 0xF8 else 0x1F) [0..<nat (wd * ht) * 2]"
    by (simp add: one_colour_def wd_def ht_def)
  have px: "be16 (one_colour b ! (2 * i)) (one_colour b ! (2 * i + 1)) = 0xF81F" if "i < nat (wd * ht)" for i
    unfolding col using that be by simp
  show ?thesis
    unfolding renders_def Let_def wd_def [symmetric] ht_def [symmetric]
    by (intro conjI allI impI px idx) (simp_all add: col)
qed

lemma dirty_display_ok:
  "disp_ok dirty_display" "lv_disp_get_hor_res dirty_display = 320" "lv_disp_get_ver_res dirty_display = 240"
  "\<not> full_refresh (disp_driver dirty_display)" "disp_driver dirty_display = lv_disp_drv_init\<lparr>drv_user_data := 20\<rparr>"
  "(12, 17) \<in> pending dirty_display"
proof -
  show r: "lv_disp_get_hor_res dirty_display = 320" "lv_disp_get_ver_res dirty_display = 240"
    by (simp_all add: dirty_display_def lv_disp_get_hor_res_def lv_disp_get_ver_res_def lv_disp_drv_init_def)
  have "on_screen dirty_display (rect 10 10 19 19)" "on_screen dirty_display (rect 15 15 29 24)"
    by (simp_all add: on_screen_def scr_area_def r area_ok_def lv_coord_id points_def times_subset_iff)
  then show ok: "disp_ok dirty_display"
    unfolding disp_ok_def r by (simp add: dirty_display_def idle_display_def LV_INV_BUF_SIZE_def)
  show "\<not> full_refresh (disp_driver dirty_display)" "disp_driver dirty_display = lv_disp_drv_init\<lparr>drv_user_data := 20\<rparr>"
    by (simp_all add: dirty_display_def lv_disp_drv_init_def)
  show "(12, 17) \<in> pending dirty_display"
    unfolding pending_fresh [OF ok] by (simp add: dirty_display_def mem_points)
qed

lemma refr_board_shows: "\<exists>pn. shows_on 32 (lv_disp_drv_init\<lparr>drv_user_data := 20\<rparr>) pn refr_board"
  using lcd_demo_ready(1)
  by (simp add: shows_on_def refr_board_def flush_board_def ready_def lcd_demo_world_def lcd_io_def spi_up_def)

theorem lv_disp_refr_shows_witness:
  "\<exists>d' w' S. lv_disp_refr 241 6400 (\<lambda>_. True) one_colour 32 64 dirty_display refr_board = Some (d', w') \<and> (12, 17) \<in> S \<and>
     g_ram (gram_run (wire (new_events refr_board w')) gram_blank) = paint (\<lambda>_. 0xF81F) S (g_ram gram_blank)"
proof -
  obtain pn where pn: "shows_on 32 (disp_driver dirty_display) pn refr_board"
    using refr_board_shows by (auto simp: dirty_display_ok)
  obtain d' w' S where s: "lv_disp_refr 241 6400 (\<lambda>_. True) one_colour 32 64 dirty_display refr_board = Some (d', w')"
    "pending dirty_display \<subseteq> S" "\<forall>g. g_ram (gram_run (wire (new_events refr_board w')) g) = paint (\<lambda>_. 0xF81F) S (g_ram g)"
    using lv_disp_refr_shows [OF dirty_display_ok(1,4) _ _ _ _ _ pn, of 6400 241 "\<lambda>_. True" "\<lambda>_. 0xF81F" one_colour 64]
      one_colour_renders [OF dirty_display_ok(1)] dirty_display_ok(2,3) by auto
  then show ?thesis using dirty_display_ok(6) by blast
qed

end
