(* ===== verification/Lv_Ll.thy ===== *)
theory Lv_Ll
  imports Platform
begin

text \<open>
  LVGL's linked lists, managed_components/lvgl__lvgl/src/misc/lv_ll.c: list descriptors and nodes in memory,
  every access of the code an access of this memory.  The specification is the list of the nodes'
  addresses.  A node is a block of the heap that ends with the addresses of its neighbours.
\<close>

section \<open>Lists in memory\<close>

text \<open>
  \<open>node_size\<close> is the size of the user's part of the block, behind which the two addresses stand: a list with another
  \<^verbatim>\<open>n_size\<close> would look for them elsewhere, which has no meaning.
\<close>

record lv_ll_node_t =
  node_size :: u32
  node_prev :: ptr
  node_next :: ptr

record lv_ll_t =
  ll_n_size :: u32
  ll_head :: ptr
  ll_tail :: ptr

record ll_world = world +
  lls :: "ptr \<Rightarrow> lv_ll_t option"
  ll_nodes :: "ptr \<Rightarrow> lv_ll_node_t option"

lemma ll_after [simp]: "lls (after w c) = lls w" "ll_nodes (after w c) = ll_nodes w"
  by (simp_all add: after_def)

definition LL_NODE_META_SIZE :: nat where "LL_NODE_META_SIZE = 8"

text \<open>\<^verbatim>\<open>lv_mem_alloc\<close> and \<^verbatim>\<open>lv_mem_free\<close> of lv_mem.c, with \<^verbatim>\<open>LV_MEM_CUSTOM\<close> (\<^verbatim>\<open>malloc\<close>, \<^verbatim>\<open>free\<close>); sizes here are never zero.\<close>

definition lv_mem_alloc :: "nat \<Rightarrow> 'a world_scheme \<Rightarrow> ptr \<times> 'a world_scheme" where
  "lv_mem_alloc n w = (let (r, w) = do_call (MEM (Malloc n 0)) w in (handle (ret r), w))"

definition lv_mem_free :: "ptr \<Rightarrow> 'a world_scheme \<Rightarrow> 'a world_scheme" where
  "lv_mem_free p w = (if p = 0 then w else call_void (MEM (Free p)) w)"

definition set_ll :: "ptr \<Rightarrow> lv_ll_t \<Rightarrow> 'a ll_world_scheme \<Rightarrow> 'a ll_world_scheme" where
  "set_ll p l w = w\<lparr>lls := (lls w)(p \<mapsto> l)\<rparr>"

text \<open>A node of a list: \<open>None\<close> when there is none of its layout at the address.\<close>

definition ll_node :: "ptr \<Rightarrow> ptr \<Rightarrow> 'a ll_world_scheme \<Rightarrow> lv_ll_node_t option" where
  "ll_node ll_p n w = do {
     l \<leftarrow> lls w ll_p;
     nd \<leftarrow> ll_nodes w n;
     if node_size nd = ll_n_size l then Some nd else None }"

definition node_set_prev :: "ptr \<Rightarrow> ptr \<Rightarrow> ptr \<Rightarrow> 'a ll_world_scheme \<Rightarrow> 'a ll_world_scheme option" where
  "node_set_prev ll_p act prev w =
    (if act = 0 then Some w
     else do { nd \<leftarrow> ll_node ll_p act w; Some (w\<lparr>ll_nodes := (ll_nodes w)(act \<mapsto> nd\<lparr>node_prev := prev\<rparr>)\<rparr>) })"

definition node_set_next :: "ptr \<Rightarrow> ptr \<Rightarrow> ptr \<Rightarrow> 'a ll_world_scheme \<Rightarrow> 'a ll_world_scheme option" where
  "node_set_next ll_p act nxt w =
    (if act = 0 then Some w
     else do { nd \<leftarrow> ll_node ll_p act w; Some (w\<lparr>ll_nodes := (ll_nodes w)(act \<mapsto> nd\<lparr>node_next := nxt\<rparr>)\<rparr>) })"

definition lv_ll_init :: "ptr \<Rightarrow> u32 \<Rightarrow> 'a ll_world_scheme \<Rightarrow> 'a ll_world_scheme" where
  "lv_ll_init ll_p sz w = set_ll ll_p \<lparr>ll_n_size = (sz + 3) AND NOT 3, ll_head = 0, ll_tail = 0\<rparr> w"

definition lv_ll_get_head :: "ptr \<Rightarrow> 'a ll_world_scheme \<Rightarrow> ptr option" where
  "lv_ll_get_head ll_p w = (if ll_p = 0 then Some 0 else map_option ll_head (lls w ll_p))"

definition lv_ll_get_tail :: "ptr \<Rightarrow> 'a ll_world_scheme \<Rightarrow> ptr option" where
  "lv_ll_get_tail ll_p w = (if ll_p = 0 then Some 0 else map_option ll_tail (lls w ll_p))"

definition lv_ll_get_next :: "ptr \<Rightarrow> ptr \<Rightarrow> 'a ll_world_scheme \<Rightarrow> ptr option" where
  "lv_ll_get_next ll_p n w = map_option node_next (ll_node ll_p n w)"

definition lv_ll_get_prev :: "ptr \<Rightarrow> ptr \<Rightarrow> 'a ll_world_scheme \<Rightarrow> ptr option" where
  "lv_ll_get_prev ll_p n w = map_option node_prev (ll_node ll_p n w)"

definition lv_ll_is_empty :: "ptr \<Rightarrow> 'a ll_world_scheme \<Rightarrow> bool option" where
  "lv_ll_is_empty ll_p w =
    (if ll_p = 0 then Some True else map_option (\<lambda>l. ll_head l = 0 \<and> ll_tail l = 0) (lls w ll_p))"

definition set_head :: "ptr \<Rightarrow> ptr \<Rightarrow> 'a ll_world_scheme \<Rightarrow> 'a ll_world_scheme option" where
  "set_head ll_p n w = do { l \<leftarrow> lls w ll_p; Some (set_ll ll_p (l\<lparr>ll_head := n\<rparr>) w) }"

definition set_tail :: "ptr \<Rightarrow> ptr \<Rightarrow> 'a ll_world_scheme \<Rightarrow> 'a ll_world_scheme option" where
  "set_tail ll_p n w = do { l \<leftarrow> lls w ll_p; Some (set_ll ll_p (l\<lparr>ll_tail := n\<rparr>) w) }"

text \<open>A new node: its two addresses are indeterminate until they are set.\<close>

definition lv_ll_node_alloc :: "ptr \<Rightarrow> 'a ll_world_scheme \<Rightarrow> (ptr \<times> 'a ll_world_scheme) option" where
  "lv_ll_node_alloc ll_p w = do {
     l \<leftarrow> lls w ll_p;
     let (n, w) = lv_mem_alloc (unat (ll_n_size l) + LL_NODE_META_SIZE) w;
     Some (n, if n = 0 then w
              else w\<lparr>ll_nodes := (ll_nodes w)(n \<mapsto> \<lparr>node_size = ll_n_size l, node_prev = 0, node_next = 0\<rparr>)\<rparr>) }"

section \<open>Operations\<close>

text \<open>Linking a node as the new head, or as the new tail.\<close>

definition link_head :: "ptr \<Rightarrow> ptr \<Rightarrow> 'a ll_world_scheme \<Rightarrow> 'a ll_world_scheme option" where
  "link_head ll_p n w = do {
     w \<leftarrow> node_set_prev ll_p n 0 w;
     h \<leftarrow> lv_ll_get_head ll_p w;
     w \<leftarrow> node_set_next ll_p n h w;
     w \<leftarrow> (if h \<noteq> 0 then node_set_prev ll_p h n w else Some w);
     w \<leftarrow> set_head ll_p n w;
     t \<leftarrow> lv_ll_get_tail ll_p w;
     if t = 0 then set_tail ll_p n w else Some w }"

definition link_tail :: "ptr \<Rightarrow> ptr \<Rightarrow> 'a ll_world_scheme \<Rightarrow> 'a ll_world_scheme option" where
  "link_tail ll_p n w = do {
     w \<leftarrow> node_set_next ll_p n 0 w;
     t \<leftarrow> lv_ll_get_tail ll_p w;
     w \<leftarrow> node_set_prev ll_p n t w;
     w \<leftarrow> (if t \<noteq> 0 then node_set_next ll_p t n w else Some w);
     w \<leftarrow> set_tail ll_p n w;
     h \<leftarrow> lv_ll_get_head ll_p w;
     if h = 0 then set_head ll_p n w else Some w }"

text \<open>Linking a node between two others, or at an end: the steps shared by inserting and moving.\<close>

definition link_between :: "ptr \<Rightarrow> ptr \<Rightarrow> ptr \<Rightarrow> ptr \<Rightarrow> 'a ll_world_scheme \<Rightarrow> 'a ll_world_scheme option" where
  "link_between p n_before n n_after w = do {
     w \<leftarrow> node_set_next p n_before n w;
     w \<leftarrow> node_set_prev p n n_before w;
     w \<leftarrow> node_set_prev p n_after n w;
     node_set_next p n n_after w }"

definition lv_ll_ins_head :: "ptr \<Rightarrow> 'a ll_world_scheme \<Rightarrow> (ptr \<times> 'a ll_world_scheme) option" where
  "lv_ll_ins_head ll_p w = do {
     (n, w) \<leftarrow> lv_ll_node_alloc ll_p w;
     if n = 0 then Some (0, w) else do { w \<leftarrow> link_head ll_p n w; Some (n, w) } }"

definition lv_ll_ins_tail :: "ptr \<Rightarrow> 'a ll_world_scheme \<Rightarrow> (ptr \<times> 'a ll_world_scheme) option" where
  "lv_ll_ins_tail ll_p w = do {
     (n, w) \<leftarrow> lv_ll_node_alloc ll_p w;
     if n = 0 then Some (0, w) else do { w \<leftarrow> link_tail ll_p n w; Some (n, w) } }"

definition lv_ll_ins_prev :: "ptr \<Rightarrow> ptr \<Rightarrow> 'a ll_world_scheme \<Rightarrow> (ptr \<times> 'a ll_world_scheme) option" where
  "lv_ll_ins_prev ll_p n_act w =
    (if ll_p = 0 \<or> n_act = 0 then Some (0, w)
     else do {
       h \<leftarrow> lv_ll_get_head ll_p w;
       if h = n_act then lv_ll_ins_head ll_p w
       else do {
         (n, w) \<leftarrow> lv_ll_node_alloc ll_p w;
         if n = 0 then Some (0, w)
         else do {
           n_prev \<leftarrow> lv_ll_get_prev ll_p n_act w;
           w \<leftarrow> link_between ll_p n_prev n n_act w;
           Some (n, w) } } })"

definition lv_ll_remove :: "ptr \<Rightarrow> ptr \<Rightarrow> 'a ll_world_scheme \<Rightarrow> 'a ll_world_scheme option" where
  "lv_ll_remove ll_p n w =
    (if ll_p = 0 then Some w
     else do {
       h \<leftarrow> lv_ll_get_head ll_p w;
       t \<leftarrow> lv_ll_get_tail ll_p w;
       if h = n then do {
         h \<leftarrow> lv_ll_get_next ll_p n w;
         w \<leftarrow> set_head ll_p h w;
         if h = 0 then set_tail ll_p 0 w else node_set_prev ll_p h 0 w }
       else if t = n then do {
         t \<leftarrow> lv_ll_get_prev ll_p n w;
         w \<leftarrow> set_tail ll_p t w;
         if t = 0 then set_head ll_p 0 w else node_set_next ll_p t 0 w }
       else do {
         n_prev \<leftarrow> lv_ll_get_prev ll_p n w;
         n_next \<leftarrow> lv_ll_get_next ll_p n w;
         w \<leftarrow> node_set_next ll_p n_prev n_next w;
         node_set_prev ll_p n_next n_prev w } })"

definition ll_free :: "ptr \<Rightarrow> 'a ll_world_scheme \<Rightarrow> 'a ll_world_scheme" where
  "ll_free n w = lv_mem_free n (w\<lparr>ll_nodes := (ll_nodes w)(n := None)\<rparr>)"

partial_function (option) clear_loop :: "ptr \<Rightarrow> ptr \<Rightarrow> 'a ll_world_scheme \<Rightarrow> 'a ll_world_scheme option" where
  "clear_loop ll_p i w =
    (if i = 0 then Some w
     else do {
       i_next \<leftarrow> lv_ll_get_next ll_p i w;
       w \<leftarrow> lv_ll_remove ll_p i w;
       clear_loop ll_p i_next (ll_free i w) })"

definition lv_ll_clear :: "ptr \<Rightarrow> 'a ll_world_scheme \<Rightarrow> 'a ll_world_scheme option" where
  "lv_ll_clear ll_p w = do { i \<leftarrow> lv_ll_get_head ll_p w; clear_loop ll_p i w }"

definition lv_ll_chg_list :: "ptr \<Rightarrow> ptr \<Rightarrow> ptr \<Rightarrow> bool \<Rightarrow> 'a ll_world_scheme \<Rightarrow> 'a ll_world_scheme option" where
  "lv_ll_chg_list ll_ori_p ll_new_p n head w = do {
     w \<leftarrow> lv_ll_remove ll_ori_p n w;
     if head then link_head ll_new_p n w else link_tail ll_new_p n w }"

partial_function (option) len_loop :: "ptr \<Rightarrow> ptr \<Rightarrow> u32 \<Rightarrow> 'a ll_world_scheme \<Rightarrow> u32 option" where
  "len_loop ll_p n len w =
    (if n = 0 then Some len else do { n' \<leftarrow> lv_ll_get_next ll_p n w; len_loop ll_p n' (len + 1) w })"

definition lv_ll_get_len :: "ptr \<Rightarrow> 'a ll_world_scheme \<Rightarrow> u32 option" where
  "lv_ll_get_len ll_p w = do { n \<leftarrow> lv_ll_get_head ll_p w; len_loop ll_p n 0 w }"

definition lv_ll_move_before :: "ptr \<Rightarrow> ptr \<Rightarrow> ptr \<Rightarrow> 'a ll_world_scheme \<Rightarrow> 'a ll_world_scheme option" where
  "lv_ll_move_before ll_p n_act n_after w =
    (if n_act = n_after then Some w
     else do {
       n_before \<leftarrow> (if n_after \<noteq> 0 then lv_ll_get_prev ll_p n_after w else lv_ll_get_tail ll_p w);
       if n_act = n_before then Some w
       else do {
         w \<leftarrow> lv_ll_remove ll_p n_act w;
         w \<leftarrow> link_between ll_p n_before n_act n_after w;
         w \<leftarrow> (if n_after = 0 then set_tail ll_p n_act w else Some w);
         if n_before = 0 then set_head ll_p n_act w else Some w } })"

section \<open>The list of the nodes\<close>

text \<open>A doubly linked segment: its nodes, between the addresses \<open>p\<close> before and \<open>n\<close> after it.\<close>

fun dseg :: "(ptr \<Rightarrow> lv_ll_node_t option) \<Rightarrow> u32 \<Rightarrow> ptr \<Rightarrow> ptr list \<Rightarrow> ptr \<Rightarrow> bool" where
  "dseg m z p [] n = True"
| "dseg m z p (x # xs) n =
    (x \<noteq> 0 \<and> m x = Some \<lparr>node_size = z, node_prev = p, node_next = hd (xs @ [n])\<rparr> \<and> dseg m z x xs n)"

definition is_ll :: "ptr \<Rightarrow> ptr list \<Rightarrow> 'a ll_world_scheme \<Rightarrow> bool" where
  "is_ll p xs w \<longleftrightarrow> p \<noteq> 0 \<and> distinct xs \<and> (\<exists>z. dseg (ll_nodes w) z 0 xs 0 \<and>
     lls w p = Some \<lparr>ll_n_size = z, ll_head = hd (xs @ [0]), ll_tail = last (0 # xs)\<rparr>)"

lemma dseg_append: "dseg m z p (xs @ ys) n \<longleftrightarrow> dseg m z p xs (hd (ys @ [n])) \<and> dseg m z (last (p # xs)) ys n"
  by (induction xs arbitrary: p) (auto simp: hd_append)

lemma dseg_frame [simp]: "x \<notin> set xs \<Longrightarrow> dseg (m(x := v)) z p xs n = dseg m z p xs n"
  by (induction xs arbitrary: p) auto

lemma dseg_nonzero: "dseg m z p xs n \<Longrightarrow> 0 \<notin> set xs"
  by (induction xs arbitrary: p) auto

lemma dseg_cong: "(\<And>x. x \<in> set xs \<Longrightarrow> m' x = m x) \<Longrightarrow> dseg m' z p xs n = dseg m z p xs n"
  by (induction xs arbitrary: p) auto

text \<open>Changing the address after a segment, or the one before it, is a change of its last or first node.\<close>

lemma dseg_set_next:
  "dseg m z p (xs @ [x]) n \<Longrightarrow> distinct (xs @ [x]) \<Longrightarrow> m x = Some nd \<Longrightarrow>
     dseg (m(x \<mapsto> nd\<lparr>node_next := n'\<rparr>)) z p (xs @ [x]) n'"
  by (auto simp: dseg_append)

lemma dseg_set_prev:
  "dseg m z p (x # xs) n \<Longrightarrow> distinct (x # xs) \<Longrightarrow> m x = Some nd \<Longrightarrow> dseg (m(x \<mapsto> nd\<lparr>node_prev := p'\<rparr>)) z p' (x # xs) n"
  by auto

text \<open>Only the descriptor \<open>p\<close> and the nodes in \<open>S\<close> differ between two states.\<close>

definition ll_frame :: "ptr \<Rightarrow> ptr set \<Rightarrow> 'a ll_world_scheme \<Rightarrow> 'a ll_world_scheme \<Rightarrow> bool" where
  "ll_frame p S w w' \<longleftrightarrow> w' = w\<lparr>lls := lls w', ll_nodes := ll_nodes w'\<rparr> \<and>
     (\<forall>q. q \<noteq> p \<longrightarrow> lls w' q = lls w q) \<and> (\<forall>q. q \<notin> S \<longrightarrow> ll_nodes w' q = ll_nodes w q)"

lemma ll_frame_refl [simp]: "ll_frame p S w w"
  by (simp add: ll_frame_def)

lemma ll_frame_trans: "ll_frame p S w w1 \<Longrightarrow> ll_frame p S w1 w2 \<Longrightarrow> ll_frame p S w w2"
  by (cases w; cases w1; cases w2) (auto simp: ll_frame_def)

lemma ll_frame_mono: "ll_frame p S w w' \<Longrightarrow> S \<subseteq> T \<Longrightarrow> ll_frame p T w w'"
  by (auto simp: ll_frame_def)

text \<open>A list somewhere else in memory is not touched.\<close>

lemma is_ll_frame: "ll_frame p S w w' \<Longrightarrow> is_ll q ys w \<Longrightarrow> q \<noteq> p \<Longrightarrow> set ys \<inter> S = {} \<Longrightarrow> is_ll q ys w'"
  using dseg_cong [of ys "ll_nodes w'" "ll_nodes w"] unfolding ll_frame_def is_ll_def by (metis disjoint_iff)

lemma is_ll_props: "is_ll p xs w \<Longrightarrow> distinct xs \<and> 0 \<notin> set xs \<and> p \<noteq> 0"
  using dseg_nonzero by (auto simp: is_ll_def)

lemma is_ll_node:
  "is_ll p (as @ x # bs) w \<Longrightarrow>
     lv_ll_get_prev p x w = Some (last (0 # as)) \<and> lv_ll_get_next p x w = Some (hd (bs @ [0])) \<and> (\<exists>nd. ll_node p x w = Some nd)"
  by (auto simp: is_ll_def dseg_append lv_ll_get_prev_def lv_ll_get_next_def ll_node_def)

lemma is_ll_in: "is_ll p xs w \<Longrightarrow> x \<in> set xs \<Longrightarrow> ll_nodes w x \<noteq> None"
  by (auto simp: is_ll_def in_set_conv_decomp dseg_append)

lemma is_ll_ends: "is_ll p xs w \<Longrightarrow> lv_ll_get_head p w = Some (hd (xs @ [0])) \<and> lv_ll_get_tail p w = Some (last (0 # xs))"
  by (auto simp: is_ll_def lv_ll_get_head_def lv_ll_get_tail_def)

lemmas ll_op_defs = node_set_prev_def node_set_next_def ll_node_def lv_ll_get_head_def lv_ll_get_tail_def lv_ll_get_prev_def
  lv_ll_get_next_def set_head_def set_tail_def set_ll_def

lemma ll_node_new:
  "ll_node p n w = Some nd \<Longrightarrow> lls w p = Some l \<Longrightarrow> ll_nodes w n = Some nd \<and> node_size nd = ll_n_size l"
  by (auto simp: ll_node_def bind_eq_Some_conv split: if_splits)

lemma is_llE:
  assumes "is_ll p xs w"
  obtains z where "dseg (ll_nodes w) z 0 xs 0" "lls w p = Some \<lparr>ll_n_size = z, ll_head = hd (xs @ [0]), ll_tail = last (0 # xs)\<rparr>"
    "distinct xs" "p \<noteq> 0"
  using assms by (auto simp: is_ll_def)

lemma end_pos: "0 \<notin> set xs \<Longrightarrow> xs \<noteq> [] \<Longrightarrow> 0 < hd xs \<and> 0 < last xs" for xs :: "nat list"
  using hd_in_set [of xs] last_in_set [of xs] by (metis gr0I)

lemma link_head_ok:
  assumes "is_ll p xs w" "n \<noteq> 0" "n \<notin> set xs" "ll_node p n w = Some nd"
  shows "\<exists>w'. link_head p n w = Some w' \<and> is_ll p (n # xs) w' \<and> ll_frame p (insert n (set xs)) w w'"
proof -
  obtain z where l: "dseg (ll_nodes w) z 0 xs 0" "lls w p = Some \<lparr>ll_n_size = z, ll_head = hd (xs @ [0]), ll_tail = last (0 # xs)\<rparr>"
    "distinct xs" "p \<noteq> 0"
    using assms(1) by (rule is_llE)
  have nz: "0 \<notin> set xs" using dseg_nonzero [OF l(1)] .
  have n: "ll_nodes w n = Some nd" "node_size nd = z" using ll_node_new [OF assms(4) l(2)] by simp_all
  show ?thesis
  proof (cases xs)
    case Nil
    then show ?thesis
      using n l nz assms(2,3) by (auto simp: end_pos link_head_def ll_op_defs is_ll_def ll_frame_def split: if_splits)
  next
    case (Cons x ys)
    then show ?thesis
      using n l nz assms(2,3) by (auto simp: end_pos link_head_def ll_op_defs is_ll_def ll_frame_def split: if_splits)
  qed
qed

lemma link_tail_ok:
  assumes "is_ll p xs w" "n \<noteq> 0" "n \<notin> set xs" "ll_node p n w = Some nd"
  shows "\<exists>w'. link_tail p n w = Some w' \<and> is_ll p (xs @ [n]) w' \<and> ll_frame p (insert n (set xs)) w w'"
proof -
  obtain z where l: "dseg (ll_nodes w) z 0 xs 0" "lls w p = Some \<lparr>ll_n_size = z, ll_head = hd (xs @ [0]), ll_tail = last (0 # xs)\<rparr>"
    "distinct xs" "p \<noteq> 0"
    using assms(1) by (rule is_llE)
  have nz: "0 \<notin> set xs" using dseg_nonzero [OF l(1)] .
  have n: "ll_nodes w n = Some nd" "node_size nd = z" using ll_node_new [OF assms(4) l(2)] by simp_all
  show ?thesis
  proof (cases xs rule: rev_cases)
    case Nil
    then show ?thesis
      using n l nz assms(2,3) by (auto simp: end_pos link_tail_def ll_op_defs is_ll_def ll_frame_def split: if_splits)
  next
    case (snoc ys x)
    then show ?thesis
      using n l nz assms(2,3) by (auto simp: end_pos link_tail_def ll_op_defs is_ll_def ll_frame_def dseg_append hd_append split: if_splits)
  qed
qed

lemma remove_ok:
  assumes "is_ll p (as @ x # bs) w"
  shows "\<exists>w'. lv_ll_remove p x w = Some w' \<and> is_ll p (as @ bs) w' \<and> ll_frame p (set (as @ x # bs)) w w' \<and>
    ll_nodes w' x = ll_nodes w x \<and> ll_node p x w' = ll_node p x w"
proof -
  have neq: "p \<noteq> 0" "x \<noteq> 0" using is_ll_props [OF assms] by auto
  show ?thesis
  proof (cases as rule: rev_cases)
    case Nil
    show ?thesis
    proof (cases bs)
      case Nil
      then show ?thesis using assms neq \<open>as = []\<close>
        by (auto simp: lv_ll_remove_def ll_op_defs is_ll_def ll_frame_def split: if_splits)
    next
      case (Cons b bs')
      then show ?thesis using assms neq \<open>as = []\<close>
        by (auto simp: lv_ll_remove_def ll_op_defs is_ll_def ll_frame_def split: if_splits)
    qed
  next
    case (snoc as' a)
    show ?thesis
    proof (cases bs)
      case Nil
      then show ?thesis using assms neq snoc
        by (auto simp: lv_ll_remove_def ll_op_defs is_ll_def ll_frame_def dseg_append hd_append split: if_splits)
    next
      case (Cons b bs')
      then have "hd (as' @ [a]) \<noteq> x" "last (b # bs') \<noteq> x"
        using is_ll_props [OF assms] snoc by (auto simp: hd_append split: if_splits)
      then show ?thesis using assms neq snoc Cons
        by (auto simp: lv_ll_remove_def ll_op_defs is_ll_def ll_frame_def dseg_append hd_append split: if_splits)
    qed
  qed
qed

lemma link_between_ok:
  assumes "is_ll p (as @ bs) w" "n \<noteq> 0" "n \<notin> set (as @ bs)" "ll_node p n w = Some nd"
  shows "\<exists>w' z. link_between p (last (0 # as)) n (hd (bs @ [0])) w = Some w' \<and> ll_frame p (insert n (set (as @ bs))) w w' \<and>
    lls w' = lls w \<and> dseg (ll_nodes w') z 0 (as @ n # bs) 0 \<and>
    lls w p = Some \<lparr>ll_n_size = z, ll_head = hd (as @ bs @ [0]), ll_tail = last (0 # as @ bs)\<rparr>"
proof -
  obtain z where l: "dseg (ll_nodes w) z 0 (as @ bs) 0" "lls w p = Some \<lparr>ll_n_size = z, ll_head = hd ((as @ bs) @ [0]), ll_tail = last (0 # (as @ bs))\<rparr>"
    "distinct (as @ bs)" "p \<noteq> 0"
    using assms(1) by (rule is_llE)
  have nz: "0 \<notin> set (as @ bs)" using dseg_nonzero [OF l(1)] .
  have n: "ll_nodes w n = Some nd" "node_size nd = z" using ll_node_new [OF assms(4) l(2)] by simp_all
  show ?thesis
  proof (cases as rule: rev_cases)
    case Nil
    then show ?thesis
      using n l assms(2,3) by (cases bs) (auto simp: link_between_def ll_op_defs is_ll_def ll_frame_def split: if_splits)
  next
    case (snoc as' a)
    then show ?thesis
      using n l assms(2,3) by (cases bs) (auto simp: link_between_def ll_op_defs is_ll_def ll_frame_def dseg_append hd_append split: if_splits)
  qed
qed

section \<open>New nodes\<close>

definition node_call :: "ptr \<Rightarrow> 'a ll_world_scheme \<Rightarrow> call" where
  "node_call p w = MEM (Malloc ((case lls w p of None \<Rightarrow> 0 | Some l \<Rightarrow> unat (ll_n_size l)) + LL_NODE_META_SIZE) 0)"

text \<open>The address \<^verbatim>\<open>malloc\<close> gives a new node of a list; \<open>0\<close> when there is no memory.\<close>

definition new_node :: "ptr \<Rightarrow> 'a ll_world_scheme \<Rightarrow> ptr" where
  "new_node p w = handle (ret (reply_to w (node_call p w)))"

lemma is_ll_after [simp]: "is_ll p xs (after w c) = is_ll p xs w" "ll_node p n (after w c) = ll_node p n w"
  by (simp_all add: is_ll_def ll_node_def)

lemma node_alloc_eq:
  "lls w p = Some l \<Longrightarrow> lv_ll_node_alloc p w = Some (new_node p w, if new_node p w = 0 then after w (node_call p w)
     else (after w (node_call p w))\<lparr>ll_nodes := (ll_nodes w)(new_node p w \<mapsto> \<lparr>node_size = ll_n_size l, node_prev = 0, node_next = 0\<rparr>)\<rparr>)"
  by (simp add: lv_ll_node_alloc_def lv_mem_alloc_def io_simps node_call_def new_node_def)

lemma node_alloc_ok:
  assumes "is_ll p xs w" "new_node p w \<noteq> 0" "ll_nodes w (new_node p w) = None"
  shows "\<exists>w1 nd. lv_ll_node_alloc p w = Some (new_node p w, w1) \<and> is_ll p xs w1 \<and> ll_node p (new_node p w) w1 = Some nd \<and>
    ll_frame p {new_node p w} (after w (node_call p w)) w1 \<and> new_node p w \<notin> set xs"
proof -
  obtain z where l: "dseg (ll_nodes w) z 0 xs 0" "lls w p = Some \<lparr>ll_n_size = z, ll_head = hd (xs @ [0]), ll_tail = last (0 # xs)\<rparr>"
    "distinct xs" "p \<noteq> 0"
    using assms(1) by (rule is_llE)
  have "new_node p w \<notin> set xs" using assms(3) is_ll_in [OF assms(1)] by blast
  then show ?thesis
    using node_alloc_eq [OF l(2)] l assms(2) by (simp add: is_ll_def ll_node_def ll_frame_def)
qed

lemma ins_head_ok:
  assumes "is_ll p xs w" "new_node p w \<noteq> 0" "ll_nodes w (new_node p w) = None"
  shows "\<exists>w'. lv_ll_ins_head p w = Some (new_node p w, w') \<and> is_ll p (new_node p w # xs) w' \<and>
    ll_frame p (insert (new_node p w) (set xs)) (after w (node_call p w)) w'"
proof -
  obtain w1 nd where a: "lv_ll_node_alloc p w = Some (new_node p w, w1)" "is_ll p xs w1" "ll_node p (new_node p w) w1 = Some nd"
    "ll_frame p {new_node p w} (after w (node_call p w)) w1" "new_node p w \<notin> set xs"
    using node_alloc_ok [OF assms] by blast
  obtain w' where l: "link_head p (new_node p w) w1 = Some w'" "is_ll p (new_node p w # xs) w'" "ll_frame p (insert (new_node p w) (set xs)) w1 w'"
    using link_head_ok [OF a(2) assms(2) a(5,3)] by blast
  have "ll_frame p (insert (new_node p w) (set xs)) (after w (node_call p w)) w'"
    by (rule ll_frame_trans [OF ll_frame_mono [OF a(4)] l(3)]) simp
  then show ?thesis using a(1) l(1,2) assms(2) by (simp add: lv_ll_ins_head_def)
qed

lemma ins_tail_ok:
  assumes "is_ll p xs w" "new_node p w \<noteq> 0" "ll_nodes w (new_node p w) = None"
  shows "\<exists>w'. lv_ll_ins_tail p w = Some (new_node p w, w') \<and> is_ll p (xs @ [new_node p w]) w' \<and>
    ll_frame p (insert (new_node p w) (set xs)) (after w (node_call p w)) w'"
proof -
  obtain w1 nd where a: "lv_ll_node_alloc p w = Some (new_node p w, w1)" "is_ll p xs w1" "ll_node p (new_node p w) w1 = Some nd"
    "ll_frame p {new_node p w} (after w (node_call p w)) w1" "new_node p w \<notin> set xs"
    using node_alloc_ok [OF assms] by blast
  obtain w' where l: "link_tail p (new_node p w) w1 = Some w'" "is_ll p (xs @ [new_node p w]) w'" "ll_frame p (insert (new_node p w) (set xs)) w1 w'"
    using link_tail_ok [OF a(2) assms(2) a(5,3)] by blast
  have "ll_frame p (insert (new_node p w) (set xs)) (after w (node_call p w)) w'"
    by (rule ll_frame_trans [OF ll_frame_mono [OF a(4)] l(3)]) simp
  then show ?thesis using a(1) l(1,2) assms(2) by (simp add: lv_ll_ins_tail_def)
qed

lemma ins_no_memory:
  assumes "is_ll p xs w" "new_node p w = 0"
  shows "lv_ll_ins_head p w = Some (0, after w (node_call p w))" "lv_ll_ins_tail p w = Some (0, after w (node_call p w))"
proof -
  obtain l where "lls w p = Some l" using assms(1) by (auto simp: is_ll_def)
  from node_alloc_eq [OF this] assms(2)
  show "lv_ll_ins_head p w = Some (0, after w (node_call p w))" "lv_ll_ins_tail p w = Some (0, after w (node_call p w))"
    by (simp_all add: lv_ll_ins_head_def lv_ll_ins_tail_def)
qed

lemma ins_prev_ok:
  assumes "is_ll p (as @ x # bs) w" "new_node p w \<noteq> 0" "ll_nodes w (new_node p w) = None"
  shows "\<exists>w'. lv_ll_ins_prev p x w = Some (new_node p w, w') \<and> is_ll p (as @ new_node p w # x # bs) w' \<and>
    ll_frame p (insert (new_node p w) (set (as @ x # bs))) (after w (node_call p w)) w'"
proof (cases "as = []")
  case True
  then have "lv_ll_ins_prev p x w = lv_ll_ins_head p w"
    using is_ll_ends [OF assms(1)] is_ll_props [OF assms(1)] by (simp add: lv_ll_ins_prev_def)
  then show ?thesis using ins_head_ok [OF assms] True by simp
next
  case False
  let ?n = "new_node p w"
  obtain w1 nd where a: "lv_ll_node_alloc p w = Some (?n, w1)" "is_ll p (as @ x # bs) w1" "ll_node p ?n w1 = Some nd"
    "ll_frame p {?n} (after w (node_call p w)) w1" "?n \<notin> set (as @ x # bs)"
    using node_alloc_ok [OF assms] by blast
  obtain w' z where l: "link_between p (last (0 # as)) ?n (hd ((x # bs) @ [0])) w1 = Some w'" "ll_frame p (insert ?n (set (as @ x # bs))) w1 w'"
    "lls w' = lls w1" "dseg (ll_nodes w') z 0 (as @ ?n # x # bs) 0"
    "lls w1 p = Some \<lparr>ll_n_size = z, ll_head = hd (as @ (x # bs) @ [0]), ll_tail = last (0 # as @ x # bs)\<rparr>"
    using link_between_ok [OF a(2) assms(2) a(5,3)] by blast
  have "hd (as @ x # bs @ [0]) \<noteq> x" using False is_ll_props [OF assms(1)] by (auto simp: hd_append)
  then have "lv_ll_ins_prev p x w = Some (?n, w')"
    using is_ll_ends [OF assms(1)] is_ll_props [OF assms(1)] a(1) assms(2) is_ll_node [OF a(2)] l(1)
    by (simp add: lv_ll_ins_prev_def)
  moreover have "is_ll p (as @ ?n # x # bs) w'"
    using l False is_ll_props [OF a(2)] a(5) by (simp add: is_ll_def hd_append)
  moreover have "ll_frame p (insert ?n (set (as @ x # bs))) (after w (node_call p w)) w'"
    by (rule ll_frame_trans [OF ll_frame_mono [OF a(4)] l(2)]) simp
  ultimately show ?thesis by blast
qed

section \<open>Moving, clearing, counting\<close>

definition ins_before :: "ptr \<Rightarrow> ptr \<Rightarrow> ptr list \<Rightarrow> ptr list" where
  "ins_before a n xs = takeWhile (\<lambda>x. x \<noteq> a) xs @ n # dropWhile (\<lambda>x. x \<noteq> a) xs"

lemma ins_before_split: "a \<notin> set as \<Longrightarrow> bs = [] \<or> hd bs = a \<Longrightarrow> ins_before a n (as @ bs) = as @ n # bs"
  by (induction as) (cases bs; auto simp: ins_before_def)+

lemma set_ll_sel [simp]: "lls (set_ll p l w) = (lls w)(p \<mapsto> l)" "ll_nodes (set_ll p l w) = ll_nodes w"
  by (simp_all add: set_ll_def)

lemma ll_frame_set: "ll_frame p S w w1 \<Longrightarrow> ll_frame p S w (set_ll p l w1)"
  by (cases w; cases w1) (auto simp: ll_frame_def set_ll_def)

lemma link_ends:
  assumes "is_ll p (as @ bs) w" "n \<noteq> 0" "n \<notin> set (as @ bs)" "ll_node p n w = Some nd"
  shows "\<exists>w'. do { w \<leftarrow> link_between p (last (0 # as)) n (hd (bs @ [0])) w;
      w \<leftarrow> (if hd (bs @ [0]) = 0 then set_tail p n w else Some w);
      if last (0 # as) = 0 then set_head p n w else Some w } = Some w' \<and>
    is_ll p (as @ n # bs) w' \<and> ll_frame p (insert n (set (as @ bs))) w w'"
proof -
  obtain w1 z where l: "link_between p (last (0 # as)) n (hd (bs @ [0])) w = Some w1" "ll_frame p (insert n (set (as @ bs))) w w1"
    "lls w1 = lls w" "dseg (ll_nodes w1) z 0 (as @ n # bs) 0"
    "lls w p = Some \<lparr>ll_n_size = z, ll_head = hd (as @ bs @ [0]), ll_tail = last (0 # as @ bs)\<rparr>"
    using link_between_ok [OF assms] by blast
  have ps: "distinct (as @ bs)" "0 \<notin> set (as @ bs)" "p \<noteq> 0" using is_ll_props [OF assms(1)] by auto
  then have ends: "as \<noteq> [] \<Longrightarrow> 0 < last as" "bs \<noteq> [] \<Longrightarrow> 0 < hd bs"
    using end_pos [of as] end_pos [of bs] by auto
  show ?thesis
    using l ps ends assms(3)
    by (cases "as = []"; cases "bs = []") (auto simp: set_head_def set_tail_def is_ll_def ll_frame_set hd_append)
qed

lemma move_before_ok:
  assumes "is_ll p xs w" "x \<in> set xs" "a = 0 \<or> a \<in> set xs" "x \<noteq> a"
  shows "\<exists>w'. lv_ll_move_before p x a w = Some w' \<and> is_ll p (ins_before a x (remove1 x xs)) w' \<and> ll_frame p (set xs) w w'"
proof -
  define cs ds where "cs = takeWhile (\<lambda>y. y \<noteq> a) xs" and "ds = dropWhile (\<lambda>y. y \<noteq> a) xs"
  have xs: "xs = cs @ ds" by (simp add: cs_def ds_def)
  have ps: "distinct (cs @ ds)" "0 \<notin> set (cs @ ds)" "p \<noteq> 0" using is_ll_props [OF assms(1)] by (auto simp: xs)
  have a_cs: "a \<notin> set cs" using set_takeWhileD [of a "\<lambda>y. y \<noteq> a" xs] by (auto simp: cs_def)
  have a_ds: "ds = [] \<or> hd ds = a" using hd_dropWhile [of "\<lambda>y. y \<noteq> a" xs] by (auto simp: ds_def)
  have "hd (ds @ [0]) = a" using a_ds a_cs assms(3) by (auto simp: xs hd_append)
  then have before: "(if a \<noteq> 0 then lv_ll_get_prev p a w else lv_ll_get_tail p w) = Some (last (0 # cs))"
    using is_ll_node [of p cs a "tl ds" w] is_ll_ends [OF assms(1)] assms(1) ps(2) by (cases ds) (auto simp: xs)
  show ?thesis
  proof (cases "x = last (0 # cs)")
    case True
    then obtain cs' where cs: "cs = cs' @ [x]" using assms(2) ps(2) by (cases cs rule: rev_cases) (auto simp: xs)
    then have "remove1 x xs = cs' @ ds" using ps(1) by (simp add: xs remove1_append)
    then have "ins_before a x (remove1 x xs) = xs" using ins_before_split [of a cs' ds x] a_cs a_ds by (simp add: xs cs)
    then show ?thesis using True before assms(1,4) by (simp add: lv_ll_move_before_def)
  next
    case False
    have split: "\<exists>cs' ds'. remove1 x xs = cs' @ ds' \<and> last (0 # cs') = last (0 # cs) \<and> hd (ds' @ [0]) = hd (ds @ [0]) \<and>
      a \<notin> set cs' \<and> (ds' = [] \<or> hd ds' = a)"
    proof (cases "x \<in> set cs")
      case True
      then obtain u v where uv: "cs = u @ x # v" by (auto simp: in_set_conv_decomp)
      then have "v \<noteq> []" using False by auto
      then show ?thesis using uv ps(1) a_cs a_ds by (intro exI [of _ "u @ v"] exI [of _ ds]) (auto simp: xs remove1_append)
    next
      case out: False
      then have "x \<in> set ds" using assms(2) by (simp add: xs)
      moreover have "hd ds \<noteq> x" using a_ds assms(4) \<open>x \<in> set ds\<close> by auto
      ultimately show ?thesis using out a_cs a_ds
        by (intro exI [of _ cs] exI [of _ "remove1 x ds"]) (cases ds; auto simp: xs remove1_append)
    qed
    then obtain cs' ds' where r: "remove1 x xs = cs' @ ds'" "last (0 # cs') = last (0 # cs)" "hd (ds' @ [0]) = hd (ds @ [0])"
      "a \<notin> set cs'" "ds' = [] \<or> hd ds' = a" by blast
    obtain as bs where ab: "xs = as @ x # bs" using assms(2) by (auto simp: in_set_conv_decomp)
    then have "remove1 x xs = as @ bs" using ps(1) xs by (auto simp: remove1_append)
    then obtain w1 where w1: "lv_ll_remove p x w = Some w1" "is_ll p (cs' @ ds') w1" "ll_frame p (set xs) w w1" "ll_node p x w1 = ll_node p x w"
      using remove_ok [of p as x bs w] assms(1) r(1) by (auto simp: ab)
    obtain nd where nd: "ll_node p x w1 = Some nd" using w1(4) is_ll_node [of p as x bs w] assms(1) by (auto simp: ab)
    have x: "x \<noteq> 0" "x \<notin> set (cs' @ ds')" "set (cs' @ ds') \<subseteq> set xs"
    proof -
      have "set (cs' @ ds') = set xs - {x}" using set_remove1_eq [OF ps(1) [folded xs]] r(1) by metis
      then show "x \<notin> set (cs' @ ds')" "set (cs' @ ds') \<subseteq> set xs" by auto
      show "x \<noteq> 0" using assms(2) ps(2) xs by metis
    qed
    obtain w2 where w2: "do { w \<leftarrow> link_between p (last (0 # cs')) x (hd (ds' @ [0])) w1;
        w \<leftarrow> (if hd (ds' @ [0]) = 0 then set_tail p x w else Some w);
        if last (0 # cs') = 0 then set_head p x w else Some w } = Some w2"
      "is_ll p (cs' @ x # ds') w2" "ll_frame p (insert x (set (cs' @ ds'))) w1 w2"
      using link_ends [OF w1(2) x(1,2) nd] by blast
    have "lv_ll_move_before p x a w = Some w2"
      using w2(1) w1(1) before False assms(4) r(2,3) \<open>hd (ds @ [0]) = a\<close> by (simp add: lv_ll_move_before_def)
    moreover have "ll_frame p (set xs) w w2"
      by (rule ll_frame_trans [OF w1(3) ll_frame_mono [OF w2(3)]]) (use x(3) assms(2) in auto)
    ultimately show ?thesis using w2(2) ins_before_split [OF r(4,5)] by (simp add: r(1))
  qed
qed

lemma chg_list_ok:
  assumes "is_ll p (as @ x # bs) w" "is_ll q ys w" "p \<noteq> q" "set (as @ x # bs) \<inter> set ys = {}" "ll_node q x w = Some nd"
  shows "\<exists>w'. lv_ll_chg_list p q x head w = Some w' \<and> is_ll p (as @ bs) w' \<and> is_ll q (if head then x # ys else ys @ [x]) w'"
proof -
  obtain w1 where w1: "lv_ll_remove p x w = Some w1" "is_ll p (as @ bs) w1" "ll_frame p (set (as @ x # bs)) w w1"
    "ll_nodes w1 x = ll_nodes w x"
    using remove_ok [OF assms(1)] by blast
  have q: "is_ll q ys w1" by (rule is_ll_frame [OF w1(3) assms(2)]) (use assms(3,4) in auto)
  have nd: "ll_node q x w1 = Some nd" using assms(3,5) w1(3,4) by (auto simp: ll_node_def ll_frame_def)
  have x: "x \<noteq> 0" "x \<notin> set ys" "x \<notin> set (as @ bs)" using is_ll_props [OF assms(1)] assms(4) by auto
  obtain w2 where w2: "(if head then link_head q x w1 else link_tail q x w1) = Some w2" "is_ll q (if head then x # ys else ys @ [x]) w2"
    "ll_frame q (insert x (set ys)) w1 w2"
    using link_head_ok [OF q x(1,2) nd] link_tail_ok [OF q x(1,2) nd] by (cases head) auto
  have "is_ll p (as @ bs) w2" by (rule is_ll_frame [OF w2(3) w1(2) assms(3)]) (use x(3) assms(4) in auto)
  then show ?thesis using w1(1) w2(1,2) by (auto simp: lv_ll_chg_list_def)
qed

lemma len_loop_eq:
  "is_ll p (as @ bs) w \<Longrightarrow> len_loop p (hd (bs @ [0])) n w = Some (n + of_nat (length bs))"
proof (induction bs arbitrary: as n)
  case (Cons b bs)
  have "b \<noteq> 0" using is_ll_props [OF Cons.prems] by auto
  then have "len_loop p b n w = len_loop p (hd (bs @ [0])) (n + 1) w"
    using is_ll_node [OF Cons.prems] by (subst len_loop.simps) simp
  then show ?case using Cons.IH [of "as @ [b]" "n + 1"] Cons.prems by (simp add: ac_simps)
qed (simp add: len_loop.simps)

lemma lv_ll_get_len_eq: "is_ll p xs w \<Longrightarrow> lv_ll_get_len p w = Some (of_nat (length xs))"
  using len_loop_eq [of p "[]" xs w 0] is_ll_ends [of p xs w] by (simp add: lv_ll_get_len_def)

lemma ll_free_sel [simp]: "lls (ll_free n w) = lls w" "ll_nodes (ll_free n w) = (ll_nodes w)(n := None)"
  by (simp_all add: ll_free_def lv_mem_free_def io_simps)

lemma ll_free_log: "n \<noteq> 0 \<Longrightarrow> \<exists>r. world.log (ll_free n w) = world.log w @ [(MEM (Free n), r)]"
  by (simp add: ll_free_def lv_mem_free_def io_simps)

lemma ll_frame_log: "ll_frame p S w w' \<Longrightarrow> world.log w' = world.log w"
  by (cases w; cases w') (simp add: ll_frame_def)

lemma clear_loop_ok:
  "is_ll p xs w \<Longrightarrow> \<exists>w' evs. clear_loop p (hd (xs @ [0])) w = Some w' \<and> is_ll p [] w' \<and> world.log w' = world.log w @ evs \<and>
     frees evs = xs \<and> allocs evs = [] \<and> (\<forall>x \<in> set xs. ll_nodes w' x = None) \<and>
     (\<forall>q. q \<noteq> p \<longrightarrow> lls w' q = lls w q) \<and> (\<forall>x. x \<notin> set xs \<longrightarrow> ll_nodes w' x = ll_nodes w x)"
proof (induction xs arbitrary: w)
  case Nil
  then show ?case by (auto simp: clear_loop.simps)
next
  case (Cons x xs)
  have x: "x \<noteq> 0" "x \<notin> set xs" using is_ll_props [OF Cons.prems] by auto
  obtain w1 where w1: "lv_ll_remove p x w = Some w1" "is_ll p xs w1" "ll_frame p (set (x # xs)) w w1"
    using remove_ok [of p "[]" x xs w] Cons.prems by auto
  have "is_ll p xs (ll_free x w1)" using w1(2) x(2) by (simp add: is_ll_def)
  then obtain w' evs where w': "clear_loop p (hd (xs @ [0])) (ll_free x w1) = Some w'" "is_ll p [] w'"
    "world.log w' = world.log (ll_free x w1) @ evs" "frees evs = xs" "allocs evs = []" "\<forall>x \<in> set xs. ll_nodes w' x = None"
    "\<forall>q. q \<noteq> p \<longrightarrow> lls w' q = lls w1 q" "\<forall>y. y \<notin> set xs \<longrightarrow> ll_nodes w' y = ((ll_nodes w1)(x := None)) y"
    using Cons.IH by (metis ll_free_sel)
  obtain r where r: "world.log (ll_free x w1) = world.log w @ [(MEM (Free x), r)]"
    using ll_free_log [OF x(1), of w1] ll_frame_log [OF w1(3)] by auto
  have "clear_loop p x w = Some w'"
    using w'(1) w1(1) x(1) is_ll_node [of p "[]" x xs w] Cons.prems by (subst clear_loop.simps) simp
  moreover have "\<forall>q. q \<noteq> p \<longrightarrow> lls w' q = lls w q" "\<forall>y. y \<notin> set (x # xs) \<longrightarrow> ll_nodes w' y = ll_nodes w y"
    using w'(7,8) w1(3) by (simp_all add: ll_frame_def)
  moreover have "ll_nodes w' x = None" using w'(8) x(2) by simp
  ultimately show ?case
    using w'(2-6) r by (intro exI [of _ w'] exI [of _ "(MEM (Free x), r) # evs"]) auto
qed

section \<open>The contract of a list\<close>

text \<open>
  What a client that keeps its objects in a list relies on (LVGL's timers do): it can visit the nodes in order, put a new one in
  front, and take any node out, all without touching a node that is not there.  \<open>fresh\<close> is the address the next
  node gets; the heap does not give out a block that is in use.
\<close>

locale linked_list =
  fixes get_head :: "'s \<Rightarrow> ptr option"
    and get_next :: "ptr \<Rightarrow> 's \<Rightarrow> ptr option"
    and ins_head :: "'s \<Rightarrow> (ptr \<times> 's) option"
    and remove :: "ptr \<Rightarrow> 's \<Rightarrow> 's option"
    and fresh :: "'s \<Rightarrow> ptr"
    and in_use :: "ptr \<Rightarrow> 's \<Rightarrow> bool"
    and lst :: "ptr list \<Rightarrow> 's \<Rightarrow> bool"
  assumes lst_head: "lst xs s \<Longrightarrow> get_head s = Some (hd (xs @ [0]))"
    and lst_next: "lst (as @ x # bs) s \<Longrightarrow> get_next x s = Some (hd (bs @ [0]))"
    and lst_ins: "lst xs s \<Longrightarrow> fresh s = 0 \<or> \<not> in_use (fresh s) s \<Longrightarrow>
      \<exists>s'. ins_head s = Some (fresh s, s') \<and> lst (if fresh s = 0 then xs else fresh s # xs) s'"
    and lst_remove: "lst (as @ x # bs) s \<Longrightarrow> \<exists>s'. remove x s = Some s' \<and> lst (as @ bs) s'"
    and lst_distinct: "lst xs s \<Longrightarrow> distinct xs \<and> 0 \<notin> set xs"
begin

lemma head_in: "lst xs s \<Longrightarrow> \<exists>h. get_head s = Some h \<and> (h = 0 \<and> xs = [] \<or> h \<noteq> 0 \<and> h \<in> set xs)"
  using lst_head [of xs s] lst_distinct [of xs s] by (cases xs) auto

lemma next_in: "lst xs s \<Longrightarrow> x \<in> set xs \<Longrightarrow> \<exists>n. get_next x s = Some n \<and> (n = 0 \<or> n \<in> set xs)"
proof -
  assume l: "lst xs s" and "x \<in> set xs"
  then obtain as bs where "xs = as @ x # bs" by (auto simp: in_set_conv_decomp)
  then show ?thesis using lst_next [of as x bs s] l by (cases bs) auto
qed

lemma remove_in: "lst xs s \<Longrightarrow> x \<in> set xs \<Longrightarrow> \<exists>s'. remove x s = Some s' \<and> lst (remove1 x xs) s'"
proof -
  assume l: "lst xs s" and "x \<in> set xs"
  then obtain as bs where xs: "xs = as @ x # bs" by (auto simp: in_set_conv_decomp)
  then have "remove1 x xs = as @ bs" using lst_distinct [OF l] by (simp add: remove1_append)
  then show ?thesis using lst_remove [of as x bs s] l xs by simp
qed

end

interpretation ll: linked_list "lv_ll_get_head p" "lv_ll_get_next p" "lv_ll_ins_head p" "lv_ll_remove p" "new_node p"
  "\<lambda>n w. ll_nodes w n \<noteq> None" "is_ll p" for p
proof unfold_locales
  fix xs and s :: "'a ll_world_scheme" assume l: "is_ll p xs s"
  show "lv_ll_get_head p s = Some (hd (xs @ [0]))" using is_ll_ends [OF l] by simp
  show "distinct xs \<and> 0 \<notin> set xs" using is_ll_props [OF l] by simp
  assume "new_node p s = 0 \<or> \<not> ll_nodes s (new_node p s) \<noteq> None"
  then show "\<exists>s'. lv_ll_ins_head p s = Some (new_node p s, s') \<and> is_ll p (if new_node p s = 0 then xs else new_node p s # xs) s'"
    using ins_head_ok [OF l] ins_no_memory(1) [OF l] l by (cases "new_node p s = 0") auto
next
  fix as x bs and s :: "'a ll_world_scheme" assume l: "is_ll p (as @ x # bs) s"
  show "lv_ll_get_next p x s = Some (hd (bs @ [0]))" using is_ll_node [OF l] by simp
  show "\<exists>s'. lv_ll_remove p x s = Some s' \<and> is_ll p (as @ bs) s'" using remove_ok [OF l] by blast
qed

section \<open>Properties\<close>

lemma ins_prev_in:
  assumes "is_ll p xs w" "x \<in> set xs" "new_node p w \<noteq> 0" "ll_nodes w (new_node p w) = None"
  shows "\<exists>w'. lv_ll_ins_prev p x w = Some (new_node p w, w') \<and> is_ll p (ins_before x (new_node p w) xs) w' \<and>
    ll_frame p (insert (new_node p w) (set xs)) (after w (node_call p w)) w'"
proof -
  obtain as bs where xs: "xs = as @ x # bs" "x \<notin> set as" using assms(2) split_list_first by metis
  then have "ins_before x (new_node p w) xs = as @ new_node p w # x # bs" by (simp add: ins_before_split)
  then show ?thesis using ins_prev_ok [of p as x bs w] assms(1,3,4) by (simp add: xs(1))
qed

lemma remove_in_frame:
  assumes "is_ll p xs w" "x \<in> set xs"
  shows "\<exists>w'. lv_ll_remove p x w = Some w' \<and> is_ll p (remove1 x xs) w' \<and> ll_frame p (set xs) w w'"
proof -
  obtain as bs where xs: "xs = as @ x # bs" using assms(2) by (auto simp: in_set_conv_decomp)
  then have "remove1 x xs = as @ bs" using is_ll_props [OF assms(1)] by (simp add: remove1_append)
  then show ?thesis using remove_ok [of p as x bs w] assms(1) xs by auto
qed

text \<open>
  C10. LVGL's doubly linked lists implement lists: on a well-formed list every operation returns without touching memory that is
  not a node of it, and leaves a well-formed list with the expected nodes in the expected order - a new node in
  front, at the end or before a node, a node taken out, a node moved before another one or to the end, or to another
  list; every other list in memory keeps its nodes.
\<close>

theorem lv_ll_refines_list:
  assumes "is_ll p xs w" "is_ll q ys w" "p \<noteq> q" "set xs \<inter> set ys = {}" "x \<in> set xs" "a = 0 \<or> a \<in> set xs"
    and "new_node p w \<noteq> 0" "ll_nodes w (new_node p w) = None" "ll_node q x w \<noteq> None"
  shows "(\<exists>w'. lv_ll_ins_head p w = Some (new_node p w, w') \<and> is_ll p (new_node p w # xs) w' \<and> is_ll q ys w') \<and>
    (\<exists>w'. lv_ll_ins_tail p w = Some (new_node p w, w') \<and> is_ll p (xs @ [new_node p w]) w' \<and> is_ll q ys w') \<and>
    (\<exists>w'. lv_ll_ins_prev p x w = Some (new_node p w, w') \<and> is_ll p (ins_before x (new_node p w) xs) w' \<and> is_ll q ys w') \<and>
    (\<exists>w'. lv_ll_remove p x w = Some w' \<and> is_ll p (remove1 x xs) w' \<and> is_ll q ys w') \<and>
    (\<exists>w'. lv_ll_move_before p x a w = Some w' \<and> is_ll p (if x = a then xs else ins_before a x (remove1 x xs)) w' \<and> is_ll q ys w') \<and>
    (\<exists>w'. lv_ll_chg_list p q x head w = Some w' \<and> is_ll p (remove1 x xs) w' \<and> is_ll q (if head then x # ys else ys @ [x]) w') \<and>
    lv_ll_get_len p w = Some (of_nat (length xs))"
proof -
  have fresh: "new_node p w \<notin> set ys" using is_ll_in [OF assms(2)] assms(8) by blast
  have keep: "is_ll q ys w'" if "ll_frame p (insert (new_node p w) (set xs)) (after w (node_call p w)) w'" for w'
    by (rule is_ll_frame [OF that]) (use assms(2-4) fresh in auto)
  have keep': "is_ll q ys w'" if "ll_frame p (set xs) w w'" for w'
    by (rule is_ll_frame [OF that assms(2)]) (use assms(3,4) in auto)
  note ins_head_ok [OF assms(1,7,8)] ins_tail_ok [OF assms(1,7,8)] ins_prev_in [OF assms(1,5,7,8)] remove_in_frame [OF assms(1,5)]
  moreover have "\<exists>w'. lv_ll_move_before p x a w = Some w' \<and> is_ll p (if x = a then xs else ins_before a x (remove1 x xs)) w' \<and> ll_frame p (set xs) w w'"
    using move_before_ok [OF assms(1,5,6)] assms(1) by (cases "x = a") (simp_all add: lv_ll_move_before_def)
  moreover have "\<exists>w'. lv_ll_chg_list p q x head w = Some w' \<and> is_ll p (remove1 x xs) w' \<and> is_ll q (if head then x # ys else ys @ [x]) w'"
  proof -
    obtain as bs where xs: "xs = as @ x # bs" using assms(5) by (auto simp: in_set_conv_decomp)
    then have "remove1 x xs = as @ bs" using is_ll_props [OF assms(1)] by (simp add: remove1_append)
    then show ?thesis using chg_list_ok [of p as x bs w q ys _ head] assms(1-4,9) xs by auto
  qed
  ultimately show ?thesis using keep keep' lv_ll_get_len_eq [OF assms(1)] by blast
qed

text \<open>Two lists of 16-byte nodes, of three nodes and of one; \<^verbatim>\<open>malloc\<close> gives block \<open>50\<close>.\<close>

definition two_lists :: ll_world where
  "two_lists = \<lparr>wenv = \<lambda>h c. answer 50, log = [], i2c_obj = Map.empty,
     lls = [4 \<mapsto> \<lparr>ll_n_size = 16, ll_head = 10, ll_tail = 30\<rparr>, 6 \<mapsto> \<lparr>ll_n_size = 16, ll_head = 40, ll_tail = 40\<rparr>],
     ll_nodes = [10 \<mapsto> \<lparr>node_size = 16, node_prev = 0, node_next = 20\<rparr>, 20 \<mapsto> \<lparr>node_size = 16, node_prev = 10, node_next = 30\<rparr>,
       30 \<mapsto> \<lparr>node_size = 16, node_prev = 20, node_next = 0\<rparr>, 40 \<mapsto> \<lparr>node_size = 16, node_prev = 0, node_next = 0\<rparr>]\<rparr>"

lemma two_lists_ok: "is_ll 4 [10, 20, 30] two_lists" "is_ll 6 [40] two_lists" "new_node 4 two_lists = 50"
  "ll_nodes two_lists 50 = None" "ll_node 6 20 two_lists \<noteq> None"
  by (simp_all add: is_ll_def ll_node_def two_lists_def new_node_def reply_to_def handle_def)

theorem lv_ll_refines_list_witness:
  "(\<exists>w'. lv_ll_ins_prev 4 20 two_lists = Some (50, w') \<and> is_ll 4 [10, 50, 20, 30] w' \<and> is_ll 6 [40] w') \<and>
   (\<exists>w'. lv_ll_move_before 4 20 0 two_lists = Some w' \<and> is_ll 4 [10, 30, 20] w') \<and> lv_ll_get_len 4 two_lists = Some 3"
  using lv_ll_refines_list [OF two_lists_ok(1,2), of 20 0 True]
  by (auto simp: two_lists_ok(3-5) ins_before_def)

lemma clear_keeps:
  assumes "is_ll p xs w" "is_ll q ys w" "p \<noteq> q" "set xs \<inter> set ys = {}"
  shows "\<exists>w'. lv_ll_clear p w = Some w' \<and> is_ll p [] w' \<and> is_ll q ys w' \<and>
    frees (new_events w w') = xs \<and> allocs (new_events w w') = [] \<and> (\<forall>x \<in> set xs. ll_nodes w' x = None)"
proof -
  obtain w' evs where w': "clear_loop p (hd (xs @ [0])) w = Some w'" "is_ll p [] w'" "world.log w' = world.log w @ evs"
    "frees evs = xs" "allocs evs = []" "\<forall>x \<in> set xs. ll_nodes w' x = None" "\<forall>q. q \<noteq> p \<longrightarrow> lls w' q = lls w q"
    "\<forall>x. x \<notin> set xs \<longrightarrow> ll_nodes w' x = ll_nodes w x"
    using clear_loop_ok [OF assms(1)] by blast
  have "\<And>y. y \<in> set ys \<Longrightarrow> ll_nodes w' y = ll_nodes w y" using w'(8) assms(4) by blast
  then have "is_ll q ys w'" using assms(2,3) w'(7) dseg_cong [of ys "ll_nodes w'" "ll_nodes w"] unfolding is_ll_def by metis
  moreover have "new_events w w' = evs" using w'(3) by (simp add: new_events_def)
  moreover have "lv_ll_clear p w = Some w'" using w'(1) is_ll_ends [OF assms(1)] by (simp add: lv_ll_clear_def)
  ultimately show ?thesis using w'(2,4,5,6) by blast
qed

text \<open>
  C29. Clearing a list returns whatever its length, gives every node back to the heap exactly once, in order, and nothing else, and leaves
  an empty list; the nodes are gone from memory and other lists keep theirs.
\<close>

theorem lv_ll_clear_frees:
  assumes "is_ll p xs w" "is_ll q ys w" "p \<noteq> q" "set xs \<inter> set ys = {}"
  shows "\<exists>w'. lv_ll_clear p w = Some w' \<and> is_ll p [] w' \<and> lv_ll_is_empty p w' = Some True \<and> is_ll q ys w' \<and>
    frees (new_events w w') = xs \<and> allocs (new_events w w') = [] \<and> (\<forall>x \<in> set xs. ll_nodes w' x = None)"
proof -
  obtain w' where w': "lv_ll_clear p w = Some w'" "is_ll p [] w'" "is_ll q ys w'"
    "frees (new_events w w') = xs" "allocs (new_events w w') = []" "\<forall>x \<in> set xs. ll_nodes w' x = None"
    using clear_keeps [OF assms] by blast
  then have "lv_ll_is_empty p w' = Some True" by (auto simp: is_ll_def lv_ll_is_empty_def)
  with w' show ?thesis by blast
qed

theorem lv_ll_clear_frees_witness:
  "\<exists>w'. lv_ll_clear 4 two_lists = Some w' \<and> is_ll 6 [40] w' \<and> frees (new_events two_lists w') = [10, 20, 30]"
  using lv_ll_clear_frees [OF two_lists_ok(1,2)] by auto

end
