(* ===== verification/Lv_Timer.thy ===== *)
theory Lv_Timer
  imports Lv_Ll
begin

text \<open>
  LVGL's timers, managed_components/lvgl__lvgl/src/misc/lv_timer.c, and its tick, src/hal/lv_hal_tick.c: the handler the
  LVGL task calls runs every timer whose period has passed (the redrawing of a display is one of them) and tells when it
  wants to be called again.  The timers are nodes of one of LVGL's linked lists.  What a timer's callback does is a
  parameter; it may create, delete and change timers, itself included.
\<close>

section \<open>State\<close>

record lv_timer_t =
  tm_period :: u32
  last_run :: u32
  timer_cb :: ptr
  tm_user_data :: ptr
  repeat_count :: int
  paused :: bool

text \<open>
  The timers' nodes hold \<open>timers\<close>.  \<open>tick_before k\<close> is the time (in ms) that passes before the \<open>k\<close>-th reading of the clock.
\<close>

record timer_world = ll_world +
  timers :: "ptr \<Rightarrow> lv_timer_t option"
  lv_timer_run :: bool
  timer_deleted :: bool
  timer_created :: bool
  lv_timer_act :: ptr
  already_running :: bool
  run_cnt :: u32
  idle_last :: u8
  idle_period_start :: u32
  busy_time :: u32
  sys_time :: u32
  tick_before :: "nat \<Rightarrow> u32"
  tick_reads :: nat

definition lv_timer_ll :: ptr where "lv_timer_ll = 0x100"   \<comment> \<open>the descriptor \<^verbatim>\<open>_lv_timer_ll\<close>\<close>
definition sizeof_lv_timer_t :: u32 where "sizeof_lv_timer_t = 24"
definition DEF_PERIOD :: u32 where "DEF_PERIOD = 500"
definition IDLE_MEAS_PERIOD :: u32 where "IDLE_MEAS_PERIOD = 500"
definition LV_NO_TIMER_READY :: u32 where "LV_NO_TIMER_READY = 0xFFFFFFFF"

section \<open>The tick\<close>

definition lv_tick_inc :: "u32 \<Rightarrow> 'a timer_world_scheme \<Rightarrow> 'a timer_world_scheme" where
  "lv_tick_inc tick_period w = w\<lparr>sys_time := sys_time w + tick_period\<rparr>"

text \<open>Reading the clock again until no interrupt came between delivers the time after the interrupts.\<close>

definition lv_tick_get :: "'a timer_world_scheme \<Rightarrow> u32 \<times> 'a timer_world_scheme" where
  "lv_tick_get w = (let w = lv_tick_inc (tick_before w (tick_reads w)) w; w = w\<lparr>tick_reads := tick_reads w + 1\<rparr> in (sys_time w, w))"

definition lv_tick_elaps :: "u32 \<Rightarrow> 'a timer_world_scheme \<Rightarrow> u32 \<times> 'a timer_world_scheme" where
  "lv_tick_elaps prev_tick w =
    (let (act_time, w) = lv_tick_get w
     in (if act_time \<ge> prev_tick then act_time - prev_tick else 0xFFFFFFFF - prev_tick + 1 + act_time, w))"

section \<open>Timers\<close>

definition on_timer ::
  "ptr \<Rightarrow> (lv_timer_t \<Rightarrow> 'a timer_world_scheme \<Rightarrow> 'r option) \<Rightarrow> 'a timer_world_scheme \<Rightarrow> 'r option" where
  "on_timer t f w = (case timers w t of None \<Rightarrow> None | Some tm \<Rightarrow> f tm w)"

definition set_timer :: "ptr \<Rightarrow> lv_timer_t \<Rightarrow> 'a timer_world_scheme \<Rightarrow> 'a timer_world_scheme" where
  "set_timer t tm w = w\<lparr>timers := (timers w)(t \<mapsto> tm)\<rparr>"

definition upd_timer :: "ptr \<Rightarrow> (lv_timer_t \<Rightarrow> lv_timer_t) \<Rightarrow> 'a timer_world_scheme \<Rightarrow> 'a timer_world_scheme option" where
  "upd_timer t f w = on_timer t (\<lambda>tm w. Some (set_timer t (f tm) w)) w"

definition lv_timer_enable :: "bool \<Rightarrow> 'a timer_world_scheme \<Rightarrow> 'a timer_world_scheme" where
  "lv_timer_enable en w = w\<lparr>lv_timer_run := en\<rparr>"

definition lv_timer_core_init :: "'a timer_world_scheme \<Rightarrow> 'a timer_world_scheme" where
  "lv_timer_core_init w = lv_timer_enable True (lv_ll_init lv_timer_ll sizeof_lv_timer_t w)"

text \<open>Without memory the assertion \<^verbatim>\<open>LV_ASSERT_MALLOC\<close> halts.\<close>

definition lv_timer_create ::
  "ptr \<Rightarrow> u32 \<Rightarrow> ptr \<Rightarrow> 'a timer_world_scheme \<Rightarrow> (ptr \<times> 'a timer_world_scheme) option" where
  "lv_timer_create timer_xcb period user w = do {
     (new_timer, w) \<leftarrow> lv_ll_ins_head lv_timer_ll w;
     if new_timer = 0 then None
     else let (now, w) = lv_tick_get w;
              w = set_timer new_timer \<lparr>tm_period = period, last_run = now, timer_cb = timer_xcb, tm_user_data = user,
                                        repeat_count = - 1, paused = False\<rparr> w
     in Some (new_timer, w\<lparr>timer_created := True\<rparr>) }"

definition lv_timer_create_basic :: "'a timer_world_scheme \<Rightarrow> (ptr \<times> 'a timer_world_scheme) option" where
  "lv_timer_create_basic w = lv_timer_create 0 DEF_PERIOD 0 w"

definition lv_timer_set_cb :: "ptr \<Rightarrow> ptr \<Rightarrow> 'a timer_world_scheme \<Rightarrow> 'a timer_world_scheme option" where
  "lv_timer_set_cb t cb = upd_timer t (\<lambda>tm. tm\<lparr>timer_cb := cb\<rparr>)"

definition lv_timer_del :: "ptr \<Rightarrow> 'a timer_world_scheme \<Rightarrow> 'a timer_world_scheme option" where
  "lv_timer_del t w = do {
     w \<leftarrow> lv_ll_remove lv_timer_ll t w;
     let w = w\<lparr>timer_deleted := True\<rparr>;
     Some ((ll_free t w)\<lparr>timers := (timers w)(t := None)\<rparr>) }"

definition lv_timer_pause :: "ptr \<Rightarrow> 'a timer_world_scheme \<Rightarrow> 'a timer_world_scheme option" where
  "lv_timer_pause t = upd_timer t (\<lambda>tm. tm\<lparr>paused := True\<rparr>)"

definition lv_timer_resume :: "ptr \<Rightarrow> 'a timer_world_scheme \<Rightarrow> 'a timer_world_scheme option" where
  "lv_timer_resume t = upd_timer t (\<lambda>tm. tm\<lparr>paused := False\<rparr>)"

definition lv_timer_set_period :: "ptr \<Rightarrow> u32 \<Rightarrow> 'a timer_world_scheme \<Rightarrow> 'a timer_world_scheme option" where
  "lv_timer_set_period t period = upd_timer t (\<lambda>tm. tm\<lparr>tm_period := period\<rparr>)"

definition lv_timer_ready :: "ptr \<Rightarrow> 'a timer_world_scheme \<Rightarrow> 'a timer_world_scheme option" where
  "lv_timer_ready t w = (let (now, w) = lv_tick_get w in upd_timer t (\<lambda>tm. tm\<lparr>last_run := now - tm_period tm - 1\<rparr>) w)"

definition lv_timer_set_repeat_count :: "ptr \<Rightarrow> int \<Rightarrow> 'a timer_world_scheme \<Rightarrow> 'a timer_world_scheme option" where
  "lv_timer_set_repeat_count t n = upd_timer t (\<lambda>tm. tm\<lparr>repeat_count := n\<rparr>)"

definition lv_timer_reset :: "ptr \<Rightarrow> 'a timer_world_scheme \<Rightarrow> 'a timer_world_scheme option" where
  "lv_timer_reset t w = (let (now, w) = lv_tick_get w in upd_timer t (\<lambda>tm. tm\<lparr>last_run := now\<rparr>) w)"

definition lv_timer_get_idle :: "'a timer_world_scheme \<Rightarrow> u8" where
  "lv_timer_get_idle w = idle_last w"

definition lv_timer_get_next :: "ptr \<Rightarrow> 'a timer_world_scheme \<Rightarrow> ptr option" where
  "lv_timer_get_next t w = (if t = 0 then lv_ll_get_head lv_timer_ll w else lv_ll_get_next lv_timer_ll t w)"

section \<open>Running them\<close>

definition lv_timer_time_remaining :: "ptr \<Rightarrow> 'a timer_world_scheme \<Rightarrow> (u32 \<times> 'a timer_world_scheme) option" where
  "lv_timer_time_remaining t = on_timer t (\<lambda>tm w.
     let (elp, w) = lv_tick_elaps (last_run tm) w in Some (if elp \<ge> tm_period tm then 0 else tm_period tm - elp, w))"

text \<open>
  \<open>cb f t\<close> is the callback function \<open>f\<close> called with the timer \<open>t\<close>.  The count is decremented before the call, and read again after
  it, unless a timer was deleted meanwhile.
\<close>

definition delete_if_over :: "ptr \<Rightarrow> 'a timer_world_scheme \<Rightarrow> 'a timer_world_scheme option" where
  "delete_if_over t w =
    (if timer_deleted w then Some w
     else on_timer t (\<lambda>tm w. if repeat_count tm = 0 then lv_timer_del t w else Some w) w)"

definition lv_timer_exec ::
  "(ptr \<Rightarrow> ptr \<Rightarrow> 'a timer_world_scheme \<Rightarrow> 'a timer_world_scheme option) \<Rightarrow> ptr \<Rightarrow> 'a timer_world_scheme \<Rightarrow>
   (bool \<times> 'a timer_world_scheme) option" where
  "lv_timer_exec cb t = on_timer t (\<lambda>tm w.
     if paused tm then Some (False, w)
     else do {
       (remaining, w) \<leftarrow> lv_timer_time_remaining t w;
       (exec, w) \<leftarrow>
         (if remaining = 0 then do {
            w \<leftarrow> upd_timer t (\<lambda>tm. tm\<lparr>repeat_count := (if repeat_count tm > 0 then repeat_count tm - 1 else repeat_count tm)\<rparr>) w;
            let (now, w) = lv_tick_get w;
            w \<leftarrow> upd_timer t (\<lambda>tm. tm\<lparr>last_run := now\<rparr>) w;
            w \<leftarrow> (if timer_cb tm \<noteq> 0 \<and> repeat_count tm \<noteq> 0 then cb (timer_cb tm) t w else Some w);
            Some (True, w) }
          else Some (False, w));
       w \<leftarrow> delete_if_over t w;
       Some (exec, w) })"

text \<open>The start of a round through the list, and the rounds; \<open>Still_running\<close> when the \<open>fuel\<close> is used up.\<close>

datatype 'w outcome = Returned 'w | Still_running 'w

definition start_round :: "'a timer_world_scheme \<Rightarrow> 'a timer_world_scheme option" where
  "start_round w = do {
     h \<leftarrow> lv_ll_get_head lv_timer_ll w;
     Some (w\<lparr>timer_deleted := False, timer_created := False, lv_timer_act := h\<rparr>) }"

fun run_timers ::
  "(ptr \<Rightarrow> ptr \<Rightarrow> 'a timer_world_scheme \<Rightarrow> 'a timer_world_scheme option) \<Rightarrow> nat \<Rightarrow> 'a timer_world_scheme \<Rightarrow>
   'a timer_world_scheme outcome option" where
  "run_timers cb 0 w = Some (Still_running w)"
| "run_timers cb (Suc n) w =
    (if lv_timer_act w = 0 then Some (Returned w)
     else do {
       nxt \<leftarrow> lv_ll_get_next lv_timer_ll (lv_timer_act w) w;
       (exec, w) \<leftarrow> lv_timer_exec cb (lv_timer_act w) w;
       if exec \<and> (timer_created w \<or> timer_deleted w) then do { w \<leftarrow> start_round w; run_timers cb n w }
       else run_timers cb n (w\<lparr>lv_timer_act := nxt\<rparr>) })"

text \<open>The time until the next timer is due.\<close>

partial_function (option) till_next :: "ptr \<Rightarrow> u32 \<Rightarrow> 'a timer_world_scheme \<Rightarrow> (u32 \<times> 'a timer_world_scheme) option" where
  "till_next nxt time w =
    (if nxt = 0 then Some (time, w)
     else do {
       tm \<leftarrow> timers w nxt;
       (time, w) \<leftarrow>
         (if paused tm then Some (time, w)
          else do { (delay, w) \<leftarrow> lv_timer_time_remaining nxt w; Some (if delay < time then delay else time, w) });
       nxt \<leftarrow> lv_ll_get_next lv_timer_ll nxt w;
       till_next nxt time w })"

definition measure_idle :: "u32 \<Rightarrow> 'a timer_world_scheme \<Rightarrow> 'a timer_world_scheme" where
  "measure_idle handler_start w =
    (let (busy, w) = lv_tick_elaps handler_start w;
         w = w\<lparr>busy_time := busy_time w + busy\<rparr>;
         (idle_period_time, w) = lv_tick_elaps (idle_period_start w) w
     in if idle_period_time \<ge> IDLE_MEAS_PERIOD then
          let idle = (ucast ((busy_time w * 100) div idle_period_time) :: u8);
              idle = (if idle > 100 then 0 else 100 - idle);
              (now, w) = lv_tick_get (w\<lparr>idle_last := idle, busy_time := 0\<rparr>)
          in w\<lparr>idle_period_start := now\<rparr>
        else w)"

text \<open>The handler: the time it returns, or that it is still running.\<close>

definition count_zero_start :: "u32 \<Rightarrow> 'a timer_world_scheme \<Rightarrow> 'a timer_world_scheme" where
  "count_zero_start handler_start w =
    (if handler_start = 0 then w\<lparr>run_cnt := (if run_cnt w + 1 > 100 then 0 else run_cnt w + 1)\<rparr> else w)"

definition finish_handler :: "u32 \<Rightarrow> 'a timer_world_scheme \<Rightarrow> (u32 \<times> 'a timer_world_scheme) option" where
  "finish_handler handler_start w = do {
     nxt \<leftarrow> lv_ll_get_head lv_timer_ll w;
     (time_till_next, w) \<leftarrow> till_next nxt LV_NO_TIMER_READY w;
     let w = measure_idle handler_start w;
     Some (time_till_next, w\<lparr>already_running := False\<rparr>) }"

definition lv_timer_handler ::
  "(ptr \<Rightarrow> ptr \<Rightarrow> 'a timer_world_scheme \<Rightarrow> 'a timer_world_scheme option) \<Rightarrow> nat \<Rightarrow> 'a timer_world_scheme \<Rightarrow>
   (u32 \<times> 'a timer_world_scheme) outcome option" where
  "lv_timer_handler cb fuel w =
    (if already_running w then Some (Returned (1, w))
     else let w = w\<lparr>already_running := True\<rparr>
     in if \<not> lv_timer_run w then Some (Returned (1, w\<lparr>already_running := False\<rparr>))
     else let (handler_start, w) = lv_tick_get w
     in do {
       w \<leftarrow> start_round (count_zero_start handler_start w);
       r \<leftarrow> run_timers cb fuel w;
       case r of Still_running w \<Rightarrow> Some (Still_running (0, w))
       | Returned w \<Rightarrow> map_option Returned (finish_handler handler_start w) })"

section \<open>What callbacks may do\<close>

text \<open>The timers: the nodes of the list, each with its contents.\<close>

definition timers_ok :: "'a timer_world_scheme \<Rightarrow> bool" where
  "timers_ok w \<longleftrightarrow> (\<exists>xs. is_ll lv_timer_ll xs w \<and> dom (timers w) = set xs)"

text \<open>
  The steps of a callback: the functions of this module on timers that are there, creating a timer in memory that is not in
  use, and anything else that leaves the timers alone (time passes, other lists change, other code is called).
\<close>

inductive timer_op :: "'a timer_world_scheme \<Rightarrow> 'a timer_world_scheme \<Rightarrow> bool" where
  op_create: "\<not> ll_nodes w (new_node lv_timer_ll w) \<noteq> None \<Longrightarrow> lv_timer_create c period user w = Some (n, w') \<Longrightarrow> timer_op w w'"
| op_del: "timers w t \<noteq> None \<Longrightarrow> lv_timer_del t w = Some w' \<Longrightarrow> timer_op w w'"
| op_set_cb: "lv_timer_set_cb t c w = Some w' \<Longrightarrow> timer_op w w'"
| op_pause: "lv_timer_pause t w = Some w' \<Longrightarrow> timer_op w w'"
| op_resume: "lv_timer_resume t w = Some w' \<Longrightarrow> timer_op w w'"
| op_set_period: "lv_timer_set_period t period w = Some w' \<Longrightarrow> timer_op w w'"
| op_ready: "lv_timer_ready t w = Some w' \<Longrightarrow> timer_op w w'"
| op_set_repeat_count: "lv_timer_set_repeat_count t rc w = Some w' \<Longrightarrow> timer_op w w'"
| op_reset: "lv_timer_reset t w = Some w' \<Longrightarrow> timer_op w w'"
| op_enable: "w' = lv_timer_enable en w \<Longrightarrow> timer_op w w'"
| op_other: "timers w' = timers w \<Longrightarrow> timer_deleted w' = timer_deleted w \<Longrightarrow> timer_created w' = timer_created w \<Longrightarrow>
    lv_timer_act w' = lv_timer_act w \<Longrightarrow> (\<And>xs. is_ll lv_timer_ll xs w \<Longrightarrow> is_ll lv_timer_ll xs w') \<Longrightarrow> timer_op w w'"

text \<open>
  What every step keeps: the timers stay in order; unless one was deleted, which \<^verbatim>\<open>timer_deleted\<close> remembers, none is gone;
  and the handler's position is not touched.
\<close>

definition timers_kept :: "'a timer_world_scheme \<Rightarrow> 'a timer_world_scheme \<Rightarrow> bool" where
  "timers_kept w w' \<longleftrightarrow> timers_ok w' \<and> (timer_deleted w \<longrightarrow> timer_deleted w') \<and>
     (timer_deleted w' \<or> dom (timers w) \<subseteq> dom (timers w')) \<and> lv_timer_act w' = lv_timer_act w"

lemma timers_kept_refl: "timers_ok w \<Longrightarrow> timers_kept w w"
  by (simp add: timers_kept_def)

lemma timers_kept_trans: "timers_kept w w1 \<Longrightarrow> timers_kept w1 w2 \<Longrightarrow> timers_kept w w2"
  by (auto simp: timers_kept_def)

text \<open>A change of the fields that the list and the set of timers do not depend on.\<close>

lemma timers_kept_same:
  "timers_ok w \<Longrightarrow> lls w' = lls w \<Longrightarrow> ll_nodes w' = ll_nodes w \<Longrightarrow> dom (timers w') = dom (timers w) \<Longrightarrow>
     timer_deleted w' = timer_deleted w \<Longrightarrow> lv_timer_act w' = lv_timer_act w \<Longrightarrow> timers_kept w w'"
  by (auto simp: timers_kept_def timers_ok_def is_ll_def)

lemma tick_get_kept: "timers_ok w \<Longrightarrow> timers_kept w (snd (lv_tick_get w)) \<and> timers (snd (lv_tick_get w)) = timers w"
  by (auto simp: lv_tick_get_def lv_tick_inc_def Let_def intro!: timers_kept_same)

lemma upd_timer_kept: "timers_ok w \<Longrightarrow> upd_timer t f w = Some w' \<Longrightarrow> timers_kept w w'"
  by (rule timers_kept_same) (auto simp: upd_timer_def on_timer_def set_timer_def split: option.splits if_splits)

lemma upd_timer_live: "timers w t = Some tm \<Longrightarrow> upd_timer t f w = Some (set_timer t (f tm) w)"
  by (simp add: upd_timer_def on_timer_def)

lemma is_ll_upd [simp]: "is_ll p xs (w\<lparr>timer_deleted := b\<rparr>) = is_ll p xs w" "is_ll p xs (w\<lparr>timer_created := b\<rparr>) = is_ll p xs w"
  "is_ll p xs (w\<lparr>lv_timer_act := q\<rparr>) = is_ll p xs w" "is_ll p xs (set_timer t tm w) = is_ll p xs w"
  "is_ll p xs (w\<lparr>timers := ts\<rparr>) = is_ll p xs w" "is_ll p xs (w\<lparr>sys_time := now\<rparr>) = is_ll p xs w"
  "is_ll p xs (w\<lparr>tick_reads := k\<rparr>) = is_ll p xs w"
  by (simp_all add: is_ll_def set_timer_def)

lemma del_ok:
  assumes "is_ll lv_timer_ll xs w" "t \<in> set xs"
  shows "\<exists>w'. lv_timer_del t w = Some w' \<and> is_ll lv_timer_ll (remove1 t xs) w' \<and> timers w' = (timers w)(t := None) \<and>
    timer_deleted w' \<and> timer_created w' = timer_created w \<and> lv_timer_act w' = lv_timer_act w \<and>
    sys_time w' = sys_time w \<and> tick_before w' = tick_before w \<and> (\<exists>r. world.log w' = world.log w @ [(MEM (Free t), r)])"
proof -
  obtain w1 where w1: "lv_ll_remove lv_timer_ll t w = Some w1" "is_ll lv_timer_ll (remove1 t xs) w1" "ll_frame lv_timer_ll (set xs) w w1"
    using remove_in_frame [OF assms] by blast
  have fields: "timers w1 = timers w" "timer_created w1 = timer_created w" "lv_timer_act w1 = lv_timer_act w" "sys_time w1 = sys_time w"
    "tick_before w1 = tick_before w" "world.log w1 = world.log w"
    using w1(3) by (cases w; cases w1; simp add: ll_frame_def)+
  have t: "t \<noteq> 0" using is_ll_props [OF assms(1)] assms(2) by metis
  have gone: "t \<notin> set (remove1 t xs)" using is_ll_props [OF assms(1)] by simp
  define w2 where "w2 = (ll_free t (w1\<lparr>timer_deleted := True\<rparr>))\<lparr>timers := (timers w1)(t := None)\<rparr>"
  have "lv_timer_del t w = Some w2" using w1(1) by (simp add: lv_timer_del_def w2_def Let_def)
  moreover have "is_ll lv_timer_ll (remove1 t xs) w2"
    using w1(2) gone by (simp add: w2_def is_ll_def)
  moreover have "timers w2 = (timers w)(t := None)" "timer_deleted w2" "timer_created w2 = timer_created w" "lv_timer_act w2 = lv_timer_act w"
    "sys_time w2 = sys_time w" "tick_before w2 = tick_before w" "\<exists>r. world.log w2 = world.log w @ [(MEM (Free t), r)]"
    using t fields by (simp_all add: w2_def ll_free_def lv_mem_free_def io_simps after_def)
  ultimately show ?thesis by blast
qed

lemma ll_frame_timers:
  "ll_frame p S w w' \<Longrightarrow> timers w' = timers w \<and> timer_created w' = timer_created w \<and> timer_deleted w' = timer_deleted w \<and>
     lv_timer_act w' = lv_timer_act w \<and> sys_time w' = sys_time w \<and> tick_before w' = tick_before w \<and> tick_reads w' = tick_reads w"
  by (cases w; cases w') (simp add: ll_frame_def)

lemma after_timers [simp]:
  "timers (after w c) = timers w" "timer_created (after w c) = timer_created w" "timer_deleted (after w c) = timer_deleted w"
  "lv_timer_act (after w c) = lv_timer_act w" "sys_time (after w c) = sys_time w" "tick_before (after w c) = tick_before w"
  by (simp_all add: after_def)

lemma create_ok:
  assumes "is_ll lv_timer_ll xs w" "dom (timers w) = set xs" "\<not> ll_nodes w (new_node lv_timer_ll w) \<noteq> None"
    and "lv_timer_create c period user w = Some (n, w')"
  shows "is_ll lv_timer_ll (n # xs) w' \<and> dom (timers w') = set (n # xs) \<and> timer_created w' \<and>
    timer_deleted w' = timer_deleted w \<and> lv_timer_act w' = lv_timer_act w"
proof (cases "new_node lv_timer_ll w = 0")
  case True
  then show ?thesis using assms(4) ins_no_memory(1) [OF assms(1)] by (simp add: lv_timer_create_def)
next
  case False
  let ?n = "new_node lv_timer_ll w"
  obtain w1 where w1: "lv_ll_ins_head lv_timer_ll w = Some (?n, w1)" "is_ll lv_timer_ll (?n # xs) w1"
    "ll_frame lv_timer_ll (insert ?n (set xs)) (after w (node_call lv_timer_ll w)) w1"
    using ins_head_ok [OF assms(1) False] assms(3) by blast
  have fr: "timers w1 = timers w" "timer_deleted w1 = timer_deleted w" "lv_timer_act w1 = lv_timer_act w"
    using ll_frame_timers [OF w1(3)] by simp_all
  obtain now k tm where "n = ?n"
    "w' = (set_timer ?n tm (w1\<lparr>sys_time := now, tick_reads := k\<rparr>))\<lparr>timer_created := True\<rparr>"
    using assms(4) False w1(1) by (auto simp: lv_timer_create_def lv_tick_get_def lv_tick_inc_def Let_def)
  then show ?thesis using w1(2) fr assms(2) by (simp add: set_timer_def)
qed

lemma timer_op_kept: "timer_op w w' \<Longrightarrow> timers_ok w \<Longrightarrow> timers_kept w w'"
proof (induction rule: timer_op.induct)
  case (op_create w c period user n w')
  obtain xs where "is_ll lv_timer_ll xs w" "dom (timers w) = set xs" using op_create.prems by (auto simp: timers_ok_def)
  from create_ok [OF this op_create.hyps] this show ?case by (auto simp: timers_kept_def timers_ok_def)
next
  case (op_del w t w')
  obtain xs where xs: "is_ll lv_timer_ll xs w" "dom (timers w) = set xs" using op_del.prems by (auto simp: timers_ok_def)
  then have "t \<in> set xs" using op_del.hyps(1) by auto
  moreover have "set (remove1 t xs) = set xs - {t}" using is_ll_props [OF xs(1)] by simp
  ultimately show ?case
    using del_ok [OF xs(1), of t] op_del.hyps(2) xs(2) by (auto simp: timers_kept_def timers_ok_def)
next
  case (op_ready t w w')
  then show ?case
    using upd_timer_kept tick_get_kept [OF op_ready.prems] timers_kept_trans
    by (metis (no_types, lifting) lv_timer_ready_def case_prod_unfold timers_kept_def)
next
  case (op_reset t w w')
  then show ?case
    using upd_timer_kept tick_get_kept [OF op_reset.prems] timers_kept_trans
    by (metis (no_types, lifting) lv_timer_reset_def case_prod_unfold timers_kept_def)
next
  case (op_enable w' en w)
  then show ?case by (intro timers_kept_same) (simp_all add: lv_timer_enable_def)
next
  case (op_other w' w)
  then show ?case by (auto simp: timers_kept_def timers_ok_def)
qed (auto simp: lv_timer_set_cb_def lv_timer_pause_def lv_timer_resume_def lv_timer_set_period_def lv_timer_set_repeat_count_def intro: upd_timer_kept)

lemma timer_ops_kept: "timer_op\<^sup>*\<^sup>* w w' \<Longrightarrow> timers_ok w \<Longrightarrow> timers_kept w w'"
proof (induction rule: rtranclp_induct)
  case (step y z)
  then have "timers_kept w y" by simp
  moreover from this have "timers_kept y z" using timer_op_kept [OF step.hyps(2)] by (simp add: timers_kept_def)
  ultimately show ?case by (rule timers_kept_trans)
qed (rule timers_kept_refl)

section \<open>The handler never uses a timer that is gone\<close>

text \<open>Callbacks that return after steps of this kind, whenever they are called with a timer that is there.\<close>

definition callbacks_ok :: "(ptr \<Rightarrow> ptr \<Rightarrow> 'a timer_world_scheme \<Rightarrow> 'a timer_world_scheme option) \<Rightarrow> bool" where
  "callbacks_ok cb \<longleftrightarrow> (\<forall>f t w. timers_ok w \<longrightarrow> timers w t \<noteq> None \<longrightarrow> (\<exists>w'. cb f t w = Some w' \<and> timer_op\<^sup>*\<^sup>* w w'))"

lemma remaining_live:
  assumes "timers_ok w" "timers w t = Some tm"
  shows "\<exists>r w'. lv_timer_time_remaining t w = Some (r, w') \<and> timers_kept w w' \<and> timers w' = timers w"
  using tick_get_kept [OF assms(1)] assms(2)
  by (simp add: lv_timer_time_remaining_def on_timer_def lv_tick_elaps_def case_prod_unfold Let_def)

lemma exec_tail:
  assumes "timers_ok w" "timer_deleted w \<or> timers w t \<noteq> None"
  shows "\<exists>w'. delete_if_over t w = Some w' \<and>
    timers_ok w' \<and> lv_timer_act w' = lv_timer_act w \<and> (timer_deleted w \<longrightarrow> timer_deleted w') \<and>
    dom (timers w) - {t} \<subseteq> dom (timers w')"
proof (cases "timer_deleted w \<or> (\<exists>tm. timers w t = Some tm \<and> repeat_count tm \<noteq> 0)")
  case True
  then show ?thesis using assms by (auto simp: delete_if_over_def on_timer_def)
next
  case False
  then obtain tm where tm: "\<not> timer_deleted w" "timers w t = Some tm" "repeat_count tm = 0" using assms(2) by auto
  obtain xs where xs: "is_ll lv_timer_ll xs w" "dom (timers w) = set xs" using assms(1) by (auto simp: timers_ok_def)
  then have "t \<in> set xs" using tm(2) by auto
  from del_ok [OF xs(1) this] obtain w' where w': "lv_timer_del t w = Some w'" "is_ll lv_timer_ll (remove1 t xs) w'"
    "timers w' = (timers w)(t := None)" "timer_deleted w'" "lv_timer_act w' = lv_timer_act w"
    by blast
  have "set (remove1 t xs) = set xs - {t}" using is_ll_props [OF xs(1)] by simp
  then have "timers_ok w'" using w'(2,3) xs(2) by (auto simp: timers_ok_def)
  then show ?thesis using tm w' by (auto simp: delete_if_over_def on_timer_def)
qed

lemma exec_safe:
  assumes cb: "callbacks_ok cb" and ok: "timers_ok w" and live: "timers w t = Some tm"
  shows "\<exists>ex w'. lv_timer_exec cb t w = Some (ex, w') \<and> timers_ok w' \<and> lv_timer_act w' = lv_timer_act w \<and>
    (\<not> (ex \<and> (timer_created w' \<or> timer_deleted w')) \<longrightarrow> dom (timers w) - {t} \<subseteq> dom (timers w'))"
proof (cases "paused tm")
  case True
  then have "lv_timer_exec cb t w = Some (False, w)" using live by (simp add: lv_timer_exec_def on_timer_def)
  then show ?thesis using ok by blast
next
  case False
  obtain r w1 where w1: "lv_timer_time_remaining t w = Some (r, w1)" "timers_kept w w1" "timers w1 = timers w"
    using remaining_live [OF ok live] by blast
  have live1: "timers w1 t = Some tm" and ok1: "timers_ok w1" using w1(2,3) live by (simp_all add: timers_kept_def)
  show ?thesis
  proof (cases "r = 0")
    case r: False
    obtain w2 where "delete_if_over t w1 = Some w2"
      "timers_ok w2" "lv_timer_act w2 = lv_timer_act w1" "dom (timers w1) - {t} \<subseteq> dom (timers w2)"
      using exec_tail [OF ok1, of t] live1 by auto
    moreover from this(1) have "lv_timer_exec cb t w = Some (False, w2)"
      using False r w1(1) live by (simp add: lv_timer_exec_def on_timer_def [of t _ w])
    ultimately show ?thesis using w1(2,3) unfolding timers_kept_def by metis
  next
    case r: True
    define tm1 where "tm1 = tm\<lparr>repeat_count := (if repeat_count tm > 0 then repeat_count tm - 1 else repeat_count tm)\<rparr>"
    define w2 where "w2 = set_timer t tm1 w1"
    have u2: "upd_timer t (\<lambda>tm. tm\<lparr>repeat_count := (if repeat_count tm > 0 then repeat_count tm - 1 else repeat_count tm)\<rparr>) w1 = Some w2"
      using live1 by (simp add: upd_timer_live w2_def tm1_def)
    have k2: "timers_kept w w2" using timers_kept_trans [OF w1(2) upd_timer_kept [OF ok1 u2]] .
    define w3 where "w3 = snd (lv_tick_get w2)"
    have ok2: "timers_ok w2" using k2 by (simp add: timers_kept_def)
    have k3: "timers_kept w w3" "timers w3 = timers w2"
      using tick_get_kept [OF ok2] timers_kept_trans [OF k2] by (simp_all add: w3_def)
    have live3: "timers w3 t = Some tm1" by (simp add: k3(2) w2_def set_timer_def)
    define w4 where "w4 = set_timer t (tm1\<lparr>last_run := fst (lv_tick_get w2)\<rparr>) w3"
    have u4: "upd_timer t (\<lambda>tm. tm\<lparr>last_run := fst (lv_tick_get w2)\<rparr>) w3 = Some w4"
      using live3 by (simp add: upd_timer_live w4_def)
    have "timers_ok w3" using k3(1) by (simp add: timers_kept_def)
    then have k4: "timers_kept w w4" using timers_kept_trans [OF k3(1) upd_timer_kept [OF _ u4]] by simp
    have live4: "timers w4 t \<noteq> None" and ok4: "timers_ok w4" using k4 by (simp_all add: w4_def set_timer_def timers_kept_def)
    obtain w5 where w5: "(if timer_cb tm \<noteq> 0 \<and> repeat_count tm \<noteq> 0 then cb (timer_cb tm) t w4 else Some w4) = Some w5" "timers_kept w4 w5"
    proof (cases "timer_cb tm \<noteq> 0 \<and> repeat_count tm \<noteq> 0")
      case True
      obtain w5 where "cb (timer_cb tm) t w4 = Some w5" "timer_op\<^sup>*\<^sup>* w4 w5" using cb ok4 live4 unfolding callbacks_ok_def by blast
      then show thesis using that [of w5] True timer_ops_kept [OF _ ok4] by simp
    next
      case False
      then show thesis using that [of w4] timers_kept_refl [OF ok4] by (simp only: if_False)
    qed
    have k5: "timers_kept w w5" by (rule timers_kept_trans [OF k4 w5(2)])
    then have "timers_ok w5" "timer_deleted w5 \<or> timers w5 t \<noteq> None" using live by (auto simp: timers_kept_def)
    from exec_tail [OF this] obtain w6 where w6: "delete_if_over t w5 = Some w6"
      "timers_ok w6" "lv_timer_act w6 = lv_timer_act w5" "timer_deleted w5 \<longrightarrow> timer_deleted w6" "dom (timers w5) - {t} \<subseteq> dom (timers w6)"
      by blast
    have "lv_timer_exec cb t w = Some (True, w6)"
      using False r w1(1) live u2 u4 w5(1) w6(1)
      by (simp add: lv_timer_exec_def on_timer_def [of t _ w] case_prod_unfold w3_def)
    moreover have "lv_timer_act w6 = lv_timer_act w" using w6(3) k5 by (simp add: timers_kept_def)
    moreover have "timer_deleted w6 \<or> dom (timers w) - {t} \<subseteq> dom (timers w6)" using w6(4,5) k5 unfolding timers_kept_def by blast
    ultimately show ?thesis using w6(2) by blast
  qed
qed

lemma run_timers_safe:
  assumes cb: "callbacks_ok cb"
  shows "timers_ok w \<Longrightarrow> lv_timer_act w = 0 \<or> timers w (lv_timer_act w) \<noteq> None \<Longrightarrow>
    \<exists>w'. (run_timers cb n w = Some (Returned w') \<or> run_timers cb n w = Some (Still_running w')) \<and> timers_ok w'"
proof (induction n arbitrary: w)
  case (Suc n)
  show ?case
  proof (cases "lv_timer_act w = 0")
    case False
    then obtain tm where tm: "timers w (lv_timer_act w) = Some tm" using Suc.prems(2) by auto
    obtain xs where xs: "is_ll lv_timer_ll xs w" "dom (timers w) = set xs" using Suc.prems(1) by (auto simp: timers_ok_def)
    then have "lv_timer_act w \<in> set xs" using tm by auto
    then obtain as bs where split: "xs = as @ lv_timer_act w # bs" by (auto simp: in_set_conv_decomp)
    define nxt where "nxt = hd (bs @ [0])"
    have nxt: "lv_ll_get_next lv_timer_ll (lv_timer_act w) w = Some nxt"
      using ll.lst_next [of lv_timer_ll as "lv_timer_act w" bs w] xs(1) by (simp add: split nxt_def)
    have nxt_in: "nxt = 0 \<or> nxt \<in> dom (timers w) - {lv_timer_act w}"
      using is_ll_props [OF xs(1)] xs(2) by (cases bs) (auto simp: split nxt_def)
    obtain ex w1 where w1: "lv_timer_exec cb (lv_timer_act w) w = Some (ex, w1)" "timers_ok w1" "lv_timer_act w1 = lv_timer_act w"
      "\<not> (ex \<and> (timer_created w1 \<or> timer_deleted w1)) \<longrightarrow> dom (timers w) - {lv_timer_act w} \<subseteq> dom (timers w1)"
      using exec_safe [OF cb Suc.prems(1) tm] by blast
    show ?thesis
    proof (cases "ex \<and> (timer_created w1 \<or> timer_deleted w1)")
      case True
      obtain ys where ys: "is_ll lv_timer_ll ys w1" "dom (timers w1) = set ys" using w1(2) by (auto simp: timers_ok_def)
      then obtain h where h: "lv_ll_get_head lv_timer_ll w1 = Some h" "h = 0 \<or> h \<in> set ys" using ll.head_in by blast
      define w2 where "w2 = w1\<lparr>timer_deleted := False, timer_created := False, lv_timer_act := h\<rparr>"
      have "timers_ok w2" "lv_timer_act w2 = 0 \<or> timers w2 (lv_timer_act w2) \<noteq> None"
        using ys h(2) by (auto simp: w2_def timers_ok_def)
      from Suc.IH [OF this] show ?thesis
        using False nxt w1(1) True h(1) by (simp add: start_round_def w2_def)
    next
      case cont: False
      define w2 where "w2 = w1\<lparr>lv_timer_act := nxt\<rparr>"
      have "timers_ok w2" "lv_timer_act w2 = 0 \<or> timers w2 (lv_timer_act w2) \<noteq> None"
        using w1(2,4) nxt_in cont by (auto simp: w2_def timers_ok_def)
      from Suc.IH [OF this] show ?thesis
        using False nxt w1(1) cont by (auto simp: w2_def)
    qed
  qed (use Suc.prems in auto)
qed simp

text \<open>Reading the clock.\<close>

definition ticked :: "'a timer_world_scheme \<Rightarrow> 'a timer_world_scheme \<Rightarrow> bool" where
  "ticked w w' \<longleftrightarrow> w' = w\<lparr>sys_time := sys_time w', tick_reads := tick_reads w'\<rparr> \<and> (tick_before w = (\<lambda>_. 0) \<longrightarrow> sys_time w' = sys_time w)"

lemma ticked_refl [simp]: "ticked w w"
  by (simp add: ticked_def)

lemma ticked_trans: "ticked w w1 \<Longrightarrow> ticked w1 w2 \<Longrightarrow> ticked w w2"
  by (cases w; cases w1; cases w2) (auto simp: ticked_def)

lemma ticked_sel:
  "ticked w w' \<Longrightarrow> timers w' = timers w \<and> is_ll p xs w' = is_ll p xs w \<and> world.log w' = world.log w \<and> tick_before w' = tick_before w \<and>
     lv_timer_act w' = lv_timer_act w \<and> timer_deleted w' = timer_deleted w \<and> timer_created w' = timer_created w"
  by (cases w; cases w') (auto simp: ticked_def is_ll_def)

lemma tick_get_ticked: "ticked w (snd (lv_tick_get w)) \<and> fst (lv_tick_get w) = sys_time (snd (lv_tick_get w))"
  by (cases w) (simp add: ticked_def lv_tick_get_def lv_tick_inc_def Let_def)

lemma tick_elaps_eq: "lv_tick_elaps p w = (sys_time (snd (lv_tick_get w)) - p, snd (lv_tick_get w))"
proof -
  have "0xFFFFFFFF - p + 1 + a = a - p" for a :: u32 by simp
  then show ?thesis using tick_get_ticked [of w] by (simp add: lv_tick_elaps_def case_prod_unfold Let_def)
qed

definition remaining_at :: "u32 \<Rightarrow> lv_timer_t \<Rightarrow> u32" where
  "remaining_at now tm = (if now - last_run tm \<ge> tm_period tm then 0 else tm_period tm - (now - last_run tm))"

lemma remaining_eq:
  "timers w t = Some tm \<Longrightarrow> lv_timer_time_remaining t w = Some (remaining_at (sys_time (snd (lv_tick_get w))) tm, snd (lv_tick_get w))"
  by (simp add: lv_timer_time_remaining_def on_timer_def tick_elaps_eq remaining_at_def)

text \<open>The least remaining time of the running timers; \<open>LV_NO_TIMER_READY\<close> if there is none.\<close>

definition least_remaining :: "u32 \<Rightarrow> (ptr \<Rightarrow> lv_timer_t option) \<Rightarrow> ptr list \<Rightarrow> u32 \<Rightarrow> u32" where
  "least_remaining now ts xs time =
     foldl min time (map (\<lambda>t. remaining_at now (the (ts t))) (filter (\<lambda>t. \<not> paused (the (ts t))) xs))"

lemma till_next_eq:
  "is_ll lv_timer_ll (as @ bs) w \<Longrightarrow> set bs \<subseteq> dom (timers w) \<Longrightarrow>
     \<exists>r w'. till_next (hd (bs @ [0])) time w = Some (r, w') \<and> ticked w w' \<and>
       (tick_before w = (\<lambda>_. 0) \<longrightarrow> r = least_remaining (sys_time w) (timers w) bs time)"
proof (induction bs arbitrary: as time w)
  case Nil
  then show ?case by (simp add: till_next.simps least_remaining_def)
next
  case (Cons b bs)
  obtain tm where tm: "timers w b = Some tm" using Cons.prems(2) by auto
  have b: "b \<noteq> 0" using is_ll_props [OF Cons.prems(1)] by auto
  have nxt: "lv_ll_get_next lv_timer_ll b w = Some (hd (bs @ [0]))" using ll.lst_next [OF Cons.prems(1)] .
  have l: "is_ll lv_timer_ll ((as @ [b]) @ bs) w" using Cons.prems(1) by simp
  show ?case
  proof (cases "paused tm")
    case True
    then have "till_next b time w = till_next (hd (bs @ [0])) time w"
      using tm b nxt by (subst till_next.simps) simp
    then show ?thesis using Cons.IH [OF l, of time] Cons.prems(2) tm True by (simp add: least_remaining_def)
  next
    case False
    define w1 where "w1 = snd (lv_tick_get w)"
    define d where "d = remaining_at (sys_time w1) tm"
    have w1: "ticked w w1" unfolding w1_def using tick_get_ticked [of w] by (rule conjunct1)
    note sel = ticked_sel [OF w1]
    have "lv_ll_get_next lv_timer_ll b w1 = Some (hd (bs @ [0]))"
      using ll.lst_next [of lv_timer_ll as b bs w1] sel Cons.prems(1) by simp
    then have "till_next b time w = till_next (hd (bs @ [0])) (if d < time then d else time) w1"
      using False tm b by (subst till_next.simps) (simp add: remaining_eq w1_def [symmetric] d_def)
    moreover have "is_ll lv_timer_ll ((as @ [b]) @ bs) w1" "set bs \<subseteq> dom (timers w1)" using l sel Cons.prems(2) by simp_all
    from Cons.IH [OF this, of "if d < time then d else time"] obtain r w' where
      "till_next (hd (bs @ [0])) (if d < time then d else time) w1 = Some (r, w')" "ticked w1 w'"
      "tick_before w1 = (\<lambda>_. 0) \<longrightarrow> r = least_remaining (sys_time w1) (timers w1) bs (if d < time then d else time)"
      by blast
    moreover have "(if d < time then d else time) = min time d"
      by (cases "d < time") (auto simp: min_def not_less intro: antisym dest: less_imp_le)
    moreover have "tick_before w = (\<lambda>_. 0) \<longrightarrow> sys_time w1 = sys_time w" using w1 by (simp add: ticked_def)
    ultimately show ?thesis
      using ticked_trans [OF w1] sel False tm by (auto simp: least_remaining_def d_def)
  qed
qed

lemma idle_kept: "timers_ok w \<Longrightarrow> timers_ok ((measure_idle h w)\<lparr>already_running := b\<rparr>)"
  by (auto simp: measure_idle_def tick_elaps_eq lv_tick_get_def lv_tick_inc_def Let_def timers_ok_def is_ll_def)

lemma finish_ok:
  assumes "timers_ok w"
  shows "\<exists>t w'. finish_handler start w = Some (t, w') \<and> timers_ok w'"
proof -
  obtain ys where ys: "is_ll lv_timer_ll ys w" "dom (timers w) = set ys" using assms by (auto simp: timers_ok_def)
  obtain r w1 where w1: "till_next (hd (ys @ [0])) LV_NO_TIMER_READY w = Some (r, w1)" "ticked w w1"
    using till_next_eq [of "[]" ys w LV_NO_TIMER_READY] ys by auto
  then have "timers_ok w1" using assms ticked_sel [OF w1(2)] by (simp add: timers_ok_def)
  then show ?thesis using w1(1) ll.lst_head [OF ys(1)] idle_kept by (auto simp: finish_handler_def Let_def)
qed

text \<open>
  C7. LVGL's timer handler is memory safe: whatever the callbacks do with the timers - create some, delete the timer that is
  running, the next one, or all of them - the handler never reads or writes a timer that was freed, however many rounds
  it runs, and it leaves (or, after any number of rounds, has) a well-formed list in which every node is a timer.
\<close>

theorem lv_timer_handler_safe:
  assumes "callbacks_ok cb" "timers_ok w"
  shows "\<exists>r w'. (lv_timer_handler cb fuel w = Some (Returned (r, w')) \<or> lv_timer_handler cb fuel w = Some (Still_running (r, w'))) \<and>
    timers_ok w'"
proof (cases "already_running w \<or> \<not> lv_timer_run w")
  case True
  then show ?thesis using assms(2) by (auto simp: lv_timer_handler_def timers_ok_def is_ll_def)
next
  case False
  define w0 where "w0 = w\<lparr>already_running := True\<rparr>"
  define start where "start = fst (lv_tick_get w0)"
  define w1 where "w1 = count_zero_start start (snd (lv_tick_get w0))"
  have "timers_ok w0" using assms(2) by (simp add: timers_ok_def w0_def is_ll_def)
  then have "timers_ok (snd (lv_tick_get w0))" using tick_get_kept [of w0] by (simp add: timers_kept_def)
  then obtain xs where xs: "is_ll lv_timer_ll xs w1" "dom (timers w1) = set xs"
    by (auto simp: timers_ok_def w1_def count_zero_start_def is_ll_def)
  obtain h where h: "lv_ll_get_head lv_timer_ll w1 = Some h" "h = 0 \<or> h \<in> set xs" using ll.head_in [OF xs(1)] by blast
  define w3 where "w3 = w1\<lparr>timer_deleted := False, timer_created := False, lv_timer_act := h\<rparr>"
  have "timers_ok w3" "lv_timer_act w3 = 0 \<or> timers w3 (lv_timer_act w3) \<noteq> None"
    using xs h(2) by (auto simp: w3_def timers_ok_def)
  from run_timers_safe [OF assms(1) this, of fuel] obtain w4 where
    w4: "run_timers cb fuel w3 = Some (Returned w4) \<or> run_timers cb fuel w3 = Some (Still_running w4)" "timers_ok w4" by blast
  have "lv_timer_run w0" using False by (simp add: w0_def)
  then have run: "lv_timer_handler cb fuel w = do { r \<leftarrow> run_timers cb fuel w3;
      case r of Still_running w \<Rightarrow> Some (Still_running (0, w)) | Returned w \<Rightarrow> map_option Returned (finish_handler start w) }"
    using False h(1) by (simp add: lv_timer_handler_def start_round_def case_prod_unfold Let_def w0_def [symmetric]
        start_def [symmetric] w1_def [symmetric] w3_def [symmetric])
  obtain t w5 where "finish_handler start w4 = Some (t, w5)" "timers_ok w5"
    using finish_ok [OF w4(2)] by blast
  then show ?thesis using w4 run by auto
qed

text \<open>Three timers, of which the first (its last run) and the third are due, across an overflow of the clock.\<close>

definition three_timers :: timer_world where
  "three_timers = \<lparr>wenv = \<lambda>h c. answer 50, log = [], i2c_obj = Map.empty,
     lls = [0x100 \<mapsto> \<lparr>ll_n_size = 24, ll_head = 10, ll_tail = 30\<rparr>],
     ll_nodes = [10 \<mapsto> \<lparr>node_size = 24, node_prev = 0, node_next = 20\<rparr>, 20 \<mapsto> \<lparr>node_size = 24, node_prev = 10, node_next = 30\<rparr>,
       30 \<mapsto> \<lparr>node_size = 24, node_prev = 20, node_next = 0\<rparr>],
     timers = [10 \<mapsto> \<lparr>tm_period = 100, last_run = 0xFFFFFFF0, timer_cb = 4, tm_user_data = 0, repeat_count = 1, paused = False\<rparr>,
       20 \<mapsto> \<lparr>tm_period = 100, last_run = 90, timer_cb = 4, tm_user_data = 0, repeat_count = - 1, paused = False\<rparr>,
       30 \<mapsto> \<lparr>tm_period = 40, last_run = 50, timer_cb = 6, tm_user_data = 0, repeat_count = 5, paused = False\<rparr>],
     lv_timer_run = True, timer_deleted = False, timer_created = False, lv_timer_act = 0, already_running = False, run_cnt = 0,
     idle_last = 0, idle_period_start = 0, busy_time = 0, sys_time = 100, tick_before = \<lambda>_. 0, tick_reads = 0\<rparr>"

lemma three_timers_ok:
  "is_ll lv_timer_ll [10, 20, 30] three_timers" "dom (timers three_timers) = set [10, 20, 30]" "timers_ok three_timers"
proof -
  show l: "is_ll lv_timer_ll [10, 20, 30] three_timers" by (simp add: is_ll_def three_timers_def lv_timer_ll_def)
  show d: "dom (timers three_timers) = set [10, 20, 30]" by (auto simp: three_timers_def)
  show "timers_ok three_timers" using l d unfolding timers_ok_def by blast
qed

lemma self_deleting_ok: "callbacks_ok (\<lambda>f t w. lv_timer_del t w)"
proof -
  have "\<exists>w'. lv_timer_del t w = Some w' \<and> timer_op\<^sup>*\<^sup>* w w'" if ok: "timers_ok w" and live: "timers w t \<noteq> None"
    for t and w :: "'a timer_world_scheme"
  proof -
    obtain xs where xs: "is_ll lv_timer_ll xs w" "dom (timers w) = set xs" using ok by (auto simp: timers_ok_def)
    then have "t \<in> set xs" using live by auto
    from del_ok [OF xs(1) this] obtain w' where "lv_timer_del t w = Some w'" by blast
    then show ?thesis using op_del [OF live] by blast
  qed
  then show ?thesis by (simp add: callbacks_ok_def)
qed

theorem lv_timer_handler_safe_witness:
  "\<exists>r w'. (lv_timer_handler (\<lambda>f t w. lv_timer_del t w) 20 three_timers = Some (Returned (r, w')) \<or>
    lv_timer_handler (\<lambda>f t w. lv_timer_del t w) 20 three_timers = Some (Still_running (r, w'))) \<and> timers_ok w'"
  using lv_timer_handler_safe [OF self_deleting_ok three_timers_ok(3)] .

section \<open>Which timers run\<close>

text \<open>
  Callbacks that leave the timers alone, seen as calls; and time that stands still while the handler runs.  What the handler then does
  with one timer: a due timer runs, its count is taken down, and when the count reaches zero the timer is deleted.
\<close>

definition calls_out :: "ptr \<Rightarrow> ptr \<Rightarrow> 'a timer_world_scheme \<Rightarrow> 'a timer_world_scheme option" where
  "calls_out f t w = Some (call_void (OS (Callback f t)) w)"

definition due :: "u32 \<Rightarrow> lv_timer_t \<Rightarrow> bool" where
  "due now tm \<longleftrightarrow> \<not> paused tm \<and> tm_period tm \<le> now - last_run tm"

definition run_once :: "u32 \<Rightarrow> lv_timer_t \<Rightarrow> lv_timer_t" where
  "run_once now tm = tm\<lparr>repeat_count := (if repeat_count tm > 0 then repeat_count tm - 1 else repeat_count tm), last_run := now\<rparr>"

definition last_time :: "u32 \<Rightarrow> lv_timer_t \<Rightarrow> bool" where
  "last_time now tm \<longleftrightarrow> due now tm \<and> repeat_count tm = 1"

definition step_calls :: "u32 \<Rightarrow> ptr \<Rightarrow> lv_timer_t \<Rightarrow> call list" where
  "step_calls now t tm = (if due now tm then (if timer_cb tm = 0 then [] else [OS (Callback (timer_cb tm) t)]) @
     (if repeat_count tm = 1 then [MEM (Free t)] else []) else [])"

definition step_timer :: "u32 \<Rightarrow> lv_timer_t \<Rightarrow> lv_timer_t option" where
  "step_timer now tm = (if last_time now tm then None else if due now tm then Some (run_once now tm) else Some tm)"

definition timers_after :: "u32 \<Rightarrow> (ptr \<Rightarrow> lv_timer_t option) \<Rightarrow> ptr list \<Rightarrow> ptr \<Rightarrow> lv_timer_t option" where
  "timers_after now m xs t = (if t \<in> set xs then Option.bind (m t) (step_timer now) else m t)"

definition kept_timers :: "u32 \<Rightarrow> (ptr \<Rightarrow> lv_timer_t option) \<Rightarrow> ptr list \<Rightarrow> ptr list" where
  "kept_timers now m xs = filter (\<lambda>t. \<not> last_time now (the (m t))) xs"

definition round_calls :: "u32 \<Rightarrow> (ptr \<Rightarrow> lv_timer_t option) \<Rightarrow> ptr list \<Rightarrow> call list" where
  "round_calls now m xs = concat (map (\<lambda>t. step_calls now t (the (m t))) xs)"

text \<open>The part of the state a step at a standing time leaves alone, and the calls it adds.\<close>

definition adds_calls :: "call list \<Rightarrow> 'a timer_world_scheme \<Rightarrow> 'a timer_world_scheme \<Rightarrow> bool" where
  "adds_calls cs w w' \<longleftrightarrow> (\<exists>evs. world.log w' = world.log w @ evs \<and> map fst evs = cs) \<and> sys_time w' = sys_time w \<and>
     tick_before w' = tick_before w \<and> timer_created w' = timer_created w"

lemma adds_calls_trans: "adds_calls cs w w1 \<Longrightarrow> adds_calls ds w1 w2 \<Longrightarrow> adds_calls (cs @ ds) w w2"
  unfolding adds_calls_def by (elim conjE exE, intro conjI) (auto intro!: exI)

lemma adds_no_calls [simp]: "adds_calls [] w w"
  by (simp add: adds_calls_def)

lemma adds_calls_upd [simp]:
  "adds_calls cs w (w'\<lparr>timer_deleted := b\<rparr>) = adds_calls cs w w'" "adds_calls cs w (w'\<lparr>lv_timer_act := q\<rparr>) = adds_calls cs w w'"
  "adds_calls cs w (set_timer t tm w') = adds_calls cs w w'" "adds_calls cs (set_timer t tm w) w' = adds_calls cs w w'"
  by (simp_all add: adds_calls_def set_timer_def)

lemma adds_calls_ticked: "ticked w w' \<Longrightarrow> tick_before w = (\<lambda>_. 0) \<Longrightarrow> adds_calls [] w w'"
  by (cases w; cases w') (simp add: adds_calls_def ticked_def)

lemma adds_calls_after: "adds_calls [c] w (after w c)"
  by (simp add: adds_calls_def)

lemma remaining_at_zero: "tm_period tm \<noteq> 0 \<Longrightarrow> remaining_at now tm = 0 \<longleftrightarrow> tm_period tm \<le> now - last_run tm"
  by (auto simp: remaining_at_def)

lemma sys_time_set_timer [simp]: "sys_time (set_timer t tm w) = sys_time w"
  by (simp add: set_timer_def)

lemma map_option_bind_eq: "(do { x \<leftarrow> m; Some (f x) }) = map_option f m" for m :: "'x option"
  by (cases m) simp_all

text \<open>Reading the clock while time stands still.\<close>

lemma standing_tick:
  assumes "tick_before w = (\<lambda>_. 0)"
  obtains w1 where "snd (lv_tick_get w) = w1" "fst (lv_tick_get w) = sys_time w" "ticked w w1" "sys_time w1 = sys_time w"
  using tick_get_ticked [of w] assms by (auto simp: ticked_def)

lemma exec_not_due:
  assumes "timers w t = Some tm" "\<not> due (sys_time w) tm" "tick_before w = (\<lambda>_. 0)" "repeat_count tm \<noteq> 0" "tm_period tm \<noteq> 0"
  shows "\<exists>w'. lv_timer_exec cb t w = Some (False, w') \<and> ticked w w'"
proof (cases "paused tm")
  case True
  then show ?thesis using assms(1) by (simp add: lv_timer_exec_def on_timer_def)
next
  case False
  obtain w1 where w1: "snd (lv_tick_get w) = w1" "ticked w w1" "sys_time w1 = sys_time w"
    using standing_tick [OF assms(3)] by metis
  have "remaining_at (sys_time w1) tm \<noteq> 0" using assms(2,5) False w1(3) remaining_at_zero by (simp add: due_def)
  moreover have "delete_if_over t w1 = Some w1" using ticked_sel [OF w1(2)] assms(1,4) by (simp add: delete_if_over_def on_timer_def)
  ultimately have "lv_timer_exec cb t w = Some (False, w1)"
    using remaining_eq [OF assms(1)] False w1(1) assms(1) by (simp add: lv_timer_exec_def on_timer_def [of t _ w])
  then show ?thesis using w1(2) by blast
qed

lemma exec_due:
  assumes l: "is_ll lv_timer_ll xs w" and live: "timers w t = Some tm" and t: "t \<in> set xs"
    and d: "due (sys_time w) tm" "tm_period tm \<noteq> 0" "repeat_count tm \<noteq> 0"
    and w: "tick_before w = (\<lambda>_. 0)" "\<not> timer_deleted w"
  shows "\<exists>w'. lv_timer_exec calls_out t w = Some (True, w') \<and> adds_calls (step_calls (sys_time w) t tm) w w' \<and>
    timers w' = (timers w)(t := step_timer (sys_time w) tm) \<and> timer_deleted w' = (repeat_count tm = 1) \<and>
    is_ll lv_timer_ll (if repeat_count tm = 1 then remove1 t xs else xs) w'"
proof -
  let ?now = "sys_time w"
  obtain w1 where w1: "snd (lv_tick_get w) = w1" "ticked w w1" "sys_time w1 = ?now"
    using standing_tick [OF w(1)] by metis
  define rc where "rc = (if repeat_count tm > 0 then repeat_count tm - 1 else repeat_count tm)"
  define w2 where "w2 = set_timer t (tm\<lparr>repeat_count := rc\<rparr>) w1"
  have s1: "timers w1 = timers w" "is_ll lv_timer_ll xs w1" "tick_before w1 = (\<lambda>_. 0)" "\<not> timer_deleted w1"
    using ticked_sel [OF w1(2)] l w by simp_all
  have u2: "upd_timer t (\<lambda>tm. tm\<lparr>repeat_count := (if repeat_count tm > 0 then repeat_count tm - 1 else repeat_count tm)\<rparr>) w1 = Some w2"
    using live s1(1) by (simp add: upd_timer_live w2_def rc_def)
  have "tick_before w2 = (\<lambda>_. 0)" using s1(3) by (simp add: w2_def set_timer_def)
  then obtain w3 where w3: "snd (lv_tick_get w2) = w3" "fst (lv_tick_get w2) = ?now" "ticked w2 w3" "sys_time w3 = ?now"
    using standing_tick [of w2] w1(3) by (metis sys_time_set_timer w2_def)
  define w4 where "w4 = set_timer t (run_once ?now tm) w3"
  have s3: "timers w3 = (timers w)(t \<mapsto> tm\<lparr>repeat_count := rc\<rparr>)" "is_ll lv_timer_ll xs w3" "\<not> timer_deleted w3"
    using ticked_sel [OF w3(3)] s1 by (simp_all add: w2_def set_timer_def)
  have u4: "upd_timer t (\<lambda>tm. tm\<lparr>last_run := ?now\<rparr>) w3 = Some w4"
    using s3(1) by (simp add: upd_timer_live w4_def run_once_def rc_def)
  have a4: "adds_calls [] w w4"
    using adds_calls_trans [OF adds_calls_ticked [OF w1(2) w(1)], of "[]" w3] adds_calls_ticked [OF w3(3) \<open>tick_before w2 = _\<close>]
    by (simp add: w4_def w2_def)
  define w5 where "w5 = (if timer_cb tm = 0 then w4 else after w4 (OS (Callback (timer_cb tm) t)))"
  have cb: "(if timer_cb tm \<noteq> 0 \<and> repeat_count tm \<noteq> 0 then calls_out (timer_cb tm) t w4 else Some w4) = Some w5"
    using d(3) by (simp add: w5_def calls_out_def io_simps)
  have a5: "adds_calls (if timer_cb tm = 0 then [] else [OS (Callback (timer_cb tm) t)]) w w5"
    using adds_calls_trans [OF a4 adds_calls_after] a4 by (simp add: w5_def)
  have s5: "timers w5 = (timers w)(t \<mapsto> run_once ?now tm)" "is_ll lv_timer_ll xs w5" "\<not> timer_deleted w5"
    using s3 by (simp_all add: w5_def w4_def set_timer_def)
  have "remaining_at (sys_time w1) tm = 0" using d(1,2) w1(3) remaining_at_zero by (simp add: due_def)
  then have run: "lv_timer_exec calls_out t w = map_option (\<lambda>w. (True, w)) (delete_if_over t w5)"
    using remaining_eq [OF live] w1(1) live d(1) u2 w3(1,2) u4 cb
    by (simp add: lv_timer_exec_def on_timer_def [of t _ w] due_def case_prod_unfold map_option_bind_eq)
  show ?thesis
  proof (cases "repeat_count tm = 1")
    case False
    then have "delete_if_over t w5 = Some w5" using d(3) s5(1) by (simp add: delete_if_over_def on_timer_def run_once_def)
    then show ?thesis using run a5 s5 False d(1) by (simp add: step_calls_def step_timer_def last_time_def)
  next
    case True
    obtain w6 where w6: "lv_timer_del t w5 = Some w6" "is_ll lv_timer_ll (remove1 t xs) w6" "timers w6 = (timers w5)(t := None)"
      "timer_deleted w6" "adds_calls [MEM (Free t)] w5 w6"
      using del_ok [OF s5(2) t] by (auto simp: adds_calls_def)
    have "delete_if_over t w5 = Some w6" using True s5(1,3) w6(1) by (simp add: delete_if_over_def on_timer_def run_once_def)
    then show ?thesis
      using run w6 adds_calls_trans [OF a5 w6(5)] s5(1) True d(1) by (simp add: step_calls_def step_timer_def last_time_def)
  qed
qed

text \<open>The timers of a round, one after the other.\<close>

lemma after_simps [simp]:
  "round_calls now m [] = []" "kept_timers now m [] = []" "timers_after now m [] = m"
  "round_calls now m (as @ bs) = round_calls now m as @ round_calls now m bs"
  "kept_timers now m (as @ bs) = kept_timers now m as @ kept_timers now m bs"
  by (auto simp: round_calls_def kept_timers_def timers_after_def)

lemma after_Cons:
  "m b = Some tm \<Longrightarrow> round_calls now m (b # bs) = step_calls now b tm @ round_calls now m bs"
  "m b = Some tm \<Longrightarrow> kept_timers now m (b # bs) = (if last_time now tm then kept_timers now m bs else b # kept_timers now m bs)"
  "m b = Some tm \<Longrightarrow> b \<notin> set bs \<Longrightarrow> timers_after now m (b # bs) = timers_after now (m(b := step_timer now tm)) bs"
  by (auto simp: round_calls_def kept_timers_def timers_after_def fun_eq_iff)

lemma after_other:
  "b \<notin> set bs \<Longrightarrow> round_calls now (m(b := v)) bs = round_calls now m bs"
  "b \<notin> set bs \<Longrightarrow> kept_timers now (m(b := v)) bs = kept_timers now m bs"
  by (induction bs) (auto simp: round_calls_def kept_timers_def)

lemma after_not_due:
  assumes "\<forall>t \<in> set as. \<not> due now (the (m t))"
  shows "round_calls now m as = []" "kept_timers now m as = as" "timers_after now m (as @ bs) = timers_after now m bs"
proof -
  have "Option.bind (m t) (step_timer now) = m t" if "t \<in> set as" for t
    using assms that by (cases "m t") (auto simp: step_timer_def last_time_def)
  then show "timers_after now m (as @ bs) = timers_after now m bs" by (auto simp: timers_after_def fun_eq_iff)
qed (use assms in \<open>induction as; simp add: round_calls_def kept_timers_def step_calls_def last_time_def\<close>)+

definition timely :: "(ptr \<Rightarrow> lv_timer_t option) \<Rightarrow> bool" where
  "timely m \<longleftrightarrow> (\<forall>t tm. m t = Some tm \<longrightarrow> tm_period tm \<noteq> 0 \<and> repeat_count tm \<noteq> 0)"

lemma timely_step: "timely m \<Longrightarrow> m b = Some tm \<Longrightarrow> timely (m(b := step_timer now tm))"
  by (auto simp: timely_def step_timer_def last_time_def run_once_def)

lemma step_not_due: "tm_period tm \<noteq> 0 \<Longrightarrow> step_timer now tm = Some tm' \<Longrightarrow> \<not> due now tm'"
  by (auto simp: step_timer_def due_def run_once_def split: if_splits)

text \<open>The handler stands before \<open>bs\<close>, in a round in which no timer was created or deleted yet; no timer of \<open>as\<close> is due.\<close>

definition at_timer :: "u32 \<Rightarrow> (ptr \<Rightarrow> lv_timer_t option) \<Rightarrow> ptr list \<Rightarrow> ptr list \<Rightarrow> 'a timer_world_scheme \<Rightarrow> bool" where
  "at_timer now m as bs w \<longleftrightarrow> is_ll lv_timer_ll (as @ bs) w \<and> timers w = m \<and> dom m = set (as @ bs) \<and> sys_time w = now \<and>
     tick_before w = (\<lambda>_. 0) \<and> \<not> timer_deleted w \<and> \<not> timer_created w \<and> lv_timer_act w = hd (bs @ [0]) \<and> timely m \<and>
     (\<forall>t \<in> set as. \<not> due now (the (m t)))"

lemma at_timerD:
  assumes "at_timer now m as (b # bs) w"
  shows "b \<noteq> 0 \<and> b \<notin> set as \<and> b \<notin> set bs \<and> set as \<inter> set bs = {} \<and> distinct as \<and> lv_timer_act w = b \<and>
    lv_ll_get_next lv_timer_ll b w = Some (hd (bs @ [0])) \<and> (\<exists>tm. m b = Some tm \<and> tm_period tm \<noteq> 0 \<and> repeat_count tm \<noteq> 0)"
proof -
  have "dom m = set (as @ b # bs)" using assms by (simp add: at_timer_def)
  then obtain tm where "m b = Some tm" by fastforce
  then show ?thesis
    using is_ll_props [of lv_timer_ll "as @ b # bs" w] ll.lst_next [of lv_timer_ll as b bs w] assms
    by (auto simp: at_timer_def timely_def)
qed

lemma step_on:
  assumes st: "at_timer now m as (b # bs) w" and tm: "m b = Some tm" and on: "\<not> last_time now tm"
  shows "\<exists>w'. run_timers calls_out (Suc fuel) w = run_timers calls_out fuel w' \<and>
    at_timer now (m(b := step_timer now tm)) (as @ [b]) bs w' \<and> adds_calls (step_calls now b tm) w w'"
proof -
  note D = at_timerD [OF st]
  have w: "is_ll lv_timer_ll (as @ b # bs) w" "timers w b = Some tm" "sys_time w = now" "tick_before w = (\<lambda>_. 0)" "\<not> timer_deleted w"
    "\<not> timer_created w" "tm_period tm \<noteq> 0" "repeat_count tm \<noteq> 0" "timers w = m"
    using st tm D by (auto simp: at_timer_def)
  obtain ex w1 where w1: "lv_timer_exec calls_out b w = Some (ex, w1)" "adds_calls (step_calls now b tm) w w1"
    "timers w1 = m(b := step_timer now tm)" "\<not> timer_deleted w1" "is_ll lv_timer_ll (as @ b # bs) w1"
  proof (cases "due now tm")
    case True
    then have rc: "repeat_count tm \<noteq> 1" using on by (simp add: last_time_def)
    have "\<exists>w1. lv_timer_exec calls_out b w = Some (True, w1) \<and> adds_calls (step_calls now b tm) w w1 \<and>
        timers w1 = m(b := step_timer now tm) \<and> timer_deleted w1 = False \<and> is_ll lv_timer_ll (as @ b # bs) w1"
      using exec_due [OF w(1,2) _ _ w(7,8,4,5)] True rc w(3,9) by simp
    then show thesis using that by blast
  next
    case False
    then obtain w1 where e: "lv_timer_exec calls_out b w = Some (False, w1)" "ticked w w1"
      using exec_not_due [OF w(2) _ w(4,8,7)] w(3) by blast
    have "adds_calls (step_calls now b tm) w w1" using adds_calls_ticked [OF e(2) w(4)] False by (simp add: step_calls_def)
    moreover have "step_timer now tm = Some tm" using False on by (simp add: step_timer_def)
    ultimately show thesis using that [OF e(1)] ticked_sel [OF e(2)] w(1,5,9) tm by (simp add: fun_upd_idem)
  qed
  have st_tm: "step_timer now tm \<noteq> None" using on by (simp add: step_timer_def)
  define w2 where "w2 = w1\<lparr>lv_timer_act := hd (bs @ [0])\<rparr>"
  have c: "\<not> timer_created w1" "sys_time w1 = now" "tick_before w1 = (\<lambda>_. 0)" using w1(2) w(3,4,6) by (simp_all add: adds_calls_def)
  have "run_timers calls_out (Suc fuel) w = run_timers calls_out fuel w2" using D w1(1,4) c(1) by (simp add: w2_def)
  moreover have "\<forall>t \<in> set (as @ [b]). \<not> due now (the ((m(b := step_timer now tm)) t))"
    using st D step_not_due [OF w(7)] st_tm by (auto simp: at_timer_def)
  moreover have "dom (m(b := step_timer now tm)) = set ((as @ [b]) @ bs)" using st st_tm by (auto simp: at_timer_def)
  moreover have "timely (m(b := step_timer now tm))" using timely_step st tm by (simp add: at_timer_def)
  ultimately have "at_timer now (m(b := step_timer now tm)) (as @ [b]) bs w2" "run_timers calls_out (Suc fuel) w = run_timers calls_out fuel w2"
    using w1(3-5) c by (simp_all add: at_timer_def w2_def)
  then show ?thesis using w1(2) by (auto simp: w2_def)
qed

lemma step_back:
  assumes st: "at_timer now m as (b # bs) w" and tm: "m b = Some tm" and last: "last_time now tm"
  shows "\<exists>w'. run_timers calls_out (Suc fuel) w = run_timers calls_out fuel w' \<and>
    at_timer now (m(b := None)) [] (as @ bs) w' \<and> adds_calls (step_calls now b tm) w w'"
proof -
  note D = at_timerD [OF st]
  have w: "is_ll lv_timer_ll (as @ b # bs) w" "timers w b = Some tm" "sys_time w = now" "tick_before w = (\<lambda>_. 0)" "\<not> timer_deleted w"
    "\<not> timer_created w" "tm_period tm \<noteq> 0" "repeat_count tm \<noteq> 0" "timers w = m"
    using st tm D by (auto simp: at_timer_def)
  have "\<exists>w1. lv_timer_exec calls_out b w = Some (True, w1) \<and> adds_calls (step_calls now b tm) w w1 \<and>
      timers w1 = m(b := None) \<and> timer_deleted w1 = True \<and> is_ll lv_timer_ll (as @ bs) w1"
    using exec_due [OF w(1,2) _ _ w(7,8,4,5)] last w(3,9) D by (simp add: last_time_def step_timer_def remove1_append)
  then obtain w1 where w1: "lv_timer_exec calls_out b w = Some (True, w1)" "adds_calls (step_calls now b tm) w w1"
    "timers w1 = m(b := None)" "timer_deleted w1" "is_ll lv_timer_ll (as @ bs) w1" by blast
  have c: "sys_time w1 = now" "tick_before w1 = (\<lambda>_. 0)" using w1(2) w(3,4) by (simp_all add: adds_calls_def)
  define w2 where "w2 = w1\<lparr>timer_deleted := False, timer_created := False, lv_timer_act := hd ((as @ bs) @ [0])\<rparr>"
  have "start_round w1 = Some w2" using is_ll_ends [OF w1(5)] by (simp add: start_round_def w2_def)
  then have "run_timers calls_out (Suc fuel) w = run_timers calls_out fuel w2" using D w1(1,4) by simp
  moreover have "at_timer now (m(b := None)) [] (as @ bs) w2"
    using st D w1(3,5) c by (auto simp: at_timer_def w2_def timely_def)
  moreover have "adds_calls (step_calls now b tm) w w2" using w1(2) w(6) by (simp add: adds_calls_def w2_def)
  ultimately show ?thesis by blast
qed

definition last_count :: "u32 \<Rightarrow> (ptr \<Rightarrow> lv_timer_t option) \<Rightarrow> ptr list \<Rightarrow> nat" where
  "last_count now m xs = length (filter (\<lambda>t. last_time now (the (m t))) xs)"

lemma last_count_simps [simp]:
  "last_count now m (as @ bs) = last_count now m as + last_count now m bs"
  "last_count now m (b # bs) = (if last_time now (the (m b)) then 1 else 0) + last_count now m bs"
  by (simp_all add: last_count_def)

lemma last_count_other [simp]: "b \<notin> set bs \<Longrightarrow> last_count now (m(b := v)) bs = last_count now m bs"
  unfolding last_count_def by (rule arg_cong [where f = length]) (rule filter_cong, auto)

lemma last_count_not_due: "\<forall>t \<in> set as. \<not> due now (the (m t)) \<Longrightarrow> last_count now m as = 0"
  by (simp add: last_count_def last_time_def)

lemma run_rounds:
  assumes "at_timer now m as bs w" "length bs + last_count now m bs * length (as @ bs) < fuel"
  shows "\<exists>w'. run_timers calls_out fuel w = Some (Returned w') \<and> adds_calls (round_calls now m bs) w w' \<and>
    timers w' = timers_after now m bs \<and> is_ll lv_timer_ll (as @ kept_timers now m bs) w'"
  using assms
proof (induction fuel arbitrary: m as bs w)
  case (Suc fuel)
  show ?case
  proof (cases bs)
    case Nil
    then show ?thesis using Suc.prems(1) by (simp add: at_timer_def)
  next
    case (Cons b cs)
    have st: "at_timer now m as (b # cs) w" using Suc.prems(1) Cons by simp
    note D = at_timerD [OF st]
    obtain tm where tm: "m b = Some tm" using D by blast
    show ?thesis
    proof (cases "last_time now tm")
      case False
      obtain w1 where w1: "run_timers calls_out (Suc fuel) w = run_timers calls_out fuel w1"
        "at_timer now (m(b := step_timer now tm)) (as @ [b]) cs w1" "adds_calls (step_calls now b tm) w w1"
        using step_on [OF st tm False] by blast
      have "length cs + last_count now (m(b := step_timer now tm)) cs * length ((as @ [b]) @ cs) < fuel"
        using Suc.prems(2) D tm False by (simp add: Cons)
      from Suc.IH [OF w1(2) this] obtain w' where w': "run_timers calls_out fuel w1 = Some (Returned w')"
        "adds_calls (round_calls now (m(b := step_timer now tm)) cs) w1 w'" "timers w' = timers_after now (m(b := step_timer now tm)) cs"
        "is_ll lv_timer_ll ((as @ [b]) @ kept_timers now (m(b := step_timer now tm)) cs) w'" by blast
      show ?thesis
        using w1(1) w'(1,3,4) adds_calls_trans [OF w1(3) w'(2)] D False
        by (intro exI [of _ w']) (simp add: Cons after_Cons [where m = m, OF tm] after_other del: run_timers.simps)
    next
      case True
      obtain w1 where w1: "run_timers calls_out (Suc fuel) w = run_timers calls_out fuel w1"
        "at_timer now (m(b := None)) [] (as @ cs) w1" "adds_calls (step_calls now b tm) w w1"
        using step_back [OF st tm True] by blast
      have nd: "\<forall>t \<in> set as. \<not> due now (the ((m(b := None)) t))" using st D by (auto simp: at_timer_def)
      note as = after_not_due [OF nd] last_count_not_due [OF nd]
      have "length (as @ cs) + last_count now (m(b := None)) (as @ cs) * length ([] @ as @ cs) < fuel"
        using Suc.prems(2) D tm True by (simp add: Cons as)
      from Suc.IH [OF w1(2) this] obtain w' where w': "run_timers calls_out fuel w1 = Some (Returned w')"
        "adds_calls (round_calls now (m(b := None)) (as @ cs)) w1 w'" "timers w' = timers_after now (m(b := None)) (as @ cs)"
        "is_ll lv_timer_ll ([] @ kept_timers now (m(b := None)) (as @ cs)) w'" by blast
      show ?thesis
        using w1(1) w'(1) w'(3,4) [unfolded after_simps as] adds_calls_trans [OF w1(3) w'(2) [unfolded after_simps as]] D True
        by (intro exI [of _ w'])
          (simp add: Cons after_Cons(1,2) [where m = m, OF tm] after_Cons(3) [where m = m, OF tm, unfolded step_timer_def] after_other
            del: run_timers.simps fun_upd_apply)
    qed
  qed
qed simp

lemma idle_standing:
  assumes "tick_before w = (\<lambda>_. 0)"
  shows "let w' = (measure_idle h w)\<lparr>already_running := b\<rparr> in is_ll p xs w' = is_ll p xs w \<and> timers w' = timers w \<and>
    adds_calls [] w w' \<and> already_running w' = b"
  using assms by (simp add: measure_idle_def tick_elaps_eq lv_tick_get_def lv_tick_inc_def Let_def is_ll_def adds_calls_def)

lemma finish_standing:
  assumes "is_ll lv_timer_ll ys w" "set ys \<subseteq> dom (timers w)" "tick_before w = (\<lambda>_. 0)"
  shows "\<exists>w'. finish_handler start w = Some (least_remaining (sys_time w) (timers w) ys LV_NO_TIMER_READY, w') \<and>
    is_ll lv_timer_ll ys w' \<and> timers w' = timers w \<and> adds_calls [] w w' \<and> \<not> already_running w'"
proof -
  obtain w1 where w1: "till_next (hd (ys @ [0])) LV_NO_TIMER_READY w =
      Some (least_remaining (sys_time w) (timers w) ys LV_NO_TIMER_READY, w1)" "ticked w w1"
    using till_next_eq [of "[]" ys w LV_NO_TIMER_READY] assms by auto
  note s = ticked_sel [OF w1(2)]
  have "tick_before w1 = (\<lambda>_. 0)" using s assms(3) by simp
  from idle_standing [OF this, where p = lv_timer_ll and xs = ys and h = start and b = False] adds_calls_trans [OF adds_calls_ticked [OF w1(2) assms(3)]] show ?thesis
    using w1(1) is_ll_ends [OF assms(1)] s assms(1) by (auto simp: finish_handler_def Let_def)
qed

lemma kept_dom: "set (kept_timers now m xs) \<subseteq> dom m \<Longrightarrow> set (kept_timers now m xs) \<subseteq> dom (timers_after now m xs)"
  by (fastforce simp: kept_timers_def timers_after_def step_timer_def)

lemma count_zero_same:
  "is_ll p xs (count_zero_start h w) = is_ll p xs w \<and> timers (count_zero_start h w) = timers w \<and>
     sys_time (count_zero_start h w) = sys_time w \<and> tick_before (count_zero_start h w) = tick_before w \<and>
     world.log (count_zero_start h w) = world.log w"
  by (simp add: count_zero_start_def is_ll_def)

lemma enter_handler:
  assumes "is_ll lv_timer_ll xs w" "dom (timers w) = set xs" "lv_timer_run w" "\<not> already_running w" "tick_before w = (\<lambda>_. 0)"
    "timely (timers w)"
  shows "\<exists>w1. at_timer (sys_time w) (timers w) [] xs w1 \<and> world.log w1 = world.log w \<and>
    lv_timer_handler cb fuel w = do { r \<leftarrow> run_timers cb fuel w1;
      case r of Still_running w \<Rightarrow> Some (Still_running (0, w)) | Returned w' \<Rightarrow> map_option Returned (finish_handler (sys_time w) w') }"
proof -
  define w0 where "w0 = w\<lparr>already_running := True\<rparr>"
  have w0: "is_ll lv_timer_ll xs w0" "timers w0 = timers w" "lv_timer_run w0" "tick_before w0 = (\<lambda>_. 0)" "sys_time w0 = sys_time w"
    "world.log w0 = world.log w"
    using assms(1,3,5) by (simp_all add: w0_def is_ll_def)
  obtain w1 where w1: "snd (lv_tick_get w0) = w1" "fst (lv_tick_get w0) = sys_time w" "ticked w0 w1" "sys_time w1 = sys_time w"
    using standing_tick [OF w0(4)] w0(5) by metis
  note s = ticked_sel [OF w1(3)]
  define w2 where "w2 = count_zero_start (sys_time w) w1"
  have w2: "is_ll lv_timer_ll xs w2" "timers w2 = timers w" "sys_time w2 = sys_time w" "tick_before w2 = (\<lambda>_. 0)" "world.log w2 = world.log w"
    using s w0 w1(4) count_zero_same [where h = "sys_time w" and w = w1] by (simp_all add: w2_def)
  define w3 where "w3 = w2\<lparr>timer_deleted := False, timer_created := False, lv_timer_act := hd (xs @ [0])\<rparr>"
  have "start_round w2 = Some w3" using is_ll_ends [OF w2(1)] by (simp add: start_round_def w3_def)
  then have "lv_timer_handler cb fuel w = do { r \<leftarrow> run_timers cb fuel w3;
      case r of Still_running w \<Rightarrow> Some (Still_running (0, w)) | Returned w' \<Rightarrow> map_option Returned (finish_handler (sys_time w) w') }"
    using assms(4) w0(3) w1(1,2)
    by (simp add: lv_timer_handler_def case_prod_unfold Let_def w0_def [symmetric] w2_def [symmetric])
  moreover have "at_timer (sys_time w) (timers w) [] xs w3" using w2 assms(2,6) by (simp add: at_timer_def w3_def)
  ultimately show ?thesis using w2(5) by (intro exI [of _ w3]) (simp add: w3_def)
qed



section \<open>The clock\<close>

text \<open>
  C35. A timer's remaining time is right for every elapsed time below 2^32 ms, also when the 32-bit clock overflowed since its last
  run; and after \<^verbatim>\<open>lv_timer_ready\<close> a timer is due at once, except one whose period is the largest value (0xFFFFFFFF),
  which then waits for a whole period: its elapsed time, the period plus one, is zero.
\<close>

theorem lv_timer_clock_wraps:
  assumes "timers w t = Some tm" "tick_before w = (\<lambda>_. 0)" "d < 2 ^ 32" "sys_time w = last_run tm + of_nat d"
  shows "map_option fst (lv_timer_time_remaining t w) = Some (if unat (tm_period tm) \<le> d then 0 else of_nat (unat (tm_period tm) - d)) \<and>
    (\<exists>w'. lv_timer_ready t w = Some w' \<and>
      map_option fst (lv_timer_time_remaining t w') = Some (if tm_period tm = 0xFFFFFFFF then 0xFFFFFFFF else 0))"
proof -
  let ?p = "tm_period tm"
  obtain w1 where w1: "snd (lv_tick_get w) = w1" "fst (lv_tick_get w) = sys_time w" "ticked w w1" "sys_time w1 = sys_time w"
    using standing_tick [OF assms(2)] by metis
  have d: "unat (of_nat d :: u32) = d" using assms(3) by (simp add: unsigned_of_nat take_bit_nat_eq_self)
  have le: "?p \<le> of_nat d \<longleftrightarrow> unat ?p \<le> d" using d by (simp add: word_le_nat_alt)
  have "?p - of_nat d = of_nat (unat ?p - d)" if "d < unat ?p" using that by (simp add: of_nat_diff)
  then have r: "remaining_at (sys_time w) tm = (if unat ?p \<le> d then 0 else of_nat (unat ?p - d))"
    using le by (simp add: remaining_at_def assms(4))
  define w2 where "w2 = set_timer t (tm\<lparr>last_run := sys_time w - ?p - 1\<rparr>) w1"
  have u: "lv_timer_ready t w = Some w2"
    using w1 ticked_sel [OF w1(3)] assms(1) by (simp add: lv_timer_ready_def case_prod_unfold upd_timer_live w2_def)
  have "tick_before w2 = (\<lambda>_. 0)" "timers w2 t = Some (tm\<lparr>last_run := sys_time w - ?p - 1\<rparr>)" "sys_time w2 = sys_time w"
    using ticked_sel [OF w1(3)] assms(2) w1(4) by (simp_all add: w2_def set_timer_def)
  then have r2: "map_option fst (lv_timer_time_remaining t w2) =
      Some (remaining_at (sys_time w) (tm\<lparr>last_run := sys_time w - ?p - 1\<rparr>))"
    using standing_tick [of w2] remaining_eq [of w2 t] by (metis fst_conv option.map(2))
  have e: "sys_time w - (sys_time w - ?p - 1) = ?p + 1" by simp
  have "?p \<le> ?p + 1" if "?p \<noteq> 0xFFFFFFFF"
  proof -
    have "uint ?p \<noteq> uint (0xFFFFFFFF :: u32)" using that by (metis word_uint_eqI)
    then have "uint ?p + uint (1 :: u32) < 2 ^ LENGTH(32)" using uint_bounded [of ?p] by simp
    then show ?thesis by (simp add: no_olen_add)
  qed
  then have "remaining_at (sys_time w) (tm\<lparr>last_run := sys_time w - ?p - 1\<rparr>) = (if ?p = 0xFFFFFFFF then 0xFFFFFFFF else 0)"
    by (simp add: remaining_at_def e)
  then show ?thesis using u r2 r remaining_eq [OF assms(1)] w1(1,4) by auto
qed

theorem lv_timer_clock_wraps_witness:
  "map_option fst (lv_timer_time_remaining 10 three_timers) = Some 0 \<and> map_option fst (lv_timer_time_remaining 20 three_timers) = Some 90"
proof -
  have a: "map_option fst (lv_timer_time_remaining 10 three_timers) = Some 0"
    using lv_timer_clock_wraps [of three_timers 10 "the (timers three_timers 10)" 116] by (simp add: three_timers_def)
  have b: "map_option fst (lv_timer_time_remaining 20 three_timers) = Some 90"
    using lv_timer_clock_wraps [of three_timers 20 "the (timers three_timers 20)" 10] by (simp add: three_timers_def)
  from a b show ?thesis ..
qed

end
