(* ===== verification/Qmi8658.thy ===== *)
theory Qmi8658
  imports Complex_Main Reg_Device
begin

text \<open>
  The QMI8658 inertial sensor of components/QMI8658/QMI8658.c: the I2C bus set-up, the probe and
  configuration of the chip, and the reading of acceleration, rotation, temperature and tilt.

  C's \<^verbatim>\<open>float\<close> and \<^verbatim>\<open>double\<close> are modelled as the reals with the infinities and NaN that
  \<^verbatim>\<open>acc / 0\<close> produces; rounding is not modelled.  The temperature, a multiple of 1/256 of at most
  16 bits, is exact in \<^verbatim>\<open>float\<close> anyway.
\<close>

section \<open>Floating-point values\<close>

datatype fval = Fin real | PInf | MInf | NaN

text \<open>Division by a divisor whose zero is a positive zero, as every divisor in this file is.\<close>

fun fdiv :: "fval \<Rightarrow> fval \<Rightarrow> fval" where
  "fdiv (Fin a) (Fin b) =
     (if b \<noteq> 0 then Fin (a / b) else if a > 0 then PInf else if a < 0 then MInf else NaN)"
| "fdiv _ _ = NaN"

fun fatan :: "fval \<Rightarrow> fval" where
  "fatan (Fin x) = Fin (arctan x)"
| "fatan PInf = Fin (pi / 2)"
| "fatan MInf = Fin (- (pi / 2))"
| "fatan NaN = NaN"

fun fscale :: "fval \<Rightarrow> real \<Rightarrow> fval" where
  "fscale (Fin x) c = Fin (x * c)"
| "fscale PInf c = (if c > 0 then PInf else if c < 0 then MInf else NaN)"
| "fscale MInf c = (if c > 0 then MInf else if c < 0 then PInf else NaN)"
| "fscale NaN c = NaN"

section \<open>State and registers\<close>

record t_sQMI8658 =
  acc_x :: int
  acc_y :: int
  acc_z :: int
  gry_x :: int
  gry_y :: int
  gry_z :: int
  AngleX :: fval
  AngleY :: fval
  AngleZ :: fval
  temperature :: real

definition QMI8658_BSP_I2C_NUM :: nat where "QMI8658_BSP_I2C_NUM = 0"
definition QMI8658_SENSOR_ADDR :: u8 where "QMI8658_SENSOR_ADDR = 0x6A"
definition QMI8658_WHO_AM_I :: u8 where "QMI8658_WHO_AM_I = 0"
definition QMI8658_CTRL1 :: u8 where "QMI8658_CTRL1 = 2"
definition QMI8658_CTRL2 :: u8 where "QMI8658_CTRL2 = 3"
definition QMI8658_CTRL3 :: u8 where "QMI8658_CTRL3 = 4"
definition QMI8658_CTRL7 :: u8 where "QMI8658_CTRL7 = 8"
definition QMI8658_STATUS0 :: u8 where "QMI8658_STATUS0 = 46"
definition QMI8658_TEMP_L :: u8 where "QMI8658_TEMP_L = 51"
definition QMI8658_AX_L :: u8 where "QMI8658_AX_L = 53"
definition QMI8658_RESET :: u8 where "QMI8658_RESET = 96"

lemmas qmi_consts = QMI8658_BSP_I2C_NUM_def QMI8658_SENSOR_ADDR_def QMI8658_WHO_AM_I_def
  QMI8658_CTRL1_def QMI8658_CTRL2_def QMI8658_CTRL3_def QMI8658_CTRL7_def QMI8658_STATUS0_def
  QMI8658_TEMP_L_def QMI8658_AX_L_def QMI8658_RESET_def

section \<open>Bus and register access\<close>

definition i2c_master_init :: "'a world_scheme \<Rightarrow> esp_err \<times> 'a world_scheme" where
  "i2c_master_init w =
     (let w = call_void (I2C (I2C_param_config QMI8658_BSP_I2C_NUM 1 2 True True 400000)) w
      in i2c_driver_install QMI8658_BSP_I2C_NUM I2C_MODE_MASTER 0 0 0 w)"

definition QMI8658_register_read ::
  "u8 \<Rightarrow> u8 list \<Rightarrow> 'a world_scheme \<Rightarrow> (esp_err \<times> u8 list \<times> 'a world_scheme) option" where
  "QMI8658_register_read reg_addr buf w =
     i2c_master_write_read_device QMI8658_BSP_I2C_NUM QMI8658_SENSOR_ADDR [reg_addr] buf (1000 div 10) w"

definition QMI8658_register_write_byte ::
  "u8 \<Rightarrow> u8 \<Rightarrow> 'a world_scheme \<Rightarrow> (esp_err \<times> 'a world_scheme) option" where
  "QMI8658_register_write_byte reg_addr data w =
     i2c_master_write_to_device QMI8658_BSP_I2C_NUM QMI8658_SENSOR_ADDR [reg_addr, data] (1000 div 10) w"

section \<open>Initialisation\<close>

text \<open>The probe loop: at most ten more reads of the identity, one second apart.\<close>

function QMI8658_probe :: "u8 \<Rightarrow> nat \<Rightarrow> 'a world_scheme \<Rightarrow> (u8 \<times> 'a world_scheme) option" where
  "QMI8658_probe ident retry_count w =
     (if ident \<noteq> 0x05 \<and> retry_count < 10 then
        (let w = call_void (OS (Task_delay (pdMS_TO_TICKS 1000))) w
         in do { (_, b, w) \<leftarrow> QMI8658_register_read QMI8658_WHO_AM_I [ident] w;
                 QMI8658_probe (hd b) (retry_count + 1) w })
      else Some (ident, w))"
  by pat_completeness auto
termination by (relation "measure (\<lambda>(_, n, _). 10 - n)") auto

text \<open>\<open>id0\<close>: the indeterminate value of the local \<^verbatim>\<open>id\<close>.  The probe's outcome is only logged.\<close>

definition QMI8658_Init :: "u8 \<Rightarrow> 'a world_scheme \<Rightarrow> 'a world_scheme option" where
  "QMI8658_Init id0 w =
     (let (_, w) = i2c_master_init w
      in do {
        (_, b, w) \<leftarrow> QMI8658_register_read QMI8658_WHO_AM_I [id0] w;
        (_, w) \<leftarrow> QMI8658_probe (hd b) 0 w;
        (_, w) \<leftarrow> QMI8658_register_write_byte QMI8658_RESET 0xB0 w;
        let w = call_void (OS (Task_delay (pdMS_TO_TICKS 20))) w;
        write_each QMI8658_register_write_byte
          [(QMI8658_CTRL1, 0x40), (QMI8658_CTRL7, 0x03), (QMI8658_CTRL2, 0x95), (QMI8658_CTRL3, 0xd5)] w })"

section \<open>Measurements\<close>

text \<open>A little-endian \<^verbatim>\<open>int16_t\<close> of a byte buffer.\<close>

definition le16 :: "u8 \<Rightarrow> u8 \<Rightarrow> int" where
  "le16 lo hi = sint (word_cat hi lo :: u16)"

text \<open>\<open>status0\<close> and \<open>buf0\<close>: the indeterminate contents of the locals \<^verbatim>\<open>status\<close> and \<^verbatim>\<open>buf\<close> (12 bytes).\<close>

definition QMI8658_Read_AccGry ::
  "u8 \<Rightarrow> u8 list \<Rightarrow> t_sQMI8658 \<Rightarrow> 'a world_scheme \<Rightarrow> (t_sQMI8658 \<times> 'a world_scheme) option" where
  "QMI8658_Read_AccGry status0 buf0 p w = do {
     (_, st, w) \<leftarrow> QMI8658_register_read QMI8658_STATUS0 [status0] w;
     if hd st AND 0x03 \<noteq> 0 then do {
       (_, b, w) \<leftarrow> QMI8658_register_read QMI8658_AX_L buf0 w;
       Some (p\<lparr>acc_x := le16 (b ! 0) (b ! 1), acc_y := le16 (b ! 2) (b ! 3), acc_z := le16 (b ! 4) (b ! 5),
               gry_x := le16 (b ! 6) (b ! 7), gry_y := le16 (b ! 8) (b ! 9), gry_z := le16 (b ! 10) (b ! 11)\<rparr>, w) }
     else Some (p, w) }"

definition QMI8658_Read_Temperature ::
  "u8 list \<Rightarrow> t_sQMI8658 \<Rightarrow> 'a world_scheme \<Rightarrow> (t_sQMI8658 \<times> 'a world_scheme) option" where
  "QMI8658_Read_Temperature data0 p w = do {
     (_, d, w) \<leftarrow> QMI8658_register_read QMI8658_TEMP_L data0 w;
     let temp_h = sint (d ! 1);
     let temp_l = uint (d ! 0);
     Some (p\<lparr>temperature := real_of_int temp_h + real_of_int temp_l / 256\<rparr>, w) }"

definition rad_to_deg :: real where "rad_to_deg = 57.29578"

definition tilt :: "fval \<Rightarrow> fval \<Rightarrow> fval" where
  "tilt num den = fscale (fatan (fdiv num den)) rad_to_deg"

definition QMI8658_fetch_angleFromAcc ::
  "u8 \<Rightarrow> u8 list \<Rightarrow> t_sQMI8658 \<Rightarrow> 'a world_scheme \<Rightarrow> (t_sQMI8658 \<times> 'a world_scheme) option" where
  "QMI8658_fetch_angleFromAcc status0 buf0 p w = do {
     (p, w) \<leftarrow> QMI8658_Read_AccGry status0 buf0 p w;
     let x = real_of_int (acc_x p); let y = real_of_int (acc_y p); let z = real_of_int (acc_z p);
     Some (p\<lparr>AngleX := tilt (Fin x) (Fin (sqrt (y * y + z * z))),
             AngleY := tilt (Fin y) (Fin (sqrt (x * x + z * z))),
             AngleZ := tilt (Fin (sqrt (x * x + y * y))) (Fin z)\<rparr>, w) }"

section \<open>The sensor as a register device\<close>

abbreviation qmi_regs :: "'a world_scheme \<Rightarrow> u8 \<Rightarrow> u8 option" where
  "qmi_regs \<equiv> dev_regs QMI8658_BSP_I2C_NUM QMI8658_SENSOR_ADDR"

lemma QMI8658_write_fun:
  "QMI8658_register_write_byte =
     (\<lambda>r v. i2c_master_write_to_device QMI8658_BSP_I2C_NUM QMI8658_SENSOR_ADDR [r, v] (1000 div 10))"
  by (simp add: QMI8658_register_write_byte_def fun_eq_iff)

interpretation qmi: reg_device QMI8658_register_write_byte qmi_regs
  unfolding QMI8658_write_fun by (rule write_to_device_reg_device)

lemma QMI8658_write_acked:
  assumes "acks w" and "bus_up QMI8658_BSP_I2C_NUM w"
  shows "\<exists>w'. QMI8658_register_write_byte r v w = Some (ESP_OK, w') \<and> acks w' \<and>
          bus_up QMI8658_BSP_I2C_NUM w' \<and> qmi_regs w' = (qmi_regs w)(r \<mapsto> v)"
proof -
  obtain w' where w': "QMI8658_register_write_byte r v w = Some (ESP_OK, w')"
      and "acks w' \<and> bus_up QMI8658_BSP_I2C_NUM w'"
    using assms by (simp add: QMI8658_register_write_byte_def write_to_device_acked)
  with qmi.wr_ok [OF w'] show ?thesis by blast
qed

lemma QMI8658_write_all_acked:
  assumes "acks w" and "bus_up QMI8658_BSP_I2C_NUM w"
  shows "\<exists>w'. write_all QMI8658_register_write_byte rvs w = Some (ESP_OK, w')"
  using assms
proof (induction rvs arbitrary: w)
  case (Cons rv rvs)
  obtain r v where rv: "rv = (r, v)" by (cases rv)
  obtain w1 where "QMI8658_register_write_byte r v w = Some (ESP_OK, w1)" "acks w1"
      "bus_up QMI8658_BSP_I2C_NUM w1"
    using QMI8658_write_acked [OF Cons.prems] by blast
  with Cons.IH rv show ?case by simp
qed simp

lemma QMI8658_read_cases:
  obtains e b w' where "QMI8658_register_read r buf w = Some (e, b, w')" and "length b = length buf"
  unfolding QMI8658_register_read_def using write_read_device_returns by blast

text \<open>What a read leaves alone.\<close>

lemma QMI8658_read_frame:
  assumes "QMI8658_register_read r buf w = Some (e, b, w')" and "buf \<noteq> []"
  shows "acks w' = acks w" "bus_up p w' = bus_up p w" "dev_regs p a w' = dev_regs p a w"
    "\<exists>evs. log w' = log w @ evs \<and> (\<forall>ev \<in> set evs. \<exists>cs t. fst ev = I2C (I2C_exec QMI8658_BSP_I2C_NUM cs t))"
  using assms write_read_device_regs [of _ _ _ _ _ w e b w' p a]
  unfolding QMI8658_register_read_def
  by (auto simp: write_read_device_eq i2c_run_def Let_def split: prod.splits if_splits)

section \<open>The probe loop\<close>

definition long_delays :: "'a world_scheme \<Rightarrow> nat" where
  "long_delays w = length (filter (\<lambda>ev. fst ev = OS (Task_delay (pdMS_TO_TICKS 1000))) (log w))"

lemma long_delays_after [simp]:
  "long_delays (after w c) = long_delays w + (if c = OS (Task_delay 100) then 1 else 0)"
  by (simp add: long_delays_def)

lemma long_delays_read:
  assumes "QMI8658_register_read r buf w = Some (e, b, w')" and "buf \<noteq> []"
  shows "long_delays w' = long_delays w"
proof -
  obtain evs where "log w' = log w @ evs" and evs: "\<forall>ev \<in> set evs. \<exists>cs t. fst ev = I2C (I2C_exec QMI8658_BSP_I2C_NUM cs t)"
    using QMI8658_read_frame(4) [OF assms] by blast
  moreover have "filter (\<lambda>ev. fst ev = OS (Task_delay 100)) evs = []"
    using evs by (fastforce simp: filter_empty_conv)
  ultimately show ?thesis by (simp add: long_delays_def)
qed

declare QMI8658_probe.simps [simp del]

lemma QMI8658_probe_result:
  "retry \<le> 10 \<Longrightarrow>
   \<exists>i w'. QMI8658_probe ident retry w = Some (i, w') \<and> acks w' = acks w \<and> bus_up p w' = bus_up p w \<and>
     qmi_regs w' = qmi_regs w \<and> long_delays w' \<le> long_delays w + (10 - retry)"
proof (induction ident retry w rule: QMI8658_probe.induct)
  case (1 ident retry w)
  show ?case
  proof (cases "ident \<noteq> 0x05 \<and> retry < 10")
    case False
    then have "QMI8658_probe ident retry w = Some (ident, w)" by (subst QMI8658_probe.simps) auto
    then show ?thesis by simp
  next
    case True
    define w1 where "w1 = after w (OS (Task_delay 100))"
    obtain e b w2 where rd: "QMI8658_register_read QMI8658_WHO_AM_I [ident] w1 = Some (e, b, w2)"
      by (rule QMI8658_read_cases)
    have "\<exists>i w'. QMI8658_probe (hd b) (retry + 1) w2 = Some (i, w') \<and> acks w' = acks w2 \<and> bus_up p w' = bus_up p w2 \<and>
        qmi_regs w' = qmi_regs w2 \<and> long_delays w' \<le> long_delays w2 + (10 - (retry + 1))"
      using True rd by (intro "1.IH" [of w1 _ e _ b w2]) (simp_all add: w1_def io_simps)
    then obtain i w' where w': "QMI8658_probe (hd b) (retry + 1) w2 = Some (i, w')" "acks w' = acks w2"
        "bus_up p w' = bus_up p w2" "qmi_regs w' = qmi_regs w2" "long_delays w' \<le> long_delays w2 + (9 - retry)"
      by auto
    have "QMI8658_probe ident retry w = Some (i, w')"
      using True rd w'(1) by (subst QMI8658_probe.simps) (simp add: w1_def io_simps)
    moreover have "long_delays w2 = long_delays w + 1"
      using long_delays_read [OF rd] by (simp add: w1_def)
    ultimately show ?thesis
      using w' QMI8658_read_frame(1-3) [OF rd] True by (auto simp: w1_def)
  qed
qed


section \<open>Properties\<close>

lemma i2c_master_init_frame:
  assumes "i2c_master_init w = (e, w')"
  shows "acks w' = acks w" "dev_regs p a w' = dev_regs p a w" "long_delays w' = long_delays w"
  using assms
  by (auto simp: i2c_master_init_def i2c_driver_install_def io_simps Let_def acks_def dev_regs_def long_delays_def
      split: if_splits)

lemma write_frame_long_delays:
  assumes "QMI8658_register_write_byte r v w = Some (e, w')"
  shows "long_delays w' = long_delays w"
  using assms
  by (auto simp: QMI8658_register_write_byte_def write_to_device_eq i2c_run_def Let_def
      split: prod.splits if_splits)

lemma write_each_long_delays:
  "write_each QMI8658_register_write_byte rvs w = Some w' \<Longrightarrow> long_delays w' = long_delays w"
proof (induction rvs arbitrary: w)
  case (Cons rv rvs)
  obtain r v where rv: "rv = (r, v)" by (cases rv)
  obtain e w1 where w1: "QMI8658_register_write_byte r v w = Some (e, w1)" using qmi.wr_returns by blast
  with Cons rv write_frame_long_delays [OF w1] show ?case by simp
qed simp

text \<open>
  \<^verbatim>\<open>QMI8658_Init\<close> returns whatever the bus and the chip answer: the retry loop gives up after at
  most ten one-second delays.
\<close>

theorem QMI8658_Init_returns:
  "\<exists>w'. QMI8658_Init id0 w = Some w' \<and> long_delays w' \<le> long_delays w + 10"
proof -
  obtain e w1 where i: "i2c_master_init w = (e, w1)" by fastforce
  obtain e b w2 where r: "QMI8658_register_read QMI8658_WHO_AM_I [id0] w1 = Some (e, b, w2)"
    by (rule QMI8658_read_cases)
  obtain k w3 where p: "QMI8658_probe (hd b) 0 w2 = Some (k, w3)" "long_delays w3 \<le> long_delays w2 + 10"
    using QMI8658_probe_result [of 0 "hd b" w2 QMI8658_BSP_I2C_NUM] by auto
  obtain e w4 where rs: "QMI8658_register_write_byte QMI8658_RESET 0xB0 w3 = Some (e, w4)"
    using qmi.wr_returns by blast
  obtain w5 where we: "write_each QMI8658_register_write_byte
      [(QMI8658_CTRL1, 0x40), (QMI8658_CTRL7, 0x03), (QMI8658_CTRL2, 0x95), (QMI8658_CTRL3, 0xd5)]
      (after w4 (OS (Task_delay 2))) = Some w5"
    using qmi.write_each_returns by blast
  have "long_delays w5 \<le> long_delays w + 10"
    using i2c_master_init_frame(3) [OF i] long_delays_read [OF r] p(2) write_frame_long_delays [OF rs]
      write_each_long_delays [OF we] by simp
  with i r p(1) rs we show ?thesis by (simp add: QMI8658_Init_def io_simps)
qed


definition qmi_demo :: world where
  "qmi_demo = \<lparr>wenv = (\<lambda>_ _. answer ESP_OK), log = [], i2c_obj = Map.empty\<rparr>"


text \<open>
  \<^verbatim>\<open>QMI8658_Read_AccGry\<close> always returns.  With no data-ready bit in the status register it leaves
  the record alone; otherwise the six axes are the little-endian signed 16-bit values of the
  twelve bytes the sensor delivered, in the order acceleration x, y, z, rotation x, y, z.
\<close>

theorem QMI8658_Read_AccGry_values:
  assumes "QMI8658_register_read QMI8658_STATUS0 [status0] w = Some (e1, [st], w1)"
    and "QMI8658_register_read QMI8658_AX_L buf0 w1 = Some (e2, b, w2)"
    and "length buf0 = 12"
  shows "if st AND 3 = 0 then QMI8658_Read_AccGry status0 buf0 p w = Some (p, w1)
    else \<exists>p'. QMI8658_Read_AccGry status0 buf0 p w = Some (p', w2) \<and>
      [acc_x p', acc_y p', acc_z p', gry_x p', gry_y p', gry_z p'] =
        map (\<lambda>i. le16 (b ! (2 * i)) (b ! (2 * i + 1))) [0..<6] \<and>
      temperature p' = temperature p"
  using assms(1,2) by (simp add: QMI8658_Read_AccGry_def upt_rec)

text \<open>
  The value of a little-endian pair is the two's complement reading of its 16 bits.
\<close>

lemma le16_bounds: "- 32768 \<le> le16 lo hi \<and> le16 lo hi \<le> 32767"
  using sint_range_size [of "word_cat hi lo :: u16"] by (simp add: le16_def word_size)

definition qmi_zero :: t_sQMI8658 where
  "qmi_zero = \<lparr>acc_x = 0, acc_y = 0, acc_z = 0, gry_x = 0, gry_y = 0, gry_z = 0, AngleX = Fin 0, AngleY = Fin 0,
     AngleZ = Fin 0, temperature = 0\<rparr>"

definition qmi_data :: world where
  "qmi_data = \<lparr>wenv = (\<lambda>h _. \<lparr>ret = 0, out = (if h = [] then [3] else [1, 0, 0, 0x80, 0xff, 0xff, 2, 1, 0, 0, 0, 0]),
                               content = [], hnd = 0\<rparr>),
               log = [], i2c_obj = [0 \<mapsto> I2C_MODE_MASTER]\<rparr>"

lemmas qmi_eval = QMI8658_register_read_def write_read_device_eq i2c_run_def reply_to_def after_def
  QMI8658_BSP_I2C_NUM_def

theorem QMI8658_Read_AccGry_values_witness:
  "\<exists>p' w'. QMI8658_Read_AccGry 0 (replicate 12 0) qmi_zero qmi_data = Some (p', w') \<and>
     acc_x p' = 1 \<and> acc_y p' = - 32768 \<and> acc_z p' = - 1 \<and> gry_x p' = 258"
proof -
  obtain w1 where r1: "QMI8658_register_read QMI8658_STATUS0 [0] qmi_data = Some (0, [3], w1)"
    and w1: "wenv w1 = wenv qmi_data" "log w1 \<noteq> []" "i2c_obj w1 = i2c_obj qmi_data"
    by (simp add: qmi_eval qmi_data_def)
  obtain w2 where r2: "QMI8658_register_read QMI8658_AX_L (replicate 12 0) w1 =
      Some (0, [1, 0, 0, 0x80, 0xff, 0xff, 2, 1, 0, 0, 0, 0], w2)"
    using w1 by (simp add: qmi_eval qmi_data_def)
  show ?thesis
    using QMI8658_Read_AccGry_values [OF r1 r2, of qmi_zero] by (auto simp: upt_rec le16_def word_cat_eq sint_uint)
qed


lemma le16_split: "le16 lo hi = 256 * sint hi + uint lo"
proof -
  have "sint (word_cat hi lo :: u16) = signed_take_bit 15 (concat_bit 8 (uint lo) (uint hi))"
    by (simp add: word_cat_eq' sint_uint uint_word_of_int_eq signed_take_bit_take_bit)
  also have "\<dots> = concat_bit 8 (uint lo) (signed_take_bit 7 (uint hi))"
    by (rule bit_eqI) (auto simp: bit_simps min_def)
  also have "\<dots> = 256 * sint hi + uint lo"
    using unsigned_less [of lo, where ?'a = int]
    by (simp add: concat_bit_eq sint_uint push_bit_eq_mult take_bit_int_eq_self)
  finally show ?thesis by (simp add: le16_def)
qed

text \<open>
  \<^verbatim>\<open>QMI8658_Read_Temperature\<close> always returns, and on two delivered bytes the temperature is the
  little-endian signed 16-bit register value divided by 256, between -128 and 128 degrees.
\<close>

theorem QMI8658_Read_Temperature_value:
  assumes "QMI8658_register_read QMI8658_TEMP_L data0 w = Some (e, [lo, hi], w')"
  shows "\<exists>p'. QMI8658_Read_Temperature data0 p w = Some (p', w') \<and>
    temperature p' = real_of_int (le16 lo hi) / 256 \<and> - 128 \<le> temperature p' \<and> temperature p' < 128"
proof -
  have "- 32768 \<le> real_of_int (le16 lo hi)" and "real_of_int (le16 lo hi) \<le> 32767"
    using le16_bounds [of lo hi] by linarith+
  moreover have "real_of_int (sint hi) + real_of_int (uint lo) / 256 = real_of_int (le16 lo hi) / 256"
    unfolding le16_split by (simp add: field_simps del: of_int_sint of_int_uint)
  ultimately show ?thesis using assms by (simp add: QMI8658_Read_Temperature_def del: of_int_sint of_int_uint)
qed

theorem QMI8658_Read_Temperature_value_witness:
  "\<exists>w1 p1. QMI8658_Read_Temperature [0, 0] qmi_zero (qmi_data\<lparr>wenv := \<lambda>_ _. \<lparr>ret = 0, out = [0x80, 0xFE], content = [], hnd = 0\<rparr>\<rparr>)
     = Some (p1, w1) \<and> temperature p1 = - 1.5"
proof -
  define w where "w = qmi_data\<lparr>wenv := \<lambda>_ _. \<lparr>ret = 0, out = [0x80, 0xFE], content = [], hnd = 0\<rparr>\<rparr>"
  obtain w1 where r: "QMI8658_register_read QMI8658_TEMP_L [0, 0] w = Some (0, [0x80, 0xFE], w1)"
    by (simp add: qmi_eval w_def qmi_data_def)
  have "le16 0x80 0xFE = - 384" by (simp add: le16_split)
  with QMI8658_Read_Temperature_value [OF r, of qmi_zero] show ?thesis unfolding w_def [symmetric] by auto
qed

lemma tilt_bounds:
  "(\<exists>t. tilt (Fin a) (Fin b) = Fin t \<and> \<bar>t\<bar> \<le> pi / 2 * rad_to_deg) \<or> (a = 0 \<and> b = 0 \<and> tilt (Fin a) (Fin b) = NaN)"
proof -
  have "\<bar>arctan x\<bar> \<le> pi / 2" for x
    using arctan_lbound [of x] arctan_ubound [of x] by linarith
  then have "\<bar>arctan x * rad_to_deg\<bar> \<le> pi / 2 * rad_to_deg" for x
    by (simp add: abs_mult rad_to_deg_def mult.commute)
  note arc = this
  have pos: "(0 :: real) \<le> rad_to_deg" by (simp add: rad_to_deg_def)
  consider "b \<noteq> 0" | "b = 0" "a > 0" | "b = 0" "a < 0" | "b = 0" "a = 0" by linarith
  then show ?thesis
  proof cases
    case 1
    then show ?thesis
      by (intro disjI1 exI [of _ "arctan (a / b) * rad_to_deg"]) (simp add: tilt_def arc del: times_divide_eq_left)
  next
    case 2
    then show ?thesis
      using pos by (intro disjI1 exI [of _ "pi / 2 * rad_to_deg"]) (simp add: tilt_def abs_mult)
  next
    case 3
    then show ?thesis
      using pos by (intro disjI1 exI [of _ "- (pi / 2) * rad_to_deg"]) (simp add: tilt_def abs_mult)
  qed (simp add: tilt_def)
qed

text \<open>
  The tilt angles of \<^verbatim>\<open>QMI8658_fetch_angleFromAcc\<close> never leave [-90, 90] degrees (up to the rounding
  of the constant 57.29578), never are infinite, although the code divides by the projection of
  the acceleration without a test; and the X angle is NaN exactly when all three axes read zero.
\<close>

theorem QMI8658_fetch_angleFromAcc_bounds:
  assumes "QMI8658_Read_AccGry status0 buf0 p w = Some (q, w1)"
  shows "\<exists>p'. QMI8658_fetch_angleFromAcc status0 buf0 p w = Some (p', w1) \<and>
    (\<forall>a \<in> {AngleX p', AngleY p', AngleZ p'}. a = NaN \<or> (\<exists>t. a = Fin t \<and> \<bar>t\<bar> \<le> pi / 2 * rad_to_deg)) \<and>
    (AngleX p' = NaN \<longleftrightarrow> acc_x q = 0 \<and> acc_y q = 0 \<and> acc_z q = 0)"
proof -
  define x y z where xyz: "x = real_of_int (acc_x q)" "y = real_of_int (acc_y q)" "z = real_of_int (acc_z q)"
  have "sqrt (y * y + z * z) = 0 \<longleftrightarrow> y = 0 \<and> z = 0" by (simp add: add_nonneg_eq_0_iff)
  then have "tilt (Fin x) (Fin (sqrt (y * y + z * z))) = NaN \<longleftrightarrow> x = 0 \<and> y = 0 \<and> z = 0"
    using tilt_bounds [of x "sqrt (y * y + z * z)"] by (auto simp: tilt_def)
  moreover have "a = NaN \<or> (\<exists>t. a = Fin t \<and> \<bar>t\<bar> \<le> pi / 2 * rad_to_deg)" if "a = tilt (Fin u) (Fin v)" for a u v
    using tilt_bounds [of u v] that by auto
  ultimately show ?thesis
    using assms by (auto simp: QMI8658_fetch_angleFromAcc_def Let_def xyz [symmetric]) (auto simp: xyz)
qed

theorem QMI8658_fetch_angleFromAcc_bounds_witness:
  "\<exists>p' w'. QMI8658_fetch_angleFromAcc 0 (replicate 12 0)
     \<lparr>acc_x = 0, acc_y = 0, acc_z = 0, gry_x = 0, gry_y = 0, gry_z = 0, AngleX = Fin 0, AngleY = Fin 0,
      AngleZ = Fin 0, temperature = 0\<rparr> (qmi_data\<lparr>i2c_obj := Map.empty\<rparr>) = Some (p', w') \<and> AngleX p' = NaN"
  (is "\<exists>p' w'. QMI8658_fetch_angleFromAcc _ _ ?p ?w = _ \<and> _")
proof -
  obtain w1 where "QMI8658_Read_AccGry 0 (replicate 12 0) ?p ?w = Some (?p, w1)"
    by (simp add: QMI8658_Read_AccGry_def qmi_eval qmi_data_def)
  from QMI8658_fetch_angleFromAcc_bounds [OF this] show ?thesis by auto
qed

end
