(* ===== verification/Vfs_Fat.thy ===== *)
theory Vfs_Fat
  imports Platform
begin

text \<open>
  Mounting an SD card, components/fatfs of the SDK: vfs/vfs_fat_sdmmc.c with the registration functions of vfs/vfs_fat.c,
  diskio/diskio.c and diskio/diskio_sdmmc.c.  The tables of the four files, the structures they allocate and every path through
  the mounting, with its error paths, are modelled; FatFs itself, the virtual file system and the SDMMC host are calls.
\<close>

section \<open>State\<close>

definition FF_VOLUMES :: nat where "FF_VOLUMES = 2"
definition FF_DRV_NOT_USED :: nat where "FF_DRV_NOT_USED = 0xFF"
definition FR_NO_FILESYSTEM :: int where "FR_NO_FILESYSTEM = 13"
definition FR_INT_ERR :: int where "FR_INT_ERR = 2"
definition ESP_VFS_PATH_MAX :: nat where "ESP_VFS_PATH_MAX = 15"

record mount_config =
  format_if_mount_failed :: bool
  max_files :: nat
  allocation_unit_size :: nat
  disk_status_check_enable :: bool

text \<open>Of the host's description: its slot, and whether its \<^verbatim>\<open>deinit\<close> takes the slot (\<^verbatim>\<open>SDMMC_HOST_FLAG_DEINIT_ARG\<close>).\<close>

record sdmmc_host =
  host_slot :: int
  deinit_arg :: bool

record slot_config =
  slot_width :: nat
  slot_clk :: int
  slot_cmd :: int
  slot_d0 :: int
  slot_flags :: nat

record sdmmc_card =
  card_host :: sdmmc_host
  csd_sector_size :: nat

record vfs_fat_ctx =
  fat_drive :: string
  fat_base_path :: string
  o_append :: ptr
  fat_max_files :: nat

record vfs_fat_sd_ctx =
  ctx_pdrv :: nat
  ctx_mount_config :: mount_config
  ctx_fs :: ptr
  ctx_card :: ptr
  ctx_base_path :: ptr

text \<open>
  The static tables (\<open>0\<close> is \<^verbatim>\<open>NULL\<close>) and the blocks of the heap the code reads, by type.  The sizes of the
  structures depend on the compiler: \<open>sizeof\<close> gives them by name.
\<close>

record fat_world = world +
  s_impls :: "ptr list"
  s_cards :: "ptr list"
  s_disk_status_check_en :: "bool list"
  s_fat_ctxs :: "ptr list"
  s_fat_ctx :: ptr
  s_ctx :: "ptr list"
  s_saved_ctx_id :: nat
  fat_ctxs :: "ptr \<Rightarrow> vfs_fat_ctx option"
  sd_ctxs :: "ptr \<Rightarrow> vfs_fat_sd_ctx option"
  cards :: "ptr \<Rightarrow> sdmmc_card option"
  heap_paths :: "ptr \<Rightarrow> string option"
  sizeof :: "string \<Rightarrow> nat"

lemma fat_after [simp]:
  "s_impls (after w c) = s_impls w" "s_cards (after w c) = s_cards w" "s_disk_status_check_en (after w c) = s_disk_status_check_en w"
  "s_fat_ctxs (after w c) = s_fat_ctxs w" "s_fat_ctx (after w c) = s_fat_ctx w" "s_ctx (after w c) = s_ctx w" "s_saved_ctx_id (after w c) = s_saved_ctx_id w"
  "fat_ctxs (after w c) = fat_ctxs w" "sd_ctxs (after w c) = sd_ctxs w" "cards (after w c) = cards w"
  "heap_paths (after w c) = heap_paths w" "sizeof (after w c) = sizeof w" "fat_world.more (after w c) = fat_world.more w"
  by (simp_all add: after_def)

text \<open>The first entry of a table with a property; its length if there is none.\<close>

definition find_slot :: "('t \<Rightarrow> bool) \<Rightarrow> 't list \<Rightarrow> nat" where
  "find_slot P ts = length (takeWhile (\<lambda>t. \<not> P t) ts)"

text \<open>\<^verbatim>\<open>malloc\<close> and \<^verbatim>\<open>free\<close>; reading a freed block has no meaning.\<close>

definition fat_malloc :: "nat \<Rightarrow> 'a fat_world_scheme \<Rightarrow> ptr \<times> 'a fat_world_scheme" where
  "fat_malloc n w = (let (r, w) = do_call (MEM (Malloc n 0)) w in (handle (ret r), w))"

definition fat_free :: "ptr \<Rightarrow> 'a fat_world_scheme \<Rightarrow> 'a fat_world_scheme" where
  "fat_free p w =
    (if p = 0 then w
     else (call_void (MEM (Free p)) w)\<lparr>fat_ctxs := (fat_ctxs w)(p := None), sd_ctxs := (sd_ctxs w)(p := None),
            cards := (cards w)(p := None), heap_paths := (heap_paths w)(p := None)\<rparr>)"

text \<open>\<^verbatim>\<open>ff_memalloc\<close> prefers external memory (\<^verbatim>\<open>MALLOC_CAP_DEFAULT | MALLOC_CAP_SPIRAM\<close>).\<close>

definition ff_memalloc :: "nat \<Rightarrow> 'a fat_world_scheme \<Rightarrow> ptr \<times> 'a fat_world_scheme" where
  "ff_memalloc n w = (let (r, w) = do_call (MEM (Malloc n 0x1400)) w in (handle (ret r), w))"

definition strlcpy :: "nat \<Rightarrow> string \<Rightarrow> string" where
  "strlcpy n s = take (n - 1) s"

definition drive_name :: "nat \<Rightarrow> string" where
  "drive_name pdrv = [char_of (48 + pdrv), CHR '':'']"

section \<open>Disk drivers: diskio.c and diskio\_sdmmc.c\<close>

text \<open>\<^verbatim>\<open>ESP_ERR_NOT_FOUND\<close> is \<open>None\<close>.\<close>

definition ff_diskio_get_drive :: "'a fat_world_scheme \<Rightarrow> nat option" where
  "ff_diskio_get_drive w = (let i = find_slot (\<lambda>p. p = 0) (s_impls w) in if i < FF_VOLUMES then Some i else None)"

text \<open>\<open>impl\<close> says whether there is a driver to register; without memory the assertion halts.\<close>

definition ff_diskio_register :: "nat \<Rightarrow> bool \<Rightarrow> 'a fat_world_scheme \<Rightarrow> 'a fat_world_scheme option" where
  "ff_diskio_register pdrv impl w =
    (if \<not> pdrv < FF_VOLUMES then None
     else let im = s_impls w ! pdrv;
              w = (if im \<noteq> 0 then fat_free im (w\<lparr>s_impls := (s_impls w)[pdrv := 0]\<rparr>) else w)
     in if \<not> impl then Some w
     else let (p, w) = fat_malloc (sizeof w ''ff_diskio_impl_t'') w
     in if p = 0 then None else Some (w\<lparr>s_impls := (s_impls w)[pdrv := p]\<rparr>))"

definition ff_diskio_unregister :: "nat \<Rightarrow> 'a fat_world_scheme \<Rightarrow> 'a fat_world_scheme option" where
  "ff_diskio_unregister pdrv = ff_diskio_register pdrv False"

definition ff_sdmmc_set_disk_status_check :: "nat \<Rightarrow> bool \<Rightarrow> 'a fat_world_scheme \<Rightarrow> 'a fat_world_scheme" where
  "ff_sdmmc_set_disk_status_check pdrv enable w =
     w\<lparr>s_disk_status_check_en := (s_disk_status_check_en w)[pdrv := enable]\<rparr>"

definition ff_diskio_register_sdmmc :: "nat \<Rightarrow> ptr \<Rightarrow> 'a fat_world_scheme \<Rightarrow> 'a fat_world_scheme option" where
  "ff_diskio_register_sdmmc pdrv cardp w =
     ff_diskio_register pdrv True
       (w\<lparr>s_cards := (s_cards w)[pdrv := cardp], s_disk_status_check_en := (s_disk_status_check_en w)[pdrv := False]\<rparr>)"

definition ff_diskio_get_pdrv_card :: "ptr \<Rightarrow> 'a fat_world_scheme \<Rightarrow> nat" where
  "ff_diskio_get_pdrv_card cardp w =
    (let i = find_slot (\<lambda>p. cardp = p) (s_cards w) in if i < FF_VOLUMES then i else FF_DRV_NOT_USED)"

section \<open>File systems: vfs\_fat.c\<close>

text \<open>Every entry of the table that is not \<^verbatim>\<open>NULL\<close> is the address of a context.\<close>

definition find_context_index_by_path :: "string \<Rightarrow> 'a fat_world_scheme \<Rightarrow> nat" where
  "find_context_index_by_path base_path w =
     find_slot (\<lambda>c. c \<noteq> 0 \<and> map_option fat_base_path (fat_ctxs w c) = Some base_path) (s_fat_ctxs w)"

definition find_unused_context_index :: "'a fat_world_scheme \<Rightarrow> nat" where
  "find_unused_context_index w = find_slot (\<lambda>c. c = 0) (s_fat_ctxs w)"

text \<open>The file system object is a part of the context, after the drive, the path, the number of files and the lock.\<close>

definition fs_of :: "ptr \<Rightarrow> ptr" where
  "fs_of fat_ctx = fat_ctx + 32"

text \<open>The result is the error code and what is stored through \<^verbatim>\<open>out_fs\<close> (\<open>0\<close> if nothing is).\<close>

definition esp_vfs_fat_register ::
  "string \<Rightarrow> string \<Rightarrow> nat \<Rightarrow> 'a fat_world_scheme \<Rightarrow> esp_err \<times> ptr \<times> 'a fat_world_scheme" where
  "esp_vfs_fat_register base_path drive files w =
    (if find_context_index_by_path base_path w < FF_VOLUMES then (ESP_ERR_INVALID_STATE, 0, w)
     else let ctx = find_unused_context_index w
     in if ctx = FF_VOLUMES then (ESP_ERR_NO_MEM, 0, w)
     else let (fat_ctx, w) = ff_memalloc (sizeof w ''vfs_fat_ctx_t'' + files * sizeof w ''FIL'') w
     in if fat_ctx = 0 then (ESP_ERR_NO_MEM, 0, w)
     else let (app, w) = ff_memalloc files w
     in if app = 0 then (ESP_ERR_NO_MEM, 0, fat_free fat_ctx w)
     else let w = w\<lparr>fat_ctxs := (fat_ctxs w)(fat_ctx \<mapsto>
                \<lparr>fat_drive = strlcpy 7 drive, fat_base_path = strlcpy (ESP_VFS_PATH_MAX - 1) base_path, o_append = app,
                 fat_max_files = files\<rparr>)\<rparr>;
              (r, w) = do_call (FAT (Vfs_register base_path fat_ctx)) w
     in if ret r \<noteq> ESP_OK then (ret r, 0, fat_free fat_ctx (fat_free app w))
     else (ESP_OK, fs_of fat_ctx, w\<lparr>s_fat_ctxs := (s_fat_ctxs w)[ctx := fat_ctx], s_fat_ctx := fat_ctx\<rparr>))"

definition esp_vfs_fat_unregister_path :: "string \<Rightarrow> 'a fat_world_scheme \<Rightarrow> (esp_err \<times> 'a fat_world_scheme) option" where
  "esp_vfs_fat_unregister_path base_path w =
    (let ctx = find_context_index_by_path base_path w
     in if ctx \<ge> FF_VOLUMES then Some (ESP_ERR_INVALID_STATE, w)
     else do {
       c \<leftarrow> fat_ctxs w (s_fat_ctxs w ! ctx);
       let (r, w) = do_call (FAT (Vfs_unregister (fat_base_path c))) w;
       if ret r \<noteq> ESP_OK then Some (ret r, w)
       else let w = fat_free (s_fat_ctxs w ! ctx) (fat_free (o_append c) w)
       in Some (ESP_OK, w\<lparr>s_fat_ctxs := (s_fat_ctxs w)[ctx := 0]\<rparr>) })"

section \<open>SD cards: vfs\_fat\_sdmmc.c\<close>

definition s_get_context_id_by_card :: "ptr \<Rightarrow> 'a fat_world_scheme \<Rightarrow> nat option" where
  "s_get_context_id_by_card cardp w =
    (let i = find_slot (\<lambda>c. c \<noteq> 0 \<and> map_option ctx_card (sd_ctxs w c) = Some cardp) (s_ctx w)
     in if i < FF_VOLUMES then Some i else None)"

definition s_get_unused_context_id :: "'a fat_world_scheme \<Rightarrow> nat" where
  "s_get_unused_context_id w = find_slot (\<lambda>c. c = 0) (s_ctx w)"

text \<open>The result: error code, drive, copy of the path, card.\<close>

definition mount_prepare_mem :: "string \<Rightarrow> 'a fat_world_scheme \<Rightarrow> (esp_err \<times> nat \<times> ptr \<times> ptr) \<times> 'a fat_world_scheme" where
  "mount_prepare_mem base_path w =
    (case ff_diskio_get_drive w of
       None \<Rightarrow> ((ESP_ERR_NO_MEM, FF_DRV_NOT_USED, 0, 0), w)
     | Some pdrv \<Rightarrow>
         let (cardp, w) = fat_malloc (sizeof w ''sdmmc_card_t'') w
         in if cardp = 0 then ((ESP_ERR_NO_MEM, FF_DRV_NOT_USED, 0, 0), w)
         else let (dup_path, w) = fat_malloc (length base_path + 1) w
         in if dup_path = 0 then ((ESP_ERR_NO_MEM, FF_DRV_NOT_USED, 0, 0), fat_free cardp w)
         else ((ESP_OK, pdrv, dup_path, cardp), w\<lparr>heap_paths := (heap_paths w)(dup_path \<mapsto> base_path)\<rparr>))"

definition esp_vfs_fat_get_allocation_unit_size :: "nat \<Rightarrow> nat \<Rightarrow> nat" where
  "esp_vfs_fat_get_allocation_unit_size sector_size requested_size =
     min (max requested_size sector_size) (sector_size * 128)"

definition partition_card :: "mount_config \<Rightarrow> string \<Rightarrow> ptr \<Rightarrow> nat \<Rightarrow> 'a fat_world_scheme \<Rightarrow> (esp_err \<times> 'a fat_world_scheme) option" where
  "partition_card cfg drv cardp pdrv w =
    (let (workbuf, w) = ff_memalloc 4096 w
     in if workbuf = 0 then Some (ESP_ERR_NO_MEM, w)
     else let (r, w) = do_call (FAT (F_fdisk pdrv)) w
     in if ret r \<noteq> 0 then Some (ESP_FAIL, fat_free workbuf w)
     else do {
       c \<leftarrow> cards w cardp;
       let (r, w) = do_call (FAT (F_mkfs drv (esp_vfs_fat_get_allocation_unit_size (csd_sector_size c) (allocation_unit_size cfg)))) w;
       Some (if ret r \<noteq> 0 then ESP_FAIL else ESP_OK, fat_free workbuf w) })"

definition s_f_mount :: "ptr \<Rightarrow> ptr \<Rightarrow> string \<Rightarrow> nat \<Rightarrow> mount_config \<Rightarrow> 'a fat_world_scheme \<Rightarrow> (esp_err \<times> 'a fat_world_scheme) option" where
  "s_f_mount cardp fs drv pdrv cfg w =
    (let (r, w) = do_call (FAT (F_mount fs drv 1)) w
     in if ret r = 0 then Some (ESP_OK, w)
     else if \<not> ((ret r = FR_NO_FILESYSTEM \<or> ret r = FR_INT_ERR) \<and> format_if_mount_failed cfg) then Some (ESP_FAIL, w)
     else do {
       (err, w) \<leftarrow> partition_card cfg drv cardp pdrv w;
       if err \<noteq> ESP_OK then Some (err, w)
       else let (r, w) = do_call (FAT (F_mount fs drv 1)) w in Some (if ret r \<noteq> 0 then ESP_FAIL else ESP_OK, w) })"

definition mount_to_vfs_fat ::
  "mount_config \<Rightarrow> ptr \<Rightarrow> nat \<Rightarrow> string \<Rightarrow> 'a fat_world_scheme \<Rightarrow> (esp_err \<times> ptr \<times> 'a fat_world_scheme) option" where
  "mount_to_vfs_fat cfg cardp pdrv base_path w = do {
     w \<leftarrow> ff_diskio_register_sdmmc pdrv cardp w;
     let w = ff_sdmmc_set_disk_status_check pdrv (disk_status_check_enable cfg) w;
     let drv = drive_name pdrv;
     let (err, fs, w) = esp_vfs_fat_register base_path drv (max_files cfg) w;
     (err, w) \<leftarrow> (if err = ESP_OK \<or> err = ESP_ERR_INVALID_STATE then s_f_mount cardp fs drv pdrv cfg w else Some (err, w));
     if err = ESP_OK then Some (ESP_OK, fs, w)
     else do {
       let w = (if fs \<noteq> 0 then call_void (FAT (F_mount 0 drv 0)) w else w);
       (_, w) \<leftarrow> esp_vfs_fat_unregister_path base_path w;
       w \<leftarrow> ff_diskio_unregister pdrv w;
       Some (err, fs, w) } }"

definition sdmmc_card_init :: "sdmmc_host \<Rightarrow> ptr \<Rightarrow> 'a fat_world_scheme \<Rightarrow> esp_err \<times> 'a fat_world_scheme" where
  "sdmmc_card_init host cardp w =
    (let (r, w) = do_call (FAT (Sdmmc_card_init cardp)) w
     in (ret r, w\<lparr>cards := (cards w)(cardp \<mapsto> \<lparr>card_host = host, csd_sector_size = hnd r\<rparr>)\<rparr>))"

definition call_host_deinit :: "sdmmc_host \<Rightarrow> 'a fat_world_scheme \<Rightarrow> 'a fat_world_scheme" where
  "call_host_deinit host = call_void (FAT (if deinit_arg host then Sdmmc_host_deinit_p (host_slot host) else Sdmmc_host_deinit))"

definition mount_cleanup :: "bool \<Rightarrow> sdmmc_host \<Rightarrow> ptr \<Rightarrow> ptr \<Rightarrow> 'a fat_world_scheme \<Rightarrow> 'a fat_world_scheme" where
  "mount_cleanup host_inited host cardp dup_path w =
     fat_free dup_path (fat_free cardp (if host_inited then call_host_deinit host w else w))"

text \<open>
  The result: error code and what is stored through \<^verbatim>\<open>out_card\<close>.  The last part remembers the volume; without memory for the
  context the code cleans up, but \<^verbatim>\<open>err\<close> still is the success of the step before.
\<close>

definition mount_context ::
  "sdmmc_host \<Rightarrow> nat \<Rightarrow> mount_config \<Rightarrow> ptr \<Rightarrow> ptr \<Rightarrow> ptr \<Rightarrow> 'a fat_world_scheme \<Rightarrow> (esp_err \<times> ptr option \<times> 'a fat_world_scheme) option" where
  "mount_context host pdrv cfg fs cardp dup_path w =
    (let w = (if s_saved_ctx_id w = FF_VOLUMES then w\<lparr>s_saved_ctx_id := 0\<rparr> else w);
         (r, w) = do_call (MEM (Calloc (sizeof w ''vfs_fat_sd_ctx_t'') 1)) w;
         ctx = handle (ret r)
     in if ctx = 0 then Some (ESP_OK, Some cardp, mount_cleanup True host cardp dup_path w)
     else let w = w\<lparr>sd_ctxs := (sd_ctxs w)(ctx \<mapsto> \<lparr>ctx_pdrv = pdrv, ctx_mount_config = cfg, ctx_fs = fs, ctx_card = cardp,
                    ctx_base_path = dup_path\<rparr>)\<rparr>;
              ctx_id = s_get_unused_context_id w
     in if ctx_id = FF_VOLUMES then None
     else Some (ESP_OK, Some cardp, w\<lparr>s_ctx := (s_ctx w)[ctx_id := ctx]\<rparr>))"

definition esp_vfs_fat_sdmmc_mount ::
  "string \<Rightarrow> sdmmc_host \<Rightarrow> slot_config \<Rightarrow> mount_config \<Rightarrow> 'a fat_world_scheme \<Rightarrow> (esp_err \<times> ptr option \<times> 'a fat_world_scheme) option" where
  "esp_vfs_fat_sdmmc_mount base_path host slot cfg w =
    (let ((err, pdrv, dup_path, cardp), w) = mount_prepare_mem base_path w
     in if err \<noteq> ESP_OK then Some (err, None, w)
     else let (r, w) = do_call (FAT Sdmmc_host_init) w
     in if ret r \<noteq> ESP_OK then Some (ret r, None, mount_cleanup False host cardp dup_path w)
     else let (r, w) = do_call (FAT (Sdmmc_host_init_slot (host_slot host) (slot_width slot) (slot_clk slot) (slot_cmd slot)
                (slot_d0 slot) (slot_flags slot))) w
     in if ret r \<noteq> ESP_OK then Some (ret r, None, mount_cleanup True host cardp dup_path w)
     else let (err, w) = sdmmc_card_init host cardp w
     in if err \<noteq> ESP_OK then Some (err, None, mount_cleanup True host cardp dup_path w)
     else do {
       path \<leftarrow> heap_paths w dup_path;
       (err, fs, w) \<leftarrow> mount_to_vfs_fat cfg cardp pdrv path w;
       if err \<noteq> ESP_OK then Some (err, None, mount_cleanup True host cardp dup_path w)
       else mount_context host pdrv cfg fs cardp dup_path w })"

definition unmount_card_core :: "string \<Rightarrow> ptr \<Rightarrow> 'a fat_world_scheme \<Rightarrow> (esp_err \<times> 'a fat_world_scheme) option" where
  "unmount_card_core base_path cardp w =
    (let pdrv = ff_diskio_get_pdrv_card cardp w
     in if pdrv = 0xff then Some (ESP_ERR_INVALID_ARG, w)
     else do {
       let w = call_void (FAT (F_mount 0 (drive_name pdrv) 0)) w;
       w \<leftarrow> ff_diskio_unregister pdrv w;
       c \<leftarrow> cards w cardp;
       let w = call_host_deinit (card_host c) w;
       esp_vfs_fat_unregister_path base_path (fat_free cardp w) })"

definition esp_vfs_fat_sdcard_unmount :: "string \<Rightarrow> ptr \<Rightarrow> 'a fat_world_scheme \<Rightarrow> (esp_err \<times> 'a fat_world_scheme) option" where
  "esp_vfs_fat_sdcard_unmount base_path cardp w =
    (case s_get_context_id_by_card cardp w of
       None \<Rightarrow> Some (ESP_ERR_INVALID_ARG, w)
     | Some i \<Rightarrow> let w = fat_free (s_ctx w ! i) w in unmount_card_core base_path cardp (w\<lparr>s_ctx := (s_ctx w)[i := 0]\<rparr>))"

text \<open>The deprecated way to unmount: the card of the context remembered, which must be there.\<close>

definition esp_vfs_fat_sdmmc_unmount :: "'a fat_world_scheme \<Rightarrow> (esp_err \<times> 'a fat_world_scheme) option" where
  "esp_vfs_fat_sdmmc_unmount w =
    (let i = s_saved_ctx_id w
     in if \<not> i < FF_VOLUMES then None
     else do {
       c \<leftarrow> sd_ctxs w (s_ctx w ! i);
       path \<leftarrow> heap_paths w (ctx_base_path c);
       (err, w) \<leftarrow> unmount_card_core path (ctx_card c) w;
       let w = fat_free (s_ctx w ! i) w;
       Some (err, w\<lparr>s_ctx := (s_ctx w)[i := 0], s_saved_ctx_id := FF_VOLUMES\<rparr>) })"

definition esp_vfs_fat_sdcard_format :: "string \<Rightarrow> ptr \<Rightarrow> 'a fat_world_scheme \<Rightarrow> (esp_err \<times> 'a fat_world_scheme) option" where
  "esp_vfs_fat_sdcard_format base_path cardp w =
    (if cardp = 0 then Some (ESP_ERR_INVALID_STATE, w)
     else let pdrv = ff_diskio_get_pdrv_card cardp w
     in if pdrv = 0xff then Some (ESP_ERR_INVALID_STATE, w)
     else let drv = drive_name pdrv; (r, w) = do_call (FAT (F_mount 0 drv 0)) w
     in if ret r \<noteq> 0 then Some (ESP_FAIL, w)
     else let (workbuf, w) = ff_memalloc 4096 w
     in if workbuf = 0 then Some (ESP_ERR_NO_MEM, w)
     else do {
       i \<leftarrow> s_get_context_id_by_card cardp w;
       c \<leftarrow> cards w cardp;
       ctx \<leftarrow> sd_ctxs w (s_ctx w ! i);
       let (r, w) = do_call (FAT (F_mkfs drv (esp_vfs_fat_get_allocation_unit_size (csd_sector_size c)
                      (allocation_unit_size (ctx_mount_config ctx))))) w;
       let res = (if ret r \<noteq> 0 then ESP_FAIL else ESP_OK);
       (err, w) \<leftarrow> s_f_mount cardp (ctx_fs ctx) drv pdrv (ctx_mount_config ctx) (fat_free workbuf w);
       if err \<noteq> ESP_OK then do { (_, w) \<leftarrow> unmount_card_core base_path cardp w; Some (res, w) }
       else Some (res, w) })"

section \<open>The heap\<close>

text \<open>The blocks in use after a history of calls; \<^verbatim>\<open>malloc\<close> and \<^verbatim>\<open>calloc\<close> give blocks that are not in use.\<close>

definition live_step :: "ptr set \<Rightarrow> event \<Rightarrow> ptr set" where
  "live_step S e = (S - set (freed e)) \<union> set (allocated e)"

definition live_blocks :: "event list \<Rightarrow> ptr set" where
  "live_blocks evs = foldl live_step {} evs"

lemma live_blocks_snoc [simp]: "live_blocks (h @ [e]) = live_step (live_blocks h) e"
  by (simp add: live_blocks_def)

lemma live_zero [simp]: "0 \<notin> live_blocks h"
proof (induction h rule: rev_induct)
  case (snoc e h)
  have "0 \<notin> set (allocated e)" by (cases e rule: allocated.cases) auto
  then show ?case using snoc by (simp add: live_step_def)
qed (simp add: live_blocks_def)

definition malloc_fresh :: "env \<Rightarrow> bool" where
  "malloc_fresh e \<longleftrightarrow> (\<forall>h n k. handle (ret (e h (MEM (Malloc n k)))) \<notin> live_blocks h \<and> handle (ret (e h (MEM (Calloc n k)))) \<notin> live_blocks h)"

text \<open>
  \<open>steps_to N L w w'\<close>: execution led from \<open>w\<close> to \<open>w'\<close>, obtained the blocks \<open>N\<close> and kept them, gave every other block it
  obtained back, and left the blocks \<open>L\<close> and their contents alone.
\<close>

definition steps_to :: "ptr list \<Rightarrow> ptr set \<Rightarrow> 'a fat_world_scheme \<Rightarrow> 'a fat_world_scheme \<Rightarrow> bool" where
  "steps_to N L w w' \<longleftrightarrow> wenv w' = wenv w \<and> sizeof w' = sizeof w \<and> fat_world.more w' = fat_world.more w \<and>
     (\<exists>evs. world.log w' = world.log w @ evs \<and> mset (allocs evs) = mset (frees evs) + mset N) \<and>
     live_blocks (world.log w') = live_blocks (world.log w) \<union> set N \<and> distinct N \<and> set N \<inter> live_blocks (world.log w) = {} \<and>
     (\<forall>p \<in> L. fat_ctxs w' p = fat_ctxs w p \<and> sd_ctxs w' p = sd_ctxs w p \<and> cards w' p = cards w p \<and> heap_paths w' p = heap_paths w p)"

lemma steps_refl [simp]: "steps_to [] L w w"
  by (simp add: steps_to_def)

lemma steps_trans:
  "steps_to N L w w1 \<Longrightarrow> steps_to M L' w1 w2 \<Longrightarrow> L \<subseteq> L' \<Longrightarrow> steps_to (N @ M) L w w2"
  unfolding steps_to_def
  by (elim conjE exE, intro conjI) (auto intro!: exI simp: Int_Un_distrib2 Un_assoc)

text \<open>A call that has nothing to do with the heap.\<close>

lemma steps_call:
  "allocated (c, reply_to w c) = [] \<Longrightarrow> freed (c, reply_to w c) = [] \<Longrightarrow> steps_to [] L w (after w c)"
  by (simp add: steps_to_def live_step_def)

lemma steps_malloc:
  assumes "malloc_fresh (wenv w)" "p = handle (ret (reply_to w c))" "p \<noteq> 0" "c = MEM (Malloc n k) \<or> c = MEM (Calloc n k)"
  shows "steps_to [p] L w (after w c)"
proof -
  have "p \<notin> live_blocks (world.log w)" using assms by (auto simp: malloc_fresh_def reply_to_def)
  then show ?thesis using assms(2-4) by (auto simp: steps_to_def live_step_def)
qed

lemma steps_no_memory:
  "handle (ret (reply_to w c)) = 0 \<Longrightarrow> c = MEM (Malloc n k) \<or> c = MEM (Calloc n k) \<Longrightarrow> steps_to [] L w (after w c)"
  by (auto intro!: steps_call)

text \<open>Giving a block back.\<close>

lemma steps_free:
  assumes s: "steps_to N L w w'" and p: "p \<in> set N" "p \<notin> L" "p \<noteq> 0"
  shows "steps_to (remove1 p N) L w (fat_free p w')"
proof -
  obtain evs where e: "world.log w' = world.log w @ evs" "mset (allocs evs) = mset (frees evs) + mset N"
    using s by (auto simp: steps_to_def)
  let ?evs = "evs @ [(MEM (Free p), reply_to w' (MEM (Free p)))]"
  have "mset (allocs ?evs) = mset (frees ?evs) + mset (remove1 p N)" using e(2) p(1) by simp
  moreover have "world.log (fat_free p w') = world.log w @ ?evs" using e(1) p(3) by (simp add: fat_free_def io_simps)
  ultimately have "\<exists>evs. world.log (fat_free p w') = world.log w @ evs \<and> mset (allocs evs) = mset (frees evs) + mset (remove1 p N)" by blast
  moreover have "live_blocks (world.log (fat_free p w')) = live_blocks (world.log w) \<union> set (remove1 p N)"
    using s p by (auto simp: fat_free_def io_simps live_step_def steps_to_def)
  ultimately show ?thesis
    using s p unfolding steps_to_def by (auto simp: fat_free_def io_simps dest: notin_set_remove1)
qed

section \<open>Mounting and unmounting\<close>

definition tables where
  "tables w = (s_impls w, s_cards w, s_disk_status_check_en w, s_fat_ctxs w, s_fat_ctx w, s_ctx w, s_saved_ctx_id w)"

lemma tables_after [simp]: "tables (after w c) = tables w"
  by (simp add: tables_def)

lemma tables_free [simp]: "tables (fat_free p w) = tables w"
  by (simp add: tables_def fat_free_def io_simps)

lemma tables_upd [simp]:
  "tables (w\<lparr>cards := c\<rparr>) = tables w" "tables (w\<lparr>heap_paths := h\<rparr>) = tables w" "tables (w\<lparr>fat_ctxs := f\<rparr>) = tables w"
  "tables (w\<lparr>sd_ctxs := d\<rparr>) = tables w"
  by (simp_all add: tables_def)

lemma steps_call_after:
  "steps_to N L w w1 \<Longrightarrow> allocated (c, reply_to w1 c) = [] \<Longrightarrow> freed (c, reply_to w1 c) = [] \<Longrightarrow> steps_to N L w (after w1 c)"
  using steps_trans [OF _ steps_call [of c w1 L]] by simp

lemma steps_wenv: "steps_to N L w w' \<Longrightarrow> wenv w' = wenv w"
  by (simp add: steps_to_def)

lemma steps_cards: "steps_to N L w w' \<Longrightarrow> p \<in> L \<Longrightarrow> cards w' p = cards w p"
  by (simp add: steps_to_def)

lemma steps_new: "steps_to N L w w' \<Longrightarrow> L \<subseteq> live_blocks (world.log w) \<Longrightarrow> p \<in> set N \<Longrightarrow> p \<notin> L \<and> p \<noteq> 0"
  unfolding steps_to_def using live_zero by (metis UnCI disjoint_iff subsetD)

lemma steps_malloc_after:
  assumes "steps_to N L w w1" "malloc_fresh (wenv w)" "p = handle (ret (reply_to w1 c))" "p \<noteq> 0" "c = MEM (Malloc n k) \<or> c = MEM (Calloc n k)"
  shows "steps_to (N @ [p]) L w (after w1 c)"
  using steps_trans [OF assms(1) steps_malloc [of w1 p c n k L]] assms(2-) steps_wenv [OF assms(1)] by simp

lemma partition_ok:
  assumes "malloc_fresh (wenv w)" "cards w c \<noteq> None" "c \<in> L" "L \<subseteq> live_blocks (world.log w)"
  shows "\<exists>err w'. partition_card cfg drv c pdrv w = Some (err, w') \<and> steps_to [] L w w' \<and> tables w' = tables w"
proof -
  define b where "b = handle (ret (reply_to w (MEM (Malloc 4096 0x1400))))"
  define w1 where "w1 = after w (MEM (Malloc 4096 0x1400))"
  have alloc: "ff_memalloc 4096 w = (b, w1)" by (simp add: ff_memalloc_def io_simps b_def w1_def)
  show ?thesis
  proof (cases "b = 0")
    case True
    then show ?thesis
      using alloc steps_no_memory [of w "MEM (Malloc 4096 0x1400)"] by (simp add: partition_card_def b_def w1_def)
  next
    case False
    have s1: "steps_to [b] L w w1" using steps_malloc [OF assms(1) _ False] by (simp add: b_def w1_def)
    note b = steps_new [OF s1 assms(4), of b]
    define w2 where "w2 = after w1 (FAT (F_fdisk pdrv))"
    have s2: "steps_to [b] L w w2" using steps_call_after [OF s1] by (simp add: w2_def)
    show ?thesis
    proof (cases "ret (reply_to w1 (FAT (F_fdisk pdrv))) = 0")
      case False
      then show ?thesis
        using alloc \<open>b \<noteq> 0\<close> steps_free [OF s2, of b] b by (simp add: partition_card_def io_simps w2_def w1_def)
    next
      case True
      obtain cd where cd: "cards w2 c = Some cd" using steps_cards [OF s2 assms(3)] assms(2) by auto
      define cl where "cl = FAT (F_mkfs drv (esp_vfs_fat_get_allocation_unit_size (csd_sector_size cd) (allocation_unit_size cfg)))"
      define w3 where "w3 = after w2 cl"
      have "steps_to [b] L w w3" using steps_call_after [OF s2] by (simp add: w3_def cl_def)
      from steps_free [OF this, of b] have "steps_to [] L w (fat_free b w3)" using b by simp
      moreover have "partition_card cfg drv c pdrv w = Some (if ret (reply_to w2 cl) \<noteq> 0 then ESP_FAIL else ESP_OK, fat_free b w3)"
        using alloc False True cd by (simp add: partition_card_def io_simps w2_def w3_def cl_def)
      ultimately show ?thesis by (simp add: w3_def w2_def w1_def)
    qed
  qed
qed

lemma s_f_mount_ok:
  assumes "malloc_fresh (wenv w)" "cards w c \<noteq> None" "c \<in> L" "L \<subseteq> live_blocks (world.log w)"
  shows "\<exists>err w'. s_f_mount c fs drv pdrv cfg w = Some (err, w') \<and> steps_to [] L w w' \<and> tables w' = tables w"
proof -
  let ?c = "FAT (F_mount fs drv 1)"
  define w1 where "w1 = after w ?c"
  have s1: "steps_to [] L w w1" by (simp add: w1_def steps_call)
  have pre: "malloc_fresh (wenv w1)" "cards w1 c \<noteq> None" "L \<subseteq> live_blocks (world.log w1)"
    using assms steps_wenv [OF s1] s1 by (simp_all add: w1_def steps_to_def)
  obtain err w2 where p: "partition_card cfg drv c pdrv w1 = Some (err, w2)" "steps_to [] L w1 w2" "tables w2 = tables w1"
    using partition_ok [OF pre(1,2) assms(3) pre(3)] by blast
  have s2: "steps_to [] L w w2" using steps_trans [OF s1 p(2)] by simp
  have s3: "steps_to [] L w (after w2 ?c)" using steps_call_after [OF s2] by simp
  show ?thesis
    using p(1,3) s1 s2 s3 by (auto simp: s_f_mount_def io_simps w1_def [symmetric] Let_def) (auto simp: w1_def io_simps)
qed

text \<open>Changes of the tables, and of blocks obtained on the way.\<close>

lemma steps_tables [simp]:
  "steps_to N L w (w'\<lparr>s_impls := a\<rparr>) = steps_to N L w w'" "steps_to N L w (w'\<lparr>s_cards := b\<rparr>) = steps_to N L w w'"
  "steps_to N L w (w'\<lparr>s_disk_status_check_en := d\<rparr>) = steps_to N L w w'" "steps_to N L w (w'\<lparr>s_fat_ctxs := e\<rparr>) = steps_to N L w w'"
  "steps_to N L w (w'\<lparr>s_fat_ctx := f\<rparr>) = steps_to N L w w'" "steps_to N L w (w'\<lparr>s_ctx := g\<rparr>) = steps_to N L w w'"
  "steps_to N L w (w'\<lparr>s_saved_ctx_id := i\<rparr>) = steps_to N L w w'"
  by (simp_all add: steps_to_def)

lemma steps_new_block:
  assumes "steps_to N L w w'" "L \<subseteq> live_blocks (world.log w)" "p \<in> set N"
  shows "steps_to N L w (w'\<lparr>fat_ctxs := (fat_ctxs w')(p := a)\<rparr>)" "steps_to N L w (w'\<lparr>sd_ctxs := (sd_ctxs w')(p := b)\<rparr>)"
    "steps_to N L w (w'\<lparr>cards := (cards w')(p := d)\<rparr>)" "steps_to N L w (w'\<lparr>heap_paths := (heap_paths w')(p := e)\<rparr>)"
  using assms(1) steps_new [OF assms] by (auto simp: steps_to_def)

lemma fat_free_sel [simp]:
  "q \<noteq> p \<Longrightarrow> fat_ctxs (fat_free p w) q = fat_ctxs w q" "q \<noteq> p \<Longrightarrow> sd_ctxs (fat_free p w) q = sd_ctxs w q"
  "q \<noteq> p \<Longrightarrow> cards (fat_free p w) q = cards w q" "q \<noteq> p \<Longrightarrow> heap_paths (fat_free p w) q = heap_paths w q"
  "s_impls (fat_free p w) = s_impls w" "s_cards (fat_free p w) = s_cards w" "s_ctx (fat_free p w) = s_ctx w"
  "s_fat_ctxs (fat_free p w) = s_fat_ctxs w" "wenv (fat_free p w) = wenv w" "s_saved_ctx_id (fat_free p w) = s_saved_ctx_id w"
  "s_disk_status_check_en (fat_free p w) = s_disk_status_check_en w" "s_fat_ctx (fat_free p w) = s_fat_ctx w"
  by (simp_all add: fat_free_def io_simps)

text \<open>Registration and deregistration of a path never fail for a reason of its own: see \<^verbatim>\<open>esp_vfs_register\<close>, \<^verbatim>\<open>esp_vfs_unregister\<close>.\<close>

definition vfs_answers :: "env \<Rightarrow> bool" where
  "vfs_answers e \<longleftrightarrow> (\<forall>h p c. ret (e h (FAT (Vfs_register p c))) \<noteq> ESP_ERR_INVALID_STATE \<and> ret (e h (FAT (Vfs_unregister p))) = ESP_OK)"

lemmas slot_simps = find_slot_def FF_VOLUMES_def find_context_index_by_path_def find_unused_context_index_def ff_diskio_get_drive_def
  ff_diskio_get_pdrv_card_def s_get_context_id_by_card_def s_get_unused_context_id_def

lemma register_ok:
  assumes "malloc_fresh (wenv w)" "vfs_answers (wenv w)" "s_fat_ctxs w = [0, 0]" "L \<subseteq> live_blocks (world.log w)"
    and "esp_vfs_fat_register base drv files w = (err, fs, w')"
  shows "(err \<noteq> ESP_OK \<and> err \<noteq> ESP_ERR_INVALID_STATE \<and> fs = 0 \<and> steps_to [] L w w' \<and> tables w' = tables w) \<or>
    (err = ESP_OK \<and> (\<exists>fc app. steps_to [fc, app] L w w' \<and> fs = fs_of fc \<and> tables w' = tables (w\<lparr>s_fat_ctxs := [fc, 0], s_fat_ctx := fc\<rparr>) \<and>
       fat_ctxs w' fc = Some \<lparr>fat_drive = strlcpy 7 drv, fat_base_path = strlcpy 14 base, o_append = app, fat_max_files = files\<rparr>))"
proof -
  define c1 where "c1 = MEM (Malloc (sizeof w ''vfs_fat_ctx_t'' + files * sizeof w ''FIL'') 0x1400)"
  define fc where "fc = handle (ret (reply_to w c1))"
  define w1 where "w1 = after w c1"
  define c2 where "c2 = MEM (Malloc files 0x1400)"
  define app where "app = handle (ret (reply_to w1 c2))"
  define w2 where "w2 = after w1 c2"
  define w3 where "w3 = w2\<lparr>fat_ctxs := (fat_ctxs w2)(fc \<mapsto> \<lparr>fat_drive = strlcpy 7 drv, fat_base_path = strlcpy 14 base, o_append = app,
                 fat_max_files = files\<rparr>)\<rparr>"
  define c3 where "c3 = FAT (Vfs_register base fc)"
  define w4 where "w4 = after w3 c3"
  have run: "esp_vfs_fat_register base drv files w =
    (if fc = 0 then (ESP_ERR_NO_MEM, 0, w1) else if app = 0 then (ESP_ERR_NO_MEM, 0, fat_free fc w2)
     else if ret (reply_to w3 c3) \<noteq> ESP_OK then (ret (reply_to w3 c3), 0, fat_free fc (fat_free app w4))
     else (ESP_OK, fs_of fc, w4\<lparr>s_fat_ctxs := [fc, 0], s_fat_ctx := fc\<rparr>))"
    using assms(3)
    by (simp add: esp_vfs_fat_register_def slot_simps ff_memalloc_def io_simps Let_def ESP_VFS_PATH_MAX_def
        c1_def [symmetric] fc_def [symmetric] w1_def [symmetric] c2_def [symmetric] app_def [symmetric] w2_def [symmetric]
        w3_def [symmetric] c3_def [symmetric] w4_def [symmetric])
      (simp add: w4_def w3_def w2_def w1_def)
  have t: "tables w1 = tables w" "tables w2 = tables w" "tables w4 = tables w" by (simp_all add: w1_def w2_def w3_def w4_def)
  consider "fc = 0" | "fc \<noteq> 0" "app = 0" | "fc \<noteq> 0" "app \<noteq> 0" by blast
  then show ?thesis
  proof cases
    case 1
    then have "steps_to [] L w w1" using steps_no_memory [of w c1] by (simp add: fc_def w1_def c1_def)
    then show ?thesis using run 1 assms(5) t by auto
  next
    case 2
    have s1: "steps_to [fc] L w w1" using steps_malloc [OF assms(1) _ 2(1)] by (simp add: fc_def w1_def c1_def)
    have s2: "steps_to [fc] L w w2" using steps_call_after [OF s1, of c2] 2(2) by (simp add: w2_def c2_def app_def)
    have "steps_to [] L w (fat_free fc w2)" using steps_free [OF s2, of fc] steps_new [OF s1 assms(4), of fc] by simp
    then show ?thesis using run 2 assms(5) t by auto
  next
    case 3
    have s1: "steps_to [fc] L w w1" using steps_malloc [OF assms(1) _ 3(1)] by (simp add: fc_def w1_def c1_def)
    have s2: "steps_to [fc, app] L w w2" using steps_malloc_after [OF s1 assms(1), of app c2] 3(2) by (simp add: w2_def c2_def app_def)
    have "steps_to [fc, app] L w w3" using steps_new_block(1) [OF s2 assms(4)] by (simp add: w3_def)
    then have s4: "steps_to [fc, app] L w w4" using steps_call_after [of "[fc, app]" L w w3 c3] by (simp add: w4_def c3_def)
    note new = steps_new [OF s4 assms(4)]
    have d: "fc \<noteq> app" using s4 by (simp add: steps_to_def)
    show ?thesis
    proof (cases "ret (reply_to w3 c3) = 0")
      case True
      have "tables (w4\<lparr>s_fat_ctxs := [fc, 0], s_fat_ctx := fc\<rparr>) = tables (w\<lparr>s_fat_ctxs := [fc, 0], s_fat_ctx := fc\<rparr>)"
        using t(3) by (simp add: tables_def)
      then show ?thesis using run 3 assms(5) True s4 by (auto simp: w4_def w3_def)
    next
      case False
      have "steps_to [fc] L w (fat_free app w4)" using steps_free [OF s4, of app] new d by simp
      from steps_free [OF this, of fc] have "steps_to [] L w (fat_free fc (fat_free app w4))" using new by simp
      moreover have "ret (reply_to w3 c3) \<noteq> ESP_ERR_INVALID_STATE"
        using assms(2) steps_wenv [OF s2] by (simp add: vfs_answers_def reply_to_def c3_def w3_def)
      ultimately show ?thesis using run 3 assms(5) False t by auto
    qed
  qed
qed

definition no_volume :: "'a fat_world_scheme \<Rightarrow> bool" where
  "no_volume w \<longleftrightarrow> s_impls w = [0, 0] \<and> s_fat_ctxs w = [0, 0] \<and> s_ctx w = [0, 0] \<and> length (s_cards w) = 2 \<and>
     length (s_disk_status_check_en w) = 2"

text \<open>The first volume is the card \<open>c\<close>, with the disk driver \<open>im\<close> and the file system \<open>fc\<close>.\<close>

definition volume :: "ptr \<Rightarrow> ptr \<Rightarrow> ptr \<Rightarrow> ptr \<Rightarrow> string \<Rightarrow> 'a fat_world_scheme \<Rightarrow> bool" where
  "volume c im fc app base w \<longleftrightarrow> s_impls w = [im, 0] \<and> s_fat_ctxs w = [fc, 0] \<and> length (s_cards w) = 2 \<and> s_cards w ! 0 = c \<and>
     length (s_disk_status_check_en w) = 2 \<and> fc \<noteq> 0 \<and> im \<noteq> 0 \<and>
     (\<exists>ctx. fat_ctxs w fc = Some ctx \<and> fat_base_path ctx = base \<and> o_append ctx = app)"

lemma unregister_path_ok:
  assumes "vfs_answers (wenv w)" "s_fat_ctxs w = [fc, 0]" "fc \<noteq> 0" "fat_ctxs w fc = Some ctx" "fat_base_path ctx = base"
  shows "esp_vfs_fat_unregister_path base w = Some (ESP_OK,
    (fat_free fc (fat_free (o_append ctx) (after w (FAT (Vfs_unregister base)))))\<lparr>s_fat_ctxs := [0, 0]\<rparr>)"
proof -
  have "ret (reply_to w (FAT (Vfs_unregister base))) = 0" using assms(1) by (simp add: vfs_answers_def reply_to_def)
  then show ?thesis using assms(2-5) by (simp add: esp_vfs_fat_unregister_path_def slot_simps io_simps)
qed

lemma unregister_none: "s_fat_ctxs w = [0, 0] \<Longrightarrow> esp_vfs_fat_unregister_path base w = Some (ESP_ERR_INVALID_STATE, w)"
  by (simp add: esp_vfs_fat_unregister_path_def slot_simps)

lemma diskio_unregister: "s_impls w = [im, 0] \<Longrightarrow> im \<noteq> 0 \<Longrightarrow> ff_diskio_unregister 0 w = Some (fat_free im (w\<lparr>s_impls := [0, 0]\<rparr>))"
  by (simp add: ff_diskio_unregister_def ff_diskio_register_def FF_VOLUMES_def Let_def)

text \<open>The disk driver of the card, and the way back from a registered file system.\<close>

lemma register_sdmmc_ok:
  assumes "malloc_fresh (wenv w)" "no_volume w"
  shows "(ff_diskio_register_sdmmc 0 c w = None \<and> (\<exists>h n. handle (ret (wenv w h (MEM (Malloc n 0)))) = 0)) \<or>
    (\<exists>im w'. ff_diskio_register_sdmmc 0 c w = Some w' \<and> steps_to [im] L w w' \<and> im \<noteq> 0 \<and> s_impls w' = [im, 0] \<and>
       s_fat_ctxs w' = [0, 0] \<and> s_ctx w' = [0, 0] \<and> length (s_cards w') = 2 \<and> s_cards w' ! 0 = c \<and> length (s_disk_status_check_en w') = 2)"
proof -
  note tabs = assms(2) [unfolded no_volume_def]
  define w1 where "w1 = w\<lparr>s_cards := (s_cards w)[0 := c], s_disk_status_check_en := (s_disk_status_check_en w)[0 := False]\<rparr>"
  define n1 where "n1 = sizeof w ''ff_diskio_impl_t''"
  define im where "im = handle (ret (reply_to w1 (MEM (Malloc n1 0))))"
  have reg: "ff_diskio_register_sdmmc 0 c w =
      (if im = 0 then None else Some ((after w1 (MEM (Malloc n1 0)))\<lparr>s_impls := [im, 0]\<rparr>))"
    using tabs
    by (simp add: ff_diskio_register_sdmmc_def ff_diskio_register_def FF_VOLUMES_def fat_malloc_def io_simps Let_def n1_def im_def w1_def)
  show ?thesis
  proof (cases "im = 0")
    case True
    have "im = handle (ret (wenv w (world.log w) (MEM (Malloc n1 0))))" by (simp add: im_def reply_to_def w1_def)
    then show ?thesis using reg True by metis
  next
    case False
    have "steps_to [im] L w1 (after w1 (MEM (Malloc n1 0)))"
      by (rule steps_malloc [of w1 im _ n1 0]) (use assms(1) False in \<open>simp_all add: im_def w1_def\<close>)
    then have "steps_to [im] L w ((after w1 (MEM (Malloc n1 0)))\<lparr>s_impls := [im, 0]\<rparr>)" by (simp add: w1_def steps_to_def)
    then show ?thesis using reg False tabs by (intro disjI2 exI) (auto simp: w1_def)
  qed
qed

lemma vfs_undo:
  assumes "vfs_answers (wenv w)" and s4: "steps_to [im, fc, app] L w w4" and L: "L \<subseteq> live_blocks (world.log w)"
    and v: "volume c im fc app base w4" "s_ctx w4 = [0, 0]"
  shows "\<exists>w'. do { (_, w) \<leftarrow> esp_vfs_fat_unregister_path base (call_void (FAT (F_mount 0 drv 0)) w4); ff_diskio_unregister 0 w } = Some w' \<and>
    steps_to [] L w w' \<and> no_volume w' \<and> s_ctx w' = [0, 0]"
proof -
  obtain ctx where t4: "s_fat_ctxs w4 = [fc, 0]" "s_impls w4 = [im, 0]" "length (s_cards w4) = 2" "length (s_disk_status_check_en w4) = 2"
    "fat_ctxs w4 fc = Some ctx" "fat_base_path ctx = base" "o_append ctx = app" "im \<noteq> 0" "fc \<noteq> 0"
    using v(1) by (auto simp: volume_def)
  note new = steps_new [OF s4 L]
  have d: "im \<noteq> fc" "im \<noteq> app" "fc \<noteq> app" using s4 by (auto simp: steps_to_def)
  define w5 where "w5 = after w4 (FAT (F_mount 0 drv 0))"
  define w6 where "w6 = fat_free fc (fat_free app (after w5 (FAT (Vfs_unregister base))))"
  define w7 where "w7 = fat_free im (w6\<lparr>s_fat_ctxs := [0, 0], s_impls := [0, 0]\<rparr>)"
  have "vfs_answers (wenv w5)" using assms(1) steps_wenv [OF s4] by (simp add: w5_def)
  then have u: "esp_vfs_fat_unregister_path base w5 = Some (ESP_OK, w6\<lparr>s_fat_ctxs := [0, 0]\<rparr>)"
    using unregister_path_ok [of w5 fc ctx base] t4 by (simp add: w5_def w6_def)
  have "steps_to [im, fc, app] L w (after w5 (FAT (Vfs_unregister base)))"
    using steps_call_after [OF steps_call_after [OF s4]] by (simp add: w5_def)
  from steps_free [OF this, of app] have "steps_to [im, fc] L w (fat_free app (after w5 (FAT (Vfs_unregister base))))" using new d by simp
  from steps_free [OF this, of fc] have "steps_to [im] L w w6" using new d by (simp add: w6_def)
  then have "steps_to [im] L w (w6\<lparr>s_fat_ctxs := [0, 0], s_impls := [0, 0]\<rparr>)" by simp
  from steps_free [OF this, of im] have s7: "steps_to [] L w w7" using new t4(8) by (simp add: w7_def)
  have "s_impls (w6\<lparr>s_fat_ctxs := [0, 0]\<rparr>) = [im, 0]" using t4(2) by (simp add: w6_def w5_def)
  from diskio_unregister [OF this t4(8)] u have "do { (_, w) \<leftarrow> esp_vfs_fat_unregister_path base (call_void (FAT (F_mount 0 drv 0)) w4);
      ff_diskio_unregister 0 w } = Some w7" by (simp add: io_simps w5_def w7_def)
  moreover have "no_volume w7" "s_ctx w7 = [0, 0]" using t4 v(2) by (simp_all add: no_volume_def w7_def w6_def w5_def)
  ultimately show ?thesis using s7 by blast
qed

lemma mount_to_vfs_ok:
  assumes "malloc_fresh (wenv w)" "vfs_answers (wenv w)" "no_volume w" "cards w c \<noteq> None" "c \<in> L" "L \<subseteq> live_blocks (world.log w)"
    and "length base \<le> 13"
  shows "case mount_to_vfs_fat cfg c 0 base w of
      None \<Rightarrow> \<exists>h n. handle (ret (wenv w h (MEM (Malloc n 0)))) = 0
    | Some (err, fs, w') \<Rightarrow> s_ctx w' = [0, 0] \<and>
        (if err \<noteq> ESP_OK then steps_to [] L w w' \<and> no_volume w'
         else \<exists>im fc app. steps_to [im, fc, app] L w w' \<and> volume c im fc app base w' \<and> fs = fs_of fc)"
proof (cases "ff_diskio_register_sdmmc 0 c w")
  case None
  then show ?thesis using register_sdmmc_ok [OF assms(1,3), of c L] by (auto simp: mount_to_vfs_fat_def)
next
  case (Some w1)
  then obtain im where s1: "steps_to [im] L w w1" and im: "im \<noteq> 0" and t1: "s_impls w1 = [im, 0]" "s_fat_ctxs w1 = [0, 0]" "s_ctx w1 = [0, 0]"
      "length (s_cards w1) = 2" "s_cards w1 ! 0 = c" "length (s_disk_status_check_en w1) = 2"
    using register_sdmmc_ok [OF assms(1,3), of c L] by auto
  define w2 where "w2 = ff_sdmmc_set_disk_status_check 0 (disk_status_check_enable cfg) w1"
  have s2: "steps_to [im] L w w2" using s1 by (simp add: w2_def ff_sdmmc_set_disk_status_check_def)
  have t2: "s_impls w2 = [im, 0]" "s_fat_ctxs w2 = [0, 0]" "s_ctx w2 = [0, 0]" "length (s_cards w2) = 2" "s_cards w2 ! 0 = c"
      "length (s_disk_status_check_en w2) = 2"
    using t1 by (simp_all add: w2_def ff_sdmmc_set_disk_status_check_def)
  have env: "malloc_fresh (wenv w2)" "vfs_answers (wenv w2)" using assms(1,2) steps_wenv [OF s2] by simp_all
  have L2: "insert im L \<subseteq> live_blocks (world.log w2)" using s2 assms(6) by (auto simp: steps_to_def)
  define drv where "drv = drive_name 0"
  obtain e fs0 w3 where r: "esp_vfs_fat_register base drv (max_files cfg) w2 = (e, fs0, w3)" by (metis prod_cases3)
  have run: "mount_to_vfs_fat cfg c 0 base w = do {
      (err, w) \<leftarrow> (if e = ESP_OK \<or> e = ESP_ERR_INVALID_STATE then s_f_mount c fs0 drv 0 cfg w3 else Some (e, w3));
      if err = ESP_OK then Some (ESP_OK, fs0, w)
      else do {
        let w = (if fs0 \<noteq> 0 then call_void (FAT (F_mount 0 drv 0)) w else w);
        (_, w) \<leftarrow> esp_vfs_fat_unregister_path base w;
        w \<leftarrow> ff_diskio_unregister 0 w;
        Some (err, fs0, w) } }"
    using Some r by (simp add: mount_to_vfs_fat_def drv_def [symmetric] w2_def)
  consider (fail) "e \<noteq> ESP_OK" "e \<noteq> ESP_ERR_INVALID_STATE" "fs0 = 0" "steps_to [] (insert im L) w2 w3" "tables w3 = tables w2"
    | (made) fc app ctx where "e = ESP_OK" "steps_to [fc, app] (insert im L) w2 w3" "fs0 = fs_of fc"
        "tables w3 = tables (w2\<lparr>s_fat_ctxs := [fc, 0], s_fat_ctx := fc\<rparr>)" "fat_ctxs w3 fc = Some ctx" "fat_base_path ctx = strlcpy 14 base"
        "o_append ctx = app"
    using register_ok [OF env t2(2) L2 r] by auto
  then show ?thesis
  proof cases
    case fail
    have t3: "s_fat_ctxs w3 = [0, 0]" "s_impls w3 = [im, 0]" "s_ctx w3 = [0, 0]" "length (s_cards w3) = 2" "length (s_disk_status_check_en w3) = 2"
      using fail(5) t2 by (simp_all add: tables_def)
    have "steps_to [im] L w (w3\<lparr>s_impls := [0, 0]\<rparr>)" using steps_trans [OF s2 fail(4)] by auto
    from steps_free [OF this, of im] have "steps_to [] L w (fat_free im (w3\<lparr>s_impls := [0, 0]\<rparr>))" using steps_new [OF s2 assms(6), of im] by simp
    moreover have "mount_to_vfs_fat cfg c 0 base w = Some (e, 0, fat_free im (w3\<lparr>s_impls := [0, 0]\<rparr>))"
      using run fail(1-3) unregister_none [OF t3(1)] diskio_unregister [OF t3(2) im] by simp
    ultimately show ?thesis using fail(1) t3 by (simp add: no_volume_def)
  next
    case made
    have s3: "steps_to [im, fc, app] L w w3" using steps_trans [OF s2 made(2)] by auto
    let ?L = "{c, fc, app} \<union> L"
    have L3: "?L \<subseteq> live_blocks (world.log w3)" using s3 assms(5,6) by (auto simp: steps_to_def)
    have "cards w3 c \<noteq> None" "malloc_fresh (wenv w3)" using steps_cards [OF s3 assms(5)] assms(1,4) steps_wenv [OF s3] by simp_all
    then obtain e4 w4 where m: "s_f_mount c fs0 drv 0 cfg w3 = Some (e4, w4)" "steps_to [] ?L w3 w4" "tables w4 = tables w3"
      using s_f_mount_ok [of w3 c ?L fs0 drv 0 cfg] L3 by auto
    have s4: "steps_to [im, fc, app] L w w4" using steps_trans [OF s3 m(2)] by auto
    have "fat_ctxs w4 fc = Some ctx" using m(2) made(5) by (simp add: steps_to_def)
    moreover have "s_fat_ctxs w4 = [fc, 0]" "s_impls w4 = [im, 0]" "s_ctx w4 = [0, 0]" "length (s_cards w4) = 2" "s_cards w4 ! 0 = c"
      "length (s_disk_status_check_en w4) = 2"
      using m(3) made(4) t2 by (simp_all add: tables_def)
    ultimately have v: "volume c im fc app base w4" "s_ctx w4 = [0, 0]"
      using made(6,7) assms(7) im steps_new [OF s4 assms(6), of fc] by (simp_all add: volume_def strlcpy_def)
    show ?thesis
    proof (cases "e4 = 0")
      case True
      then show ?thesis using run made(1,3) m(1) v s4 by auto
    next
      case False
      obtain w' where u: "do { (_, w) \<leftarrow> esp_vfs_fat_unregister_path base (call_void (FAT (F_mount 0 drv 0)) w4); ff_diskio_unregister 0 w } = Some w'"
        "steps_to [] L w w'" "no_volume w'" "s_ctx w' = [0, 0]"
        using vfs_undo [OF assms(2) s4 assms(6) v] by blast
      then have "mount_to_vfs_fat cfg c 0 base w = Some (e4, fs0, w')"
        using run made(1,3) m(1) False
        by (cases "esp_vfs_fat_unregister_path base (call_void (FAT (F_mount 0 drv 0)) w4)") (auto simp: fs_of_def)
      then show ?thesis using u False by simp
    qed
  qed
qed

lemma no_volume_tables: "tables w' = tables w \<Longrightarrow> no_volume w' = no_volume w"
  by (simp add: no_volume_def tables_def)

lemma prepare_ok:
  assumes "malloc_fresh (wenv w)" "no_volume w" "L \<subseteq> live_blocks (world.log w)"
    and "mount_prepare_mem base w = ((err, pdrv, dup, c), w')"
  shows "tables w' = tables w \<and> (if err \<noteq> ESP_OK then steps_to [] L w w'
    else pdrv = 0 \<and> steps_to [c, dup] L w w' \<and> heap_paths w' dup = Some base)"
proof -
  define c1 where "c1 = MEM (Malloc (sizeof w ''sdmmc_card_t'') 0)"
  define cp where "cp = handle (ret (reply_to w c1))"
  define w1 where "w1 = after w c1"
  define c2 where "c2 = MEM (Malloc (length base + 1) 0)"
  define dp where "dp = handle (ret (reply_to w1 c2))"
  define w2 where "w2 = after w1 c2"
  have run: "mount_prepare_mem base w =
    (if cp = 0 then ((ESP_ERR_NO_MEM, FF_DRV_NOT_USED, 0, 0), w1)
     else if dp = 0 then ((ESP_ERR_NO_MEM, FF_DRV_NOT_USED, 0, 0), fat_free cp w2)
     else ((ESP_OK, 0, dp, cp), w2\<lparr>heap_paths := (heap_paths w2)(dp \<mapsto> base)\<rparr>))"
    using assms(2)
    by (simp add: mount_prepare_mem_def slot_simps no_volume_def fat_malloc_def io_simps Let_def c1_def [symmetric] cp_def [symmetric]
        w1_def [symmetric] c2_def [symmetric, simplified] dp_def [symmetric] w2_def [symmetric])
  have t: "tables w1 = tables w" "tables w2 = tables w" by (simp_all add: w1_def w2_def)
  consider "cp = 0" | "cp \<noteq> 0" "dp = 0" | "cp \<noteq> 0" "dp \<noteq> 0" by blast
  then show ?thesis
  proof cases
    case 1
    then have "steps_to [] L w w1" using steps_no_memory [of w c1] by (simp add: cp_def w1_def c1_def)
    then show ?thesis using run 1 assms(4) t by auto
  next
    case 2
    have s1: "steps_to [cp] L w w1" using steps_malloc [OF assms(1) _ 2(1)] by (simp add: cp_def w1_def c1_def)
    have s2: "steps_to [cp] L w w2" using steps_call_after [OF s1, of c2] 2(2) by (simp add: w2_def c2_def dp_def)
    have "steps_to [] L w (fat_free cp w2)" using steps_free [OF s2, of cp] steps_new [OF s1 assms(3), of cp] by simp
    then show ?thesis using run 2 assms(4) t by auto
  next
    case 3
    have s1: "steps_to [cp] L w w1" using steps_malloc [OF assms(1) _ 3(1)] by (simp add: cp_def w1_def c1_def)
    have s2: "steps_to [cp, dp] L w w2" using steps_malloc_after [OF s1 assms(1), of dp c2] 3(2) by (simp add: w2_def c2_def dp_def)
    have "steps_to [cp, dp] L w (w2\<lparr>heap_paths := (heap_paths w2)(dp \<mapsto> base)\<rparr>)" using steps_new_block(4) [OF s2 assms(3)] by simp
    then show ?thesis using run 3 assms(4) t by auto
  qed
qed

lemma cleanup_ok:
  assumes "steps_to (N @ [c, dup]) L w w1" "L \<subseteq> live_blocks (world.log w)"
  shows "steps_to N L w (mount_cleanup b host c dup w1) \<and> tables (mount_cleanup b host c dup w1) = tables w1"
proof -
  define w2 where "w2 = (if b then call_host_deinit host w1 else w1)"
  have s2: "steps_to (N @ [c, dup]) L w w2" using steps_call_after [OF assms(1)] assms(1) by (simp add: w2_def call_host_deinit_def io_simps)
  have d: "c \<notin> set N" "dup \<notin> set N" "c \<noteq> dup" using s2 by (auto simp: steps_to_def)
  note new = steps_new [OF s2 assms(2)]
  have "steps_to (N @ [dup]) L w (fat_free c w2)" using steps_free [OF s2, of c] new d by (simp add: remove1_append)
  from steps_free [OF this, of dup] have "steps_to N L w (fat_free dup (fat_free c w2))" using new d by (simp add: remove1_append)
  moreover have "tables w2 = tables w1" by (simp add: w2_def call_host_deinit_def io_simps)
  ultimately show ?thesis by (simp add: mount_cleanup_def w2_def)
qed

text \<open>The outcomes of a mount: an error, after which all is as before; a volume; or, without memory for the context, a dangling card.\<close>

definition mount_failed where
  "mount_failed err oc w w' \<longleftrightarrow> err \<noteq> ESP_OK \<and> oc = None \<and> steps_to [] (live_blocks (world.log w)) w w' \<and> no_volume w'"

definition mounted where
  "mounted c dup im fc app sc base host w w' \<longleftrightarrow> steps_to [c, dup, im, fc, app, sc] (live_blocks (world.log w)) w w' \<and>
     volume c im fc app base w' \<and> s_ctx w' = [sc, 0] \<and> heap_paths w' dup = Some base \<and>
     (\<exists>cd ctx. cards w' c = Some cd \<and> card_host cd = host \<and> sd_ctxs w' sc = Some ctx \<and> ctx_card ctx = c \<and> ctx_base_path ctx = dup \<and>
       ctx_fs ctx = fs_of fc) \<and> (\<exists>h n. handle (ret (wenv w h (MEM (Calloc n 1)))) \<noteq> 0)"

definition mounted_dangling where
  "mounted_dangling c im fc app base w w' \<longleftrightarrow> steps_to [im, fc, app] (live_blocks (world.log w)) w w' \<and>
     volume c im fc app base w' \<and> s_ctx w' = [0, 0] \<and> cards w' c = None \<and> (\<exists>h n. handle (ret (wenv w h (MEM (Calloc n 1)))) = 0)"

lemma mount_context_ok:
  assumes "malloc_fresh (wenv w)" and s5: "steps_to [c, dup, im, fc, app] (live_blocks (world.log w)) w w5"
    and v: "volume c im fc app base w5" "s_ctx w5 = [0, 0]" "cards w5 c = Some cd" "card_host cd = host" "heap_paths w5 dup = Some base"
    and fs: "fs = fs_of fc"
  shows "\<exists>w''. mount_context host 0 cfg fs c dup w5 = Some (ESP_OK, Some c, w'') \<and>
    ((\<exists>sc. mounted c dup im fc app sc base host w w'') \<or> mounted_dangling c im fc app base w w'')"
proof -
  let ?L = "live_blocks (world.log w)"
  define w6 where "w6 = (if s_saved_ctx_id w5 = FF_VOLUMES then w5\<lparr>s_saved_ctx_id := 0\<rparr> else w5)"
  define c6 where "c6 = MEM (Calloc (sizeof w6 ''vfs_fat_sd_ctx_t'') 1)"
  define sc where "sc = handle (ret (reply_to w6 c6))"
  define w7 where "w7 = after w6 c6"
  define ctx where "ctx = \<lparr>ctx_pdrv = 0, ctx_mount_config = cfg, ctx_fs = fs, ctx_card = c, ctx_base_path = dup\<rparr>"
  have s6: "steps_to [c, dup, im, fc, app] ?L w w6" using s5 by (simp add: w6_def)
  have v6: "volume c im fc app base w7" "s_ctx w7 = [0, 0]" "cards w7 c = Some cd" "heap_paths w7 dup = Some base"
    using v(1-3,5) by (simp_all add: w7_def w6_def volume_def)
  have "sc = handle (ret (wenv w (world.log w6) (MEM (Calloc (sizeof w6 ''vfs_fat_sd_ctx_t'') 1))))"
    using steps_wenv [OF s6] by (simp add: sc_def c6_def reply_to_def)
  then have calloc: "\<exists>h n. handle (ret (wenv w h (MEM (Calloc n 1)))) = sc" by metis
  have R: "mount_context host 0 cfg fs c dup w5 = (if sc = 0 then Some (ESP_OK, Some c, mount_cleanup True host c dup w7)
      else Some (ESP_OK, Some c, w7\<lparr>sd_ctxs := (sd_ctxs w7)(sc \<mapsto> ctx), s_ctx := [sc, 0]\<rparr>))"
    using v6(2)
    by (simp only: mount_context_def Let_def do_call_eq prod.case w6_def [symmetric] c6_def [symmetric] sc_def [symmetric] w7_def [symmetric]
        ctx_def [symmetric]) (simp add: slot_simps)
  show ?thesis
  proof (cases "sc = 0")
    case True
    have "steps_to [c, dup, im, fc, app] ?L w w7" using steps_call_after [OF s6, of c6] True by (simp add: w7_def sc_def c6_def)
    then have s7: "steps_to ([im, fc, app] @ [c, dup]) ?L w w7" by (auto simp: steps_to_def)
    then have "volume c im fc app base (mount_cleanup True host c dup w7)" "s_ctx (mount_cleanup True host c dup w7) = [0, 0]"
      "cards (mount_cleanup True host c dup w7) c = None"
      using v6 live_zero [of "world.log w7"]
      by (auto simp: volume_def mount_cleanup_def call_host_deinit_def io_simps fat_free_def steps_to_def)
    then have "mounted_dangling c im fc app base w (mount_cleanup True host c dup w7)"
      using cleanup_ok [OF s7 subset_refl, of True host] calloc True by (simp add: mounted_dangling_def)
    then show ?thesis using R True by auto
  next
    case False
    have s7: "steps_to [c, dup, im, fc, app, sc] ?L w w7"
      using steps_malloc_after [OF s6 assms(1), of sc c6] False by (simp add: w7_def sc_def c6_def)
    define w8 where "w8 = w7\<lparr>sd_ctxs := (sd_ctxs w7)(sc \<mapsto> ctx), s_ctx := [sc, 0]\<rparr>"
    have e: "w8 = w7\<lparr>sd_ctxs := (sd_ctxs w7)(sc \<mapsto> ctx), s_ctx := [sc, 0]\<rparr>" by (rule w8_def)
    have "steps_to [c, dup, im, fc, app, sc] ?L w w8" using steps_new_block(2) [OF s7 subset_refl] e(1) by simp
    then have "mounted c dup im fc app sc base host w w8"
      using v6 v(4) e(1) fs calloc False by (auto simp: mounted_def ctx_def volume_def)
    then show ?thesis using R False w8_def by auto
  qed
qed

text \<open>Up to the mounting of the file system: an error and all is as before, or a card that answered.\<close>

lemma mount_prefix:
  assumes "malloc_fresh (wenv w)" "no_volume w"
  shows "(\<exists>err w'. esp_vfs_fat_sdmmc_mount base host slot cfg w = Some (err, None, w') \<and> mount_failed err None w w') \<or>
    (\<exists>c dup w4 cd. steps_to [c, dup] (live_blocks (world.log w)) w w4 \<and> tables w4 = tables w \<and> cards w4 c = Some cd \<and> card_host cd = host \<and>
      heap_paths w4 dup = Some base \<and> esp_vfs_fat_sdmmc_mount base host slot cfg w = do {
        (err, fs, w) \<leftarrow> mount_to_vfs_fat cfg c 0 base w4;
        if err \<noteq> ESP_OK then Some (err, None, mount_cleanup True host c dup w) else mount_context host 0 cfg fs c dup w })"
proof -
  let ?L = "live_blocks (world.log w)"
  obtain e1 pdrv dup c w1 where p: "mount_prepare_mem base w = ((e1, pdrv, dup, c), w1)" by (metis prod.collapse)
  note P = prepare_ok [OF assms subset_refl p]
  define c2 where "c2 = FAT Sdmmc_host_init"
  define w2 where "w2 = after w1 c2"
  define c3 where "c3 = FAT (Sdmmc_host_init_slot (host_slot host) (slot_width slot) (slot_clk slot) (slot_cmd slot) (slot_d0 slot) (slot_flags slot))"
  define w3 where "w3 = after w2 c3"
  obtain e4 w4 where w4: "sdmmc_card_init host c w3 = (e4, w4)" by (metis prod.collapse)
  have R: "esp_vfs_fat_sdmmc_mount base host slot cfg w =
    (if e1 \<noteq> ESP_OK then Some (e1, None, w1)
     else if ret (reply_to w1 c2) \<noteq> ESP_OK then Some (ret (reply_to w1 c2), None, mount_cleanup False host c dup w2)
     else if ret (reply_to w2 c3) \<noteq> ESP_OK then Some (ret (reply_to w2 c3), None, mount_cleanup True host c dup w3)
     else if e4 \<noteq> ESP_OK then Some (e4, None, mount_cleanup True host c dup w4)
     else do {
       path \<leftarrow> heap_paths w4 dup;
       (err, fs, w) \<leftarrow> mount_to_vfs_fat cfg c pdrv path w4;
       if err \<noteq> ESP_OK then Some (err, None, mount_cleanup True host c dup w) else mount_context host pdrv cfg fs c dup w })"
    by (simp only: esp_vfs_fat_sdmmc_mount_def p Let_def prod.case do_call_eq c2_def [symmetric] w2_def [symmetric] c3_def [symmetric]
        w3_def [symmetric] w4)
  show ?thesis
  proof (cases "e1 = ESP_OK")
    case False
    then show ?thesis using R P assms(2) no_volume_tables [of w1 w] by (auto simp: mount_failed_def)
  next
    case e1: True
    then have s1: "steps_to [c, dup] ?L w w1" and t1: "tables w1 = tables w" and pd: "pdrv = 0" and hp: "heap_paths w1 dup = Some base"
      using P by simp_all
    have s2: "steps_to [c, dup] ?L w w2" using steps_call_after [OF s1] by (simp add: w2_def c2_def)
    have s3: "steps_to [c, dup] ?L w w3" using steps_call_after [OF s2] by (simp add: w3_def c3_def)
    obtain cd where w4': "w4 = (after w3 (FAT (Sdmmc_card_init c)))\<lparr>cards := (cards w3)(c \<mapsto> cd)\<rparr>" "card_host cd = host"
      using w4 by (auto simp: sdmmc_card_init_def io_simps)
    have "steps_to [c, dup] ?L w (after w3 (FAT (Sdmmc_card_init c)))" using steps_call_after [OF s3] by simp
    then have s4: "steps_to [c, dup] ?L w w4" using steps_new_block(3) [of "[c, dup]" ?L w "after w3 (FAT (Sdmmc_card_init c))" c]
      by (simp add: w4'(1))
    have t: "tables w2 = tables w" "tables w3 = tables w" "tables w4 = tables w" using t1 by (simp_all add: w2_def w3_def w4'(1))
    have failed: "mount_failed err None w (mount_cleanup b host c dup x)" if "err \<noteq> ESP_OK" "steps_to [c, dup] ?L w x" "tables x = tables w" for err b x
      using that cleanup_ok [of "[]" c dup ?L w x b host] no_volume_tables assms(2) by (auto simp: mount_failed_def)
    show ?thesis
    proof (cases "ret (reply_to w1 c2) = ESP_OK \<and> ret (reply_to w2 c3) = ESP_OK \<and> e4 = ESP_OK")
      case False
      then show ?thesis using R e1 failed [OF _ s2 t(1)] failed [OF _ s3 t(2)] failed [OF _ s4 t(3)] by (intro disjI1) auto
    next
      case True
      have hp4: "heap_paths w4 dup = Some base" using hp by (simp add: w4'(1) w3_def w2_def)
      then have "esp_vfs_fat_sdmmc_mount base host slot cfg w = do {
          (err, fs, w) \<leftarrow> mount_to_vfs_fat cfg c 0 base w4;
          if err \<noteq> ESP_OK then Some (err, None, mount_cleanup True host c dup w) else mount_context host 0 cfg fs c dup w }"
        using R [unfolded pd] e1 True by simp
      moreover have "cards w4 c = Some cd" by (simp add: w4'(1))
      ultimately show ?thesis using s4 t(3) w4'(2) hp4 by blast
    qed
  qed
qed

lemma mount_outcomes:
  assumes "malloc_fresh (wenv w)" "vfs_answers (wenv w)" "no_volume w" "length base \<le> 13"
  shows "case esp_vfs_fat_sdmmc_mount base host slot cfg w of
      None \<Rightarrow> \<exists>h n. handle (ret (wenv w h (MEM (Malloc n 0)))) = 0
    | Some (err, oc, w') \<Rightarrow> mount_failed err oc w w' \<or>
        (err = ESP_OK \<and> (\<exists>c dup im fc app sc. oc = Some c \<and> mounted c dup im fc app sc base host w w')) \<or>
        (err = ESP_OK \<and> (\<exists>c im fc app. oc = Some c \<and> mounted_dangling c im fc app base w w'))"
  using mount_prefix [OF assms(1,3), of base host slot cfg]
proof (elim disjE exE conjE)
  fix c dup w4 cd
  let ?L = "live_blocks (world.log w)"
  let ?L4 = "{c, dup} \<union> ?L"
  assume s4: "steps_to [c, dup] ?L w w4" and t4: "tables w4 = tables w" and c4: "cards w4 c = Some cd" "card_host cd = host" "heap_paths w4 dup = Some base"
    and run: "esp_vfs_fat_sdmmc_mount base host slot cfg w = do {
        (err, fs, w) \<leftarrow> mount_to_vfs_fat cfg c 0 base w4;
        if err \<noteq> ESP_OK then Some (err, None, mount_cleanup True host c dup w) else mount_context host 0 cfg fs c dup w }"
  have pre: "malloc_fresh (wenv w4)" "vfs_answers (wenv w4)" "no_volume w4" "cards w4 c \<noteq> None" "c \<in> ?L4" "?L4 \<subseteq> live_blocks (world.log w4)"
    using assms(1-3) steps_wenv [OF s4] no_volume_tables [OF t4] c4(1) s4 by (auto simp: steps_to_def)
  note M = mount_to_vfs_ok [OF pre assms(4), of cfg]
  show ?thesis
  proof (cases "mount_to_vfs_fat cfg c 0 base w4")
    case None
    then show ?thesis using run M steps_wenv [OF s4] by simp
  next
    case (Some r)
    obtain err fs w5 where r: "r = (err, fs, w5)" by (metis prod_cases3)
    show ?thesis
    proof (cases "err = ESP_OK")
      case False
      then have "steps_to ([] @ [c, dup]) ?L w w5" "no_volume w5" using M Some r steps_trans [OF s4, of "[]" ?L4 w5] by auto
      then show ?thesis
        using run Some r False cleanup_ok [of "[]" c dup ?L w w5 True host] no_volume_tables by (auto simp: mount_failed_def)
    next
      case True
      then obtain im fc app where v: "steps_to [im, fc, app] ?L4 w4 w5" "volume c im fc app base w5" "fs = fs_of fc" "s_ctx w5 = [0, 0]"
        using M Some r by auto
      have s5: "steps_to [c, dup, im, fc, app] ?L w w5" using steps_trans [OF s4 v(1)] by auto
      have "cards w5 c = Some cd" "heap_paths w5 dup = Some base" using v(1) c4(1,3) by (simp_all add: steps_to_def)
      from mount_context_ok [OF assms(1) s5 v(2,4) this(1) c4(2) this(2) v(3), of cfg] obtain w'' where
        "mount_context host 0 cfg fs c dup w5 = Some (ESP_OK, Some c, w'')"
        "(\<exists>sc. mounted c dup im fc app sc base host w w'') \<or> mounted_dangling c im fc app base w w''" by blast
      then show ?thesis using run Some r True by auto
    qed
  qed
qed auto

lemma unmount_ok:
  assumes "vfs_answers (wenv w)" and m: "mounted c dup im fc app sc base host w0 w"
  shows "\<exists>w'. esp_vfs_fat_sdcard_unmount base c w = Some (ESP_OK, w') \<and> steps_to [dup] (live_blocks (world.log w0)) w0 w' \<and> no_volume w' \<and>
    heap_paths w' dup = Some base"
proof -
  let ?L = "live_blocks (world.log w0)"
  have s: "steps_to [c, dup, im, fc, app, sc] ?L w0 w" using m by (simp add: mounted_def)
  have d: "c \<noteq> im" "c \<noteq> fc" "c \<noteq> app" "c \<noteq> sc" "im \<noteq> fc" "im \<noteq> app" "im \<noteq> sc" "fc \<noteq> app" "fc \<noteq> sc" "app \<noteq> sc"
    "dup \<noteq> c" "dup \<noteq> im" "dup \<noteq> fc" "dup \<noteq> app" "dup \<noteq> sc"
    using s by (auto simp: steps_to_def)
  have new: "p \<notin> ?L" "p \<noteq> 0" if "p \<in> {c, dup, im, fc, app, sc}" for p using steps_new [OF s subset_refl, of p] that by auto
  obtain cd ctx fctx where f: "cards w c = Some cd" "sd_ctxs w sc = Some ctx" "ctx_card ctx = c" "fat_ctxs w fc = Some fctx"
    "fat_base_path fctx = base" "o_append fctx = app" "s_impls w = [im, 0]" "s_fat_ctxs w = [fc, 0]" "s_ctx w = [sc, 0]"
    "length (s_cards w) = 2" "s_cards w ! 0 = c" "length (s_disk_status_check_en w) = 2"
    using m by (auto simp: mounted_def volume_def)
  obtain c' where cs: "s_cards w = [c, c']" using f(10,11) by (cases "s_cards w"; cases "tl (s_cards w)") auto
  define w1 where "w1 = (fat_free sc w)\<lparr>s_ctx := [0, 0]\<rparr>"
  define w2 where "w2 = after w1 (FAT (F_mount 0 (drive_name 0) 0))"
  define w3 where "w3 = fat_free im (w2\<lparr>s_impls := [0, 0]\<rparr>)"
  define w4 where "w4 = call_host_deinit (card_host cd) w3"
  define w5 where "w5 = fat_free c w4"
  define w6 where "w6 = fat_free app (after w5 (FAT (Vfs_unregister base)))"
  define w7 where "w7 = (fat_free fc w6)\<lparr>s_fat_ctxs := [0, 0]\<rparr>"
  have s1: "steps_to [c, dup, im, fc, app] ?L w0 w1" using steps_free [OF s, of sc] new d by (simp add: w1_def)
  have "steps_to [c, dup, im, fc, app] ?L w0 (w2\<lparr>s_impls := [0, 0]\<rparr>)" using steps_call_after [OF s1] by (simp add: w2_def)
  from steps_free [OF this, of im] have s3: "steps_to [c, dup, fc, app] ?L w0 w3" using new d by (simp add: w3_def)
  have s4: "steps_to [c, dup, fc, app] ?L w0 w4" using steps_call_after [OF s3] by (simp add: w4_def call_host_deinit_def io_simps)
  have s5: "steps_to [dup, fc, app] ?L w0 w5" using steps_free [OF s4, of c] new by (simp add: w5_def)
  have "steps_to [dup, fc, app] ?L w0 (after w5 (FAT (Vfs_unregister base)))" using steps_call_after [OF s5] by simp
  from steps_free [OF this, of app] have s6: "steps_to [dup, fc] ?L w0 w6" using new d by (simp add: w6_def)
  have s7: "steps_to [dup] ?L w0 w7" using steps_free [OF s6, of fc] new d by (simp add: w7_def)
  have "s_get_context_id_by_card c w = Some 0" using f(2,3,9) new by (simp add: slot_simps)
  moreover have "ff_diskio_get_pdrv_card c w1 = 0" using cs by (simp add: slot_simps w1_def)
  moreover have "ff_diskio_unregister 0 w2 = Some w3"
    using diskio_unregister [of w2 im] f(7) new by (simp add: w3_def w2_def w1_def)
  moreover have "cards w3 c = Some cd" using f(1) d by (simp add: w3_def w2_def w1_def)
  moreover have "fat_ctxs w5 fc = Some fctx" "s_fat_ctxs w5 = [fc, 0]" "vfs_answers (wenv w5)"
    using f(4,8) d assms(1) by (simp_all add: w5_def w4_def w3_def w2_def w1_def call_host_deinit_def io_simps)
  then have "esp_vfs_fat_unregister_path base w5 = Some (ESP_OK, w7)"
    using unregister_path_ok [of w5 fc fctx base] f(5,6) new by (simp add: w7_def w6_def)
  ultimately have "esp_vfs_fat_sdcard_unmount base c w = Some (ESP_OK, w7)"
    using f(9) by (simp add: esp_vfs_fat_sdcard_unmount_def unmount_card_core_def io_simps w1_def [symmetric] w2_def [symmetric]
        w4_def [symmetric] w5_def [symmetric])
  moreover have "no_volume w7"
    using f(10,12) by (simp add: no_volume_def w7_def w6_def w5_def w4_def w3_def w2_def w1_def call_host_deinit_def io_simps)
  moreover have "heap_paths w7 dup = Some base"
    using m d by (simp add: mounted_def w7_def w6_def w5_def w4_def w3_def w2_def w1_def call_host_deinit_def io_simps)
  ultimately show ?thesis using s7 by blast
qed

lemma steps_balanced: "steps_to [] L w w' \<Longrightarrow> balanced (new_events w w')"
  by (auto simp: steps_to_def balanced_def new_events_def)


text \<open>Memory that hands out the address after the sum of all addresses so far, and a board without tables filled.\<close>

definition bump_malloc :: "event list \<Rightarrow> reply" where
  "bump_malloc h = answer (int (Suc (sum_list (allocs h))))"

lemma live_allocs: "live_blocks h \<subseteq> set (allocs h)"
proof (induction h rule: rev_induct)
  case (snoc e h)
  then show ?case by (auto simp: live_step_def)
qed (simp add: live_blocks_def)

lemma bump_fresh: "handle (ret (bump_malloc h)) \<notin> live_blocks h \<and> handle (ret (bump_malloc h)) \<noteq> 0"
proof -
  have "x \<le> sum_list (allocs h)" if "x \<in> live_blocks h" for x
    using live_allocs that member_le_sum_list by blast
  moreover have "handle (ret (bump_malloc h)) = Suc (sum_list (allocs h))" by (simp only: bump_malloc_def handle_def reply.simps nat_int)
  ultimately show ?thesis by (metis Suc_n_not_le_n nat.simps(3))
qed

definition fat_board :: "(call \<Rightarrow> int) \<Rightarrow> bool \<Rightarrow> fat_world" where
  "fat_board answers calloc = \<lparr>wenv = (\<lambda>h c. case c of MEM (Malloc _ _) \<Rightarrow> bump_malloc h
       | MEM (Calloc _ _) \<Rightarrow> if calloc then bump_malloc h else answer 0 | _ \<Rightarrow> answer (answers c)),
     log = [], i2c_obj = Map.empty, s_impls = [0, 0], s_cards = [0, 0], s_disk_status_check_en = [False, False], s_fat_ctxs = [0, 0],
     s_fat_ctx = 0, s_ctx = [0, 0], s_saved_ctx_id = 2, fat_ctxs = Map.empty, sd_ctxs = Map.empty, cards = Map.empty,
     heap_paths = Map.empty, sizeof = \<lambda>_. 4\<rparr>"

lemma fat_board_ok:
  assumes "\<And>p c. answers (FAT (Vfs_register p c)) = 0" "\<And>p. answers (FAT (Vfs_unregister p)) = 0"
  shows "malloc_fresh (wenv (fat_board answers calloc)) \<and> vfs_answers (wenv (fat_board answers calloc)) \<and> no_volume (fat_board answers calloc)"
  using assms bump_fresh by (auto simp: malloc_fresh_def vfs_answers_def no_volume_def fat_board_def handle_def)


text \<open>
  C36. When only the last allocation of a mount fails, \<^verbatim>\<open>esp_vfs_fat_sdmmc_mount\<close> reports success for a card it has freed: it returns
  \<^verbatim>\<open>ESP_OK\<close> and stores the card's address, but the card is gone, while the disk driver, the registered path and the table of
  cards still refer to it; and since no context remembers it, unmounting is refused.
\<close>

theorem sdmmc_mount_no_context:
  assumes "malloc_fresh (wenv w)" "vfs_answers (wenv w)" "no_volume w" "length base \<le> 13"
    and "\<forall>h n k. handle (ret (wenv w h (MEM (Calloc n k)))) = 0"
    and "esp_vfs_fat_sdmmc_mount base host slot cfg w = Some (ESP_OK, oc, w')"
  shows "\<exists>c. oc = Some c \<and> cards w' c = None \<and> s_cards w' ! 0 = c \<and> s_impls w' ! 0 \<noteq> 0 \<and> find_context_index_by_path base w' = 0 \<and>
    esp_vfs_fat_sdcard_unmount base c w' = Some (ESP_ERR_INVALID_ARG, w')"
proof -
  obtain c im fc app where "oc = Some c" "mounted_dangling c im fc app base w w'"
    using mount_outcomes [OF assms(1-4), of host slot cfg] assms(5,6) by (auto simp: mounted_def mount_failed_def)
  then show ?thesis
    by (auto simp: mounted_dangling_def volume_def slot_simps esp_vfs_fat_sdcard_unmount_def)
qed

theorem sdmmc_mount_no_context_witness:
  "\<exists>c w'. esp_vfs_fat_sdmmc_mount ''/sdcard'' \<lparr>host_slot = 1, deinit_arg = False\<rparr> \<lparr>slot_width = 1, slot_clk = 47, slot_cmd = 48, slot_d0 = 21, slot_flags = 1\<rparr>
      \<lparr>format_if_mount_failed = True, max_files = 5, allocation_unit_size = 16384, disk_status_check_enable = False\<rparr>
      (fat_board (\<lambda>c. 0) False) = Some (ESP_OK, Some c, w') \<and> cards w' c = None"
proof -
  let ?w = "fat_board (\<lambda>c. 0) False"
  let ?cfg = "\<lparr>format_if_mount_failed = True, max_files = 5, allocation_unit_size = 16384, disk_status_check_enable = False\<rparr>"
  let ?slot = "\<lparr>slot_width = 1, slot_clk = 47, slot_cmd = 48, slot_d0 = 21, slot_flags = 1\<rparr>"
  have "\<exists>oc w'. esp_vfs_fat_sdmmc_mount ''/sdcard'' \<lparr>host_slot = 1, deinit_arg = False\<rparr> ?slot ?cfg ?w = Some (ESP_OK, oc, w')"
    by (simp add: esp_vfs_fat_sdmmc_mount_def mount_prepare_mem_def fat_malloc_def slot_simps io_simps fat_board_def reply_to_def after_def
        bump_malloc_def handle_def sdmmc_card_init_def mount_to_vfs_fat_def ff_diskio_register_sdmmc_def ff_diskio_register_def
        ff_sdmmc_set_disk_status_check_def esp_vfs_fat_register_def ff_memalloc_def ESP_VFS_PATH_MAX_def s_f_mount_def mount_context_def Let_def)
  then obtain oc w' where "esp_vfs_fat_sdmmc_mount ''/sdcard'' \<lparr>host_slot = 1, deinit_arg = False\<rparr> ?slot ?cfg ?w = Some (ESP_OK, oc, w')" by blast
  with sdmmc_mount_no_context [OF _ _ _ _ _ this] show ?thesis
    using fat_board_ok [of "\<lambda>c. 0" False] by (auto simp: fat_board_def handle_def)
qed

end
