(* ===== verification/Sd.thy ===== *)
theory Sd
  imports Vfs_Fat
begin

text \<open>
  The SD card component, components/SD/SD.c: mounting and unmounting, appending to and reading
  text files, creating a directory with its parents, and writing a data file.  The card and the
  file system are the environment; \<^verbatim>\<open>char\<close> buffers are modelled with their sizes, so that
  truncation is visible.  C strings are lists of characters other than NUL.
\<close>

section \<open>Strings and streams\<close>

definition MOUNT_POINT :: string where "MOUNT_POINT = ''/sdcard''"
definition EXAMPLE_MAX_CHAR_SIZE :: nat where "EXAMPLE_MAX_CHAR_SIZE = 128"

text \<open>\<^verbatim>\<open>snprintf(buf, sizeof(buf), ...)\<close> of a text: what the buffer of \<open>n\<close> bytes holds as a C string.\<close>

definition snprintf :: "nat \<Rightarrow> string \<Rightarrow> string" where
  "snprintf n s = take (n - 1) s"

text \<open>
  \<^verbatim>\<open>fgets(line, n, f)\<close> on the rest of a file: the characters stored and the new rest, or \<open>None\<close>
  for \<^verbatim>\<open>NULL\<close> at the end of the file.  \<open>fgets_take\<close> reads at most \<open>n\<close> characters, up to and
  including a newline.
\<close>

fun fgets_take :: "nat \<Rightarrow> string \<Rightarrow> string \<times> string" where
  "fgets_take 0 s = ([], s)"
| "fgets_take (Suc n) [] = ([], [])"
| "fgets_take (Suc n) (c # s) =
     (if c = CHR 0x0A then ([c], s) else let (l, r) = fgets_take n s in (c # l, r))"

definition fgets :: "nat \<Rightarrow> string \<Rightarrow> (string \<times> string) option" where
  "fgets n s = (if s = [] then None else Some (fgets_take (n - 1) s))"

text \<open>The C string in a buffer, and its first line (\<^verbatim>\<open>*strchr(line, '\n') = '\0'\<close>).\<close>

definition c_str :: "string \<Rightarrow> string" where
  "c_str s = takeWhile (\<lambda>c. c \<noteq> CHR 0x00) s"

definition strip_newline :: "string \<Rightarrow> string" where
  "strip_newline s = takeWhile (\<lambda>c. c \<noteq> CHR 0x0A) (c_str s)"

text \<open>
  \<^verbatim>\<open>fprintf(f, data)\<close> with no arguments: what is printed when the only conversions are \<^verbatim>\<open>%%\<close>.  Any
  other conversion reads an argument that was not passed, which has no meaning.
\<close>

fun fmt_literal :: "string \<Rightarrow> string option" where
  "fmt_literal [] = Some []"
| "fmt_literal [c] = (if c = CHR ''%'' then None else Some [c])"
| "fmt_literal (c # d # s) =
     (if c \<noteq> CHR ''%'' then map_option (Cons c) (fmt_literal (d # s))
      else if d = CHR ''%'' then map_option (Cons CHR ''%'') (fmt_literal s) else None)"

section \<open>Files\<close>

definition s_example_write_file :: "string \<Rightarrow> string \<Rightarrow> 'a world_scheme \<Rightarrow> (esp_err \<times> 'a world_scheme) option" where
  "s_example_write_file path data w =
    (let (r, w) = do_call (FS (Fopen path ''a'')) w; f = handle (ret r)
     in if f = 0 then Some (ESP_FAIL, w)
        else do {
          text \<leftarrow> fmt_literal data;
          let w = call_void (FS (Fprintf f text)) w;
          let w = call_void (FS (Fclose f)) w;
          Some (ESP_OK, w) })"

text \<open>
  The two readers only log what they read, so their results here carry the logged lines.  On an
  empty file \<^verbatim>\<open>s_example_read_file\<close> passes the uninitialised \<^verbatim>\<open>line\<close> to \<^verbatim>\<open>strchr\<close>.
\<close>

definition s_example_read_file ::
  "string \<Rightarrow> 'a world_scheme \<Rightarrow> (esp_err \<times> string list \<times> 'a world_scheme) option" where
  "s_example_read_file path w =
    (let (r, w) = do_call (FS (Fopen path ''r'')) w; f = handle (ret r)
     in if f = 0 then Some (ESP_FAIL, [], w)
        else let w = call_void (FS (Fclose f)) w
             in do { (line, _) \<leftarrow> fgets EXAMPLE_MAX_CHAR_SIZE (content r);
                     Some (ESP_OK, [strip_newline line], w) })"

lemma fgets_take_shorter: "fgets_take n s = (l, r) \<Longrightarrow> length r \<le> length s"
  by (induction n s arbitrary: l r rule: fgets_take.induct) (fastforce split: if_splits prod.splits)+

function read_lines :: "string \<Rightarrow> string list" where
  "read_lines s =
     (case fgets EXAMPLE_MAX_CHAR_SIZE s of
        None \<Rightarrow> []
      | Some (line, rest) \<Rightarrow> strip_newline line # read_lines rest)"
  by pat_completeness auto
termination
proof (relation "measure length")
  fix s p line rest
  assume "fgets EXAMPLE_MAX_CHAR_SIZE s = Some p" and "(line, rest) = p"
  then obtain c cs where s: "s = c # cs" and t: "fgets_take 127 (c # cs) = (line, rest)"
    by (cases s) (auto simp: fgets_def EXAMPLE_MAX_CHAR_SIZE_def)
  have "rest = cs \<or> (\<exists>l. fgets_take 126 cs = (l, rest))"
    using t by (auto simp: numeral_eq_Suc split: if_splits prod.splits)
  then show "(rest, s) \<in> measure length"
    using fgets_take_shorter s by (auto simp: less_Suc_eq_le)
qed simp

definition s_example_read_file_all_lines ::
  "string \<Rightarrow> 'a world_scheme \<Rightarrow> esp_err \<times> string list \<times> 'a world_scheme" where
  "s_example_read_file_all_lines path w =
    (let (r, w) = do_call (FS (Fopen path ''r'')) w; f = handle (ret r)
     in if f = 0 then (ESP_FAIL, [], w)
        else let lines = read_lines (content r);
                 w = call_void (FS (Fclose f)) w
             in (ESP_OK, lines, w))"

section \<open>Mounting\<close>

text \<open>The static variable \<^verbatim>\<open>card\<close>.\<close>

record sd_world = fat_world +
  sd_card :: ptr

lemma sd_card_after [simp]: "sd_card (after w c) = sd_card w"
  by (simp add: after_def)

definition sd_host :: sdmmc_host where "sd_host = \<lparr>host_slot = 1, deinit_arg = False\<rparr>"

definition sd_slot_config :: slot_config where
  "sd_slot_config = \<lparr>slot_width = 1, slot_clk = 47, slot_cmd = 48, slot_d0 = 21, slot_flags = 1\<rparr>"

definition sd_mount_config :: mount_config where
  "sd_mount_config = \<lparr>format_if_mount_failed = True, max_files = 5, allocation_unit_size = 16 * 1024, disk_status_check_enable = False\<rparr>"

text \<open>
  The return value only decides what is logged: after a success the card is printed, which reads it.  \<open>None\<close> is an assertion that
  fails in the mount, or a card that is not there.
\<close>

definition SD_Init :: "'a sd_world_scheme \<Rightarrow> 'a sd_world_scheme option" where
  "SD_Init w = do {
     (err, oc, w) \<leftarrow> esp_vfs_fat_sdmmc_mount MOUNT_POINT sd_host sd_slot_config sd_mount_config w;
     let w = (case oc of None \<Rightarrow> w | Some c \<Rightarrow> w\<lparr>sd_card := c\<rparr>);
     if err \<noteq> ESP_OK then Some w else map_option (\<lambda>_. w) (cards w (sd_card w)) }"

definition SD_Unmount :: "'a sd_world_scheme \<Rightarrow> 'a sd_world_scheme option" where
  "SD_Unmount w =
    (if sd_card w \<noteq> 0 then do { (_, w) \<leftarrow> esp_vfs_fat_sdcard_unmount MOUNT_POINT (sd_card w) w; Some (w\<lparr>sd_card := 0\<rparr>) } else Some w)"

section \<open>Directories and data files\<close>

text \<open>
  The loop of \<^verbatim>\<open>create_directory_recursive\<close>: \<open>pre\<close> is \<^verbatim>\<open>tmp\<close> up to \<^verbatim>\<open>p\<close>, the second argument
  \<^verbatim>\<open>tmp\<close> from \<^verbatim>\<open>p\<close> on.  The mode is octal 0775.
\<close>

fun mkdir_loop :: "string \<Rightarrow> string \<Rightarrow> 'a world_scheme \<Rightarrow> 'a world_scheme" where
  "mkdir_loop pre [] w = w"
| "mkdir_loop pre (c # cs) w =
     (let w = (if c = CHR ''/'' then call_void (FS (Mkdir pre 509)) w else w)
      in mkdir_loop (pre @ [c]) cs w)"

definition create_directory_recursive :: "string \<Rightarrow> 'a world_scheme \<Rightarrow> (esp_err \<times> 'a world_scheme) option" where
  "create_directory_recursive dir w =
    (let tmp = snprintf 256 dir
     in if tmp = [] then None
        else let tmp = (if last tmp = CHR ''/'' then butlast tmp else tmp);
                 w = mkdir_loop (take 1 tmp) (drop 1 tmp) w;
                 w = call_void (FS (Mkdir tmp 509)) w
             in Some (ESP_OK, w))"

text \<open>
  The data is a buffer of which the first \<open>len\<close> bytes are written; a length beyond the buffer has no
  meaning.  \<^verbatim>\<open>fwrite\<close> of no bytes returns 0 without writing.
\<close>

definition fwrite_bytes :: "ptr \<Rightarrow> u8 list \<Rightarrow> 'a world_scheme \<Rightarrow> int \<times> 'a world_scheme" where
  "fwrite_bytes f bs w =
    (if bs = [] then (0, w) else let (r, w) = do_call (FS (Fwrite f bs)) w in (ret r, w))"

definition SD_Write_Data ::
  "string \<Rightarrow> string \<Rightarrow> u8 list \<Rightarrow> nat \<Rightarrow> 'a world_scheme \<Rightarrow> (esp_err \<times> 'a world_scheme) option" where
  "SD_Write_Data path filename data len w =
    (let full_path = snprintf 256 (MOUNT_POINT @ path @ ''/'' @ filename);
         dir_path = snprintf 256 (MOUNT_POINT @ path)
     in do {
       (_, w) \<leftarrow> create_directory_recursive dir_path w;
       let (r, w) = do_call (FS (Fopen full_path ''w'')) w;
       let f = handle (ret r);
       if f = 0 then Some (ESP_FAIL, w)
       else if length data < len then None
       else do {
         let (bytes_written, w) = fwrite_bytes f (take len data) w;
         let w = call_void (FS (Fclose f)) w;
         if bytes_written \<noteq> int len then Some (ESP_FAIL, w) else Some (ESP_OK, w) } })"

section \<open>Which directories are created\<close>

fun mkdir_paths :: "string \<Rightarrow> string \<Rightarrow> string list" where
  "mkdir_paths pre [] = []"
| "mkdir_paths pre (c # cs) = (if c = CHR ''/'' then [pre] else []) @ mkdir_paths (pre @ [c]) cs"

definition slashed :: "string list \<Rightarrow> string" where
  "slashed comps = concat (map (Cons CHR ''/'') comps)"

abbreviation mkdir_775 :: "string \<Rightarrow> call" where
  "mkdir_775 p \<equiv> FS (Mkdir p 509)"

lemma mkdir_loop_log:
  "\<exists>evs. log (mkdir_loop pre s w) = log w @ evs \<and> map fst evs = map mkdir_775 (mkdir_paths pre s)"
proof (induction s arbitrary: pre w)
  case (Cons c cs)
  let ?w = "if c = CHR ''/'' then after w (mkdir_775 pre) else w"
  from Cons.IH [of "pre @ [c]" ?w] obtain evs where evs:
    "log (mkdir_loop (pre @ [c]) cs ?w) = log ?w @ evs"
    "map fst evs = map mkdir_775 (mkdir_paths (pre @ [c]) cs)" by blast
  show ?case
  proof (cases "c = CHR ''/''")
    case True
    with evs show ?thesis
      by (intro exI [of _ "(mkdir_775 pre, reply_to w (mkdir_775 pre)) # evs"]) (simp add: io_simps)
  next
    case False
    with evs show ?thesis by (intro exI [of _ evs]) simp
  qed
qed simp

lemma mkdir_paths_word:
  "CHR ''/'' \<notin> set c \<Longrightarrow> mkdir_paths pre (c @ s) = mkdir_paths (pre @ c) s"
  by (induction c arbitrary: pre) auto

lemma mkdir_paths_slashed:
  "\<forall>c \<in> set comps. CHR ''/'' \<notin> set c \<Longrightarrow>
   mkdir_paths pre (slashed comps) = map (\<lambda>k. pre @ slashed (take k comps)) [0..<length comps]"
proof (induction comps arbitrary: pre)
  case (Cons c cs)
  have "mkdir_paths pre (slashed (c # cs)) = pre # mkdir_paths (pre @ [CHR ''/'']) (c @ slashed cs)"
    by (simp add: slashed_def)
  also have "\<dots> = pre # mkdir_paths (pre @ CHR ''/'' # c) (slashed cs)"
    using Cons.prems by (simp add: mkdir_paths_word)
  also have "\<dots> = pre # map (\<lambda>k. (pre @ CHR ''/'' # c) @ slashed (take k cs)) [0..<length cs]"
    using Cons by simp
  also have "\<dots> = map (\<lambda>k. pre @ slashed (take k (c # cs))) (0 # map Suc [0..<length cs])"
    by (simp add: slashed_def)
  also have "\<dots> = map (\<lambda>k. pre @ slashed (take k (c # cs))) [0..<length (c # cs)]"
    by (metis map_Suc_upt upt_conv_Cons zero_less_Suc length_Cons)
  finally show ?case .
qed (simp add: slashed_def)

lemma create_directory_recursive_log:
  assumes "dir \<noteq> []"
  shows "\<exists>w' ds evs. create_directory_recursive dir w = Some (ESP_OK, w') \<and> log w' = log w @ evs \<and>
    map fst evs = map mkdir_775 ds \<and> wenv w' = wenv w"
proof -
  have frame: "wenv (mkdir_loop pre s w) = wenv w" for pre s and w :: "'a world_scheme"
    by (induction s arbitrary: pre w) (simp_all add: io_simps)
  define tmp where "tmp = (let t = snprintf 256 dir in if last t = CHR ''/'' then butlast t else t)"
  obtain evs where evs: "log (mkdir_loop (take 1 tmp) (drop 1 tmp) w) = log w @ evs"
    "map fst evs = map mkdir_775 (mkdir_paths (take 1 tmp) (drop 1 tmp))"
    using mkdir_loop_log by blast
  have "create_directory_recursive dir w =
      Some (ESP_OK, after (mkdir_loop (take 1 tmp) (drop 1 tmp) w) (mkdir_775 tmp))"
    using assms by (simp add: create_directory_recursive_def tmp_def snprintf_def io_simps Let_def)
  moreover have "map fst (evs @ [(mkdir_775 tmp, r)]) = map mkdir_775 (mkdir_paths (take 1 tmp) (drop 1 tmp) @ [tmp])" for r
    using evs by simp
  ultimately show ?thesis using evs(1) frame by (metis after_sel(1,2) append.assoc)
qed

section \<open>Properties\<close>

text \<open>
  \<^verbatim>\<open>create_directory_recursive\<close> makes every directory on the path, parents before children, and
  nothing else: for a path of \<open>n\<close> components under the mount point (with or without a final slash,
  up to 255 characters) it calls \<^verbatim>\<open>mkdir\<close> on the mount point and on each of the \<open>n\<close> prefixes.
\<close>

theorem create_directory_recursive_prefixes:
  assumes "\<forall>c \<in> set comps. c \<noteq> [] \<and> CHR ''/'' \<notin> set c" and "fin = [] \<or> fin = ''/''"
    and "length (MOUNT_POINT @ slashed comps @ fin) \<le> 255"
  shows "\<exists>w'. create_directory_recursive (MOUNT_POINT @ slashed comps @ fin) w = Some (ESP_OK, w') \<and>
    map fst (new_events w w') =
      map (\<lambda>k. mkdir_775 (MOUNT_POINT @ slashed (take k comps))) [0..<length comps + 1]"
proof -
  let ?dir = "MOUNT_POINT @ slashed comps"
  have "last ?dir \<noteq> CHR ''/''"
  proof (cases comps rule: rev_cases)
    case (snoc cs c)
    then have "c \<noteq> []" "CHR ''/'' \<notin> set c" using assms(1) by auto
    then have "last c \<noteq> CHR ''/''" using last_in_set by metis
    with snoc \<open>c \<noteq> []\<close> show ?thesis by (simp add: slashed_def)
  qed (simp add: MOUNT_POINT_def slashed_def)
  moreover have "?dir \<noteq> []" by (simp add: MOUNT_POINT_def)
  ultimately have tmp: "(let t = snprintf 256 (?dir @ fin) in if last t = CHR ''/'' then butlast t else t) = ?dir"
    using assms(2,3) by (auto simp: snprintf_def butlast_append)
  let ?w = "mkdir_loop ''/'' (''sdcard'' @ slashed comps) w"
  have split: "?dir = CHR ''/'' # ''sdcard'' @ slashed comps" by (simp add: MOUNT_POINT_def)
  have "create_directory_recursive (?dir @ fin) w = Some (ESP_OK, after ?w (mkdir_775 ?dir))"
    using tmp by (simp add: create_directory_recursive_def snprintf_def io_simps Let_def MOUNT_POINT_def)
  moreover obtain evs where evs: "log ?w = log w @ evs"
    "map fst evs = map mkdir_775 (mkdir_paths ''/'' (''sdcard'' @ slashed comps))"
    using mkdir_loop_log by blast
  moreover have "mkdir_paths ''/'' (''sdcard'' @ slashed comps) =
      map (\<lambda>k. MOUNT_POINT @ slashed (take k comps)) [0..<length comps]"
    using assms(1) by (subst mkdir_paths_word) (simp_all add: mkdir_paths_slashed MOUNT_POINT_def)
  ultimately show ?thesis by (simp add: new_events_def)
qed

theorem create_directory_recursive_prefixes_witness:
  "\<exists>w'. create_directory_recursive ''/sdcard/a/bc/''
      \<lparr>wenv = \<lambda>_ _. answer (- 1), log = [], i2c_obj = Map.empty\<rparr> = Some (ESP_OK, w') \<and>
    map fst (log w') = [mkdir_775 ''/sdcard'', mkdir_775 ''/sdcard/a'', mkdir_775 ''/sdcard/a/bc'']"
proof -
  let ?w = "\<lparr>wenv = \<lambda>_ _. answer (- 1), log = [], i2c_obj = Map.empty\<rparr>"
  have "length (MOUNT_POINT @ slashed [''a'', ''bc''] @ ''/'') \<le> 255" by (simp add: MOUNT_POINT_def slashed_def)
  from create_directory_recursive_prefixes [OF _ _ this, of ?w] show ?thesis
    by (simp add: MOUNT_POINT_def slashed_def new_events_def upt_rec)
qed



lemma fgets_take_line:
  "CHR 0x0A \<notin> set l \<Longrightarrow> length l < n \<Longrightarrow> fgets_take n (l @ CHR 0x0A # s) = (l @ [CHR 0x0A], s)"
proof (induction l arbitrary: n)
  case Nil
  then show ?case by (cases n) auto
next
  case (Cons c l)
  then show ?case by (cases n) auto
qed

lemma strip_newline_line:
  "CHR 0x0A \<notin> set l \<Longrightarrow> CHR 0x00 \<notin> set l \<Longrightarrow> strip_newline (l @ [CHR 0x0A]) = l"
  by (induction l) (auto simp: strip_newline_def c_str_def)

definition text_of :: "string list \<Rightarrow> string" where
  "text_of ls = concat (map (\<lambda>l. l @ [CHR 0x0A]) ls)"

lemma read_lines_text:
  "\<forall>l \<in> set ls. length l \<le> 126 \<and> CHR 0x0A \<notin> set l \<and> CHR 0x00 \<notin> set l \<Longrightarrow> read_lines (text_of ls) = ls"
proof (induction ls)
  case (Cons l ls)
  have "fgets EXAMPLE_MAX_CHAR_SIZE (text_of (l # ls)) = Some (l @ [CHR 0x0A], text_of ls)"
    using Cons.prems fgets_take_line [of l 127 "text_of ls"]
    by (simp add: fgets_def text_of_def EXAMPLE_MAX_CHAR_SIZE_def)
  with Cons show ?case by (simp add: strip_newline_line)
qed (simp add: text_of_def fgets_def)

text \<open>
  Reading a text file line by line: when every line is shorter than the buffer allows (at most
  126 characters, no NUL), \<^verbatim>\<open>s_example_read_file_all_lines\<close> delivers exactly the lines, in order and
  without their newlines, and closes the file.
\<close>

theorem s_example_read_file_all_lines_text:
  assumes "content (reply_to w (FS (Fopen path ''r''))) = text_of ls"
    and "handle (ret (reply_to w (FS (Fopen path ''r'')))) = f" and "f \<noteq> 0"
    and "\<forall>l \<in> set ls. length l \<le> 126 \<and> CHR 0x0A \<notin> set l \<and> CHR 0x00 \<notin> set l"
  shows "\<exists>w'. s_example_read_file_all_lines path w = (ESP_OK, ls, w') \<and>
    map fst (new_events w w') = [FS (Fopen path ''r''), FS (Fclose f)]"
  using assms
  by (simp add: s_example_read_file_all_lines_def io_simps read_lines_text new_events_def del: read_lines.simps)

definition sd_text :: world where
  "sd_text = \<lparr>wenv = \<lambda>_ _. \<lparr>ret = 8, out = [], content = text_of [''ab'', '''', ''c''], hnd = 0\<rparr>,
              log = [], i2c_obj = Map.empty\<rparr>"

theorem s_example_read_file_all_lines_text_witness:
  "\<exists>w'. s_example_read_file_all_lines ''/sdcard/t'' sd_text = (ESP_OK, [''ab'', '''', ''c''], w')"
proof -
  have "content (reply_to sd_text (FS (Fopen ''/sdcard/t'' ''r''))) = text_of [''ab'', '''', ''c'']"
    and "handle (ret (reply_to sd_text (FS (Fopen ''/sdcard/t'' ''r'')))) = 8"
    by (simp_all add: reply_to_def sd_text_def handle_def)
  from s_example_read_file_all_lines_text [OF this] show ?thesis by auto
qed

lemma fmt_literal_plain: "CHR ''%'' \<notin> set s \<Longrightarrow> fmt_literal s = Some s"
proof (induction s)
  case (Cons c s)
  then have "c \<noteq> CHR ''%''" and "fmt_literal s = Some s" by auto
  then show ?case by (cases s) auto
qed simp

lemma fmt_literal_conversion:
  "CHR ''%'' \<notin> set s \<Longrightarrow> c \<noteq> CHR ''%'' \<Longrightarrow> fmt_literal (s @ CHR ''%'' # c # t) = None"
proof (induction s)
  case (Cons d s)
  then have "fmt_literal (s @ CHR ''%'' # c # t) = None" and "d \<noteq> CHR ''%''" by auto
  then show ?case by (cases "s @ CHR ''%'' # c # t") auto
qed simp

text \<open>
  Texts and the \<^verbatim>\<open>printf\<close> family: data without a percent sign is appended verbatim and the file
  is closed; because the data is passed as the format string, data with a conversion such as
  \<open>100%d\<close> has undefined behaviour.  Reading the first line of an empty file has undefined behaviour
  too.
\<close>

theorem s_example_write_file_format:
  assumes "f = handle (ret (reply_to w (FS (Fopen path ''a''))))" and "f \<noteq> 0" and "CHR ''%'' \<notin> set data"
  shows "(\<exists>w'. s_example_write_file path data w = Some (ESP_OK, w') \<and>
      map fst (new_events w w') = [FS (Fopen path ''a''), FS (Fprintf f data), FS (Fclose f)]) \<and>
    s_example_write_file path (data @ ''%d'') w = None \<and>
    s_example_read_file path (w\<lparr>wenv := \<lambda>_ _. \<lparr>ret = int f, out = [], content = [], hnd = 0\<rparr>\<rparr>) = None"
  using assms fmt_literal_conversion [of data "CHR ''d''" "[]"]
  by (simp add: Let_def s_example_write_file_def s_example_read_file_def io_simps fmt_literal_plain new_events_def fgets_def
      reply_to_def handle_def)

theorem s_example_write_file_format_witness:
  "s_example_write_file ''/sdcard/log'' ''100%d'' sd_text = None"
  using s_example_write_file_format [of 8 sd_text "''/sdcard/log''" "''100''"]
  by (simp add: sd_text_def reply_to_def handle_def)

section \<open>A mounted card\<close>

lemma sd_card_more: "fat_world.more w' = fat_world.more w \<Longrightarrow> sd_card w' = sd_card w" for w w' :: "'a sd_world_scheme"
  by (cases w; cases w') simp

text \<open>
  C16. Mounting and unmounting the card, with \<^verbatim>\<open>malloc\<close> never out of memory and whatever the host, the card and FatFs answer: SD_Init
  returns; either the mount failed, then there is no card and everything is given back, or the card is mounted, and then
  SD_Unmount returns and leaves no volume, but one block of memory is never given back: the copy of the mount point's path that
  the mount made.  So each cycle of the two loses a block.
\<close>

theorem SD_Init_then_Unmount:
  assumes "malloc_fresh (wenv w)" "vfs_answers (wenv w)" "no_volume w" "sd_card w = 0"
    and "\<forall>h n k. handle (ret (wenv w h (MEM (Malloc n k)))) \<noteq> 0 \<and> handle (ret (wenv w h (MEM (Calloc n k)))) \<noteq> 0"
  shows "\<exists>w1. SD_Init w = Some w1 \<and>
    (if sd_card w1 = 0 then no_volume w1 \<and> balanced (new_events w w1)
     else \<exists>w2 dup. SD_Unmount w1 = Some w2 \<and> sd_card w2 = 0 \<and> no_volume w2 \<and> heap_paths w2 dup = Some MOUNT_POINT \<and>
       mset (allocs (new_events w w2)) = mset (frees (new_events w w2)) + {#dup#})"
proof -
  have "length MOUNT_POINT \<le> 13" by (simp add: MOUNT_POINT_def)
  note M = mount_outcomes [OF assms(1-3) this, of sd_host sd_slot_config sd_mount_config]
  obtain err oc w1 where run: "esp_vfs_fat_sdmmc_mount MOUNT_POINT sd_host sd_slot_config sd_mount_config w = Some (err, oc, w1)"
    using M assms(5) by (cases "esp_vfs_fat_sdmmc_mount MOUNT_POINT sd_host sd_slot_config sd_mount_config w") auto
  from M run consider (fail) "mount_failed err oc w w1"
    | (made) c dup im fc app sc where "err = ESP_OK" "oc = Some c" "mounted c dup im fc app sc MOUNT_POINT sd_host w w1"
    | (dangling) c im fc app where "mounted_dangling c im fc app MOUNT_POINT w w1" by auto
  then show ?thesis
  proof cases
    case fail
    then have "sd_card w1 = 0" using sd_card_more [of w1 w] assms(4) by (simp add: mount_failed_def steps_to_def)
    then show ?thesis using fail run steps_balanced by (auto simp: SD_Init_def mount_failed_def)
  next
    case made
    define w1' where "w1' = w1\<lparr>sd_card := c\<rparr>"
    have m: "mounted c dup im fc app sc MOUNT_POINT sd_host (w\<lparr>sd_card := c\<rparr>) w1'" using made(3)
      by (cases w; cases w1) (simp add: mounted_def volume_def steps_to_def w1'_def)
    have "c \<noteq> 0" using made(3) steps_new [of "[c, dup, im, fc, app, sc]" "live_blocks (world.log w)" w w1 c] by (simp add: mounted_def)
    moreover have "SD_Init w = Some w1'" using run made by (auto simp: SD_Init_def mounted_def w1'_def)
    moreover have "vfs_answers (wenv w1')" using assms(2) m by (simp add: mounted_def steps_to_def)
    from unmount_ok [OF this m] obtain w2 where w2: "esp_vfs_fat_sdcard_unmount MOUNT_POINT c w1' = Some (ESP_OK, w2)"
      "steps_to [dup] (live_blocks (world.log w)) (w\<lparr>sd_card := c\<rparr>) w2" "no_volume w2" "heap_paths w2 dup = Some MOUNT_POINT" by auto
    have "SD_Unmount w1' = Some (w2\<lparr>sd_card := 0\<rparr>)" using w2(1) \<open>c \<noteq> 0\<close> by (simp add: SD_Unmount_def w1'_def)
    moreover have "mset (allocs (new_events w (w2\<lparr>sd_card := 0\<rparr>))) = mset (frees (new_events w (w2\<lparr>sd_card := 0\<rparr>))) + {#dup#}"
      using w2(2) by (auto simp: steps_to_def new_events_def)
    ultimately show ?thesis using w2(3,4) by (auto simp: w1'_def no_volume_def)
  next
    case dangling
    then show ?thesis using assms(5) by (auto simp: mounted_dangling_def)
  qed
qed

theorem SD_Init_then_Unmount_witness:
  "\<exists>w1. SD_Init (fat_world.extend (fat_world.truncate (fat_board (\<lambda>_. 0) True)) \<lparr>sd_card = 0\<rparr>) = Some w1"
proof -
  let ?w = "fat_world.extend (fat_world.truncate (fat_board (\<lambda>_. 0) True)) \<lparr>sd_card = 0\<rparr> :: sd_world"
  have "wenv ?w = wenv (fat_board (\<lambda>_. 0) True)" "no_volume ?w" "sd_card ?w = 0"
    by (simp_all add: fat_board_def fat_world.defs no_volume_def)
  moreover have "\<forall>h n k. handle (ret (wenv (fat_board (\<lambda>_. 0) True) h (MEM (Malloc n k)))) \<noteq> 0 \<and>
      handle (ret (wenv (fat_board (\<lambda>_. 0) True) h (MEM (Calloc n k)))) \<noteq> 0"
    using bump_fresh by (simp add: fat_board_def)
  ultimately show ?thesis using SD_Init_then_Unmount [of ?w] fat_board_ok [of "\<lambda>_. 0" True] by auto
qed

end
