(* ===== verification/I2s_Channel.thy ===== *)
theory I2s_Channel
  imports Platform
begin

text \<open>
  The receive channel of the I2S driver, driver/i2s/i2s_common.c: the peripheral's DMA fills a ring of buffers, an interrupt puts
  each full buffer into a queue, and the recording task takes its samples from there with \<^verbatim>\<open>i2s_channel_read\<close>.  The three run
  interleaved; nothing but the length of the queue keeps the DMA from a buffer that is being read.
\<close>

section \<open>State\<close>

datatype i2s_state_t = I2S_CHAN_STATE_REGISTER | I2S_CHAN_STATE_READY | I2S_CHAN_STATE_RUNNING

datatype i2s_dir_t = I2S_DIR_RX | I2S_DIR_TX

text \<open>What can happen while the reading task runs: the peripheral captures a byte, or another task starts to disable the channel.\<close>

datatype rx_event = Captured u8 | Disabling

text \<open>
  A channel.  The buffers are numbered, and a pointer to a buffer is its number; the descriptors link them to a ring, so the DMA
  stands at a byte of one of them.  \<open>preempt k\<close> is what happens just before the task's \<open>k\<close>-th access to something the DMA or
  the interrupt share with it.  Three fields only observe: \<open>captured\<close>, every byte since the channel was started; \<open>overflows\<close>, how
  often \<^verbatim>\<open>on_recv_q_ovf\<close> would have been called; \<open>queue_peak\<close>, the most buffers that have waited in the queue since it was reset.
\<close>

record i2s_chan =
  ch_state :: i2s_state_t
  ch_dir :: i2s_dir_t
  dma_bufs :: "u8 list list"
  dma_buf_size :: nat
  curr_ptr :: "nat option"
  rw_pos :: nat
  msg_queue :: "nat list"
  msg_queue_len :: nat
  binary :: bool
  dma_on :: bool
  dma_desc :: nat
  dma_off :: nat
  preempt :: "nat \<Rightarrow> rx_event list"
  preempts :: nat
  captured :: "u8 list"
  overflows :: nat
  queue_peak :: nat

section \<open>The interrupt and the DMA\<close>

text \<open>No user callbacks are registered.  A full queue loses its oldest buffer.\<close>

definition i2s_dma_rx_callback :: "nat \<Rightarrow> i2s_chan \<Rightarrow> i2s_chan" where
  "i2s_dma_rx_callback finish_desc c =
    (let c = (if length (msg_queue c) \<ge> msg_queue_len c
              then c\<lparr>msg_queue := tl (msg_queue c), overflows := overflows c + 1\<rparr> else c);
         q = msg_queue c @ [finish_desc]
     in c\<lparr>msg_queue := q, queue_peak := max (queue_peak c) (length q)\<rparr>)"

text \<open>
  The DMA stores a byte; a full buffer raises the interrupt, and the DMA goes on with the next one of the ring, as
  \<^verbatim>\<open>i2s_alloc_dma_desc\<close> linked them.  Nothing makes it wait: the check of a descriptor's owner is off.
\<close>

definition next_desc :: "nat \<Rightarrow> nat \<Rightarrow> nat" where
  "next_desc num i = (if i < num - 1 then i + 1 else 0)"

definition dma_byte :: "u8 \<Rightarrow> i2s_chan \<Rightarrow> i2s_chan" where
  "dma_byte b c =
    (if \<not> dma_on c then c
     else let d = dma_desc c;
              c = c\<lparr>dma_bufs := (dma_bufs c)[d := (dma_bufs c ! d)[dma_off c := b]], captured := captured c @ [b],
                    dma_off := dma_off c + 1\<rparr>
     in if dma_off c < dma_buf_size c then c
     else i2s_dma_rx_callback d (c\<lparr>dma_off := 0, dma_desc := next_desc (length (dma_bufs c)) d\<rparr>))"

text \<open>The first half of \<^verbatim>\<open>i2s_channel_disable\<close>, up to its wait for the reader.\<close>

definition request_disable :: "i2s_chan \<Rightarrow> i2s_chan" where
  "request_disable c = c\<lparr>ch_state := I2S_CHAN_STATE_READY\<rparr>"

definition rx_step :: "rx_event \<Rightarrow> i2s_chan \<Rightarrow> i2s_chan" where
  "rx_step e c = (case e of Captured b \<Rightarrow> dma_byte b c
     | Disabling \<Rightarrow> if ch_state c = I2S_CHAN_STATE_RUNNING then request_disable c else c)"

definition preempted :: "i2s_chan \<Rightarrow> i2s_chan" where
  "preempted c = fold rx_step (preempt c (preempts c)) (c\<lparr>preempts := preempts c + 1\<rparr>)"

section \<open>Enabling and disabling\<close>

definition i2s_rx_channel_start :: "i2s_chan \<Rightarrow> i2s_chan" where
  "i2s_rx_channel_start c = c\<lparr>dma_on := True, dma_desc := 0, dma_off := 0, captured := []\<rparr>"

definition i2s_rx_channel_stop :: "i2s_chan \<Rightarrow> i2s_chan" where
  "i2s_rx_channel_stop c = c\<lparr>dma_on := False\<rparr>"

text \<open>Bytes may arrive between the start and the reset of the queue.\<close>

definition i2s_channel_enable :: "i2s_chan \<Rightarrow> esp_err \<times> i2s_chan" where
  "i2s_channel_enable c =
    (if ch_state c \<noteq> I2S_CHAN_STATE_READY then (ESP_ERR_INVALID_STATE, c)
     else let c = preempted (i2s_rx_channel_start c);
              c = c\<lparr>ch_state := I2S_CHAN_STATE_RUNNING\<rparr>;
              c = c\<lparr>msg_queue := [], queue_peak := 0\<rparr>
     in (ESP_OK, c\<lparr>binary := True\<rparr>))"

text \<open>\<open>None\<close>: waiting for a reader that does not give the semaphore.\<close>

definition i2s_channel_disable :: "i2s_chan \<Rightarrow> (esp_err \<times> i2s_chan) option" where
  "i2s_channel_disable c =
    (if ch_state c \<noteq> I2S_CHAN_STATE_RUNNING then Some (ESP_ERR_INVALID_STATE, c)
     else let c = request_disable c
     in if \<not> binary c then None
     else Some (ESP_OK, i2s_rx_channel_stop (c\<lparr>binary := False, curr_ptr := None, rw_pos := 0\<rparr>)))"

section \<open>Reading\<close>

text \<open>\<^verbatim>\<open>memcpy\<close> of \<open>n\<close> bytes from buffer \<open>d\<close>, byte by byte: the DMA may be at work meanwhile.\<close>

fun copy_bytes :: "nat \<Rightarrow> nat \<Rightarrow> nat \<Rightarrow> i2s_chan \<Rightarrow> u8 list \<times> i2s_chan" where
  "copy_bytes d pos 0 c = ([], c)"
| "copy_bytes d pos (Suc n) c =
    (let c = preempted c; b = dma_bufs c ! d ! pos; (bs, c) = copy_bytes d (pos + 1) n c in (b # bs, c))"

text \<open>What comes in while the task waits is there when it looks.\<close>

definition xQueueReceive :: "i2s_chan \<Rightarrow> bool \<times> i2s_chan" where
  "xQueueReceive c =
    (let c = preempted c
     in case msg_queue c of [] \<Rightarrow> (False, c) | d # q \<Rightarrow> (True, c\<lparr>msg_queue := q, curr_ptr := Some d\<rparr>))"

definition next_buffer :: "i2s_chan \<Rightarrow> bool \<times> i2s_chan" where
  "next_buffer c =
    (if rw_pos c = dma_buf_size c \<or> curr_ptr c = None
     then let (got, c) = xQueueReceive c in (got, if got then c\<lparr>rw_pos := 0\<rparr> else c)
     else (True, c))"

abbreviation (input) ESP_ERR_TIMEOUT :: esp_err where "ESP_ERR_TIMEOUT \<equiv> 0x107"

text \<open>\<^verbatim>\<open>bytes_can_read\<close> is compared with \<^verbatim>\<open>(int)size\<close>; reading past the end of a buffer is undefined.\<close>

definition bytes_can_read :: "nat \<Rightarrow> i2s_chan \<Rightarrow> nat" where
  "bytes_can_read sz c =
    (let rest = dma_buf_size c - rw_pos c in if int rest > s32 (int sz) then sz else rest)"

partial_function (option) read_loop :: "nat \<Rightarrow> u8 list \<Rightarrow> i2s_chan \<Rightarrow> (esp_err \<times> u8 list \<times> i2s_chan) option" where
  "read_loop sz dest c =
    (if \<not> (sz > 0 \<and> ch_state c = I2S_CHAN_STATE_RUNNING) then Some (ESP_OK, dest, c)
     else let (got, c) = next_buffer c
     in if \<not> got then Some (ESP_ERR_TIMEOUT, dest, c)
     else let n = bytes_can_read sz c; d = the (curr_ptr c)
     in if length (dma_bufs c ! d) < rw_pos c + n then None
     else let (bs, c) = copy_bytes d (rw_pos c) n c
     in read_loop (sz - n) (dest @ bs) (c\<lparr>rw_pos := rw_pos c + n\<rparr>))"

text \<open>The result: error code, the bytes stored at \<^verbatim>\<open>dest\<close> (their number is \<^verbatim>\<open>*bytes_read\<close>), the channel.\<close>

definition i2s_channel_read :: "nat \<Rightarrow> i2s_chan \<Rightarrow> (esp_err \<times> u8 list \<times> i2s_chan) option" where
  "i2s_channel_read sz c =
    (if ch_dir c \<noteq> I2S_DIR_RX then Some (ESP_ERR_INVALID_ARG, [], c)
     else let c = preempted c
     in if \<not> binary c then Some (ESP_ERR_INVALID_STATE, [], c)
     else do {
       (err, dest, c) \<leftarrow> read_loop sz [] (c\<lparr>binary := False\<rparr>);
       Some (err, dest, c\<lparr>binary := True\<rparr>) })"

section \<open>The ring of buffers\<close>

text \<open>Channels whose pointers are in bounds.\<close>

definition rx_wf :: "i2s_chan \<Rightarrow> bool" where
  "rx_wf c \<longleftrightarrow> 0 < dma_buf_size c \<and> (\<forall>b \<in> set (dma_bufs c). length b = dma_buf_size c) \<and>
     (\<forall>d \<in> set (msg_queue c). d < length (dma_bufs c)) \<and> (\<forall>d. curr_ptr c = Some d \<longrightarrow> d < length (dma_bufs c)) \<and>
     rw_pos c \<le> dma_buf_size c \<and> dma_desc c < length (dma_bufs c) \<and> dma_off c < dma_buf_size c"

text \<open>What the DMA and the interrupt leave alone, and how the observations go on.\<close>

definition rx_grows :: "i2s_chan \<Rightarrow> i2s_chan \<Rightarrow> bool" where
  "rx_grows c c' \<longleftrightarrow> length (dma_bufs c') = length (dma_bufs c) \<and> dma_buf_size c' = dma_buf_size c \<and>
     msg_queue_len c' = msg_queue_len c \<and> dma_on c' = dma_on c \<and> ch_dir c' = ch_dir c \<and>
     queue_peak c \<le> queue_peak c' \<and> (\<exists>bs. captured c' = captured c @ bs)"

definition reader_same :: "i2s_chan \<Rightarrow> i2s_chan \<Rightarrow> bool" where
  "reader_same c c' \<longleftrightarrow> curr_ptr c' = curr_ptr c \<and> rw_pos c' = rw_pos c \<and> binary c' = binary c"

lemma rx_grows_refl [simp]: "rx_grows c c"
  by (simp add: rx_grows_def)

lemma rx_grows_trans [trans]: "rx_grows a b \<Longrightarrow> rx_grows b c \<Longrightarrow> rx_grows a c"
  by (auto simp: rx_grows_def)

lemma reader_same_refl [simp]: "reader_same c c"
  by (simp add: reader_same_def)

lemma reader_same_trans [trans]: "reader_same a b \<Longrightarrow> reader_same b c \<Longrightarrow> reader_same a c"
  by (auto simp: reader_same_def)

lemma dma_byte_grows: "rx_grows c (dma_byte b c) \<and> reader_same c (dma_byte b c)"
  by (auto simp: dma_byte_def i2s_dma_rx_callback_def Let_def rx_grows_def reader_same_def)

lemma in_set_tl: "x \<in> set (tl xs) \<Longrightarrow> x \<in> set xs"
  by (cases xs) simp_all

lemma callback_wf: "rx_wf c \<Longrightarrow> d < length (dma_bufs c) \<Longrightarrow> rx_wf (i2s_dma_rx_callback d c)"
  by (auto simp: i2s_dma_rx_callback_def Let_def rx_wf_def dest: in_set_tl)

lemma stored_wf:
  assumes "rx_wf c" shows "rx_wf (c\<lparr>dma_bufs := (dma_bufs c)[dma_desc c := (dma_bufs c ! dma_desc c)[dma_off c := b]],
    captured := captured c @ [b]\<rparr>)"
  using assms by (auto simp: rx_wf_def dest!: set_update_subset_insert [THEN subsetD])

lemma dma_byte_wf:
  assumes "rx_wf c" shows "rx_wf (dma_byte b c)"
proof (cases "dma_on c")
  case True
  note stored = stored_wf [OF assms, of b]
  have nd: "next_desc (length (dma_bufs c)) (dma_desc c) < length (dma_bufs c)"
    using assms by (auto simp: rx_wf_def next_desc_def)
  have d: "dma_desc c < length (dma_bufs c)" "0 < dma_buf_size c" using assms by (simp_all add: rx_wf_def)
  show ?thesis
  proof (cases "dma_off c + 1 < dma_buf_size c")
    case True
    with \<open>dma_on c\<close> stored show ?thesis by (simp add: dma_byte_def Let_def rx_wf_def)
  next
    case False
    then show ?thesis using \<open>dma_on c\<close> stored nd d
      by (simp add: dma_byte_def Let_def, intro callback_wf) (simp_all add: rx_wf_def)
  qed
qed (simp add: dma_byte_def assms)

lemma rx_step_grows: "rx_grows c (rx_step e c) \<and> reader_same c (rx_step e c)"
  using dma_byte_grows by (auto simp: rx_step_def request_disable_def rx_grows_def reader_same_def split: rx_event.split)

lemma rx_step_wf: "rx_wf c \<Longrightarrow> rx_wf (rx_step e c)"
  using dma_byte_wf by (auto simp: rx_step_def request_disable_def rx_wf_def split: rx_event.split)

lemma fold_rx_step_grows: "rx_grows c (fold rx_step es c) \<and> reader_same c (fold rx_step es c)"
proof (induction es arbitrary: c)
  case (Cons e es)
  then show ?case using rx_step_grows [of c e] rx_grows_trans reader_same_trans by fastforce
qed simp

lemma fold_rx_step_wf: "rx_wf c \<Longrightarrow> rx_wf (fold rx_step es c)"
  by (induction es arbitrary: c) (simp_all add: rx_step_wf)

lemma preempted_grows: "rx_grows c (preempted c) \<and> reader_same c (preempted c)"
  using fold_rx_step_grows [of "c\<lparr>preempts := preempts c + 1\<rparr>" "preempt c (preempts c)"]
  by (simp add: preempted_def rx_grows_def reader_same_def)

lemma preempted_wf: "rx_wf c \<Longrightarrow> rx_wf (preempted c)"
  using fold_rx_step_wf [of "c\<lparr>preempts := preempts c + 1\<rparr>"] by (simp add: preempted_def rx_wf_def)

lemma copy_bytes_grows:
  "copy_bytes d pos n c = (bs, c') \<Longrightarrow> rx_grows c c' \<and> reader_same c c' \<and> length bs = n \<and> (rx_wf c \<longrightarrow> rx_wf c')"
proof (induction n arbitrary: pos c bs)
  case (Suc n)
  then obtain bs1 where "copy_bytes d (pos + 1) n (preempted c) = (bs1, c')" and "length bs = Suc (length bs1)"
    by (auto simp: Let_def split: prod.splits)
  with Suc.IH [of "pos + 1" "preempted c" bs1] preempted_grows [of c] preempted_wf [of c]
  show ?case using rx_grows_trans reader_same_trans by fastforce
qed simp

lemma next_buffer_grows:
  assumes "rx_wf c" and "next_buffer c = (got, c')"
  shows "rx_grows c c' \<and> rx_wf c' \<and> binary c' = binary c \<and> (got \<longrightarrow> rw_pos c' < dma_buf_size c' \<and> curr_ptr c' \<noteq> None)"
proof (cases "rw_pos c = dma_buf_size c \<or> curr_ptr c = None")
  case True
  note p = preempted_grows [of c] preempted_wf [OF assms(1)]
  show ?thesis
  proof (cases "msg_queue (preempted c)")
    case Nil
    with True p assms(2) show ?thesis by (auto simp: next_buffer_def xQueueReceive_def Let_def reader_same_def)
  next
    case (Cons d q)
    with True p assms(2) show ?thesis
      by (auto simp: next_buffer_def xQueueReceive_def Let_def reader_same_def rx_wf_def rx_grows_def)
  qed
next
  case False
  with assms show ?thesis by (auto simp: next_buffer_def rx_wf_def)
qed

lemma bytes_can_read_eq: "sz < 2 ^ 31 \<Longrightarrow> bytes_can_read sz c = min (dma_buf_size c - rw_pos c) sz"
  by (auto simp: bytes_can_read_def Let_def s32_id)

lemma curr_buffer:
  "rx_wf c \<Longrightarrow> curr_ptr c \<noteq> None \<Longrightarrow> length (dma_bufs c ! the (curr_ptr c)) = dma_buf_size c"
  by (auto simp: rx_wf_def)

lemma advance_wf: "rx_wf c \<Longrightarrow> rw_pos c + n \<le> dma_buf_size c \<Longrightarrow> rx_wf (c\<lparr>rw_pos := rw_pos c + n\<rparr>)"
  by (simp add: rx_wf_def)

section \<open>The stream of captured bytes\<close>

text \<open>
  \<open>rx_ring c\<close>: the DMA stands at the next byte, and the ring holds the last bytes captured.  \<open>rx_stream h c\<close>: the buffers numbered
  from \<open>h\<close> on, counted since the start, wait in the queue.  \<open>stream_at p c\<close>: byte \<open>p\<close> of the stream is the next one the reader gets.
\<close>

definition rx_ring :: "i2s_chan \<Rightarrow> bool" where
  "rx_ring c \<longleftrightarrow> (let n = length (dma_bufs c); bs = dma_buf_size c; l = length (captured c) in
     rx_wf c \<and> dma_on c \<and> dma_desc c = l div bs mod n \<and> dma_off c = l mod bs \<and>
     (\<forall>j < l. l \<le> j + bs * n \<longrightarrow> dma_bufs c ! (j div bs mod n) ! (j mod bs) = captured c ! j))"

definition rx_stream :: "nat \<Rightarrow> i2s_chan \<Rightarrow> bool" where
  "rx_stream h c \<longleftrightarrow> (let n = length (dma_bufs c); t = length (captured c) div dma_buf_size c in
     rx_ring c \<and> t - h \<le> queue_peak c \<and> h \<le> t \<and> msg_queue c = map (\<lambda>k. k mod n) [h..<t])"

definition stream_at :: "nat \<Rightarrow> i2s_chan \<Rightarrow> bool" where
  "stream_at p c \<longleftrightarrow> (\<exists>h. rx_stream h c \<and> (case curr_ptr c of None \<Rightarrow> p = h * dma_buf_size c
     | Some d \<Rightarrow> 0 < h \<and> d = (h - 1) mod length (dma_bufs c) \<and> p = (h - 1) * dma_buf_size c + rw_pos c))"

text \<open>Never more than \<open>n - 2\<close> of the \<open>n\<close> buffers have waited.\<close>

definition kept_up :: "i2s_chan \<Rightarrow> bool" where
  "kept_up c \<longleftrightarrow> Suc (queue_peak c) < length (dma_bufs c) \<and> length (dma_bufs c) \<le> Suc (msg_queue_len c)"

lemma kept_up_before: "rx_grows c c' \<Longrightarrow> kept_up c' \<Longrightarrow> kept_up c"
  by (auto simp: rx_grows_def kept_up_def)

lemma ring_place_inj:
  assumes "(j :: nat) div bs mod n = l div bs mod n" and "j mod bs = l mod bs" and "j \<le> l" and "l < j + bs * n"
  shows "j = l"
proof -
  have "j mod (bs * n) = l mod (bs * n)" by (simp only: mod_mult2_eq assms)
  then have "bs * n dvd l - j" using assms(3) mod_eq_dvd_iff_nat by metis
  then show ?thesis using assms(3,4) dvd_imp_le [of "bs * n" "l - j"] by fastforce
qed

lemma next_desc_mod: "0 < n \<Longrightarrow> next_desc n (k mod n) = Suc k mod n"
  using mod_less_divisor [of n k] unfolding next_desc_def mod_Suc by (simp del: mod_less_divisor) linarith

lemma rx_ringD:
  assumes "rx_ring c"
  shows "rx_wf c" "dma_on c" "dma_desc c = length (captured c) div dma_buf_size c mod length (dma_bufs c)"
    "dma_off c = length (captured c) mod dma_buf_size c" "0 < length (dma_bufs c)" "0 < dma_buf_size c"
    "j < length (captured c) \<Longrightarrow> length (captured c) \<le> j + dma_buf_size c * length (dma_bufs c) \<Longrightarrow>
      dma_bufs c ! (j div dma_buf_size c mod length (dma_bufs c)) ! (j mod dma_buf_size c) = captured c ! j"
  using assms unfolding rx_ring_def rx_wf_def Let_def by (blast, blast, blast, blast, fastforce, blast, blast)

lemma ring_store:
  assumes s: "rx_ring c" and j: "j < Suc (length (captured c))"
    "Suc (length (captured c)) \<le> j + dma_buf_size c * length (dma_bufs c)"
  shows "(dma_bufs c)[dma_desc c := (dma_bufs c ! dma_desc c)[dma_off c := b]] !
      (j div dma_buf_size c mod length (dma_bufs c)) ! (j mod dma_buf_size c) = (captured c @ [b]) ! j"
proof -
  let ?l = "length (captured c)" and ?n = "length (dma_bufs c)" and ?bs = "dma_buf_size c"
  note at = rx_ringD(3,4) [OF s]
  have d: "dma_desc c < ?n" "dma_off c < length (dma_bufs c ! dma_desc c)" using rx_ringD(1) [OF s] by (simp_all add: rx_wf_def)
  show ?thesis
  proof (cases "j = ?l")
    case True
    with d at show ?thesis by simp
  next
    case False
    then have jl: "j < ?l" using j by simp
    then have "j div ?bs mod ?n \<noteq> dma_desc c \<or> j mod ?bs \<noteq> dma_off c"
      using ring_place_inj [of j ?bs ?n ?l] j at by auto
    then show ?thesis using rx_ringD(7) [OF s jl] j jl d by (auto simp: nth_list_update nth_append)
  qed
qed

text \<open>Whether the byte completes its buffer.\<close>

lemma buffer_full_iff:
  assumes "rx_ring c"
  shows "Suc (dma_off c) < dma_buf_size c \<Longrightarrow> Suc (length (captured c)) div dma_buf_size c = length (captured c) div dma_buf_size c \<and>
      Suc (length (captured c)) mod dma_buf_size c = Suc (dma_off c)"
    and "\<not> Suc (dma_off c) < dma_buf_size c \<Longrightarrow> Suc (length (captured c)) div dma_buf_size c = Suc (length (captured c) div dma_buf_size c) \<and>
      Suc (length (captured c)) mod dma_buf_size c = 0"
  using rx_ringD(4,6) [OF assms] Suc_leI [OF mod_less_divisor [of "dma_buf_size c" "length (captured c)"]]
  by (auto simp: div_Suc mod_Suc)

lemma dma_byte_ring:
  assumes s: "rx_ring c"
  shows "rx_ring (dma_byte b c)"
proof -
  note at = rx_ringD(2,3,4) [OF s] and store = ring_store [OF s, of _ b] and wf = dma_byte_wf [OF rx_ringD(1) [OF s], of b]
  show ?thesis
  proof (cases "Suc (dma_off c) < dma_buf_size c")
    case True
    with buffer_full_iff(1) [OF s True] wf at store show ?thesis by (simp add: rx_ring_def dma_byte_def Let_def)
  next
    case False
    with buffer_full_iff(2) [OF s False] wf at store next_desc_mod [OF rx_ringD(5) [OF s]] show ?thesis
      by (simp add: rx_ring_def dma_byte_def Let_def i2s_dma_rx_callback_def)
  qed
qed

lemma dma_byte_stream:
  assumes s: "rx_stream h c" and k: "kept_up (dma_byte b c)"
  shows "rx_stream h (dma_byte b c)"
proof -
  have r: "rx_ring c" using s by (simp add: rx_stream_def Let_def)
  note r' = dma_byte_ring [OF r, of b] and on = rx_ringD(2) [OF r]
  show ?thesis
  proof (cases "Suc (dma_off c) < dma_buf_size c")
    case True
    with buffer_full_iff(1) [OF r True] r' on s show ?thesis by (simp add: rx_stream_def dma_byte_def Let_def)
  next
    case False
    have "length (msg_queue c) < msg_queue_len c"
      using k False on by (auto simp: dma_byte_def Let_def kept_up_def i2s_dma_rx_callback_def split: if_splits)
    with False buffer_full_iff(2) [OF r False] r' on s rx_ringD(3) [OF r] show ?thesis
      by (simp add: rx_stream_def dma_byte_def Let_def i2s_dma_rx_callback_def Suc_diff_le)
  qed
qed

lemma rx_ring_reader [simp]:
  "rx_ring (c\<lparr>preempts := k\<rparr>) = rx_ring c" "rx_ring (c\<lparr>ch_state := st\<rparr>) = rx_ring c" "rx_ring (c\<lparr>binary := b\<rparr>) = rx_ring c"
  by (simp_all add: rx_ring_def rx_wf_def)

lemma rx_ring_cong:
  assumes "rx_ring c" and "rx_wf c'" and "dma_bufs c' = dma_bufs c" "dma_buf_size c' = dma_buf_size c" "dma_on c' = dma_on c"
    "dma_desc c' = dma_desc c" "dma_off c' = dma_off c" "captured c' = captured c"
  shows "rx_ring c'"
  using assms by (simp add: rx_ring_def Let_def)

lemma rx_step_ring: "rx_ring c \<Longrightarrow> rx_ring (rx_step e c)"
  by (cases e) (simp_all add: rx_step_def dma_byte_ring request_disable_def)

lemma preempted_ring: "rx_ring c \<Longrightarrow> rx_ring (preempted c)"
  unfolding preempted_def by (rule fold_invariant [where Q = "\<lambda>_. True"]) (simp_all add: rx_step_ring)

lemma rx_stream_reader [simp]:
  "rx_stream h (c\<lparr>preempts := k\<rparr>) = rx_stream h c" "rx_stream h (c\<lparr>ch_state := st\<rparr>) = rx_stream h c"
  "rx_stream h (c\<lparr>binary := b\<rparr>) = rx_stream h c"
  by (simp_all add: rx_stream_def)

lemma rx_step_stream: "rx_stream h c \<Longrightarrow> kept_up (rx_step e c) \<Longrightarrow> rx_stream h (rx_step e c)"
  by (cases e) (simp_all add: rx_step_def dma_byte_stream request_disable_def)

lemma fold_rx_step_stream: "rx_stream h c \<Longrightarrow> kept_up (fold rx_step es c) \<Longrightarrow> rx_stream h (fold rx_step es c)"
proof (induction es arbitrary: c)
  case (Cons e es)
  then have "kept_up (rx_step e c)" using kept_up_before fold_rx_step_grows by fastforce
  with Cons show ?case by (simp add: rx_step_stream)
qed simp

lemma preempted_stream: "rx_stream h c \<Longrightarrow> kept_up (preempted c) \<Longrightarrow> rx_stream h (preempted c)"
  unfolding preempted_def by (rule fold_rx_step_stream) simp_all

lemma rx_streamD:
  assumes "rx_stream h c"
  shows "rx_wf c" "dma_on c" "h \<le> length (captured c) div dma_buf_size c"
    "msg_queue c = map (\<lambda>k. k mod length (dma_bufs c)) [h..<length (captured c) div dma_buf_size c]"
    "j < length (captured c) \<Longrightarrow> length (captured c) \<le> j + dma_buf_size c * length (dma_bufs c) \<Longrightarrow>
      dma_bufs c ! (j div dma_buf_size c mod length (dma_bufs c)) ! (j mod dma_buf_size c) = captured c ! j"
    "length (captured c) div dma_buf_size c - h \<le> queue_peak c"
  using assms unfolding rx_stream_def Let_def by (auto dest: rx_ringD)

text \<open>Bytes of the buffer being read that the DMA cannot have touched again.\<close>

lemma stream_byte:
  assumes s: "rx_stream (Suc g) c" and k: "kept_up c" and i: "i < dma_buf_size c"
  shows "dma_bufs c ! (g mod length (dma_bufs c)) ! i = captured c ! (g * dma_buf_size c + i)"
    and "g * dma_buf_size c + i < length (captured c)"
proof -
  let ?l = "length (captured c)" and ?n = "length (dma_bufs c)" and ?bs = "dma_buf_size c"
  have bs: "0 < ?bs" using rx_streamD(1) [OF s] by (simp add: rx_wf_def)
  have gl: "Suc g \<le> ?l div ?bs" using rx_streamD(3) [OF s] .
  have t: "Suc (?l div ?bs) \<le> g + ?n" using k gl rx_streamD(6) [OF s] unfolding kept_up_def by linarith
  have "?l < Suc (?l div ?bs) * ?bs" using bs by (metis dividend_less_div_times mult_Suc)
  also have "\<dots> \<le> (g + ?n) * ?bs" using t by (rule mult_le_mono1)
  finally have far: "?l \<le> (g * ?bs + i) + ?bs * ?n" by (simp add: algebra_simps)
  have "Suc g * ?bs \<le> ?l" using gl bs by (simp add: less_eq_div_iff_mult_less_eq)
  then show near: "g * ?bs + i < ?l" using i by simp
  show "dma_bufs c ! (g mod ?n) ! i = captured c ! (g * ?bs + i)"
    using rx_streamD(5) [OF s near far] i by simp
qed

lemma copy_bytes_stream:
  assumes "copy_bytes (g mod length (dma_bufs c)) pos m c = (xs, c')" and "rx_stream (Suc g) c" and "kept_up c'"
    and "pos + m \<le> dma_buf_size c"
  shows "rx_stream (Suc g) c' \<and> xs = take m (drop (g * dma_buf_size c + pos) (captured c')) \<and>
    g * dma_buf_size c + pos + m \<le> length (captured c')"
  using assms
proof (induction m arbitrary: pos c xs)
  case 0
  have "Suc g \<le> length (captured c) div dma_buf_size c" "0 < dma_buf_size c"
    using rx_streamD(1,3) [OF 0(2)] by (simp_all add: rx_wf_def)
  then have "Suc g * dma_buf_size c \<le> length (captured c)" by (simp add: less_eq_div_iff_mult_less_eq)
  with 0 show ?case by simp
next
  case (Suc m)
  let ?c1 = "preempted c" and ?k = "g * dma_buf_size c + pos"
  obtain xs1 where cp: "copy_bytes (g mod length (dma_bufs c)) (pos + 1) m ?c1 = (xs1, c')"
    and xs: "xs = dma_bufs ?c1 ! (g mod length (dma_bufs c)) ! pos # xs1"
    using Suc.prems(1) by (auto simp: Let_def split: prod.splits)
  have g1: "rx_grows c ?c1" using preempted_grows by blast
  have g2: "rx_grows ?c1 c'" using copy_bytes_grows [OF cp] by blast
  have sz: "dma_buf_size ?c1 = dma_buf_size c" "length (dma_bufs ?c1) = length (dma_bufs c)" using g1 by (simp_all add: rx_grows_def)
  have k1: "kept_up ?c1" using kept_up_before [OF g2 Suc.prems(3)] .
  have s1: "rx_stream (Suc g) ?c1" using preempted_stream [OF Suc.prems(2) k1] .
  have pos: "pos < dma_buf_size ?c1" using Suc.prems(4) sz by simp
  note byte = stream_byte [OF s1 k1 pos, unfolded sz]
  have "rx_stream (Suc g) c' \<and> xs1 = take m (drop (?k + 1) (captured c')) \<and> ?k + 1 + m \<le> length (captured c')"
    using Suc.IH [of ?c1 "pos + 1" xs1] cp s1 Suc.prems(3,4) sz by (simp add: add.assoc)
  moreover have "captured c' ! ?k = captured ?c1 ! ?k" using g2 byte(2) by (auto simp: rx_grows_def nth_append)
  ultimately show ?case using xs byte(1) Cons_nth_drop_Suc [of ?k "captured c'"]
    by (auto simp: take_Suc_Cons [symmetric] simp del: take_Suc_Cons)
qed

lemma next_buffer_stream:
  assumes nb: "next_buffer c = (got, c1)" and s: "stream_at p c" and k: "kept_up c1"
  shows "if got then \<exists>g. rx_stream (Suc g) c1 \<and> curr_ptr c1 = Some (g mod length (dma_bufs c1)) \<and>
      p = g * dma_buf_size c1 + rw_pos c1 else stream_at p c1"
proof -
  obtain h where h: "rx_stream h c" and p: "case curr_ptr c of None \<Rightarrow> p = h * dma_buf_size c
     | Some d \<Rightarrow> 0 < h \<and> d = (h - 1) mod length (dma_bufs c) \<and> p = (h - 1) * dma_buf_size c + rw_pos c"
    using s by (auto simp: stream_at_def)
  show ?thesis
  proof (cases "rw_pos c = dma_buf_size c \<or> curr_ptr c = None")
    case False
    with nb have "got" "c1 = c" by (auto simp: next_buffer_def)
    with False p h show ?thesis by (auto intro: exI [of _ "h - 1"])
  next
    case True
    let ?c = "preempted c"
    have same: "curr_ptr ?c = curr_ptr c" "rw_pos ?c = rw_pos c" "dma_buf_size ?c = dma_buf_size c"
      "length (dma_bufs ?c) = length (dma_bufs c)" using preempted_grows [of c] by (simp_all add: rx_grows_def reader_same_def)
    have "kept_up ?c" using nb True k by (auto simp: next_buffer_def xQueueReceive_def Let_def kept_up_def split: list.splits)
    then have sc: "rx_stream h ?c" using preempted_stream [OF h] by blast
    have ph: "p = h * dma_buf_size c" using True p by (cases h) (auto split: option.splits)
    show ?thesis
    proof (cases "msg_queue ?c")
      case Nil
      then have "\<not> got" "c1 = ?c" using nb True by (auto simp: next_buffer_def xQueueReceive_def)
      then show ?thesis using sc p unfolding stream_at_def same by (simp only: if_False, intro exI [of _ h]) (simp add: same split: option.splits)
    next
      case (Cons d q)
      then have c1: "got" "c1 = ?c\<lparr>msg_queue := q, curr_ptr := Some d, rw_pos := 0\<rparr>"
        using nb True by (auto simp: next_buffer_def xQueueReceive_def)
      have "h < length (captured ?c) div dma_buf_size ?c" using rx_streamD(4) [OF sc] Cons by (cases "h < length (captured ?c) div dma_buf_size ?c") auto
      then have d: "d = h mod length (dma_bufs ?c)" "q = map (\<lambda>k. k mod length (dma_bufs ?c)) [Suc h..<length (captured ?c) div dma_buf_size ?c]"
        "Suc h \<le> length (captured ?c) div dma_buf_size ?c"
        using rx_streamD(4) [OF sc] Cons by (simp_all add: upt_rec)
      have "rx_wf c1" using rx_streamD(1) [OF sc] Cons unfolding c1 by (simp add: rx_wf_def)
      moreover have "length (captured ?c) div dma_buf_size ?c - Suc h \<le> queue_peak ?c" using rx_streamD(6) [OF sc] by simp
      ultimately have "rx_stream (Suc h) c1" using sc d(2,3) unfolding c1 rx_stream_def Let_def
        by (simp add: rx_ring_cong [of ?c])
      with c1 d(1) ph same show ?thesis by auto
    qed
  qed
qed

text \<open>
  What a reader gets on the way from \<open>c\<close> to \<open>c'\<close>: the next bytes of the stream, if it kept up.
\<close>

definition delivers :: "i2s_chan \<Rightarrow> u8 list \<Rightarrow> i2s_chan \<Rightarrow> bool" where
  "delivers c xs c' \<longleftrightarrow> (\<forall>p. stream_at p c \<and> kept_up c' \<longrightarrow>
     xs = take (length xs) (drop p (captured c')) \<and> p + length xs \<le> length (captured c') \<and> stream_at (p + length xs) c')"

lemma stream_at_le: "stream_at p c \<Longrightarrow> p \<le> length (captured c)"
proof -
  assume "stream_at p c"
  then obtain h where h: "rx_stream h c" and p: "case curr_ptr c of None \<Rightarrow> p = h * dma_buf_size c
     | Some d \<Rightarrow> 0 < h \<and> d = (h - 1) mod length (dma_bufs c) \<and> p = (h - 1) * dma_buf_size c + rw_pos c"
    by (auto simp: stream_at_def)
  have "0 < dma_buf_size c" "rw_pos c \<le> dma_buf_size c" using rx_streamD(1) [OF h] by (simp_all add: rx_wf_def)
  then have "h * dma_buf_size c \<le> length (captured c)" and "p \<le> h * dma_buf_size c"
    using rx_streamD(3) [OF h] p by (simp add: less_eq_div_iff_mult_less_eq, cases h) (auto split: option.splits)
  then show ?thesis by simp
qed

lemma delivers_trans:
  assumes "delivers a xs b" and "delivers b ys c" and "rx_grows b c"
  shows "delivers a (xs @ ys) c"
  unfolding delivers_def
proof (intro allI impI)
  fix p assume p: "stream_at p a \<and> kept_up c"
  then have b: "xs = take (length xs) (drop p (captured b))" "p + length xs \<le> length (captured b)" "stream_at (p + length xs) b"
    using assms(1,3) kept_up_before unfolding delivers_def by blast+
  then have c: "ys = take (length ys) (drop (p + length xs) (captured c))" "p + length xs + length ys \<le> length (captured c)"
      "stream_at (p + length xs + length ys) c"
    using assms(2) p unfolding delivers_def by blast+
  obtain zs where "captured c = captured b @ zs" using assms(3) by (auto simp: rx_grows_def)
  then have "xs = take (length xs) (drop p (captured c))" using b(1,2) by simp
  then show "xs @ ys = take (length (xs @ ys)) (drop p (captured c)) \<and> p + length (xs @ ys) \<le> length (captured c)
      \<and> stream_at (p + length (xs @ ys)) c"
    using c by (simp add: take_add add.commute add.left_commute)
qed

lemma round_delivers:
  assumes nb: "next_buffer c = (True, c1)" and cp: "copy_bytes (the (curr_ptr c1)) (rw_pos c1) m c1 = (xs, c2)"
    and fits: "rw_pos c1 + m \<le> dma_buf_size c1"
  shows "delivers c xs (c2\<lparr>rw_pos := rw_pos c2 + m\<rparr>)"
  unfolding delivers_def
proof (intro allI impI)
  fix p assume p: "stream_at p c \<and> kept_up (c2\<lparr>rw_pos := rw_pos c2 + m\<rparr>)"
  have k2: "kept_up c2" using p by (simp add: kept_up_def)
  note g = copy_bytes_grows [OF cp]
  have k1: "kept_up c1" using kept_up_before g k2 by blast
  then obtain g' where s: "rx_stream (Suc g') c1" and d: "curr_ptr c1 = Some (g' mod length (dma_bufs c1))"
    and pp: "p = g' * dma_buf_size c1 + rw_pos c1" using next_buffer_stream [OF nb] p by auto
  have cs: "rx_stream (Suc g') c2" "xs = take m (drop p (captured c2))" "p + m \<le> length (captured c2)"
    using copy_bytes_stream [OF _ s k2 fits] cp d pp by auto
  have same: "dma_buf_size c2 = dma_buf_size c1" "length (dma_bufs c2) = length (dma_bufs c1)" "rw_pos c2 = rw_pos c1" "curr_ptr c2 = curr_ptr c1"
    "length xs = m" using g by (auto simp: rx_grows_def reader_same_def)
  have "rx_wf (c2\<lparr>rw_pos := rw_pos c2 + m\<rparr>)" using advance_wf [of c2 m] rx_streamD(1) [OF cs(1)] fits same by simp
  then have "rx_stream (Suc g') (c2\<lparr>rw_pos := rw_pos c2 + m\<rparr>)" using cs(1) unfolding rx_stream_def Let_def
    by (simp add: rx_ring_cong [of c2])
  then have "stream_at (p + m) (c2\<lparr>rw_pos := rw_pos c2 + m\<rparr>)"
    unfolding stream_at_def using d pp same by (intro exI [of _ "Suc g'"]) simp
  with cs same show "xs = take (length xs) (drop p (captured (c2\<lparr>rw_pos := rw_pos c2 + m\<rparr>))) \<and>
    p + length xs \<le> length (captured (c2\<lparr>rw_pos := rw_pos c2 + m\<rparr>)) \<and> stream_at (p + length xs) (c2\<lparr>rw_pos := rw_pos c2 + m\<rparr>)"
    by simp
qed

text \<open>The loop returns, whatever the interrupt and other tasks do.\<close>

lemma read_loop_returns:
  assumes "rx_wf c" and "sz < 2 ^ 31"
  shows "\<exists>err xs c'. read_loop sz dest c = Some (err, dest @ xs, c') \<and> rx_wf c' \<and> rx_grows c c' \<and> delivers c xs c' \<and> length xs \<le> sz \<and>
    (err = ESP_OK \<and> ch_state c' = I2S_CHAN_STATE_RUNNING \<longrightarrow> length xs = sz) \<and> (err = ESP_OK \<or> err = ESP_ERR_TIMEOUT)"
  using assms
proof (induction sz arbitrary: dest c rule: less_induct)
  case (less sz)
  show ?case
  proof (cases "sz > 0 \<and> ch_state c = I2S_CHAN_STATE_RUNNING")
    case False
    then have "read_loop sz dest c = Some (ESP_OK, dest @ [], c)" by (subst read_loop.simps) simp
    moreover have "delivers c [] c" using stream_at_le by (simp add: delivers_def)
    ultimately show ?thesis using less.prems False by fastforce
  next
    case go: True
    obtain got c1 where nb: "next_buffer c = (got, c1)" by fastforce
    note b = next_buffer_grows [OF less.prems(1) nb]
    show ?thesis
    proof (cases got)
      case False
      then have "read_loop sz dest c = Some (ESP_ERR_TIMEOUT, dest @ [], c1)" using go nb by (subst read_loop.simps) simp
      moreover have "delivers c [] c1" using next_buffer_stream [OF nb] stream_at_le False by (auto simp: delivers_def)
      ultimately show ?thesis using b by fastforce
    next
      case True
      define n where "n = bytes_can_read sz c1"
      have n: "n = min (dma_buf_size c1 - rw_pos c1) sz" using less.prems(2) by (simp add: n_def bytes_can_read_eq)
      obtain xs c2 where cp: "copy_bytes (the (curr_ptr c1)) (rw_pos c1) n c1 = (xs, c2)" by fastforce
      note g = copy_bytes_grows [OF cp]
      let ?c3 = "c2\<lparr>rw_pos := rw_pos c2 + n\<rparr>"
      have len: "length (dma_bufs c1 ! the (curr_ptr c1)) = dma_buf_size c1" using curr_buffer b True by blast
      have fits: "rw_pos c1 + n \<le> dma_buf_size c1" and pos: "0 < n" and le: "n \<le> sz" using n b True go by auto
      have eq: "read_loop sz dest c = read_loop (sz - n) (dest @ xs) ?c3"
        using go nb True cp fits len by (subst read_loop.simps) (simp add: n_def Let_def)
      have c2: "rw_pos c2 = rw_pos c1" "dma_buf_size c2 = dma_buf_size c1" "rx_wf c2" "rx_grows c c2"
        using g b rx_grows_trans by (auto simp: reader_same_def rx_grows_def)
      have wf: "rx_wf ?c3" using advance_wf [of c2 n] c2 fits by simp
      have gr: "rx_grows c ?c3" using c2 by (simp add: rx_grows_def)
      have del: "delivers c xs ?c3" using round_delivers [of c c1 n xs c2] nb cp fits True by simp
      have "sz - n < sz" "sz - n < 2 ^ 31" using pos go less.prems(2) by auto
      from less.IH [OF this(1) wf this(2), of "dest @ xs"] obtain err ys c' where
        r: "read_loop (sz - n) (dest @ xs) ?c3 = Some (err, (dest @ xs) @ ys, c')" "rx_wf c'" "rx_grows ?c3 c'" "delivers ?c3 ys c'"
          "length ys \<le> sz - n" "err = ESP_OK \<and> ch_state c' = I2S_CHAN_STATE_RUNNING \<longrightarrow> length ys = sz - n"
          "err = ESP_OK \<or> err = ESP_ERR_TIMEOUT" by blast
      show ?thesis using eq r g le rx_grows_trans [OF gr r(3)] delivers_trans [OF del r(4,3)]
        by (intro exI [of _ err] exI [of _ "xs @ ys"] exI [of _ c']) auto
    qed
  qed
qed

section \<open>What a reader gets\<close>

lemma stream_at_reader [simp]: "stream_at p (c\<lparr>binary := b\<rparr>) = stream_at p c"
  by (simp add: stream_at_def cong: option.case_cong)

lemma kept_up_reader [simp]: "kept_up (c\<lparr>binary := b\<rparr>) = kept_up c"
  by (simp add: kept_up_def)

lemma preempted_stream_at: "stream_at p c \<Longrightarrow> kept_up (preempted c) \<Longrightarrow> stream_at p (preempted c)"
proof -
  assume "stream_at p c" and k: "kept_up (preempted c)"
  then obtain h where h: "rx_stream h c" and p: "case curr_ptr c of None \<Rightarrow> p = h * dma_buf_size c
     | Some d \<Rightarrow> 0 < h \<and> d = (h - 1) mod length (dma_bufs c) \<and> p = (h - 1) * dma_buf_size c + rw_pos c"
    by (auto simp: stream_at_def)
  have "curr_ptr (preempted c) = curr_ptr c" "rw_pos (preempted c) = rw_pos c" "dma_buf_size (preempted c) = dma_buf_size c"
    "length (dma_bufs (preempted c)) = length (dma_bufs c)"
    using preempted_grows [of c] by (simp_all add: rx_grows_def reader_same_def)
  with p preempted_stream [OF h k] show ?thesis unfolding stream_at_def
    by (intro exI [of _ h]) (simp split: option.splits)
qed

lemma read_returns:
  assumes "rx_wf c" and "ch_dir c = I2S_DIR_RX" and "binary c" and "sz < 2 ^ 31"
  shows "\<exists>err xs c'. i2s_channel_read sz c = Some (err, xs, c') \<and> rx_wf c' \<and> rx_grows c c' \<and> binary c' \<and> delivers c xs c' \<and>
    length xs \<le> sz \<and> (err = ESP_OK \<and> ch_state c' = I2S_CHAN_STATE_RUNNING \<longrightarrow> length xs = sz) \<and>
    (err = ESP_OK \<or> err = ESP_ERR_TIMEOUT)"
proof -
  let ?c1 = "(preempted c)\<lparr>binary := False\<rparr>"
  have b: "binary (preempted c)" and g: "rx_grows c (preempted c)"
    using preempted_grows [of c] assms(3) by (simp_all add: reader_same_def)
  have wf: "rx_wf ?c1" using preempted_wf [OF assms(1)] by (simp add: rx_wf_def)
  obtain err xs c2 where r: "read_loop sz [] ?c1 = Some (err, xs, c2)" "rx_wf c2" "rx_grows ?c1 c2" "delivers ?c1 xs c2"
    "length xs \<le> sz" "err = ESP_OK \<and> ch_state c2 = I2S_CHAN_STATE_RUNNING \<longrightarrow> length xs = sz" "err = ESP_OK \<or> err = ESP_ERR_TIMEOUT"
    using read_loop_returns [OF wf assms(4), of "[]"] by auto
  have "rx_grows ?c1 (c2\<lparr>binary := True\<rparr>)" "rx_wf (c2\<lparr>binary := True\<rparr>)" using r(2,3) by (simp_all add: rx_grows_def rx_wf_def)
  moreover have "rx_grows c ?c1" using g by (simp add: rx_grows_def)
  moreover have "delivers c xs (c2\<lparr>binary := True\<rparr>)"
    unfolding delivers_def
  proof (intro allI impI)
    fix p assume p: "stream_at p c \<and> kept_up (c2\<lparr>binary := True\<rparr>)"
    then have "kept_up (preempted c)" using kept_up_before [OF r(3)] by simp
    then have "stream_at p ?c1" using preempted_stream_at p by simp
    then show "xs = take (length xs) (drop p (captured (c2\<lparr>binary := True\<rparr>))) \<and>
      p + length xs \<le> length (captured (c2\<lparr>binary := True\<rparr>)) \<and> stream_at (p + length xs) (c2\<lparr>binary := True\<rparr>)"
      using r(4) p by (simp add: delivers_def)
  qed
  ultimately show ?thesis using r b assms(2) rx_grows_trans unfolding i2s_channel_read_def Let_def
    by (intro exI [of _ err] exI [of _ xs] exI [of _ "c2\<lparr>binary := True\<rparr>"]) auto
qed

text \<open>A stretch of reads, until one fails.\<close>

fun read_session :: "nat list \<Rightarrow> i2s_chan \<Rightarrow> (u8 list \<times> i2s_chan) option" where
  "read_session [] c = Some ([], c)"
| "read_session (sz # szs) c = do {
     (err, xs, c) \<leftarrow> i2s_channel_read sz c;
     if err \<noteq> ESP_OK then Some (xs, c) else do { (ys, c) \<leftarrow> read_session szs c; Some (xs @ ys, c) } }"

lemma read_session_returns:
  assumes "rx_wf c" and "ch_dir c = I2S_DIR_RX" and "binary c" and "\<forall>sz \<in> set szs. sz < 2 ^ 31"
  shows "\<exists>xs c'. read_session szs c = Some (xs, c') \<and> rx_grows c c' \<and> delivers c xs c'"
  using assms
proof (induction szs arbitrary: c)
  case Nil
  then show ?case using stream_at_le by (simp add: delivers_def)
next
  case (Cons sz szs)
  obtain err xs c1 where r: "i2s_channel_read sz c = Some (err, xs, c1)" "rx_wf c1" "rx_grows c c1" "binary c1" "delivers c xs c1"
    using read_returns [of c sz] Cons.prems by auto
  show ?case
  proof (cases "err = ESP_OK")
    case True
    have "ch_dir c1 = I2S_DIR_RX" using r(3) Cons.prems(2) by (simp add: rx_grows_def)
    then obtain ys c2 where "read_session szs c1 = Some (ys, c2)" "rx_grows c1 c2" "delivers c1 ys c2"
      using Cons.IH [of c1] r Cons.prems(4) by auto
    then show ?thesis using r True rx_grows_trans delivers_trans by fastforce
  qed (use r in auto)
qed

text \<open>A channel as \<^verbatim>\<open>i2s_register_channel\<close>, \<^verbatim>\<open>i2s_alloc_dma_desc\<close> and the initialisation of a mode leave it.\<close>

definition i2s_ready_channel :: "nat \<Rightarrow> nat \<Rightarrow> (nat \<Rightarrow> rx_event list) \<Rightarrow> i2s_chan" where
  "i2s_ready_channel desc_num bufsize ev =
    \<lparr>ch_state = I2S_CHAN_STATE_READY, ch_dir = I2S_DIR_RX, dma_bufs = replicate desc_num (replicate bufsize 0), dma_buf_size = bufsize,
     curr_ptr = None, rw_pos = 0, msg_queue = [], msg_queue_len = desc_num - 1, binary = False, dma_on = False, dma_desc = 0,
     dma_off = 0, preempt = ev, preempts = 0, captured = [], overflows = 0, queue_peak = 0\<rparr>"

lemma ready_channel_wf: "0 < desc_num \<Longrightarrow> 0 < bufsize \<Longrightarrow> rx_wf (i2s_ready_channel desc_num bufsize ev)"
  by (simp add: i2s_ready_channel_def rx_wf_def)

lemma enable_stream:
  assumes "rx_wf c" and "ch_state c = I2S_CHAN_STATE_READY" and "curr_ptr c = None"
  defines "c1 \<equiv> snd (i2s_channel_enable c)"
  shows "rx_wf c1" and "binary c1" and "ch_dir c1 = ch_dir c" and "ch_state c1 = I2S_CHAN_STATE_RUNNING"
    and "stream_at (length (captured c1) - length (captured c1) mod dma_buf_size c1) c1"
proof -
  let ?s = "i2s_rx_channel_start c" and ?p = "preempted (i2s_rx_channel_start c)"
  have c1: "c1 = ?p\<lparr>ch_state := I2S_CHAN_STATE_RUNNING, msg_queue := [], queue_peak := 0, binary := True\<rparr>"
    using assms(2) by (simp add: c1_def i2s_channel_enable_def Let_def)
  have "rx_ring ?s" using assms(1) by (auto simp: i2s_rx_channel_start_def rx_ring_def rx_wf_def Let_def)
  then have r: "rx_ring ?p" by (rule preempted_ring)
  show wf: "rx_wf c1" using rx_ringD(1) [OF r] by (simp add: c1 rx_wf_def)
  show "binary c1" "ch_state c1 = I2S_CHAN_STATE_RUNNING" by (simp_all add: c1)
  show "ch_dir c1 = ch_dir c" using preempted_grows [of ?s] by (simp add: c1 rx_grows_def i2s_rx_channel_start_def)
  have "curr_ptr c1 = None" using preempted_grows [of ?s] assms(3) by (simp add: c1 reader_same_def i2s_rx_channel_start_def)
  moreover have "rx_ring c1" by (rule rx_ring_cong [OF r wf]) (simp_all add: c1)
  then have "rx_stream (length (captured c1) div dma_buf_size c1) c1" by (simp add: rx_stream_def Let_def, simp add: c1)
  ultimately show "stream_at (length (captured c1) - length (captured c1) mod dma_buf_size c1) c1"
    unfolding stream_at_def by (intro exI [of _ "length (captured c1) div dma_buf_size c1"]) (simp add: minus_mod_eq_div_mult)
qed

text \<open>
  From enabling to the last of any number of reads, all bytes read form one gapless piece of what the peripheral captured; it starts
  at the first buffer that was not complete when the queue was reset.  Again as long as the reader keeps up.
\<close>

lemma session_contiguous:
  assumes "rx_wf c" and "ch_state c = I2S_CHAN_STATE_READY" and "ch_dir c = I2S_DIR_RX" and "curr_ptr c = None"
    and "\<forall>sz \<in> set szs. sz < 2 ^ 31"
  shows "\<exists>c1 xs c2 l. i2s_channel_enable c = (ESP_OK, c1) \<and> read_session szs c1 = Some (xs, c2) \<and>
    l = length (captured c1) - length (captured c1) mod dma_buf_size c \<and>
    (kept_up c2 \<longrightarrow> xs = take (length xs) (drop l (captured c2)))"
proof -
  let ?c1 = "snd (i2s_channel_enable c)"
  note e = enable_stream [OF assms(1,2,4)]
  have ok: "i2s_channel_enable c = (ESP_OK, ?c1)" using assms(2) by (simp add: i2s_channel_enable_def Let_def)
  have bs: "dma_buf_size ?c1 = dma_buf_size c" using preempted_grows [of "i2s_rx_channel_start c"] assms(2)
    by (simp add: i2s_channel_enable_def Let_def rx_grows_def i2s_rx_channel_start_def)
  obtain xs c2 where "read_session szs ?c1 = Some (xs, c2)" "delivers ?c1 xs c2"
    using read_session_returns [OF e(1) _ e(2) assms(5)] e(3) assms(3) by auto
  then show ?thesis using ok e(5) bs by (auto simp: delivers_def)
qed

section \<open>Properties\<close>

text \<open>
  C27. \<^verbatim>\<open>i2s_channel_read\<close> on a running channel returns, whatever the DMA, the interrupt and a task that disables the channel do
  meanwhile.  It stores at most what was asked for, and all of it if it reports success while the channel runs; and if never more than
  \<open>n - 2\<close> of the \<open>n\<close> DMA buffers have waited in the queue, what it stores are the next bytes of the captured stream, and the next read
  goes on behind them.
\<close>

theorem i2s_channel_read_next_bytes:
  assumes "rx_wf c" and "ch_dir c = I2S_DIR_RX" and "binary c" and "sz < 2 ^ 31"
  shows "\<exists>err xs c'. i2s_channel_read sz c = Some (err, xs, c') \<and> binary c' \<and> length xs \<le> sz \<and>
    (err = ESP_OK \<or> err = ESP_ERR_TIMEOUT) \<and>
    (err = ESP_OK \<and> ch_state c' = I2S_CHAN_STATE_RUNNING \<longrightarrow> length xs = sz) \<and>
    (\<forall>p. stream_at p c \<and> kept_up c' \<longrightarrow> xs = take (length xs) (drop p (captured c')) \<and> stream_at (p + length xs) c')"
  using read_returns [OF assms] unfolding delivers_def by fast

text \<open>The example: six buffers of two bytes, of which the peripheral fills the first while the reader waits.\<close>

definition six_buffers :: "rx_event list \<Rightarrow> i2s_chan" where
  "six_buffers evs = snd (i2s_channel_enable (i2s_ready_channel 6 2
     (\<lambda>k. if k = 2 then [Captured 1, Captured 2] else if k = 3 then evs else [])))"

lemma six_buffers_enabled:
  "rx_wf (six_buffers evs)" "binary (six_buffers evs)" "ch_dir (six_buffers evs) = I2S_DIR_RX"
  using enable_stream [of "i2s_ready_channel 6 2 (\<lambda>k. if k = 2 then [Captured 1, Captured 2] else if k = 3 then evs else [])"]
  by (simp_all add: six_buffers_def ready_channel_wf) (simp_all add: i2s_ready_channel_def)

theorem i2s_channel_read_next_bytes_witness:
  "\<exists>err xs c'. i2s_channel_read 2 (six_buffers []) = Some (err, xs, c') \<and> binary c' \<and> length xs \<le> 2"
  using i2s_channel_read_next_bytes [of "six_buffers []" 2] six_buffers_enabled [of "[]"] by auto

declare read_loop.simps [code]


end
