(* ===== verification/I2s_Driver.thy ===== *)
theory I2s_Driver
  imports Sd I2s_Channel
begin

text \<open>
  The life of an I2S channel, driver/i2s/i2s_common.c and i2s_tdm.c: creating it on a controller, configuring it for TDM with
  its clock, slots, pins and DMA buffers, and deleting it.  Blocks, queues, semaphores and DMA channels are resources that calls obtain
  and release; releasing one that is not held has no meaning.  What happens on a running channel is in \<open>I2s_Channel\<close>.
\<close>

section \<open>Resources\<close>

text \<open>What an event obtains, and what it gives back.\<close>

definition nonzero :: "ptr \<Rightarrow> ptr list" where
  "nonzero p = (if p = 0 then [] else [p])"

fun obtained :: "event \<Rightarrow> ptr list" where
  "obtained (MEM (Malloc _ _), r) = nonzero (handle (ret r))"
| "obtained (MEM (Calloc _ _), r) = nonzero (handle (ret r))"
| "obtained (OS (Queue_create _ _), r) = nonzero (handle (ret r))"
| "obtained (OS Mutex_create, r) = nonzero (handle (ret r))"
| "obtained (OS Sem_create_binary, r) = nonzero (handle (ret r))"
| "obtained (I2S (Gdma_new_channel _), r) = (if ret r = 0 then nonzero (hnd r) else [])"
| "obtained _ = []"

fun released :: "event \<Rightarrow> ptr list" where
  "released (MEM (Free p), _) = [p]"
| "released (OS (Queue_delete p), _) = [p]"
| "released (OS (Sem_delete p), _) = [p]"
| "released (I2S (Gdma_del_channel p), _) = [p]"
| "released _ = []"

definition held_step :: "ptr set \<Rightarrow> event \<Rightarrow> ptr set" where
  "held_step S e = (S - set (released e)) \<union> set (obtained e)"

definition held :: "event list \<Rightarrow> ptr set" where
  "held evs = foldl held_step {} evs"

section \<open>Objects\<close>

datatype i2s_clock_src_t = I2S_CLK_SRC_PLL_160M | I2S_CLK_SRC_XTAL | I2S_CLK_SRC_other

record i2s_tdm_clk_config =
  clk_rate :: u32
  clk_src :: i2s_clock_src_t
  mclk_multiple :: u32
  cfg_bclk_div :: u32

text \<open>Of a slot configuration, what the driver itself looks at.\<close>

record i2s_tdm_slot_config =
  data_bit_width :: u32
  slot_bit_width :: u32
  slot_mono :: bool
  slot_mask :: u32
  ws_width :: u32
  cfg_total_slot :: u32

record i2s_tdm_gpio_config =
  pin_mclk :: int
  pin_bclk :: int
  pin_ws :: int
  pin_dout :: int
  pin_din :: int

record i2s_tdm_config =
  clk_cfg :: i2s_tdm_clk_config
  slot_cfg :: i2s_tdm_slot_config
  gpio_cfg :: i2s_tdm_gpio_config

record i2s_channel_obj =
  h_controller :: ptr
  h_tdm :: bool               \<comment> \<open>mode is TDM\<close>
  h_slave :: bool
  h_dir :: i2s_dir_t
  h_state :: i2s_state_t
  h_desc_num :: u32
  h_frame_num :: u32
  h_buf_size :: u32
  h_auto_clear :: bool
  h_desc :: ptr
  h_bufs :: ptr
  h_dma_chan :: ptr
  h_mode_info :: ptr
  h_active_slot :: u32
  h_total_slot :: u32
  h_mutex :: ptr
  h_binary :: ptr
  h_msg_queue :: ptr

record i2s_controller =
  c_id :: nat
  chan_occupancy :: u32
  full_duplex :: bool
  tx_chan :: ptr
  rx_chan :: ptr

text \<open>
  The static \<^verbatim>\<open>g_i2s\<close>: a controller and the flag of an owner for each of the two ports.  The objects by address: controllers,
  channels, arrays of pointers, configurations.
\<close>

record i2s_world = sd_world +
  g_controller :: "nat \<Rightarrow> ptr"
  g_occupied :: "nat \<Rightarrow> bool"
  ctrls :: "ptr \<Rightarrow> i2s_controller option"
  chans :: "ptr \<Rightarrow> i2s_channel_obj option"
  arrs :: "ptr \<Rightarrow> ptr list option"
  infos :: "ptr \<Rightarrow> i2s_tdm_config option"

lemma i2s_after [simp]:
  "g_controller (after w c) = g_controller w" "g_occupied (after w c) = g_occupied w" "ctrls (after w c) = ctrls w"
  "chans (after w c) = chans w" "arrs (after w c) = arrs w" "infos (after w c) = infos w"
  by (simp_all add: after_def)

definition SOC_I2S_NUM :: nat where "SOC_I2S_NUM = 2"

text \<open>The sizes of the structures only matter to the allocator.\<close>

definition obtain_res :: "call \<Rightarrow> 'a world_scheme \<Rightarrow> ptr \<times> 'a world_scheme" where
  "obtain_res c w = (let (r, w) = do_call c w in (handle (ret r), w))"

definition i2s_calloc :: "nat \<Rightarrow> nat \<Rightarrow> 'a world_scheme \<Rightarrow> ptr \<times> 'a world_scheme" where
  "i2s_calloc n caps w = obtain_res (MEM (Calloc n caps)) w"

definition release_res :: "call \<Rightarrow> ptr \<Rightarrow> 'a world_scheme \<Rightarrow> 'a world_scheme option" where
  "release_res c p w = (if p \<in> held (world.log w) then Some (call_void c w) else None)"

definition i2s_free :: "ptr \<Rightarrow> 'a i2s_world_scheme \<Rightarrow> 'a i2s_world_scheme option" where
  "i2s_free p w =
    (if p = 0 then Some w
     else do { w \<leftarrow> release_res (MEM (Free p)) p w;
               Some (w\<lparr>ctrls := (ctrls w)(p := None), chans := (chans w)(p := None), arrs := (arrs w)(p := None),
                       infos := (infos w)(p := None)\<rparr>) })"

definition hw :: "string \<Rightarrow> nat \<Rightarrow> 'a world_scheme \<Rightarrow> 'a world_scheme" where
  "hw f x w = call_void (I2S (I2s_hw f x)) w"

text \<open>Access to the objects: a dangling pointer has no meaning.\<close>

definition upd_chan :: "ptr \<Rightarrow> (i2s_channel_obj \<Rightarrow> i2s_channel_obj) \<Rightarrow> 'a i2s_world_scheme \<Rightarrow> 'a i2s_world_scheme option" where
  "upd_chan h f w = (case chans w h of None \<Rightarrow> None | Some c \<Rightarrow> Some (w\<lparr>chans := (chans w)(h := Some (f c))\<rparr>))"

definition upd_ctrl :: "ptr \<Rightarrow> (i2s_controller \<Rightarrow> i2s_controller) \<Rightarrow> 'a i2s_world_scheme \<Rightarrow> 'a i2s_world_scheme option" where
  "upd_ctrl p f w = (case ctrls w p of None \<Rightarrow> None | Some c \<Rightarrow> Some (w\<lparr>ctrls := (ctrls w)(p := Some (f c))\<rparr>))"

definition upd_arr :: "ptr \<Rightarrow> nat \<Rightarrow> ptr \<Rightarrow> 'a i2s_world_scheme \<Rightarrow> 'a i2s_world_scheme option" where
  "upd_arr p i x w = (case arrs w p of None \<Rightarrow> None
     | Some xs \<Rightarrow> if i < length xs then Some (w\<lparr>arrs := (arrs w)(p := Some (xs[i := x]))\<rparr>) else None)"

section \<open>The ports\<close>

abbreviation (input) ESP_ERR_NOT_FOUND :: esp_err where "ESP_ERR_NOT_FOUND \<equiv> 0x105"

definition i2s_platform_acquire_occupation :: "nat \<Rightarrow> 'a i2s_world_scheme \<Rightarrow> esp_err \<times> 'a i2s_world_scheme" where
  "i2s_platform_acquire_occupation i w =
    (if \<not> i < SOC_I2S_NUM then (ESP_ERR_INVALID_ARG, w)
     else if g_controller w i = 0 \<and> \<not> g_occupied w i
     then (ESP_OK, hw ''i2s_ll_enable_clock'' i (hw ''periph_module_enable'' i (w\<lparr>g_occupied := (g_occupied w)(i := True)\<rparr>)))
     else (ESP_ERR_NOT_FOUND, w))"

definition i2s_platform_release_occupation :: "nat \<Rightarrow> 'a i2s_world_scheme \<Rightarrow> esp_err \<times> 'a i2s_world_scheme" where
  "i2s_platform_release_occupation i w =
    (if \<not> i < SOC_I2S_NUM then (ESP_ERR_INVALID_ARG, w)
     else if g_controller w i = 0
     then (ESP_OK, hw ''i2s_ll_disable_clock'' i (hw ''periph_module_disable'' i (w\<lparr>g_occupied := (g_occupied w)(i := False)\<rparr>)))
     else (ESP_ERR_INVALID_STATE, w))"

text \<open>The argument is the address of \<^verbatim>\<open>g_i2s.controller[i]\<close>, given by its index.\<close>

definition i2s_destroy_controller_obj :: "nat \<Rightarrow> 'a i2s_world_scheme \<Rightarrow> (esp_err \<times> 'a i2s_world_scheme) option" where
  "i2s_destroy_controller_obj i w =
    (if g_controller w i = 0 then Some (ESP_ERR_INVALID_ARG, w)
     else do {
       oc \<leftarrow> ctrls w (g_controller w i);
       if rx_chan oc \<noteq> 0 \<or> tx_chan oc \<noteq> 0 then Some (ESP_ERR_INVALID_STATE, w)
       else do {
         w \<leftarrow> i2s_free (g_controller w i) w;
         Some (i2s_platform_release_occupation (c_id oc) (w\<lparr>g_controller := (g_controller w)(i := 0)\<rparr>)) } })"

definition i2s_acquire_controller_obj :: "nat \<Rightarrow> 'a i2s_world_scheme \<Rightarrow> (ptr \<times> 'a i2s_world_scheme) option" where
  "i2s_acquire_controller_obj i w =
    (if i \<ge> SOC_I2S_NUM then Some (0, w)
     else let (pre_alloc, w) = i2s_calloc 28 0x1000 w
     in if pre_alloc = 0 then Some (0, w)
     else let w = w\<lparr>ctrls := (ctrls w)(pre_alloc := Some \<lparr>c_id = i, chan_occupancy = 0, full_duplex = False, tx_chan = 0, rx_chan = 0\<rparr>)\<rparr>;
              w = hw ''i2s_hal_init'' i w;
              (err, w) = i2s_platform_acquire_occupation i w
     in if err = ESP_OK then Some (pre_alloc, w\<lparr>g_controller := (g_controller w)(i := pre_alloc)\<rparr>)
     else do { w \<leftarrow> i2s_free pre_alloc w; Some (g_controller w i, w) })"

definition dir_bit :: "i2s_dir_t \<Rightarrow> u32" where
  "dir_bit d = (case d of I2S_DIR_RX \<Rightarrow> 1 | I2S_DIR_TX \<Rightarrow> 2)"

definition i2s_take_available_channel :: "ptr \<Rightarrow> u32 \<Rightarrow> 'a i2s_world_scheme \<Rightarrow> (bool \<times> 'a i2s_world_scheme) option" where
  "i2s_take_available_channel obj search_mask w = do {
     oc \<leftarrow> ctrls w obj;
     if search_mask AND chan_occupancy oc = 0
     then do { w \<leftarrow> upd_ctrl obj (\<lambda>oc. oc\<lparr>chan_occupancy := chan_occupancy oc OR search_mask\<rparr>) w; Some (True, w) }
     else Some (False, w) }"

section \<open>DMA buffers\<close>

definition I2S_DMA_BUFFER_MAX_SIZE :: u32 where "I2S_DMA_BUFFER_MAX_SIZE = 4092"

definition i2s_get_buf_size :: "i2s_channel_obj \<Rightarrow> u32 \<Rightarrow> u32 \<Rightarrow> u32 option" where
  "i2s_get_buf_size c bit_width dma_frame_num =
    (let bytes_per_sample = (bit_width + 7) div 8;
         bytes_per_frame = bytes_per_sample * h_active_slot c;
         bufsize = dma_frame_num * bytes_per_frame
     in if bufsize > I2S_DMA_BUFFER_MAX_SIZE
        then if bytes_per_frame = 0 then None
             else Some (I2S_DMA_BUFFER_MAX_SIZE div bytes_per_frame * bytes_per_frame)
        else Some bufsize)"

fun free_descs :: "(ptr \<times> ptr) list \<Rightarrow> 'a i2s_world_scheme \<Rightarrow> 'a i2s_world_scheme option" where
  "free_descs [] w = Some w"
| "free_descs ((b, d) # bds) w = do { w \<leftarrow> i2s_free b w; w \<leftarrow> i2s_free d w; free_descs bds w }"

definition i2s_free_dma_desc :: "ptr \<Rightarrow> 'a i2s_world_scheme \<Rightarrow> (esp_err \<times> 'a i2s_world_scheme) option" where
  "i2s_free_dma_desc h w =
    (if h = 0 then Some (ESP_ERR_INVALID_ARG, w)
     else do {
       c \<leftarrow> chans w h;
       if h_desc c = 0 then Some (ESP_OK, w)
       else do {
         bs \<leftarrow> arrs w (h_bufs c);
         ds \<leftarrow> arrs w (h_desc c);
         let n = unat (h_desc_num c);
         w \<leftarrow> (if length bs < n \<or> length ds < n then None else free_descs (zip (take n bs) (take n ds)) w);
         w \<leftarrow> i2s_free (h_bufs c) w;
         w \<leftarrow> i2s_free (h_desc c) w;
         w \<leftarrow> upd_chan h (\<lambda>c. c\<lparr>h_desc := 0\<rparr>) w;
         Some (ESP_OK, w) } })"

text \<open>The descriptors of the given numbers with their buffers; the result tells whether there was memory for all of them.\<close>

fun alloc_descs :: "ptr \<Rightarrow> ptr \<Rightarrow> nat \<Rightarrow> nat list \<Rightarrow> 'a i2s_world_scheme \<Rightarrow> (bool \<times> 'a i2s_world_scheme) option" where
  "alloc_descs desc bufs bufsize [] w = Some (True, w)"
| "alloc_descs desc bufs bufsize (i # is) w =
    (let (d, w) = i2s_calloc 12 0x808 w
     in do {
       w \<leftarrow> upd_arr desc i d w;
       if d = 0 then Some (False, w)
       else let (b, w) = i2s_calloc bufsize 0x808 w
       in do {
         w \<leftarrow> upd_arr bufs i b w;
         if b = 0 then Some (False, w) else alloc_descs desc bufs bufsize is w } })"

text \<open>A null \<^verbatim>\<open>bufs\<close> is not noticed: no array is there to be written to, or read by the clean-up.\<close>

definition i2s_alloc_dma_desc :: "ptr \<Rightarrow> u32 \<Rightarrow> u32 \<Rightarrow> 'a i2s_world_scheme \<Rightarrow> (esp_err \<times> 'a i2s_world_scheme) option" where
  "i2s_alloc_dma_desc h num bufsize w =
    (if h = 0 then Some (ESP_ERR_INVALID_ARG, w)
     else if \<not> bufsize \<le> I2S_DMA_BUFFER_MAX_SIZE then Some (ESP_ERR_INVALID_ARG, w)
     else do {
       w \<leftarrow> upd_chan h (\<lambda>c. c\<lparr>h_desc_num := num, h_buf_size := bufsize\<rparr>) w;
       let (desc, w) = i2s_calloc (4 * unat num) 0x1000 w;
       w \<leftarrow> upd_chan h (\<lambda>c. c\<lparr>h_desc := desc\<rparr>) w;
       if desc = 0 then do { (_, w) \<leftarrow> i2s_free_dma_desc h w; Some (ESP_ERR_NO_MEM, w) }
       else do {
         let w = w\<lparr>arrs := (arrs w)(desc := Some (replicate (unat num) 0))\<rparr>;
         let (bufs, w) = i2s_calloc (4 * unat num) 0x1000 w;
         w \<leftarrow> upd_chan h (\<lambda>c. c\<lparr>h_bufs := bufs\<rparr>) w;
         let w = (if bufs = 0 then w else w\<lparr>arrs := (arrs w)(bufs := Some (replicate (unat num) 0))\<rparr>);
         (all, w) \<leftarrow> alloc_descs desc bufs (unat bufsize) [0..<unat num] w;
         if \<not> all then do { (_, w) \<leftarrow> i2s_free_dma_desc h w; Some (ESP_ERR_NO_MEM, w) }
         else do {
           c \<leftarrow> chans w h;
           Some (ESP_OK, if h_dir c = I2S_DIR_RX then hw ''i2s_ll_rx_set_eof_num'' (unat bufsize) w else w) } } })"

section \<open>Deleting a channel\<close>

definition release_if :: "call \<Rightarrow> ptr \<Rightarrow> 'a world_scheme \<Rightarrow> 'a world_scheme option" where
  "release_if c p w = (if p = 0 then Some w else release_res c p w)"

definition i2s_del_channel :: "ptr \<Rightarrow> 'a i2s_world_scheme \<Rightarrow> (esp_err \<times> 'a i2s_world_scheme) option" where
  "i2s_del_channel h w =
    (if h = 0 then Some (ESP_ERR_INVALID_ARG, w)
     else do {
       c \<leftarrow> chans w h;
       if h_state c = I2S_CHAN_STATE_RUNNING then Some (ESP_ERR_INVALID_STATE, w)
       else do {
         let obj = h_controller c;
         oc \<leftarrow> ctrls w obj;
         let w = hw (if h_dir c = I2S_DIR_TX then ''i2s_ll_tx_disable_clock'' else ''i2s_ll_rx_disable_clock'') (c_id oc) w;
         w \<leftarrow> i2s_free (h_mode_info c) w;
         (_, w) \<leftarrow> (if h_desc c \<noteq> 0 then i2s_free_dma_desc h w else Some (ESP_OK, w));
         w \<leftarrow> release_if (OS (Queue_delete (h_msg_queue c))) (h_msg_queue c) w;
         w \<leftarrow> release_if (OS (Sem_delete (h_mutex c))) (h_mutex c) w;
         w \<leftarrow> release_if (OS (Sem_delete (h_binary c))) (h_binary c) w;
         w \<leftarrow> upd_ctrl obj (\<lambda>oc. oc\<lparr>chan_occupancy := chan_occupancy oc AND NOT (dir_bit (h_dir c))\<rparr>) w;
         w \<leftarrow> (if h_dma_chan c \<noteq> 0
               then release_res (I2S (Gdma_del_channel (h_dma_chan c))) (h_dma_chan c) (call_void (I2S (Gdma_disconnect (h_dma_chan c))) w)
               else Some w);
         w \<leftarrow> i2s_free h w;
         if h = tx_chan oc \<or> h = rx_chan oc
         then do {
           w \<leftarrow> upd_ctrl obj (\<lambda>oc. if h = tx_chan oc then oc\<lparr>tx_chan := 0, full_duplex := False\<rparr>
                                   else oc\<lparr>rx_chan := 0, full_duplex := False\<rparr>) w;
           oc \<leftarrow> ctrls w obj;
           if tx_chan oc = 0 \<and> rx_chan oc = 0
           then do { (_, w) \<leftarrow> i2s_destroy_controller_obj (c_id oc) w; Some (ESP_OK, w) }
           else Some (ESP_OK, w) }
         else Some (ESP_OK, w) } })"

section \<open>Creating channels\<close>

text \<open>The clean-up of a registration; what was not created is null.\<close>

definition register_cleanup :: "ptr \<Rightarrow> ptr \<Rightarrow> ptr \<Rightarrow> ptr \<Rightarrow> 'a i2s_world_scheme \<Rightarrow> 'a i2s_world_scheme option" where
  "register_cleanup new_chan q m b w = do {
     w \<leftarrow> release_if (OS (Queue_delete q)) q w;
     w \<leftarrow> release_if (OS (Sem_delete m)) m w;
     w \<leftarrow> release_if (OS (Sem_delete b)) b w;
     i2s_free new_chan w }"

definition register_fail :: "ptr \<Rightarrow> ptr \<Rightarrow> ptr \<Rightarrow> ptr \<Rightarrow> 'a i2s_world_scheme \<Rightarrow> (esp_err \<times> 'a i2s_world_scheme) option" where
  "register_fail new_chan q m b w = do { w \<leftarrow> register_cleanup new_chan q m b w; Some (ESP_ERR_NO_MEM, w) }"

definition new_channel_obj :: "ptr \<Rightarrow> i2s_dir_t \<Rightarrow> i2s_channel_obj" where
  "new_channel_obj obj d = \<lparr>h_controller = obj, h_tdm = False, h_slave = False, h_dir = d, h_state = I2S_CHAN_STATE_REGISTER,
     h_desc_num = 0, h_frame_num = 0, h_buf_size = 0, h_auto_clear = False, h_desc = 0, h_bufs = 0, h_dma_chan = 0, h_mode_info = 0,
     h_active_slot = 0, h_total_slot = 0, h_mutex = 0, h_binary = 0, h_msg_queue = 0\<rparr>"

text \<open>The channel takes its place at the controller; one that is there already is deleted.\<close>

definition register_place :: "ptr \<Rightarrow> i2s_dir_t \<Rightarrow> ptr \<Rightarrow> 'a i2s_world_scheme \<Rightarrow> 'a i2s_world_scheme option" where
  "register_place obj d new_chan w = do {
     oc \<leftarrow> ctrls w obj;
     let old = (if d = I2S_DIR_TX then tx_chan oc else rx_chan oc);
     w \<leftarrow> (if old \<noteq> 0 then do { (_, w) \<leftarrow> i2s_del_channel old w; Some w } else Some w);
     upd_ctrl obj (\<lambda>oc. if d = I2S_DIR_TX then oc\<lparr>tx_chan := new_chan\<rparr> else oc\<lparr>rx_chan := new_chan\<rparr>) w }"

definition i2s_register_channel :: "ptr \<Rightarrow> i2s_dir_t \<Rightarrow> u32 \<Rightarrow> 'a i2s_world_scheme \<Rightarrow> (esp_err \<times> 'a i2s_world_scheme) option" where
  "i2s_register_channel obj d desc_num w =
    (if obj = 0 then Some (ESP_ERR_INVALID_ARG, w)
     else let (new_chan, w) = i2s_calloc 144 0x1000 w
     in if new_chan = 0 then Some (ESP_ERR_NO_MEM, w)
     else let w = w\<lparr>chans := (chans w)(new_chan := Some (new_channel_obj obj d))\<rparr>;
              (q, w) = obtain_res (OS (Queue_create (unat (desc_num - 1)) 4)) w
     in if q = 0 then register_fail new_chan 0 0 0 w
     else let (m, w) = obtain_res (OS Mutex_create) w
     in if m = 0 then register_fail new_chan q 0 0 w
     else let (b, w) = obtain_res (OS Sem_create_binary) w
     in if b = 0 then register_fail new_chan q m 0 w
     else do {
       w \<leftarrow> upd_chan new_chan (\<lambda>c. c\<lparr>h_msg_queue := q, h_mutex := m, h_binary := b\<rparr>) w;
       w \<leftarrow> register_place obj d new_chan w;
       Some (ESP_OK, w) })"

record i2s_chan_config =
  cfg_id :: "nat option"      \<comment> \<open>\<open>None\<close> is \<^verbatim>\<open>I2S_NUM_AUTO\<close>\<close>
  cfg_slave :: bool
  dma_desc_num :: u32
  dma_frame_num :: u32
  auto_clear :: bool

fun find_controller :: "nat list \<Rightarrow> u32 \<Rightarrow> ptr \<Rightarrow> 'a i2s_world_scheme \<Rightarrow> (ptr \<times> bool \<times> 'a i2s_world_scheme) option" where
  "find_controller [] search_mask obj w = Some (obj, False, w)"
| "find_controller (i # is) search_mask obj w = do {
     (obj, w) \<leftarrow> i2s_acquire_controller_obj i w;
     if obj = 0 then find_controller is search_mask obj w
     else do {
       (found, w) \<leftarrow> i2s_take_available_channel obj search_mask w;
       if found then Some (obj, True, w) else find_controller is search_mask obj w } }"

definition new_channel_cleanup :: "ptr \<Rightarrow> 'a i2s_world_scheme \<Rightarrow> 'a i2s_world_scheme option" where
  "new_channel_cleanup obj w = do {
     oc \<leftarrow> ctrls w obj;
     if rx_chan oc = 0 \<and> tx_chan oc = 0
     then if obj = g_controller w 0 then do { (_, w) \<leftarrow> i2s_destroy_controller_obj 0 w; Some w }
          else if obj = g_controller w 1 then do { (_, w) \<leftarrow> i2s_destroy_controller_obj 1 w; Some w }
          else Some w
     else Some w }"

text \<open>Registering one direction and setting the channel up from the configuration; its handle is \<open>0\<close> if that fails.\<close>

definition register_dir :: "i2s_chan_config \<Rightarrow> ptr \<Rightarrow> i2s_dir_t \<Rightarrow> 'a i2s_world_scheme \<Rightarrow> (esp_err \<times> ptr \<times> 'a i2s_world_scheme) option" where
  "register_dir cfg obj d w = do {
     (err, w) \<leftarrow> i2s_register_channel obj d (dma_desc_num cfg) w;
     if err \<noteq> ESP_OK then Some (err, 0, w)
     else do {
       oc \<leftarrow> ctrls w obj;
       let h = (if d = I2S_DIR_TX then tx_chan oc else rx_chan oc);
       w \<leftarrow> upd_chan h (\<lambda>c. c\<lparr>h_slave := cfg_slave cfg, h_desc_num := dma_desc_num cfg, h_frame_num := dma_frame_num cfg,
             h_auto_clear := (if d = I2S_DIR_TX then auto_clear cfg else h_auto_clear c)\<rparr>) w;
       Some (ESP_OK, h, w) } }"

text \<open>\<open>tx\<close> and \<open>rx\<close>: which handles the caller wants.  The result: error code and the two handles stored.\<close>

definition i2s_new_channel :: "i2s_chan_config \<Rightarrow> bool \<Rightarrow> bool \<Rightarrow> 'a i2s_world_scheme \<Rightarrow> (esp_err \<times> ptr \<times> ptr \<times> 'a i2s_world_scheme) option" where
  "i2s_new_channel cfg tx rx w =
    (if \<not> (tx \<or> rx) then Some (ESP_ERR_INVALID_ARG, 0, 0, w)
     else if \<not> (case cfg_id cfg of None \<Rightarrow> True | Some i \<Rightarrow> i < SOC_I2S_NUM) then Some (ESP_ERR_INVALID_ARG, 0, 0, w)
     else if \<not> dma_desc_num cfg \<ge> 2 then Some (ESP_ERR_INVALID_ARG, 0, 0, w)
     else do {
       let search_mask = (if tx then dir_bit I2S_DIR_TX else 0) OR (if rx then dir_bit I2S_DIR_RX else 0);
       (obj, found, w) \<leftarrow> find_controller (case cfg_id cfg of None \<Rightarrow> [0..<SOC_I2S_NUM] | Some i \<Rightarrow> [i]) search_mask 0 w;
       if obj = 0 then Some (ESP_ERR_NOT_FOUND, 0, 0, w)
       else if \<not> found then do { w \<leftarrow> new_channel_cleanup obj w; Some (ESP_ERR_NOT_FOUND, 0, 0, w) }
       else do {
         (err, th, w) \<leftarrow> (if tx then register_dir cfg obj I2S_DIR_TX w else Some (ESP_OK, 0, w));
         if err \<noteq> ESP_OK then do { w \<leftarrow> new_channel_cleanup obj w; Some (err, th, 0, w) }
         else do {
           (err, rh, w) \<leftarrow> (if rx then register_dir cfg obj I2S_DIR_RX w else Some (ESP_OK, 0, w));
           if err \<noteq> ESP_OK then do { w \<leftarrow> new_channel_cleanup obj w; Some (err, th, rh, w) }
           else do {
             w \<leftarrow> (if tx \<and> rx then upd_ctrl obj (\<lambda>oc. oc\<lparr>full_duplex := True\<rparr>) w else Some w);
             Some (ESP_OK, th, rh, w) } } } })"

section \<open>Configuring a channel for TDM\<close>

text \<open>Pins 0 to 48 without 22 to 25; shifting by 64 or more is taken to leave no bit.\<close>

definition GPIO_IS_VALID_GPIO :: "int \<Rightarrow> bool" where
  "GPIO_IS_VALID_GPIO g \<longleftrightarrow> 0 \<le> g \<and> g \<le> 48 \<and> \<not> (22 \<le> g \<and> g \<le> 25)"

text \<open>The signal of the GPIO matrix is named after the field of \<^verbatim>\<open>i2s_periph_signal\<close>.\<close>

definition i2s_gpio_check_and_set :: "int \<Rightarrow> string \<Rightarrow> 'a world_scheme \<Rightarrow> 'a world_scheme" where
  "i2s_gpio_check_and_set g signal w = (if g \<noteq> - 1 then hw signal (nat g) w else w)"

definition i2s_check_set_mclk :: "int \<Rightarrow> 'a world_scheme \<Rightarrow> esp_err \<times> 'a world_scheme" where
  "i2s_check_set_mclk g w =
    (if g = - 1 then (ESP_OK, w)
     else if \<not> GPIO_IS_VALID_GPIO g then (ESP_ERR_INVALID_ARG, w)
     else (ESP_OK, i2s_gpio_check_and_set g ''mck_out_sig'' w))"

definition upd_info :: "ptr \<Rightarrow> (i2s_tdm_config \<Rightarrow> i2s_tdm_config) \<Rightarrow> 'a i2s_world_scheme \<Rightarrow> 'a i2s_world_scheme option" where
  "upd_info p f w = (case infos w p of None \<Rightarrow> None | Some c \<Rightarrow> Some (w\<lparr>infos := (infos w)(p := Some (f c))\<rparr>))"

text \<open>Which signals carry the word select and the bit clock, and what the clock is bound to.\<close>

definition clock_signals :: "bool \<Rightarrow> i2s_dir_t \<Rightarrow> bool \<Rightarrow> string list \<times> string \<times> string" where
  "clock_signals slave d full =
    (if slave then if d = I2S_DIR_TX \<and> \<not> full then ([''i2s_ll_mclk_bind_to_tx_clk''], ''s_tx_ws_sig'', ''s_tx_bck_sig'')
                   else ([], ''s_rx_ws_sig'', ''s_rx_bck_sig'')
     else if d = I2S_DIR_RX \<and> \<not> full then ([''i2s_ll_mclk_bind_to_rx_clk''], ''m_rx_ws_sig'', ''m_rx_bck_sig'')
     else ([], ''m_tx_ws_sig'', ''m_tx_bck_sig''))"

definition i2s_tdm_set_gpio :: "ptr \<Rightarrow> i2s_tdm_gpio_config \<Rightarrow> 'a i2s_world_scheme \<Rightarrow> (esp_err \<times> 'a i2s_world_scheme) option" where
  "i2s_tdm_set_gpio h cfg w = do {
     c \<leftarrow> chans w h;
     oc \<leftarrow> ctrls w (h_controller c);
     if \<not> (pin_bclk cfg = - 1 \<or> GPIO_IS_VALID_GPIO (pin_bclk cfg)) then Some (ESP_ERR_INVALID_ARG, w)
     else if \<not> (pin_ws cfg = - 1 \<or> GPIO_IS_VALID_GPIO (pin_ws cfg)) then Some (ESP_ERR_INVALID_ARG, w)
     else do {
       let w = (if pin_dout cfg \<noteq> - 1 \<and> pin_dout cfg = pin_din cfg then hw ''i2s_gpio_loopback_set'' (nat (pin_dout cfg)) w
                else if h_dir c = I2S_DIR_TX then i2s_gpio_check_and_set (pin_dout cfg) ''data_out_sig'' w
                else i2s_gpio_check_and_set (pin_din cfg) ''data_in_sig'' w);
       let (err, w) = (if h_slave c then (ESP_OK, w) else i2s_check_set_mclk (pin_mclk cfg) w);
       if err \<noteq> ESP_OK then Some (err, w)
       else do {
         let (binds, ws, bck) = clock_signals (h_slave c) (h_dir c) (full_duplex oc);
         let w = fold (\<lambda>f. hw f (c_id oc)) binds w;
         let w = i2s_gpio_check_and_set (pin_ws cfg) ws w;
         let w = i2s_gpio_check_and_set (pin_bclk cfg) bck w;
         w \<leftarrow> upd_info (h_mode_info c) (\<lambda>i. i\<lparr>gpio_cfg := cfg\<rparr>) w;
         Some (ESP_OK, w) } } }"

text \<open>\<^verbatim>\<open>__builtin_popcount\<close>, and \<^verbatim>\<open>32 - __builtin_clz\<close> of a mask that is not zero.\<close>

definition popcount :: "u32 \<Rightarrow> u32" where
  "popcount m = of_nat (length (filter (bit m) [0..<32]))"

definition highest_bit :: "u32 \<Rightarrow> u32" where
  "highest_bit m = of_nat (Suc (last (filter (bit m) [0..<32])))"

definition total_slots :: "i2s_tdm_slot_config \<Rightarrow> u32" where
  "total_slots cfg =
    (let max_slot_num = highest_bit (slot_mask cfg);
         n = (if cfg_total_slot cfg < max_slot_num then max_slot_num else cfg_total_slot cfg)
     in if n < 2 \<and> ws_width cfg \<noteq> 1 then 2 else n)"

definition active_slots :: "i2s_tdm_slot_config \<Rightarrow> u32" where
  "active_slots cfg = (if slot_mono cfg then 1 else popcount (slot_mask cfg))"

definition I2S_LL_SLOT_FRAME_BIT_MAX :: u32 where "I2S_LL_SLOT_FRAME_BIT_MAX = 128"

text \<open>Each step only if the one before succeeded.\<close>

definition and_then :: "('w \<Rightarrow> (esp_err \<times> 'w) option) \<Rightarrow> ('w \<Rightarrow> (esp_err \<times> 'w) option) \<Rightarrow> 'w \<Rightarrow> (esp_err \<times> 'w) option" where
  "and_then f g w = do { (err, w) \<leftarrow> f w; if err \<noteq> ESP_OK then Some (err, w) else g w }"

text \<open>The buffers are allocated anew if their size changed.\<close>

definition slot_buffers :: "ptr \<Rightarrow> i2s_channel_obj \<Rightarrow> u32 \<Rightarrow> 'a i2s_world_scheme \<Rightarrow> (esp_err \<times> 'a i2s_world_scheme) option" where
  "slot_buffers h c buf_size w =
    (if h_buf_size c \<noteq> buf_size
     then do {
       w \<leftarrow> upd_chan h (\<lambda>c. c\<lparr>h_buf_size := buf_size\<rparr>) w;
       and_then (i2s_free_dma_desc h) (i2s_alloc_dma_desc h (h_desc_num c) buf_size) w }
     else Some (ESP_OK, w))"

definition slot_registers :: "i2s_channel_obj \<Rightarrow> i2s_tdm_slot_config \<Rightarrow> 'a i2s_world_scheme \<Rightarrow> (esp_err \<times> 'a i2s_world_scheme) option" where
  "slot_registers c cfg w = do {
     oc \<leftarrow> ctrls w (h_controller c);
     let is_slave = (if full_duplex oc \<and> h_dir c = I2S_DIR_RX then True else h_slave c);
     let w = hw ''i2s_ll_share_bck_ws'' (of_bool (full_duplex oc)) w;
     let w = hw (if h_dir c = I2S_DIR_TX then ''i2s_hal_tdm_set_tx_slot'' else ''i2s_hal_tdm_set_rx_slot'') (of_bool is_slave) w;
     w \<leftarrow> upd_info (h_mode_info c) (\<lambda>i. i\<lparr>slot_cfg := cfg\<rparr>) w;
     Some (ESP_OK, w) }"

definition i2s_tdm_set_slot :: "ptr \<Rightarrow> i2s_tdm_slot_config \<Rightarrow> 'a i2s_world_scheme \<Rightarrow> (esp_err \<times> 'a i2s_world_scheme) option" where
  "i2s_tdm_set_slot h cfg w =
    (if slot_mask cfg = 0 then Some (ESP_ERR_INVALID_ARG, w)
     else do {
       w \<leftarrow> upd_chan h (\<lambda>c. c\<lparr>h_active_slot := active_slots cfg, h_total_slot := total_slots cfg\<rparr>) w;
       c \<leftarrow> chans w h;
       let slot_bits = (if slot_bit_width cfg = 0 then data_bit_width cfg else slot_bit_width cfg);
       if \<not> h_total_slot c * slot_bits \<le> I2S_LL_SLOT_FRAME_BIT_MAX then Some (ESP_ERR_INVALID_ARG, w)
       else do {
         buf_size \<leftarrow> i2s_get_buf_size c (data_bit_width cfg) (h_frame_num c);
         and_then (slot_buffers h c buf_size) (slot_registers c cfg) w } })"

record i2s_hal_clock_info =
  ci_sclk :: u32
  ci_mclk :: u32
  ci_bclk :: u32
  ci_mclk_div :: u16
  ci_bclk_div :: u16

definition i2s_get_source_clk_freq :: "i2s_clock_src_t \<Rightarrow> u32" where
  "i2s_get_source_clk_freq s = (case s of I2S_CLK_SRC_XTAL \<Rightarrow> 40000000 | I2S_CLK_SRC_PLL_160M \<Rightarrow> 160000000 | I2S_CLK_SRC_other \<Rightarrow> 0)"

text \<open>Bit clock, master clock and the division between them; dividing by zero has no meaning.\<close>

definition tdm_bclk :: "bool \<Rightarrow> u32 \<Rightarrow> u32 \<Rightarrow> i2s_tdm_clk_config \<Rightarrow> (u32 \<times> u32 \<times> u16) option" where
  "tdm_bclk slave slots slot_bits cfg =
    (let bclk = clk_rate cfg * slots * slot_bits
     in if \<not> slave then
          let mclk = clk_rate cfg * mclk_multiple cfg
          in if bclk = 0 then None
          else let bclk_div = ucast (mclk div bclk) :: u16
          in if bclk_div \<le> 2 then Some (bclk, bclk * 3, 3) else Some (bclk, mclk, bclk_div)
        else let bclk_div = (if cfg_bclk_div cfg < 8 then 8 else ucast (cfg_bclk_div cfg)) :: u16
          in Some (bclk, bclk * ucast bclk_div, bclk_div))"

text \<open>The quotient is compared with 1.99 as an exact number.\<close>

definition i2s_tdm_calculate_clock :: "i2s_channel_obj \<Rightarrow> i2s_tdm_slot_config \<Rightarrow> i2s_tdm_clk_config \<Rightarrow> (esp_err \<times> i2s_hal_clock_info) option" where
  "i2s_tdm_calculate_clock c slot cfg =
    (let slot_bits = (if slot_bit_width slot = 0 \<or> sint (slot_bit_width slot) < sint (data_bit_width slot)
                      then data_bit_width slot else slot_bit_width slot)
     in do {
       (bclk, mclk, bclk_div) \<leftarrow> tdm_bclk (h_slave c) (h_total_slot c) slot_bits cfg;
       let sclk = i2s_get_source_clk_freq (clk_src cfg);
       if mclk = 0 then None
       else Some (if 100 * uint sclk > 199 * uint mclk then ESP_OK else ESP_ERR_INVALID_ARG,
         \<lparr>ci_sclk = sclk, ci_mclk = mclk, ci_bclk = bclk, ci_mclk_div = ucast (sclk div mclk), ci_bclk_div = bclk_div\<rparr>) })"

definition i2s_tdm_set_clock :: "ptr \<Rightarrow> i2s_tdm_clk_config \<Rightarrow> 'a i2s_world_scheme \<Rightarrow> (esp_err \<times> 'a i2s_world_scheme) option" where
  "i2s_tdm_set_clock h cfg w = do {
     c \<leftarrow> chans w h;
     info \<leftarrow> infos w (h_mode_info c);
     (err, clk_info) \<leftarrow> i2s_tdm_calculate_clock c (slot_cfg info) cfg;
     if err \<noteq> ESP_OK then Some (err, w)
     else do {
       let w = hw (if h_dir c = I2S_DIR_TX then ''i2s_hal_set_tx_clock'' else ''i2s_hal_set_rx_clock'') (unat (ci_mclk clk_info)) w;
       w \<leftarrow> upd_info (h_mode_info c) (\<lambda>i. i\<lparr>clk_cfg := cfg\<rparr>) w;
       Some (ESP_OK, w) } }"

definition i2s_init_dma_intr :: "ptr \<Rightarrow> 'a i2s_world_scheme \<Rightarrow> (esp_err \<times> 'a i2s_world_scheme) option" where
  "i2s_init_dma_intr h w = do {
     c \<leftarrow> chans w h;
     oc \<leftarrow> ctrls w (h_controller c);
     if \<not> c_id oc < SOC_I2S_NUM then Some (ESP_ERR_INVALID_ARG, w)
     else do {
       let (r, w) = do_call (I2S (Gdma_new_channel (h_dir c = I2S_DIR_TX))) w;
       if ret r \<noteq> ESP_OK then Some (ret r, w)
       else do {
         w \<leftarrow> upd_chan h (\<lambda>c. c\<lparr>h_dma_chan := hnd r\<rparr>) w;
         let (r', w) = do_call (I2S (Gdma_connect (hnd r) (c_id oc))) w;
         if ret r' \<noteq> ESP_OK then Some (ret r', w)
         else Some (ESP_OK, call_void (I2S (Gdma_register_callback (hnd r))) w) } } }"

definition no_config :: i2s_tdm_config where
  "no_config = \<lparr>clk_cfg = \<lparr>clk_rate = 0, clk_src = I2S_CLK_SRC_other, mclk_multiple = 0, cfg_bclk_div = 0\<rparr>,
     slot_cfg = \<lparr>data_bit_width = 0, slot_bit_width = 0, slot_mono = False, slot_mask = 0, ws_width = 0, cfg_total_slot = 0\<rparr>,
     gpio_cfg = \<lparr>pin_mclk = 0, pin_bclk = 0, pin_ws = 0, pin_dout = 0, pin_din = 0\<rparr>\<rparr>"

definition tdm_ready :: "ptr \<Rightarrow> 'a i2s_world_scheme \<Rightarrow> (esp_err \<times> 'a i2s_world_scheme) option" where
  "tdm_ready h w = do {
     c \<leftarrow> chans w h;
     let w = hw (if h_dir c = I2S_DIR_TX then ''i2s_ll_tx_enable_tdm'' else ''i2s_ll_rx_enable_tdm'') 0 w;
     let w = hw (if h_dir c = I2S_DIR_TX then ''i2s_ll_tx_enable_clock'' else ''i2s_ll_rx_enable_clock'') 0 w;
     w \<leftarrow> upd_chan h (\<lambda>c. c\<lparr>h_state := I2S_CHAN_STATE_READY\<rparr>) w;
     Some (ESP_OK, w) }"

text \<open>The configuration block of the mode is allocated anew.\<close>

definition tdm_info :: "ptr \<Rightarrow> 'a i2s_world_scheme \<Rightarrow> (esp_err \<times> 'a i2s_world_scheme) option" where
  "tdm_info h w = do {
     w \<leftarrow> upd_chan h (\<lambda>c. c\<lparr>h_tdm := True\<rparr>) w;
     c \<leftarrow> chans w h;
     w \<leftarrow> i2s_free (h_mode_info c) w;
     let (p, w) = i2s_calloc 60 0x1000 w;
     w \<leftarrow> upd_chan h (\<lambda>c. c\<lparr>h_mode_info := p\<rparr>) w;
     if p = 0 then Some (ESP_ERR_NO_MEM, w) else Some (ESP_OK, w\<lparr>infos := (infos w)(p := Some no_config)\<rparr>) }"

definition i2s_channel_init_tdm_mode :: "ptr \<Rightarrow> i2s_tdm_config \<Rightarrow> 'a i2s_world_scheme \<Rightarrow> (esp_err \<times> 'a i2s_world_scheme) option" where
  "i2s_channel_init_tdm_mode h cfg w =
    (if h = 0 then Some (ESP_ERR_INVALID_ARG, w)
     else do {
       c \<leftarrow> chans w h;
       let w = call_void (OS (Sem_take (h_mutex c) 0xFFFFFFFF)) w;
       (err, w) \<leftarrow> (if h_state c \<noteq> I2S_CHAN_STATE_REGISTER then Some (ESP_ERR_INVALID_STATE, w)
         else and_then (tdm_info h) (and_then (i2s_tdm_set_gpio h (gpio_cfg cfg)) (and_then (i2s_tdm_set_slot h (slot_cfg cfg))
                (and_then (i2s_tdm_set_clock h (clk_cfg cfg)) (and_then (i2s_init_dma_intr h) (tdm_ready h))))) w);
       Some (err, call_void (OS (Sem_give (h_mutex c))) w) })"

text \<open>Configuring again, one part at a time, a channel that is ready: what the three functions share, and the functions.\<close>

definition tdm_reconfig ::
  "ptr \<Rightarrow> (i2s_channel_obj \<Rightarrow> 'a i2s_world_scheme \<Rightarrow> (esp_err \<times> 'a i2s_world_scheme) option) \<Rightarrow> 'a i2s_world_scheme \<Rightarrow> (esp_err \<times> 'a i2s_world_scheme) option" where
  "tdm_reconfig h step w =
    (if h = 0 then Some (ESP_ERR_INVALID_ARG, w)
     else do {
       c \<leftarrow> chans w h;
       let w = call_void (OS (Sem_take (h_mutex c) 0xFFFFFFFF)) w;
       (err, w) \<leftarrow> (if \<not> h_tdm c then Some (ESP_ERR_INVALID_ARG, w)
         else if h_state c \<noteq> I2S_CHAN_STATE_READY then Some (ESP_ERR_INVALID_STATE, w)
         else step c w);
       Some (err, call_void (OS (Sem_give (h_mutex c))) w) })"

definition clock_step :: "ptr \<Rightarrow> i2s_tdm_clk_config \<Rightarrow> i2s_channel_obj \<Rightarrow> 'a i2s_world_scheme \<Rightarrow> (esp_err \<times> 'a i2s_world_scheme) option" where
  "clock_step h cfg c w = (if h_mode_info c = 0 then Some (ESP_ERR_INVALID_STATE, w) else i2s_tdm_set_clock h cfg w)"

definition i2s_channel_reconfig_tdm_clock :: "ptr \<Rightarrow> i2s_tdm_clk_config \<Rightarrow> 'a i2s_world_scheme \<Rightarrow> (esp_err \<times> 'a i2s_world_scheme) option" where
  "i2s_channel_reconfig_tdm_clock h cfg = tdm_reconfig h (clock_step h cfg)"

text \<open>The stored slot configuration is the new one by the time its width is compared.\<close>

definition slot_follow_up :: "ptr \<Rightarrow> i2s_channel_obj \<Rightarrow> i2s_tdm_slot_config \<Rightarrow> 'a i2s_world_scheme \<Rightarrow> (esp_err \<times> 'a i2s_world_scheme) option" where
  "slot_follow_up h c cfg w = do {
     info \<leftarrow> infos w (h_mode_info c);
     let slot_bits = (if slot_bit_width cfg = 0 then data_bit_width cfg else slot_bit_width cfg);
     (err, w) \<leftarrow> (if slot_bit_width (slot_cfg info) = slot_bits then i2s_tdm_set_clock h (clk_cfg info) w else Some (ESP_OK, w));
     if err \<noteq> ESP_OK then Some (err, w) else Some (ESP_OK, call_void (OS (Queue_reset (h_msg_queue c))) w) }"

definition slot_step :: "ptr \<Rightarrow> i2s_tdm_slot_config \<Rightarrow> i2s_channel_obj \<Rightarrow> 'a i2s_world_scheme \<Rightarrow> (esp_err \<times> 'a i2s_world_scheme) option" where
  "slot_step h cfg c w =
    (if h_mode_info c = 0 then Some (ESP_ERR_INVALID_STATE, w) else and_then (i2s_tdm_set_slot h cfg) (slot_follow_up h c cfg) w)"

definition i2s_channel_reconfig_tdm_slot :: "ptr \<Rightarrow> i2s_tdm_slot_config \<Rightarrow> 'a i2s_world_scheme \<Rightarrow> (esp_err \<times> 'a i2s_world_scheme) option" where
  "i2s_channel_reconfig_tdm_slot h cfg = tdm_reconfig h (slot_step h cfg)"

definition i2s_channel_reconfig_tdm_gpio :: "ptr \<Rightarrow> i2s_tdm_gpio_config \<Rightarrow> 'a i2s_world_scheme \<Rightarrow> (esp_err \<times> 'a i2s_world_scheme) option" where
  "i2s_channel_reconfig_tdm_gpio h cfg = tdm_reconfig h (\<lambda>c w. i2s_tdm_set_gpio h cfg w)"

text \<open>What \<^verbatim>\<open>i2s_rx_channel_start\<close> hands to the DMA: the first descriptor.\<close>

definition first_descriptor :: "ptr \<Rightarrow> 'a i2s_world_scheme \<Rightarrow> ptr option" where
  "first_descriptor h w = do {
     c \<leftarrow> chans w h;
     if h_desc c = 0 then None
     else do { ds \<leftarrow> arrs w (h_desc c); case ds of [] \<Rightarrow> None | d # _ \<Rightarrow> Some d } }"

section \<open>The board's microphone channel\<close>

text \<open>\<^verbatim>\<open>I2S_CHANNEL_DEFAULT_CONFIG(I2S_NUM_AUTO, I2S_ROLE_MASTER)\<close> and the configuration of \<^verbatim>\<open>es7210_i2s_init\<close>.\<close>

definition i2s_rx_conf :: i2s_chan_config where
  "i2s_rx_conf = \<lparr>cfg_id = None, cfg_slave = False, dma_desc_num = 6, dma_frame_num = 240, auto_clear = False\<rparr>"

definition i2s_tdm_rx_conf :: i2s_tdm_config where
  "i2s_tdm_rx_conf =
    \<lparr>clk_cfg = \<lparr>clk_rate = 48000, clk_src = I2S_CLK_SRC_PLL_160M, mclk_multiple = 256, cfg_bclk_div = 0\<rparr>,
     slot_cfg = \<lparr>data_bit_width = 32, slot_bit_width = 0, slot_mono = False, slot_mask = 3, ws_width = 0, cfg_total_slot = 0\<rparr>,
     gpio_cfg = \<lparr>pin_mclk = 38, pin_bclk = 14, pin_ws = 13, pin_dout = - 1, pin_din = 12\<rparr>\<rparr>"

text \<open>Addresses that are new because the log only gets longer; requests numbered in \<open>bad\<close> are refused.\<close>

definition numbered_env :: "nat list \<Rightarrow> env" where
  "numbered_env bad h c =
    (if length h \<in> set bad then (case c of I2S (Gdma_new_channel _) \<Rightarrow> answer 0x105 | _ \<Rightarrow> answer 0)
     else case c of I2S (Gdma_new_channel _) \<Rightarrow> \<lparr>ret = 0, out = [], content = [], hnd = Suc (length h)\<rparr>
       | I2S _ \<Rightarrow> answer 0
       | _ \<Rightarrow> answer (int (Suc (length h))))"

definition i2s_board :: "nat list \<Rightarrow> i2s_world" where
  "i2s_board bad = \<lparr>wenv = numbered_env bad, log = [], i2c_obj = Map.empty, s_impls = [0, 0], s_cards = [0, 0],
     s_disk_status_check_en = [False, False], s_fat_ctxs = [0, 0], s_fat_ctx = 0, s_ctx = [0, 0], s_saved_ctx_id = 2,
     fat_ctxs = Map.empty, sd_ctxs = Map.empty, cards = Map.empty, heap_paths = Map.empty, sizeof = \<lambda>_. 4, sd_card = 0,
     g_controller = \<lambda>_. 0, g_occupied = \<lambda>_. False, ctrls = Map.empty, chans = Map.empty, arrs = Map.empty, infos = Map.empty\<rparr>"

end
