(* ===== verification/I2s_Life.thy ===== *)
theory I2s_Life
  imports I2s_Driver "HOL-Library.Code_Target_Nat"
begin

text \<open>
  What the life of an I2S channel leaves behind: the resources a channel owns are accounted for through creation, any number
  of attempts to configure it, and deletion.
\<close>

section \<open>Accounting\<close>

lemma held_snoc [simp]: "held (h @ [e]) = held_step (held h) e"
  by (simp add: held_def)

text \<open>A log of an environment's own answers.\<close>

definition genuine :: "env \<Rightarrow> event list \<Rightarrow> bool" where
  "genuine e evs \<longleftrightarrow> (\<forall>i < length evs. snd (evs ! i) = e (take i evs) (fst (evs ! i)))"

lemma genuine_Nil [simp]: "genuine e []"
  by (simp add: genuine_def)

lemma genuine_snoc: "genuine e (evs @ [(c, r)]) \<longleftrightarrow> genuine e evs \<and> r = e evs c"
  by (auto simp: genuine_def nth_append less_Suc_eq)

lemma genuine_after [simp]: "genuine (wenv w) (world.log w @ [(c, reply_to w c)]) = genuine (wenv w) (world.log w)"
  by (simp add: genuine_snoc reply_to_def)

text \<open>Nothing is handed out twice, and the DMA engine connects to the peripheral.\<close>

definition i2s_env :: "env \<Rightarrow> bool" where
  "i2s_env e \<longleftrightarrow> (\<forall>h c. genuine e h \<longrightarrow> set (obtained (c, e h c)) \<inter> held h = {}) \<and> (\<forall>h p i. ret (e h (I2S (Gdma_connect p i))) = ESP_OK)"

text \<open>The resources \<open>xs\<close> are held, each once, beside the ones in \<open>B\<close>.\<close>

definition accounts :: "ptr set \<Rightarrow> ptr list \<Rightarrow> 'a world_scheme \<Rightarrow> bool" where
  "accounts B xs w \<longleftrightarrow> i2s_env (wenv w) \<and> genuine (wenv w) (world.log w) \<and> distinct xs \<and> 0 \<notin> set xs \<and> held (world.log w) = B \<union> set xs \<and> B \<inter> set xs = {}"

lemma accounts_perm: "mset xs = mset ys \<Longrightarrow> accounts B xs w \<Longrightarrow> accounts B ys w"
  using mset_eq_setD [of xs ys] mset_eq_imp_distinct_iff [of xs ys] by (simp add: accounts_def)

lemma accounts_cong: "wenv w' = wenv w \<Longrightarrow> world.log w' = world.log w \<Longrightarrow> accounts B xs w' = accounts B xs w"
  by (simp add: accounts_def)

lemma accounts_append: "accounts B (xs @ ys) w \<Longrightarrow> set xs \<inter> set ys = {} \<and> 0 \<notin> set xs"
  by (simp add: accounts_def)

text \<open>The fields of the extension do not matter to it.\<close>

lemma accounts_upd [simp]:
  "accounts B xs (w\<lparr>ctrls := f1\<rparr>) = accounts B xs w" "accounts B xs (w\<lparr>chans := f2\<rparr>) = accounts B xs w"
  "accounts B xs (w\<lparr>arrs := f3\<rparr>) = accounts B xs w" "accounts B xs (w\<lparr>infos := f4\<rparr>) = accounts B xs w"
  "accounts B xs (w\<lparr>g_controller := f5\<rparr>) = accounts B xs w" "accounts B xs (w\<lparr>g_occupied := f6\<rparr>) = accounts B xs w"
  by (simp_all add: accounts_def)

lemma accounts_call:
  "obtained (c, reply_to w c) = [] \<Longrightarrow> released (c, reply_to w c) = [] \<Longrightarrow> accounts B xs (after w c) = accounts B xs w"
  by (simp add: accounts_def held_step_def)

lemma accounts_obtain:
  assumes "accounts B xs w" and "released (c, reply_to w c) = []" and "obtained (c, reply_to w c) = nonzero p"
  shows "accounts B (nonzero p @ xs) (after w c)"
proof -
  have "set (nonzero p) \<inter> held (world.log w) = {}"
    using assms(1,3) unfolding accounts_def i2s_env_def reply_to_def by metis
  then show ?thesis using assms by (auto simp: accounts_def held_step_def nonzero_def)
qed

lemma accounts_release:
  assumes "accounts B (p # xs) w" and "released (c, reply_to w c) = [p]" and "obtained (c, reply_to w c) = []"
  shows "release_res c p w = Some (after w c) \<and> accounts B xs (after w c)"
  using assms by (auto simp: release_res_def accounts_def held_step_def io_simps)

lemma accounts_hw [simp]: "accounts B xs (hw f x w) = accounts B xs w"
  by (simp add: hw_def io_simps accounts_call)

lemma hw_sel [simp]:
  "g_controller (hw f x w) = g_controller w" "g_occupied (hw f x w) = g_occupied w" "ctrls (hw f x w) = ctrls w"
  "chans (hw f x w) = chans w" "arrs (hw f x w) = arrs w" "infos (hw f x w) = infos w"
  by (simp_all add: hw_def io_simps)

text \<open>Two worlds with the same objects except at some addresses.\<close>

definition same_but :: "ptr set \<Rightarrow> 'a i2s_world_scheme \<Rightarrow> 'a i2s_world_scheme \<Rightarrow> bool" where
  "same_but S w w' \<longleftrightarrow> g_controller w' = g_controller w \<and> g_occupied w' = g_occupied w \<and>
     (\<forall>p. p \<notin> S \<longrightarrow> ctrls w' p = ctrls w p \<and> chans w' p = chans w p \<and> arrs w' p = arrs w p \<and> infos w' p = infos w p)"

lemma same_but_refl [simp]: "same_but S w w"
  by (simp add: same_but_def)

lemma same_but_trans: "same_but S a b \<Longrightarrow> same_but T b c \<Longrightarrow> S \<union> T \<subseteq> U \<Longrightarrow> same_but U a c"
  unfolding same_but_def by (metis UnI1 UnI2 subsetD)

lemma same_butD:
  assumes "same_but S w w'"
  shows "g_controller w' = g_controller w" "g_occupied w' = g_occupied w" "p \<notin> S \<Longrightarrow> ctrls w' p = ctrls w p"
    "p \<notin> S \<Longrightarrow> chans w' p = chans w p" "p \<notin> S \<Longrightarrow> arrs w' p = arrs w p" "p \<notin> S \<Longrightarrow> infos w' p = infos w p"
  using assms unfolding same_but_def by blast+

lemma same_but_after [simp]: "same_but S w (after w c)" "same_but S w (hw f x w)"
  by (simp_all add: same_but_def)

text \<open>Freeing.\<close>

lemma free_ok:
  assumes "accounts B (nonzero p @ xs) w"
  shows "\<exists>w'. i2s_free p w = Some w' \<and> accounts B xs w' \<and> same_but (set (nonzero p)) w w' \<and> (p \<noteq> 0 \<longrightarrow> chans w' p = None)"
proof (cases "p = 0")
  case True
  with assms show ?thesis by (simp add: i2s_free_def nonzero_def)
next
  case False
  with assms have "release_res (MEM (Free p)) p w = Some (after w (MEM (Free p))) \<and> accounts B xs (after w (MEM (Free p)))"
    by (intro accounts_release) (simp_all add: nonzero_def)
  with False show ?thesis by (auto simp: i2s_free_def same_but_def nonzero_def)
qed

lemma calloc_ok:
  assumes "accounts B xs w" and "i2s_calloc n caps w = (p, w')"
  shows "accounts B (nonzero p @ xs) w' \<and> same_but {} w w' \<and> (p \<noteq> 0 \<longrightarrow> p \<notin> B \<union> set xs)"
proof -
  have "p = handle (ret (reply_to w (MEM (Calloc n caps))))" "w' = after w (MEM (Calloc n caps))"
    using assms(2) by (simp_all add: i2s_calloc_def obtain_res_def io_simps)
  moreover from this have "accounts B (nonzero p @ xs) w'" using accounts_obtain [OF assms(1)] by simp
  ultimately show ?thesis by (auto simp: accounts_def nonzero_def)
qed

section \<open>The DMA buffers\<close>

abbreviation (input) nz :: "ptr list \<Rightarrow> ptr list" where "nz ps \<equiv> filter (\<lambda>p. p \<noteq> 0) ps"

lemma nz_update:
  assumes "i < length ps" and "ps ! i = 0"
  shows "mset (nz (ps[i := p])) = mset (nonzero p @ nz ps)"
proof -
  have "(0 :: nat) \<in># mset ps" using assms nth_mem by force
  then show ?thesis using assms by (simp add: mset_update nonzero_def mset_filter [symmetric] del: mset_filter) (simp add: mset_update filter_diff_mset)
qed

lemma free_descs_ok:
  assumes "accounts B (nz (map fst bds) @ nz (map snd bds) @ xs) w"
  shows "\<exists>w'. free_descs bds w = Some w' \<and> accounts B xs w' \<and> same_but (set (nz (map fst bds)) \<union> set (nz (map snd bds))) w w'"
  using assms
proof (induction bds arbitrary: w)
  case (Cons bd bds)
  obtain b d where bd: "bd = (b, d)" by (cases bd)
  let ?r = "nz (map fst bds) @ nz (map snd bds) @ xs"
  have "accounts B (nonzero b @ nonzero d @ ?r) w"
    by (rule accounts_perm [OF _ Cons.prems]) (simp add: bd nonzero_def)
  then obtain w1 where w1: "i2s_free b w = Some w1" "accounts B (nonzero d @ ?r) w1" "same_but (set (nonzero b)) w w1" using free_ok by blast
  then obtain w2 where w2: "i2s_free d w1 = Some w2" "accounts B ?r w2" "same_but (set (nonzero d)) w1 w2" using free_ok by blast
  obtain w3 where w3: "free_descs bds w2 = Some w3" "accounts B xs w3" "same_but (set (nz (map fst bds)) \<union> set (nz (map snd bds))) w2 w3"
    using Cons.IH [OF w2(2)] by blast
  have "same_but (set (nonzero b) \<union> set (nonzero d)) w w2" using same_but_trans [OF w1(3) w2(3)] by auto
  then have "same_but (set (nz (map fst (bd # bds))) \<union> set (nz (map snd (bd # bds)))) w w3"
    by (rule same_but_trans [OF _ w3(3)]) (auto simp: bd nonzero_def)
  then show ?case using w1(1) w2(1) w3 by (auto simp: bd)
qed simp

lemma alloc_descs_ok:
  assumes "alloc_descs desc bufs n is w = Some (all, w')"
    and "accounts B (nz ds @ nz bs @ xs) w" and "arrs w desc = Some ds" "arrs w bufs = Some bs" "desc \<noteq> bufs"
    and "distinct is" "\<forall>i \<in> set is. ds ! i = 0 \<and> bs ! i = 0"
  shows "\<exists>ds' bs'. arrs w' desc = Some ds' \<and> arrs w' bufs = Some bs' \<and> length ds' = length ds \<and> length bs' = length bs \<and>
    accounts B (nz ds' @ nz bs' @ xs) w' \<and> same_but {desc, bufs} w w' \<and>
    (all \<longrightarrow> (\<forall>i. if i \<in> set is then ds' ! i \<noteq> 0 \<and> bs' ! i \<noteq> 0 else ds' ! i = ds ! i \<and> bs' ! i = bs ! i))"
  using assms
proof (induction "is" arbitrary: w ds bs)
  case (Cons i "is")
  obtain d w1 where d: "i2s_calloc 12 0x808 w = (d, w1)" by fastforce
  note d' = calloc_ok [OF Cons.prems(2) d]
  have a1: "arrs w1 desc = Some ds" "arrs w1 bufs = Some bs" using d' Cons.prems(3,4) by (simp_all add: same_but_def)
  have i: "i < length ds" "ds ! i = 0" "bs ! i = 0"
    using Cons.prems(1,7) d a1 by (auto simp: upd_arr_def Let_def split: if_splits)
  let ?w2 = "w1\<lparr>arrs := (arrs w1)(desc := Some (ds[i := d]))\<rparr>"
  have u: "upd_arr desc i d w1 = Some ?w2" using a1 i by (simp add: upd_arr_def)
  have acc2: "accounts B (nz (ds[i := d]) @ nz bs @ xs) ?w2"
    using accounts_perm [of _ "nz (ds[i := d]) @ nz bs @ xs", OF _ d' [THEN conjunct1]] nz_update [OF i(1,2), of d] by simp
  have s2: "same_but {desc, bufs} w ?w2" using d' by (simp add: same_but_def)
  show ?case
  proof (cases "d = 0")
    case True
    then have "w' = ?w2" "\<not> all" using Cons.prems(1) d u by simp_all
    then show ?thesis using a1 acc2 s2 Cons.prems(5) by auto
  next
    case False
    obtain b w3 where b: "i2s_calloc n 0x808 ?w2 = (b, w3)" by fastforce
    note b' = calloc_ok [OF acc2 b]
    have a3: "arrs w3 desc = Some (ds[i := d])" "arrs w3 bufs = Some bs" using b' a1 Cons.prems(5) by (simp_all add: same_but_def)
    have ib: "i < length bs" using Cons.prems(1) d u False b a3 by (auto simp: upd_arr_def Let_def split: if_splits)
    let ?w4 = "w3\<lparr>arrs := (arrs w3)(bufs := Some (bs[i := b]))\<rparr>"
    have u4: "upd_arr bufs i b w3 = Some ?w4" using a3 ib by (simp add: upd_arr_def)
    have acc4: "accounts B (nz (ds[i := d]) @ nz (bs[i := b]) @ xs) ?w4"
      using accounts_perm [of _ "nz (ds[i := d]) @ nz (bs[i := b]) @ xs", OF _ b' [THEN conjunct1]] nz_update [OF ib i(3), of b] by simp
    have "same_but {desc, bufs} ?w2 ?w4" using b' by (simp add: same_but_def)
    then have s4: "same_but {desc, bufs} w ?w4" using same_but_trans [OF s2] by blast
    have a4: "arrs ?w4 desc = Some (ds[i := d])" "arrs ?w4 bufs = Some (bs[i := b])" using a3 Cons.prems(5) by simp_all
    show ?thesis
    proof (cases "b = 0")
      case True
      then have "w' = ?w4" "\<not> all" using Cons.prems(1) d u False b u4 by simp_all
      then show ?thesis using a4 acc4 s4 by auto
    next
      case b0: False
      have "alloc_descs desc bufs n is ?w4 = Some (all, w')" using Cons.prems(1) d u False b u4 b0 by simp
      moreover have "\<forall>j \<in> set is. ds[i := d] ! j = 0 \<and> bs[i := b] ! j = 0" using Cons.prems(6,7)
        by (metis distinct.simps(2) list.set_intros(2) nth_list_update_neq)
      ultimately obtain ds' bs' where r: "arrs w' desc = Some ds'" "arrs w' bufs = Some bs'" "length ds' = length ds" "length bs' = length bs"
        "accounts B (nz ds' @ nz bs' @ xs) w'" "same_but {desc, bufs} ?w4 w'"
        "all \<longrightarrow> (\<forall>j. if j \<in> set is then ds' ! j \<noteq> 0 \<and> bs' ! j \<noteq> 0 else ds' ! j = ds[i := d] ! j \<and> bs' ! j = bs[i := b] ! j)"
        using Cons.IH [OF _ acc4 a4 Cons.prems(5)] Cons.prems(6) by auto
      have "if j \<in> set (i # is) then ds' ! j \<noteq> 0 \<and> bs' ! j \<noteq> 0 else ds' ! j = ds ! j \<and> bs' ! j = bs ! j" if "all" for j
      proof (cases "j = i")
        case True
        then have "ds' ! j = d" "bs' ! j = b" using r(7) that Cons.prems(6) i(1) ib by auto
        then show ?thesis using True False b0 by simp
      next
        case False
        then show ?thesis using r(7) that by (auto simp: if_bool_eq_conj)
      qed
      then show ?thesis using r same_but_trans [OF s4 r(6)] by auto
    qed
  qed
qed auto

section \<open>A channel and what it owns\<close>

definition dma_blocks :: "i2s_channel_obj \<Rightarrow> 'a i2s_world_scheme \<Rightarrow> ptr list" where
  "dma_blocks c w = (if h_desc c = 0 then []
     else nz (the (arrs w (h_bufs c))) @ nz (the (arrs w (h_desc c))) @ [h_bufs c, h_desc c])"

definition owned :: "ptr \<Rightarrow> i2s_channel_obj \<Rightarrow> 'a i2s_world_scheme \<Rightarrow> ptr list" where
  "owned h c w = nonzero (h_mode_info c) @ dma_blocks c w @ [h_msg_queue c, h_mutex c, h_binary c] @ nonzero (h_dma_chan c) @ [h]"

text \<open>The receive channel \<open>h\<close>, the only one of port \<open>i\<close>, and its controller own what is held beside \<open>B\<close>.\<close>

definition chan_at :: "ptr set \<Rightarrow> nat \<Rightarrow> ptr \<Rightarrow> i2s_channel_obj \<Rightarrow> 'a i2s_world_scheme \<Rightarrow> bool" where
  "chan_at B i h c w \<longleftrightarrow> chans w h = Some c \<and> arrs w 0 = None \<and> h_desc_num c \<noteq> 0 \<and> i < SOC_I2S_NUM \<and> g_controller w i = h_controller c \<and> h_dir c = I2S_DIR_RX \<and>
     (\<exists>oc. ctrls w (h_controller c) = Some oc \<and> rx_chan oc = h \<and> tx_chan oc = 0 \<and> c_id oc = i) \<and>
     (h_desc c \<noteq> 0 \<longrightarrow> (\<exists>ds bs. arrs w (h_desc c) = Some ds \<and> arrs w (h_bufs c) = Some bs \<and>
        length ds = unat (h_desc_num c) \<and> length bs = unat (h_desc_num c))) \<and>
     accounts B (owned h c w @ [h_controller c]) w"

text \<open>The fields that say what is owned.\<close>

definition core where
  "core c = (h_controller c, h_dir c, h_desc c, h_bufs c, h_dma_chan c, h_mode_info c, h_msg_queue c, h_mutex c, h_binary c)"

lemma chan_at_upd:
  assumes "chan_at B i h c w" and "core c' = core c" and "h_desc_num c' = h_desc_num c"
  shows "chan_at B i h c' (w\<lparr>chans := (chans w)(h := Some c')\<rparr>)"
proof -
  have "owned h c' (w\<lparr>chans := (chans w)(h := Some c')\<rparr>) = owned h c w"
    using assms(2) by (simp add: core_def owned_def dma_blocks_def)
  then show ?thesis using assms by (simp add: chan_at_def core_def)
qed

lemma chan_at_same:
  assumes "chan_at B i h c w" and "same_but {} w w'" and "accounts B (owned h c w @ [h_controller c]) w'"
  shows "chan_at B i h c w'"
  using assms by (auto simp: chan_at_def same_but_def owned_def dma_blocks_def)

lemma chan_at_call:
  assumes "chan_at B i h c w" and "obtained (k, reply_to w k) = []" and "released (k, reply_to w k) = []"
  shows "chan_at B i h c (after w k)"
  using assms by (intro chan_at_same [OF assms(1)]) (simp_all add: accounts_call, simp add: chan_at_def)

lemma chan_at_hw [simp]: "chan_at B i h c w \<Longrightarrow> chan_at B i h c (hw f x w)"
  by (simp add: hw_def io_simps chan_at_call)

lemma chan_at_infos [simp]: "chan_at B i h c (w\<lparr>infos := f\<rparr>) = chan_at B i h c w"
  by (simp add: chan_at_def owned_def dma_blocks_def)

lemma chan_at_info:
  "chan_at B i h c w \<Longrightarrow> upd_info p f w = Some w' \<Longrightarrow> chan_at B i h c w' \<and> chans w' = chans w"
  by (auto simp: upd_info_def chan_at_def owned_def dma_blocks_def split: option.splits)

lemma chan_atD:
  assumes "chan_at B i h c w"
  shows "chans w h = Some c" "h \<noteq> 0" "accounts B (owned h c w @ [h_controller c]) w" "distinct (owned h c w @ [h_controller c])"
    "\<exists>oc. ctrls w (h_controller c) = Some oc \<and> rx_chan oc = h \<and> tx_chan oc = 0 \<and> c_id oc = i" "i < SOC_I2S_NUM" "h_dir c = I2S_DIR_RX"
proof -
  show "h \<noteq> 0" using assms by (auto simp: chan_at_def accounts_def owned_def)
qed (use assms in \<open>simp_all add: chan_at_def accounts_def\<close>)

lemma chan_at_null: "chan_at B i h c w \<Longrightarrow> arrs w 0 = None"
  by (simp add: chan_at_def)

lemma free_dma_gen:
  assumes c: "chans w h = Some c" "h \<noteq> 0" and d: "h_desc c \<noteq> 0" and arr: "arrs w (h_desc c) = Some ds" "arrs w (h_bufs c) = Some bs"
      "length ds = unat (h_desc_num c)" "length bs = unat (h_desc_num c)"
    and acc: "accounts B (dma_blocks c w @ rest) w" and h: "h \<in> set rest"
  shows "\<exists>w'. i2s_free_dma_desc h w = Some (ESP_OK, w') \<and> accounts B rest w' \<and> chans w' h = Some (c\<lparr>h_desc := 0\<rparr>) \<and>
    g_controller w' = g_controller w \<and> g_occupied w' = g_occupied w \<and>
    (\<forall>p. p \<in> set rest \<or> p = 0 \<longrightarrow> ctrls w' p = ctrls w p \<and> arrs w' p = arrs w p)"
proof -
  have acc: "accounts B ((nz bs @ nz ds @ [h_bufs c, h_desc c]) @ rest) w" using acc arr d by (simp add: dma_blocks_def)
  have nz0: "h_bufs c \<noteq> 0" using accounts_append [OF acc] by auto
  have "accounts B (nz (map fst (zip bs ds)) @ nz (map snd (zip bs ds)) @ h_bufs c # h_desc c # rest) w" using acc arr by simp
  then obtain w1 where w1: "free_descs (zip bs ds) w = Some w1" "accounts B (h_bufs c # h_desc c # rest) w1" "same_but (set (nz bs) \<union> set (nz ds)) w w1"
    using free_descs_ok [of B "zip bs ds" "h_bufs c # h_desc c # rest" w] arr by auto
  have "accounts B (nonzero (h_bufs c) @ h_desc c # rest) w1" using w1(2) nz0 by (simp add: nonzero_def)
  then obtain w2 where w2: "i2s_free (h_bufs c) w1 = Some w2" "accounts B (h_desc c # rest) w2" "same_but (set (nonzero (h_bufs c))) w1 w2"
    using free_ok by blast
  have "accounts B (nonzero (h_desc c) @ rest) w2" using w2(2) d by (simp add: nonzero_def)
  then obtain w3 where w3: "i2s_free (h_desc c) w2 = Some w3" "accounts B rest w3" "same_but (set (nonzero (h_desc c))) w2 w3" using free_ok by blast
  let ?S = "set (nz bs @ nz ds @ [h_bufs c, h_desc c])"
  have "same_but ?S w w2" by (rule same_but_trans [OF w1(3) w2(3)]) (auto simp: nonzero_def)
  then have s: "same_but ?S w w3" by (rule same_but_trans [OF _ w3(3)]) (auto simp: nonzero_def)
  have "?S \<inter> set rest = {} \<and> 0 \<notin> ?S" by (rule accounts_append [OF acc])
  then have S: "p \<notin> ?S" if "p \<in> set rest \<or> p = 0" for p using that by blast
  have c3: "chans w3 h = Some c" using same_butD(4) [OF s S [of h]] h c(1) by simp
  let ?w4 = "w3\<lparr>chans := (chans w3)(h := Some (c\<lparr>h_desc := 0\<rparr>))\<rparr>"
  have "i2s_free_dma_desc h w = Some (ESP_OK, ?w4)"
    using c d arr w1(1) w2(1) w3(1) c3 by (simp add: i2s_free_dma_desc_def upd_chan_def)
  moreover have "\<forall>p. p \<in> set rest \<or> p = 0 \<longrightarrow> ctrls ?w4 p = ctrls w p \<and> arrs ?w4 p = arrs w p"
    using same_butD(3,5) [OF s S] by simp
  ultimately show ?thesis using w3(2) same_butD(1,2) [OF s] by simp
qed

lemma free_dma_ok:
  assumes at: "chan_at B i h c w"
  shows "\<exists>w'. i2s_free_dma_desc h w = Some (ESP_OK, w') \<and> chan_at B i h (c\<lparr>h_desc := 0\<rparr>) w' \<and> ctrls w' (h_controller c) = ctrls w (h_controller c)"
proof (cases "h_desc c = 0")
  case True
  then have eq: "c\<lparr>h_desc := 0\<rparr> = c" by simp
  show ?thesis unfolding eq using at True chan_atD(1,2) [OF at] by (simp add: i2s_free_dma_desc_def)
next
  case False
  obtain ds bs where arr: "arrs w (h_desc c) = Some ds" "arrs w (h_bufs c) = Some bs" "length ds = unat (h_desc_num c)" "length bs = unat (h_desc_num c)"
    using at False by (auto simp: chan_at_def)
  let ?rest = "nonzero (h_mode_info c) @ [h_msg_queue c, h_mutex c, h_binary c] @ nonzero (h_dma_chan c) @ [h, h_controller c]"
  have acc: "accounts B (dma_blocks c w @ ?rest) w"
    by (rule accounts_perm [OF _ chan_atD(3) [OF at]]) (simp add: owned_def)
  obtain w' where w': "i2s_free_dma_desc h w = Some (ESP_OK, w')" "accounts B ?rest w'" "chans w' h = Some (c\<lparr>h_desc := 0\<rparr>)"
      "g_controller w' = g_controller w" "\<forall>p. p \<in> set ?rest \<or> p = 0 \<longrightarrow> ctrls w' p = ctrls w p \<and> arrs w' p = arrs w p"
    using free_dma_gen [OF chan_atD(1,2) [OF at] False arr acc] by auto
  have "owned h (c\<lparr>h_desc := 0\<rparr>) w' @ [h_controller c] = ?rest" by (simp add: owned_def dma_blocks_def)
  then have acc': "accounts B (owned h (c\<lparr>h_desc := 0\<rparr>) w' @ [h_controller (c\<lparr>h_desc := 0\<rparr>)]) w'" using w'(2) by simp
  have "ctrls w' (h_controller c) = ctrls w (h_controller c)" "arrs w' 0 = None" using w'(5) chan_at_null [OF at] by simp_all
  moreover from this have "chan_at B i h (c\<lparr>h_desc := 0\<rparr>) w'"
    unfolding chan_at_def by (intro conjI acc') (use at w'(3,4) in \<open>simp_all add: chan_at_def\<close>)
  ultimately show ?thesis using w'(1) by simp
qed

lemma alloc_descs_null:
  "alloc_descs desc 0 n is w = Some (all, w') \<Longrightarrow> arrs w 0 = None \<Longrightarrow> desc \<noteq> 0 \<Longrightarrow> is \<noteq> [] \<Longrightarrow> \<not> all \<and> arrs w' 0 = None \<and> chans w' = chans w"
  by (cases "is") (auto simp: upd_arr_def i2s_calloc_def obtain_res_def io_simps Let_def split: if_splits option.splits)

text \<open>What setting up buffers leaves as it is, and what it provides: none of the addresses is null.\<close>

definition layout where
  "layout c = (h_state c, h_dma_chan c, h_desc_num c, h_frame_num c, h_active_slot c, h_total_slot c)"

definition buffers_ready :: "i2s_channel_obj \<Rightarrow> 'a i2s_world_scheme \<Rightarrow> bool" where
  "buffers_ready c w \<longleftrightarrow> h_desc c \<noteq> 0 \<and> 0 \<notin> set (the (arrs w (h_desc c))) \<and> 0 \<notin> set (the (arrs w (h_bufs c)))"

lemma alloc_dma_ok:
  assumes at: "chan_at B i h c w" and d0: "h_desc c = 0" and al: "i2s_alloc_dma_desc h (h_desc_num c) sz w = Some (err, w')"
  shows "\<exists>c'. chan_at B i h c' w' \<and> layout c' = layout c \<and> (err = ESP_OK \<longrightarrow> h_buf_size c' = sz \<and> buffers_ready c' w')"
proof (cases "sz \<le> I2S_DMA_BUFFER_MAX_SIZE")
  case False
  with al at chan_atD(2) [OF at] show ?thesis by (auto simp: i2s_alloc_dma_desc_def)
next
  case True
  let ?n = "unat (h_desc_num c)"
  let ?c0 = "c\<lparr>h_buf_size := sz\<rparr>"
  let ?w0 = "w\<lparr>chans := (chans w)(h := Some ?c0)\<rparr>"
  have at0: "chan_at B i h ?c0 ?w0" by (rule chan_at_upd [OF at]) (simp_all add: core_def)
  have num: "0 < ?n" using at by (simp add: chan_at_def unat_gt_0)
  have c0: "c\<lparr>h_desc_num := h_desc_num c, h_buf_size := sz\<rparr> = ?c0" by simp
  obtain desc w1 where d: "i2s_calloc (4 * ?n) 0x1000 ?w0 = (desc, w1)" by fastforce
  note d' = calloc_ok [OF chan_atD(3) [OF at0] d]
  have w1: "chans w1 h = Some ?c0" using d' by (simp add: same_but_def)
  let ?c1 = "?c0\<lparr>h_desc := desc\<rparr>"
  let ?w1 = "w1\<lparr>chans := (chans w1)(h := Some ?c1)\<rparr>"
  show ?thesis
  proof (cases "desc = 0")
    case d0': True
    have "chan_at B i h ?c0 w1" using chan_at_same [OF at0 _ ] d' d0' by (simp add: nonzero_def)
    then have "chan_at B i h ?c1 ?w1" by (rule chan_at_upd) (simp_all add: core_def d0' d0)
    from free_dma_ok [OF this] obtain w2 where "i2s_free_dma_desc h ?w1 = Some (ESP_OK, w2)" "chan_at B i h (?c1\<lparr>h_desc := 0\<rparr>) w2" by blast
    then show ?thesis using al True chan_atD(1,2) [OF at] d w1 d0'
      by (intro exI [of _ "?c1\<lparr>h_desc := 0\<rparr>"]) (simp add: i2s_alloc_dma_desc_def upd_chan_def c0 layout_def)
  next
    case desc: False
    let ?w2 = "?w1\<lparr>arrs := (arrs ?w1)(desc := Some (replicate ?n 0))\<rparr>"
    let ?own = "owned h ?c0 ?w0 @ [h_controller c]"
    have acc2: "accounts B (desc # ?own) ?w2" using d' desc by (simp add: nonzero_def)
    obtain bufs w3 where b: "i2s_calloc (4 * ?n) 0x1000 ?w2 = (bufs, w3)" by fastforce
    note b' = calloc_ok [OF acc2 b]
    have w3: "chans w3 h = Some ?c1" using b' by (simp add: same_but_def)
    let ?c2 = "?c1\<lparr>h_bufs := bufs\<rparr>"
    let ?w3 = "w3\<lparr>chans := (chans w3)(h := Some ?c2)\<rparr>"
    let ?w4 = "if bufs = 0 then ?w3 else ?w3\<lparr>arrs := (arrs ?w3)(bufs := Some (replicate ?n 0))\<rparr>"
    have steps: "i2s_alloc_dma_desc h (h_desc_num c) sz w = do { (all, w) \<leftarrow> alloc_descs desc bufs (unat sz) [0..<?n] ?w4;
         if \<not> all then do { (_, w) \<leftarrow> i2s_free_dma_desc h w; Some (ESP_ERR_NO_MEM, w) }
         else do { c \<leftarrow> chans w h; Some (ESP_OK, if h_dir c = I2S_DIR_RX then hw ''i2s_ll_rx_set_eof_num'' (unat sz) w else w) } }"
      using True chan_atD(1,2) [OF at] d w1 desc b w3 by (simp add: i2s_alloc_dma_desc_def upd_chan_def c0)
    obtain all w5 where l: "alloc_descs desc bufs (unat sz) [0..<?n] ?w4 = Some (all, w5)" using al unfolding steps by (auto split: Option.bind_splits)
    have arr3: "arrs w3 desc = Some (replicate ?n 0)" "arrs w3 0 = None" using b' d' desc at0
      by (simp_all add: same_but_def chan_at_def)
    show ?thesis
    proof (cases "bufs = 0")
      case b0: True
      have "alloc_descs desc 0 (unat sz) [0..<?n] ?w3 = Some (all, w5)" using l b0 by simp
      from alloc_descs_null [OF this _ desc] arr3(2) num have "\<not> all \<and> arrs w5 0 = None \<and> chans w5 = chans ?w3" by simp
      then have "i2s_free_dma_desc h w5 = None" using b0 desc chan_atD(2) [OF at] by (simp add: i2s_free_dma_desc_def)
      then have False using al unfolding steps using l \<open>\<not> all \<and> _\<close> by simp
      then show ?thesis ..
    next
      case b0: False
      have acc3: "accounts B (bufs # desc # ?own) w3" using b' b0 by (simp add: nonzero_def)
      have dist: "desc \<noteq> bufs" "h \<notin> {desc, bufs}" "h_controller c \<notin> {desc, bufs}" using acc3 by (auto simp: accounts_def owned_def)
      have "\<exists>ds' bs'. arrs w5 desc = Some ds' \<and> arrs w5 bufs = Some bs' \<and> length ds' = ?n \<and> length bs' = ?n \<and>
          accounts B (nz ds' @ nz bs' @ bufs # desc # ?own) w5 \<and> same_but {desc, bufs} ?w4 w5 \<and>
          (all \<longrightarrow> (\<forall>i. if i \<in> set [0..<?n] then ds' ! i \<noteq> 0 \<and> bs' ! i \<noteq> 0 else ds' ! i = replicate ?n 0 ! i \<and> bs' ! i = replicate ?n 0 ! i))"
        using alloc_descs_ok [OF l, of B "replicate ?n 0" "replicate ?n 0" "bufs # desc # ?own"] acc3 arr3 b0 dist by simp
      then obtain ds' bs' where r: "arrs w5 desc = Some ds'" "arrs w5 bufs = Some bs'" "length ds' = ?n" "length bs' = ?n"
        "accounts B (nz ds' @ nz bs' @ bufs # desc # ?own) w5" "same_but {desc, bufs} ?w4 w5"
        "all \<longrightarrow> (\<forall>i < ?n. ds' ! i \<noteq> 0 \<and> bs' ! i \<noteq> 0)" by (auto simp: if_bool_eq_conj)
      have own0: "owned h ?c0 ?w0 = nonzero (h_mode_info c) @ [h_msg_queue c, h_mutex c, h_binary c] @ nonzero (h_dma_chan c) @ [h]"
        using d0 by (simp add: owned_def dma_blocks_def)
      have own5: "owned h ?c2 w5 = nonzero (h_mode_info c) @ nz bs' @ nz ds' @ [bufs, desc] @ [h_msg_queue c, h_mutex c, h_binary c] @ nonzero (h_dma_chan c) @ [h]"
        using r(1,2) desc by (simp add: owned_def dma_blocks_def)
      have acc5: "accounts B (owned h ?c2 w5 @ [h_controller c]) w5"
        by (rule accounts_perm [OF _ r(5)]) (simp add: own5 own0)
      have ctl: "ctrls w5 (h_controller c) = ctrls w (h_controller c)" "chans w5 h = Some ?c2" "g_controller w5 = g_controller w" "arrs w5 0 = None"
        using r(6) b' d' dist b0 desc arr3 by (auto simp: same_but_def)
      have at5: "chan_at B i h ?c2 w5" using at ctl r(1-4) acc5 by (auto simp: chan_at_def)
      show ?thesis
      proof (cases all)
        case True
        then have "w' = hw ''i2s_ll_rx_set_eof_num'' (unat sz) w5" using al unfolding steps using l ctl(2) chan_atD(7) [OF at] by simp
        moreover have "buffers_ready ?c2 w5" using r(1-4,7) True desc by (simp add: buffers_ready_def in_set_conv_nth)
        ultimately show ?thesis using chan_at_hw [OF at5] by (intro exI [of _ ?c2]) (simp add: layout_def buffers_ready_def)
      next
        case False
        obtain w6 where "i2s_free_dma_desc h w5 = Some (ESP_OK, w6)" "chan_at B i h (?c2\<lparr>h_desc := 0\<rparr>) w6" using free_dma_ok [OF at5] by blast
        then show ?thesis using al unfolding steps using l False by (intro exI [of _ "?c2\<lparr>h_desc := 0\<rparr>"]) (simp add: layout_def)
      qed
    qed
  qed
qed

section \<open>Configuring\<close>

text \<open>Steps that keep the account of a channel, and neither its state nor its DMA channel change.\<close>

definition keeps :: "ptr set \<Rightarrow> nat \<Rightarrow> ptr \<Rightarrow> ('a i2s_world_scheme \<Rightarrow> (esp_err \<times> 'a i2s_world_scheme) option) \<Rightarrow> bool" where
  "keeps B i h f \<longleftrightarrow> (\<forall>c w err w'. chan_at B i h c w \<longrightarrow> f w = Some (err, w') \<longrightarrow>
     (\<exists>c'. chan_at B i h c' w' \<and> h_state c' = h_state c \<and> h_dma_chan c' = h_dma_chan c))"

lemma keepsD:
  "keeps B i h f \<Longrightarrow> chan_at B i h c w \<Longrightarrow> f w = Some (err, w') \<Longrightarrow>
    \<exists>c'. chan_at B i h c' w' \<and> h_state c' = h_state c \<and> h_dma_chan c' = h_dma_chan c"
  unfolding keeps_def by blast

lemma keepsI:
  assumes "\<And>c w err w'. chan_at B i h c w \<Longrightarrow> f w = Some (err, w') \<Longrightarrow>
    \<exists>c'. chan_at B i h c' w' \<and> h_state c' = h_state c \<and> h_dma_chan c' = h_dma_chan c"
  shows "keeps B i h f"
  using assms unfolding keeps_def by blast

lemma and_then_Some: "f w = Some (err, w1) \<Longrightarrow> and_then f g w = (if err \<noteq> ESP_OK then Some (err, w1) else g w1)"
  by (simp add: and_then_def)

lemma keeps_and_then:
  assumes f: "keeps B i h f" and g: "keeps B i h g"
  shows "keeps B i h (and_then f g)"
proof (rule keepsI)
  fix c w err w' assume c: "chan_at B i h c w" and r: "and_then f g w = Some (err, w')"
  obtain e1 w1 where 1: "f w = Some (e1, w1)" using r by (auto simp: and_then_def split: Option.bind_splits)
  obtain c1 where c1: "chan_at B i h c1 w1" "h_state c1 = h_state c" "h_dma_chan c1 = h_dma_chan c" using keepsD [OF f c 1] by blast
  show "\<exists>c'. chan_at B i h c' w' \<and> h_state c' = h_state c \<and> h_dma_chan c' = h_dma_chan c"
  proof (cases "e1 = ESP_OK")
    case True
    with r 1 have "g w1 = Some (err, w')" by (simp add: and_then_def)
    from keepsD [OF g c1(1) this] c1 show ?thesis by auto
  next
    case False
    with r 1 c1 show ?thesis by (auto simp: and_then_def)
  qed
qed

lemma info_at:
  assumes at: "chan_at B i h c w" and r: "tdm_info h w = Some (err, w')"
  shows "\<exists>p. chan_at B i h (c\<lparr>h_tdm := True, h_mode_info := p\<rparr>) w'"
proof -
  let ?c1 = "c\<lparr>h_tdm := True\<rparr>" and ?w1 = "w\<lparr>chans := (chans w)(h := Some (c\<lparr>h_tdm := True\<rparr>))\<rparr>"
  have at1: "chan_at B i h ?c1 ?w1" by (rule chan_at_upd [OF at]) (simp_all add: core_def)
  let ?rest = "dma_blocks c w @ [h_msg_queue c, h_mutex c, h_binary c] @ nonzero (h_dma_chan c) @ [h, h_controller c]"
  have rest: "owned h ?c1 ?w1 @ [h_controller c] = nonzero (h_mode_info c) @ ?rest" by (simp add: owned_def dma_blocks_def)
  have acc: "accounts B (nonzero (h_mode_info c) @ ?rest) ?w1" using chan_atD(3) [OF at1] unfolding rest by (simp add: rest)
  then obtain w2 where w2: "i2s_free (h_mode_info c) ?w1 = Some w2" "accounts B ?rest w2" "same_but (set (nonzero (h_mode_info c))) ?w1 w2"
    using free_ok by blast
  obtain p w3 where p: "i2s_calloc 60 0x1000 w2 = (p, w3)" by fastforce
  note p' = calloc_ok [OF w2(2) p]
  let ?S = "set (nonzero (h_mode_info c))"
  have s: "same_but ?S ?w1 w3" using same_but_trans [OF w2(3), of "{}" w3] p' by auto
  have out: "?S \<inter> set ?rest = {} \<and> 0 \<notin> ?S" by (rule accounts_append [OF acc])
  have "h \<in> set ?rest" "h_controller c \<in> set ?rest" by simp_all
  then have S: "h \<notin> ?S" "h_controller c \<notin> ?S" "0 \<notin> ?S" using out by blast+
  have arr: "arrs w3 q = arrs w q" if "h_desc c \<noteq> 0" "q = h_desc c \<or> q = h_bufs c" for q
  proof -
    have "q \<in> set ?rest" using that by (auto simp: dma_blocks_def)
    then have "q \<notin> ?S" using out by blast
    from same_butD(5) [OF s this] show ?thesis by simp
  qed
  let ?c4 = "c\<lparr>h_tdm := True, h_mode_info := p\<rparr>" and ?w4 = "w3\<lparr>chans := (chans w3)(h := Some (c\<lparr>h_tdm := True, h_mode_info := p\<rparr>))\<rparr>"
  have own4: "owned h ?c4 ?w4 @ [h_controller ?c4] = nonzero p @ ?rest"
    using arr by (simp add: owned_def dma_blocks_def)
  have c3: "chans w3 h = Some ?c1" using same_butD(4) [OF s S(1)] by simp
  have acc4: "accounts B (owned h ?c4 ?w4 @ [h_controller ?c4]) ?w4" unfolding own4 using p' by simp
  have arr4: "\<exists>ds bs. arrs w3 (h_desc c) = Some ds \<and> arrs w3 (h_bufs c) = Some bs \<and> length ds = unat (h_desc_num c) \<and>
      length bs = unat (h_desc_num c)" if "h_desc c \<noteq> 0"
    using at that arr [OF that] by (simp add: chan_at_def)
  have "ctrls w3 (h_controller c) = ctrls w (h_controller c)" "g_controller w3 = g_controller w" "arrs w3 0 = None"
    using same_butD(3) [OF s S(2)] same_butD(1) [OF s] same_butD(5) [OF s S(3)] chan_at_null [OF at] by simp_all
  then have at4: "chan_at B i h ?c4 ?w4"
    unfolding chan_at_def by (intro conjI acc4) (use at arr4 in \<open>simp_all add: chan_at_def\<close>)
  have at5: "chan_at B i h ?c4 (?w4\<lparr>infos := f\<rparr>)" for f using at4 by (rule chan_at_infos [THEN iffD2])
  have "tdm_info h w = (if p = 0 then Some (ESP_ERR_NO_MEM, ?w4) else Some (ESP_OK, ?w4\<lparr>infos := (infos ?w4)(p := Some no_config)\<rparr>))"
    using chan_atD(1) [OF at] w2(1) p c3 by (simp add: tdm_info_def upd_chan_def)
  then show ?thesis using r at4 at5 by (intro exI [of _ p]) (auto split: if_splits)
qed

lemma keeps_info: "keeps B i h (tdm_info h)"
proof (rule keepsI)
  fix c w err and w' :: "'b i2s_world_scheme" assume "chan_at B i h c w" and "tdm_info h w = Some (err, w')"
  then obtain p where "chan_at B i h (c\<lparr>h_tdm := True, h_mode_info := p\<rparr>) w'" using info_at by blast
  then show "\<exists>c'. chan_at B i h c' w' \<and> h_state c' = h_state c \<and> h_dma_chan c' = h_dma_chan c"
    by (intro exI [of _ "c\<lparr>h_tdm := True, h_mode_info := p\<rparr>"]) simp
qed

text \<open>The clock and the pins only touch registers and the stored configuration.\<close>

lemma chan_at_gpio [simp]: "chan_at B i h c w \<Longrightarrow> chan_at B i h c (i2s_gpio_check_and_set g s w)"
  by (simp add: i2s_gpio_check_and_set_def)

lemma chan_at_mclk: "i2s_check_set_mclk g w = (err, w') \<Longrightarrow> chan_at B i h c w \<Longrightarrow> chan_at B i h c w'"
  by (auto simp: i2s_check_set_mclk_def split: if_splits)

lemma chan_at_fold_hw: "chan_at B i h c w \<Longrightarrow> chan_at B i h c (fold (\<lambda>f. hw f x) fs w)"
  by (induction fs arbitrary: w) simp_all

lemma gpio_at:
  assumes at: "chan_at B i h c w" and r: "i2s_tdm_set_gpio h cfg w = Some (err, w')"
  shows "chan_at B i h c w'"
proof -
  obtain oc where oc: "ctrls w (h_controller c) = Some oc" using chan_atD(5) [OF at] by blast
  define w1 where "w1 = (if pin_dout cfg \<noteq> - 1 \<and> pin_dout cfg = pin_din cfg then hw ''i2s_gpio_loopback_set'' (nat (pin_dout cfg)) w
                else if h_dir c = I2S_DIR_TX then i2s_gpio_check_and_set (pin_dout cfg) ''data_out_sig'' w
                else i2s_gpio_check_and_set (pin_din cfg) ''data_in_sig'' w)"
  have at1: "chan_at B i h c w1" using at by (simp add: w1_def)
  obtain e w2 where m: "(if h_slave c then (ESP_OK, w1) else i2s_check_set_mclk (pin_mclk cfg) w1) = (e, w2)" by fastforce
  have at2: "chan_at B i h c w2" using m at1 chan_at_mclk by (metis Pair_inject)
  obtain binds ws bck where cs: "clock_signals (h_slave c) (h_dir c) (full_duplex oc) = (binds, ws, bck)" by (metis prod_cases3)
  define w3 where "w3 = i2s_gpio_check_and_set (pin_bclk cfg) bck (i2s_gpio_check_and_set (pin_ws cfg) ws (fold (\<lambda>f. hw f (c_id oc)) binds w2))"
  have at3: "chan_at B i h c w3" using at2 by (simp add: w3_def chan_at_fold_hw)
  consider "w' = w" | "w' = w2" | "upd_info (h_mode_info c) (\<lambda>i. i\<lparr>gpio_cfg := cfg\<rparr>) w3 = Some w'"
    using r chan_atD(1) [OF at] oc m cs unfolding i2s_tdm_set_gpio_def
    by (auto simp: Let_def w1_def [symmetric] w3_def [symmetric] split: if_splits Option.bind_splits)
  then show ?thesis using at at2 chan_at_info [OF at3] by cases auto
qed

lemma keeps_gpio: "keeps B i h (i2s_tdm_set_gpio h cfg)"
  using gpio_at by (intro keepsI) blast

lemma clock_at:
  assumes at: "chan_at B i h c w" and r: "i2s_tdm_set_clock h cfg w = Some (err, w')"
  shows "chan_at B i h c w' \<and> arrs w' = arrs w"
proof
  show "chan_at B i h c w'"
    using r at chan_atD(1) [OF at] unfolding i2s_tdm_set_clock_def
    by (auto simp: Let_def split: if_splits prod.splits Option.bind_splits dest!: chan_at_info [rotated])
  show "arrs w' = arrs w"
    using r unfolding i2s_tdm_set_clock_def
    by (auto simp: Let_def upd_info_def split: if_splits prod.splits Option.bind_splits option.splits)
qed

lemma keeps_clock: "keeps B i h (i2s_tdm_set_clock h cfg)"
  using clock_at by (intro keepsI) blast

lemma slot_registers_at:
  assumes "slot_registers c0 cfg w = Some (err, w')" and "chan_at B i h c w"
  shows "chan_at B i h c w' \<and> arrs w' = arrs w"
proof -
  obtain f1 x1 f2 x2 where "upd_info (h_mode_info c0) (\<lambda>i. i\<lparr>slot_cfg := cfg\<rparr>) (hw f2 x2 (hw f1 x1 w)) = Some w'"
    using assms(1) unfolding slot_registers_def Let_def by (fastforce split: Option.bind_splits)
  then show ?thesis using chan_at_info [of B i h c "hw f2 x2 (hw f1 x1 w)"] assms(2) by (auto simp: upd_info_def split: option.splits)
qed

lemma slot_buffers_at:
  assumes at: "chan_at B i h c w" and r: "slot_buffers h c sz w = Some (err, w')"
  shows "\<exists>c'. chan_at B i h c' w' \<and> layout c' = layout c \<and>
    (err = ESP_OK \<longrightarrow> h_buf_size c' = sz \<and> (h_buf_size c \<noteq> sz \<longrightarrow> buffers_ready c' w'))"
proof (cases "h_buf_size c = sz")
  case True
  with r at show ?thesis by (auto simp: slot_buffers_def)
next
  case False
  let ?c2 = "c\<lparr>h_buf_size := sz\<rparr>" and ?w2 = "w\<lparr>chans := (chans w)(h := Some (c\<lparr>h_buf_size := sz\<rparr>))\<rparr>"
  have at2: "chan_at B i h ?c2 ?w2" by (rule chan_at_upd [OF at]) (simp_all add: core_def)
  obtain w3 where w3: "i2s_free_dma_desc h ?w2 = Some (ESP_OK, w3)" "chan_at B i h (?c2\<lparr>h_desc := 0\<rparr>) w3" using free_dma_ok [OF at2] by blast
  have "i2s_alloc_dma_desc h (h_desc_num c) sz w3 = Some (err, w')"
    using r False w3(1) chan_atD(1) [OF at] by (simp add: slot_buffers_def upd_chan_def and_then_Some)
  then show ?thesis using alloc_dma_ok [OF w3(2), of sz err w'] by (auto simp: layout_def)
qed

lemma slot_at:
  assumes at: "chan_at B i h c w" and r: "i2s_tdm_set_slot h cfg w = Some (err, w')"
  shows "\<exists>c'. chan_at B i h c' w' \<and> h_state c' = h_state c \<and> h_dma_chan c' = h_dma_chan c \<and> h_desc_num c' = h_desc_num c \<and> (err = ESP_OK \<longrightarrow>
    h_active_slot c' = active_slots cfg \<and> h_total_slot c' = total_slots cfg \<and> (\<exists>sz.
    i2s_get_buf_size (c\<lparr>h_active_slot := active_slots cfg\<rparr>) (data_bit_width cfg) (h_frame_num c) = Some sz \<and> h_buf_size c' = sz \<and>
    (h_buf_size c \<noteq> sz \<longrightarrow> buffers_ready c' w')))"
proof -
  let ?c1 = "c\<lparr>h_active_slot := active_slots cfg, h_total_slot := total_slots cfg\<rparr>"
  define w1 where "w1 = w\<lparr>chans := (chans w)(h := Some ?c1)\<rparr>"
  have at1: "chan_at B i h ?c1 w1" unfolding w1_def by (rule chan_at_upd [OF at]) (simp_all add: core_def)
  have size: "i2s_get_buf_size ?c1 b n = i2s_get_buf_size (c\<lparr>h_active_slot := active_slots cfg\<rparr>) b n" for b n
    by (simp add: i2s_get_buf_size_def)
  consider "err \<noteq> ESP_OK" "w' = w \<or> w' = w1"
    | sz where "i2s_get_buf_size ?c1 (data_bit_width cfg) (h_frame_num c) = Some sz"
        "and_then (slot_buffers h ?c1 sz) (slot_registers ?c1 cfg) w1 = Some (err, w')"
  proof -
    define big where "big \<longleftrightarrow> \<not> total_slots cfg * (if slot_bit_width cfg = 0 then data_bit_width cfg else slot_bit_width cfg) \<le> I2S_LL_SLOT_FRAME_BIT_MAX"
    have eq: "i2s_tdm_set_slot h cfg w = (if slot_mask cfg = 0 then Some (ESP_ERR_INVALID_ARG, w)
       else if big then Some (ESP_ERR_INVALID_ARG, w1)
       else case i2s_get_buf_size ?c1 (data_bit_width cfg) (h_frame_num c) of None \<Rightarrow> None
         | Some sz \<Rightarrow> and_then (slot_buffers h ?c1 sz) (slot_registers ?c1 cfg) w1)"
      using chan_atD(1) [OF at] by (simp add: i2s_tdm_set_slot_def upd_chan_def Let_def big_def w1_def split: option.split)
    show thesis
    proof (cases "slot_mask cfg = 0 \<or> big")
      case True
      have "err = ESP_ERR_INVALID_ARG \<and> (w' = w \<or> w' = w1)"
        using True r unfolding eq by (cases "slot_mask cfg = 0") simp_all
      then show thesis by (intro that(1)) simp_all
    next
      case False
      then obtain sz where "i2s_get_buf_size ?c1 (data_bit_width cfg) (h_frame_num c) = Some sz"
        "and_then (slot_buffers h ?c1 sz) (slot_registers ?c1 cfg) w1 = Some (err, w')"
        using r unfolding eq by (cases "i2s_get_buf_size ?c1 (data_bit_width cfg) (h_frame_num c)") simp_all
      then show thesis by (rule that(2))
    qed
  qed
  then show ?thesis
  proof cases
    case 1
    with at at1 show ?thesis by auto
  next
    case 2
    obtain e w2 where b: "slot_buffers h ?c1 sz w1 = Some (e, w2)"
        and w': "if e = ESP_OK then slot_registers ?c1 cfg w2 = Some (err, w') else err = e \<and> w' = w2"
      using 2(2) by (auto simp: and_then_def split: Option.bind_splits if_splits)
    from slot_buffers_at [OF at1 b] obtain c' where c': "chan_at B i h c' w2" "layout c' = layout ?c1"
      "e = ESP_OK \<longrightarrow> h_buf_size c' = sz \<and> (h_buf_size c \<noteq> sz \<longrightarrow> buffers_ready c' w2)" by auto
    have "chan_at B i h c' w' \<and> arrs w' = arrs w2" using w' c'(1) slot_registers_at by (metis (no_types, lifting))
    then show ?thesis using c'(2,3) w' 2(1) unfolding size
      by (intro exI [of _ c']) (auto simp: layout_def buffers_ready_def split: if_splits)
  qed
qed

lemma keeps_slot: "keeps B i h (i2s_tdm_set_slot h cfg)"
  using slot_at by (intro keepsI) blast

text \<open>Between two attempts: not configured and without a DMA channel, or ready.\<close>

definition settled :: "i2s_channel_obj \<Rightarrow> bool" where
  "settled c \<longleftrightarrow> h_state c = I2S_CHAN_STATE_REGISTER \<and> h_dma_chan c = 0 \<or> h_state c = I2S_CHAN_STATE_READY"

lemma dma_ready_settles:
  assumes at: "chan_at B i h c w" and st: "h_state c = I2S_CHAN_STATE_REGISTER" "h_dma_chan c = 0"
    and r: "and_then (i2s_init_dma_intr h) (tdm_ready h) w = Some (err, w')"
  shows "\<exists>c'. chan_at B i h c' w' \<and> settled c'"
proof -
  obtain oc where oc: "ctrls w (h_controller c) = Some oc" "c_id oc = i" using chan_atD(5) [OF at] by blast
  have i: "i < SOC_I2S_NUM" using chan_atD(6) [OF at] .
  let ?k = "I2S (Gdma_new_channel (h_dir c = I2S_DIR_TX))"
  let ?r = "reply_to w ?k" and ?w1 = "after w ?k"
  show ?thesis
  proof (cases "ret ?r = ESP_OK")
    case False
    then have "w' = ?w1" using r chan_atD(1) [OF at] oc i by (simp add: and_then_def i2s_init_dma_intr_def io_simps)
    moreover have "chan_at B i h c ?w1" by (rule chan_at_call [OF at]) (simp_all add: False)
    ultimately show ?thesis using st by (auto simp: settled_def)
  next
    case True
    have acc: "accounts B (nonzero (hnd ?r) @ owned h c w @ [h_controller c]) ?w1"
      by (rule accounts_obtain [OF chan_atD(3) [OF at]]) (simp_all add: True)
    let ?c2 = "c\<lparr>h_dma_chan := hnd ?r\<rparr>" and ?w2 = "?w1\<lparr>chans := (chans ?w1)(h := Some (c\<lparr>h_dma_chan := hnd ?r\<rparr>))\<rparr>"
    have "accounts B (owned h ?c2 ?w2 @ [h_controller ?c2]) ?w2"
      using accounts_perm [OF _ acc, of "owned h ?c2 ?w2 @ [h_controller ?c2]"] st by (simp add: owned_def dma_blocks_def nonzero_def [of 0])
    then have at2: "chan_at B i h ?c2 ?w2" unfolding chan_at_def by (intro conjI) (use at in \<open>simp_all add: chan_at_def\<close>)
    let ?k3 = "I2S (Gdma_connect (hnd ?r) i)" and ?k4 = "I2S (Gdma_register_callback (hnd ?r))"
    have at3: "chan_at B i h ?c2 (after ?w2 ?k3)" by (rule chan_at_call [OF at2]) simp_all
    have "i2s_env (wenv ?w2)" using chan_atD(3) [OF at2] by (simp only: accounts_def)
    then have ok: "ret (reply_to ?w2 ?k3) = ESP_OK" by (simp add: i2s_env_def reply_to_def)
    let ?w4 = "after (after ?w2 ?k3) ?k4"
    have at4: "chan_at B i h ?c2 ?w4" by (rule chan_at_call [OF at3]) simp_all
    have "i2s_init_dma_intr h w = Some (ESP_OK, ?w4)"
      using chan_atD(1) [OF at] oc i True ok by (simp add: i2s_init_dma_intr_def io_simps upd_chan_def)
    then have rd: "tdm_ready h ?w4 = Some (err, w')" using r by (simp add: and_then_def)
    let ?w5 = "hw ''i2s_ll_rx_enable_clock'' 0 (hw ''i2s_ll_rx_enable_tdm'' 0 ?w4)"
    have at5: "chan_at B i h ?c2 ?w5" using at4 by simp
    have "w' = ?w5\<lparr>chans := (chans ?w5)(h := Some (?c2\<lparr>h_state := I2S_CHAN_STATE_READY\<rparr>))\<rparr>"
      using rd chan_atD(1,7) [OF at4] by (simp add: tdm_ready_def upd_chan_def)
    moreover have "chan_at B i h (?c2\<lparr>h_state := I2S_CHAN_STATE_READY\<rparr>) (?w5\<lparr>chans := (chans ?w5)(h := Some (?c2\<lparr>h_state := I2S_CHAN_STATE_READY\<rparr>))\<rparr>)"
      by (rule chan_at_upd [OF at5]) (simp_all add: core_def)
    ultimately show ?thesis by (auto simp: settled_def)
  qed
qed

lemma tdm_init_settles:
  assumes at: "chan_at B i h c w" and st: "settled c" and r: "i2s_channel_init_tdm_mode h cfg w = Some (err, w')"
  shows "\<exists>c'. chan_at B i h c' w' \<and> settled c'"
proof -
  let ?w1 = "after w (OS (Sem_take (h_mutex c) 0xFFFFFFFF))"
  have at1: "chan_at B i h c ?w1" by (rule chan_at_call [OF at]) simp_all
  let ?last = "and_then (i2s_init_dma_intr h) (tdm_ready h)"
  let ?first = "[tdm_info h, i2s_tdm_set_gpio h (gpio_cfg cfg), i2s_tdm_set_slot h (slot_cfg cfg), i2s_tdm_set_clock h (clk_cfg cfg)]"
  let ?full = "and_then (tdm_info h) (and_then (i2s_tdm_set_gpio h (gpio_cfg cfg)) (and_then (i2s_tdm_set_slot h (slot_cfg cfg))
                (and_then (i2s_tdm_set_clock h (clk_cfg cfg)) ?last)))"
  have chain: "\<exists>c'. chan_at B i h c' w2 \<and> settled c'"
    if "foldr and_then fs ?last w1 = Some (e, w2)" "\<forall>f \<in> set fs. keeps B i h f" "chan_at B i h c1 w1"
      "h_state c1 = I2S_CHAN_STATE_REGISTER" "h_dma_chan c1 = 0" for fs w1 e w2 c1
    using that
  proof (induction fs arbitrary: w1 c1)
    case Nil
    then show ?case using dma_ready_settles by simp
  next
    case (Cons f fs)
    obtain e1 w3 where f: "f w1 = Some (e1, w3)" using Cons.prems(1) by (auto simp: and_then_def split: Option.bind_splits)
    have "keeps B i h f" using Cons.prems(2) by simp
    from keepsD [OF this Cons.prems(3) f] obtain c3 where c3: "chan_at B i h c3 w3" "h_state c3 = h_state c1" "h_dma_chan c3 = h_dma_chan c1" by blast
    show ?case
    proof (cases "e1 = ESP_OK")
      case True
      then have "foldr and_then fs ?last w3 = Some (e, w2)" using Cons.prems(1) f by (simp add: and_then_Some)
      then show ?thesis using Cons.IH [OF _ _ c3(1)] Cons.prems c3 by simp
    next
      case False
      then have "w2 = w3" using Cons.prems(1) f by (simp add: and_then_Some)
      then show ?thesis using c3 Cons.prems(4,5) by (auto simp: settled_def)
    qed
  qed
  obtain w2 where w2: "(if h_state c \<noteq> I2S_CHAN_STATE_REGISTER then Some (ESP_ERR_INVALID_STATE, ?w1) else ?full ?w1) = Some (err, w2)"
      and w': "w' = after w2 (OS (Sem_give (h_mutex c)))"
    using r chan_atD(1,2) [OF at] by (auto simp: i2s_channel_init_tdm_mode_def io_simps Let_def split: Option.bind_splits)
  have "\<exists>c'. chan_at B i h c' w2 \<and> settled c'"
  proof (cases "h_state c = I2S_CHAN_STATE_REGISTER")
    case True
    have ks: "\<forall>f \<in> set ?first. keeps B i h f" by (simp add: keeps_info keeps_gpio keeps_slot keeps_clock)
    show ?thesis by (rule chain [OF _ ks at1]) (use w2 True st in \<open>simp_all add: settled_def\<close>)
  next
    case False
    with w2 at1 st show ?thesis by auto
  qed
  then obtain c' where "chan_at B i h c' w2" "settled c'" by blast
  moreover have "chan_at B i h c' w'" unfolding w' by (rule chan_at_call) (use calculation in simp_all)
  ultimately show ?thesis by blast
qed

text \<open>What a channel has that was configured for the first time.\<close>

lemma and_then_okD: "and_then f g w = Some (ESP_OK, w') \<Longrightarrow> \<exists>w1. f w = Some (ESP_OK, w1) \<and> g w1 = Some (ESP_OK, w')"
  by (auto simp: and_then_def split: Option.bind_splits if_splits)

lemma dma_ready_keeps:
  assumes r: "and_then (i2s_init_dma_intr h) (tdm_ready h) w = Some (ESP_OK, w')" and c: "chans w h = Some c"
  shows "\<exists>d. chans w' h = Some (c\<lparr>h_dma_chan := d, h_state := I2S_CHAN_STATE_READY\<rparr>) \<and> arrs w' = arrs w"
proof -
  obtain w1 where 1: "i2s_init_dma_intr h w = Some (ESP_OK, w1)" "tdm_ready h w1 = Some (ESP_OK, w')" using and_then_okD [OF r] by blast
  obtain d where d: "chans w1 h = Some (c\<lparr>h_dma_chan := d\<rparr>)" "arrs w1 = arrs w"
    using 1(1) c by (auto simp: i2s_init_dma_intr_def upd_chan_def io_simps Let_def split: Option.bind_splits if_splits)
  then show ?thesis using 1(2) by (auto simp: tdm_ready_def upd_chan_def Let_def intro!: exI [of _ d])
qed

lemma init_ready:
  assumes at: "chan_at B i h c w" and st: "h_state c = I2S_CHAN_STATE_REGISTER" "h_dma_chan c = 0"
    and r: "i2s_channel_init_tdm_mode h cfg w = Some (ESP_OK, w')"
    and sz: "i2s_get_buf_size (c\<lparr>h_active_slot := active_slots (slot_cfg cfg)\<rparr>) (data_bit_width (slot_cfg cfg)) (h_frame_num c) = Some sz"
      "h_buf_size c \<noteq> sz"
  shows "\<exists>c'. chan_at B i h c' w' \<and> h_state c' = I2S_CHAN_STATE_READY \<and> h_desc_num c' = h_desc_num c \<and> h_buf_size c' = sz \<and>
    h_active_slot c' = active_slots (slot_cfg cfg) \<and> h_total_slot c' = total_slots (slot_cfg cfg) \<and> buffers_ready c' w'"
proof -
  let ?w0 = "after w (OS (Sem_take (h_mutex c) 0xFFFFFFFF))"
  have at0: "chan_at B i h c ?w0" by (rule chan_at_call [OF at]) simp_all
  obtain w5 where w5: "and_then (tdm_info h) (and_then (i2s_tdm_set_gpio h (gpio_cfg cfg)) (and_then (i2s_tdm_set_slot h (slot_cfg cfg))
      (and_then (i2s_tdm_set_clock h (clk_cfg cfg)) (and_then (i2s_init_dma_intr h) (tdm_ready h))))) ?w0 = Some (ESP_OK, w5)"
    and w': "w' = after w5 (OS (Sem_give (h_mutex c)))"
    using r chan_atD(1,2) [OF at] st by (auto simp: i2s_channel_init_tdm_mode_def io_simps Let_def split: Option.bind_splits)
  obtain w1 where 1: "tdm_info h ?w0 = Some (ESP_OK, w1)" and w5: "and_then (i2s_tdm_set_gpio h (gpio_cfg cfg)) (and_then (i2s_tdm_set_slot h (slot_cfg cfg))
      (and_then (i2s_tdm_set_clock h (clk_cfg cfg)) (and_then (i2s_init_dma_intr h) (tdm_ready h)))) w1 = Some (ESP_OK, w5)"
    using and_then_okD [OF w5] by blast
  obtain p where p: "chan_at B i h (c\<lparr>h_tdm := True, h_mode_info := p\<rparr>) w1" using info_at [OF at0 1] by blast
  let ?c1 = "c\<lparr>h_tdm := True, h_mode_info := p\<rparr>"
  obtain w2 where 2: "i2s_tdm_set_gpio h (gpio_cfg cfg) w1 = Some (ESP_OK, w2)" and w5: "and_then (i2s_tdm_set_slot h (slot_cfg cfg))
      (and_then (i2s_tdm_set_clock h (clk_cfg cfg)) (and_then (i2s_init_dma_intr h) (tdm_ready h))) w2 = Some (ESP_OK, w5)"
    using and_then_okD [OF w5] by blast
  obtain w3 where 3: "i2s_tdm_set_slot h (slot_cfg cfg) w2 = Some (ESP_OK, w3)" and w5:
      "and_then (i2s_tdm_set_clock h (clk_cfg cfg)) (and_then (i2s_init_dma_intr h) (tdm_ready h)) w3 = Some (ESP_OK, w5)"
    using and_then_okD [OF w5] by blast
  have "i2s_get_buf_size (?c1\<lparr>h_active_slot := active_slots (slot_cfg cfg)\<rparr>) (data_bit_width (slot_cfg cfg)) (h_frame_num ?c1) = Some sz"
    using sz(1) by (simp add: i2s_get_buf_size_def)
  with slot_at [OF gpio_at [OF p 2] 3] sz(2) obtain c3 where c3: "chan_at B i h c3 w3" "h_state c3 = h_state c" "h_dma_chan c3 = h_dma_chan c"
    "h_desc_num c3 = h_desc_num c" "h_active_slot c3 = active_slots (slot_cfg cfg)" "h_total_slot c3 = total_slots (slot_cfg cfg)"
    "h_buf_size c3 = sz" "buffers_ready c3 w3" by auto
  obtain w4 where 4: "i2s_tdm_set_clock h (clk_cfg cfg) w3 = Some (ESP_OK, w4)" and w5: "and_then (i2s_init_dma_intr h) (tdm_ready h) w4 = Some (ESP_OK, w5)"
    using and_then_okD [OF w5] by blast
  from clock_at [OF c3(1) 4] have c4: "chan_at B i h c3 w4" "arrs w4 = arrs w3" by simp_all
  obtain d where d: "chans w5 h = Some (c3\<lparr>h_dma_chan := d, h_state := I2S_CHAN_STATE_READY\<rparr>)" "arrs w5 = arrs w4"
    using dma_ready_keeps [OF w5 chan_atD(1) [OF c4(1)]] by blast
  obtain c5 where c5: "chan_at B i h c5 w5" using dma_ready_settles [OF c4(1) _ _ w5] c3(2,3) st by auto
  then have "c5 = c3\<lparr>h_dma_chan := d, h_state := I2S_CHAN_STATE_READY\<rparr>" using d(1) chan_atD(1) by fastforce
  moreover have "chan_at B i h c5 w'" unfolding w' by (rule chan_at_call [OF c5]) simp_all
  ultimately show ?thesis using c3 c4(2) d(2) w' by (intro exI [of _ c5]) (simp add: buffers_ready_def)
qed

section \<open>Deleting\<close>

lemma release_if_ok:
  assumes "accounts B (nonzero p @ xs) w" and "released (k, reply_to w k) = [p]" and "obtained (k, reply_to w k) = []"
  shows "\<exists>w'. release_if k p w = Some w' \<and> accounts B xs w' \<and> (w' = w \<or> w' = after w k)"
proof (cases "p = 0")
  case True
  with assms(1) show ?thesis by (simp add: release_if_def nonzero_def)
next
  case False
  have "accounts B (p # xs) w" using assms(1) False by (simp add: nonzero_def)
  from accounts_release [OF this assms(2,3)] False show ?thesis by (simp add: release_if_def)
qed

text \<open>Two worlds whose objects are the same.\<close>

definition objects where
  "objects w = (g_controller w, g_occupied w, ctrls w, chans w, arrs w)"

lemma objects_after [simp]: "objects (after w k) = objects w"
  by (simp add: objects_def)

lemma objects_hw [simp]: "objects (hw f x w) = objects w"
  by (simp add: objects_def)

lemma release_step:
  assumes "accounts B (nonzero p @ xs) w" and "released (k, reply_to w k) = [p]" and "obtained (k, reply_to w k) = []"
  shows "\<exists>w'. release_if k p w = Some w' \<and> accounts B xs w' \<and> objects w' = objects w"
  using release_if_ok [OF assms] objects_after by metis

lemma delete_ok:
  assumes at: "chan_at B i h c w" and st: "h_state c \<noteq> I2S_CHAN_STATE_RUNNING"
  shows "\<exists>w'. i2s_del_channel h w = Some (ESP_OK, w') \<and> accounts B [] w' \<and> chans w' h = None \<and>
    g_controller w' = (g_controller w)(i := 0) \<and> g_occupied w' = (g_occupied w)(i := False)"
proof -
  let ?obj = "h_controller c" and ?q = "h_msg_queue c" and ?m = "h_mutex c" and ?b = "h_binary c" and ?d = "h_dma_chan c"
  obtain oc where oc: "ctrls w ?obj = Some oc" "rx_chan oc = h" "tx_chan oc = 0" "c_id oc = i" using chan_atD(5) [OF at] by blast
  let ?r3 = "[?q, ?m, ?b] @ nonzero ?d @ [h, ?obj]"
  define w1 where "w1 = hw ''i2s_ll_rx_disable_clock'' i w"
  have at1: "chan_at B i h c w1" using at by (simp add: w1_def)
  have "accounts B (nonzero (h_mode_info c) @ dma_blocks c w1 @ ?r3) w1" using chan_atD(3) [OF at1] by (simp add: owned_def)
  then obtain w2 where w2: "i2s_free (h_mode_info c) w1 = Some w2" "accounts B (dma_blocks c w1 @ ?r3) w2" "same_but (set (nonzero (h_mode_info c))) w1 w2"
    using free_ok by blast
  let ?S = "set (nonzero (h_mode_info c))"
  have out: "?S \<inter> set (dma_blocks c w1 @ ?r3) = {} \<and> 0 \<notin> ?S" by (rule accounts_append) (use chan_atD(3) [OF at1] in \<open>simp add: owned_def\<close>)
  have keep: "chans w2 p = chans w1 p \<and> ctrls w2 p = ctrls w1 p \<and> arrs w2 p = arrs w1 p" if "p \<in> set (dma_blocks c w1 @ ?r3)" for p
  proof -
    have "p \<notin> ?S" using out that by blast
    then show ?thesis using same_butD(3-5) [OF w2(3)] by blast
  qed
  have "h \<in> set (dma_blocks c w1 @ ?r3)" "?obj \<in> set (dma_blocks c w1 @ ?r3)" by simp_all
  then have c2: "chans w2 h = Some c" "ctrls w2 ?obj = Some oc" using keep chan_atD(1) [OF at] oc(1) by (simp_all add: w1_def)
  have "\<exists>w3. (if h_desc c \<noteq> 0 then i2s_free_dma_desc h w2 else Some (ESP_OK, w2)) = Some (ESP_OK, w3) \<and> accounts B ?r3 w3 \<and>
      ctrls w3 ?obj = Some oc \<and> g_controller w3 = g_controller w2 \<and> g_occupied w3 = g_occupied w2"
  proof (cases "h_desc c = 0")
    case True
    with w2(2) c2 show ?thesis by (simp add: dma_blocks_def)
  next
    case False
    then have "h_desc c \<in> set (dma_blocks c w1 @ ?r3)" "h_bufs c \<in> set (dma_blocks c w1 @ ?r3)" by (simp_all add: dma_blocks_def)
    from keep [OF this(1)] keep [OF this(2)]
    have arrs2: "arrs w2 (h_desc c) = arrs w1 (h_desc c)" "arrs w2 (h_bufs c) = arrs w1 (h_bufs c)" by simp_all
    obtain ds bs where arr: "arrs w2 (h_desc c) = Some ds" "arrs w2 (h_bufs c) = Some bs" "length ds = unat (h_desc_num c)" "length bs = unat (h_desc_num c)"
      using at1 False unfolding arrs2 by (auto simp: chan_at_def)
    have "dma_blocks c w2 = dma_blocks c w1" by (simp only: dma_blocks_def arrs2)
    then have acc: "accounts B (dma_blocks c w2 @ ?r3) w2" using w2(2) by (simp only:)
    obtain w3 where "i2s_free_dma_desc h w2 = Some (ESP_OK, w3)" "accounts B ?r3 w3" "g_controller w3 = g_controller w2" "g_occupied w3 = g_occupied w2"
        "\<forall>p. p \<in> set ?r3 \<or> p = 0 \<longrightarrow> ctrls w3 p = ctrls w2 p \<and> arrs w3 p = arrs w2 p"
      using free_dma_gen [OF c2(1) chan_atD(2) [OF at] False arr acc] by auto
    then show ?thesis using False c2(2) by (intro exI [of _ w3]) simp
  qed
  then obtain w3 where w3: "(if h_desc c \<noteq> 0 then i2s_free_dma_desc h w2 else Some (ESP_OK, w2)) = Some (ESP_OK, w3)" "accounts B ?r3 w3"
      "ctrls w3 ?obj = Some oc" "g_controller w3 = g_controller w2" "g_occupied w3 = g_occupied w2" by blast
  have nz: "?q \<noteq> 0" "?m \<noteq> 0" "?b \<noteq> 0" "h \<noteq> 0" "?obj \<noteq> 0" "h \<noteq> ?obj" using w3(2) by (auto simp: accounts_def)
  have "accounts B (nonzero ?q @ [?m, ?b] @ nonzero ?d @ [h, ?obj]) w3" using w3(2) nz by (simp add: nonzero_def)
  then obtain w4 where w4: "release_if (OS (Queue_delete ?q)) ?q w3 = Some w4" "accounts B ([?m, ?b] @ nonzero ?d @ [h, ?obj]) w4" "objects w4 = objects w3"
    using release_step [of B ?q _ w3 "OS (Queue_delete ?q)"] by auto
  have "accounts B (nonzero ?m @ [?b] @ nonzero ?d @ [h, ?obj]) w4" using w4(2) nz by (simp add: nonzero_def)
  then obtain w5 where w5: "release_if (OS (Sem_delete ?m)) ?m w4 = Some w5" "accounts B ([?b] @ nonzero ?d @ [h, ?obj]) w5" "objects w5 = objects w4"
    using release_step [of B ?m _ w4 "OS (Sem_delete ?m)"] by auto
  have "accounts B (nonzero ?b @ nonzero ?d @ [h, ?obj]) w5" using w5(2) nz by (simp add: nonzero_def)
  then obtain w6 where w6: "release_if (OS (Sem_delete ?b)) ?b w5 = Some w6" "accounts B (nonzero ?d @ [h, ?obj]) w6" "objects w6 = objects w5"
    using release_step [of B ?b _ w5 "OS (Sem_delete ?b)"] by auto
  let ?oc7 = "oc\<lparr>chan_occupancy := chan_occupancy oc AND NOT (dir_bit I2S_DIR_RX)\<rparr>"
  let ?w7 = "w6\<lparr>ctrls := (ctrls w6)(?obj := Some ?oc7)\<rparr>"
  have o6: "ctrls w6 ?obj = Some oc" "g_controller w6 = g_controller w2" "g_occupied w6 = g_occupied w2"
    using w3(3-5) w4(3) w5(3) w6(3) by (simp_all add: objects_def)
  let ?w7' = "after ?w7 (I2S (Gdma_disconnect ?d))"
  have "\<exists>w8. (if ?d \<noteq> 0 then release_res (I2S (Gdma_del_channel ?d)) ?d (call_void (I2S (Gdma_disconnect ?d)) ?w7) else Some ?w7) = Some w8 \<and>
      accounts B [h, ?obj] w8 \<and> objects w8 = objects ?w7"
  proof (cases "?d = 0")
    case True
    with w6(2) show ?thesis by (simp add: nonzero_def)
  next
    case False
    have "accounts B (?d # [h, ?obj]) ?w7'" using w6(2) False by (simp add: nonzero_def accounts_call)
    from accounts_release [OF this, of "I2S (Gdma_del_channel ?d)"] False show ?thesis by (simp add: io_simps)
  qed
  then obtain w8 where w8: "(if ?d \<noteq> 0 then release_res (I2S (Gdma_del_channel ?d)) ?d (call_void (I2S (Gdma_disconnect ?d)) ?w7) else Some ?w7) = Some w8"
      "accounts B [h, ?obj] w8" "objects w8 = objects ?w7" by blast
  have "accounts B (nonzero h @ [?obj]) w8" using w8(2) nz by (simp add: nonzero_def)
  then obtain w9 where w9: "i2s_free h w8 = Some w9" "accounts B [?obj] w9" "same_but (set (nonzero h)) w8 w9" "chans w9 h = None"
    using free_ok nz(4) by blast
  have "?obj \<notin> set (nonzero h)" using nz by (simp add: nonzero_def)
  from same_butD(3) [OF w9(3) this] same_butD(1,2) [OF w9(3)]
  have o9: "ctrls w9 ?obj = Some ?oc7" "g_controller w9 = g_controller w2" "g_occupied w9 = g_occupied w2"
    using w8(3) o6 by (simp_all add: objects_def)
  let ?w10 = "w9\<lparr>ctrls := (ctrls w9)(?obj := Some (?oc7\<lparr>rx_chan := 0, full_duplex := False\<rparr>))\<rparr>"
  have "accounts B (nonzero ?obj @ []) ?w10" using w9(2) nz by (simp add: nonzero_def)
  then obtain w11 where w11: "i2s_free ?obj ?w10 = Some w11" "accounts B [] w11" "same_but (set (nonzero ?obj)) ?w10 w11" using free_ok by blast
  have "h \<notin> set (nonzero ?obj)" using nz by (simp add: nonzero_def)
  from same_butD(4) [OF w11(3) this] same_butD(1,2) [OF w11(3)]
  have o11: "chans w11 h = None" "g_controller w11 = g_controller w2" "g_occupied w11 = g_occupied w2" using w9(4) o9 by simp_all
  let ?w12 = "hw ''i2s_ll_disable_clock'' i (hw ''periph_module_disable'' i (w11\<lparr>g_controller := (g_controller w11)(i := 0), g_occupied := (g_occupied w11)(i := False)\<rparr>))"
  have g2: "g_controller w2 = g_controller w" "g_occupied w2 = g_occupied w" using same_butD(1,2) [OF w2(3)] by (simp_all add: w1_def)
  have gi: "g_controller w i = ?obj" using at by (simp add: chan_at_def)
  have destroy: "i2s_destroy_controller_obj i ?w10 = Some (ESP_OK, ?w12)"
    using w11(1) gi g2 o9 nz oc(2-4) chan_atD(6) [OF at] by (simp add: i2s_destroy_controller_obj_def i2s_platform_release_occupation_def)
  have "i2s_del_channel h w = Some (ESP_OK, ?w12)"
    using chan_atD(1,2,7) [OF at] st oc w2(1) w3(1) w4(1) w5(1) w6(1) w8(1) w9(1) o6(1) o9(1) destroy nz
    by (simp add: i2s_del_channel_def upd_ctrl_def w1_def [symmetric] Let_def)
  then show ?thesis using w11(2) o11 g2 by (intro exI [of _ ?w12]) simp
qed

section \<open>Creating\<close>

definition port_free :: "nat \<Rightarrow> 'a i2s_world_scheme \<Rightarrow> bool" where
  "port_free i w \<longleftrightarrow> i < SOC_I2S_NUM \<and> g_controller w i = 0 \<and> \<not> g_occupied w i"

text \<open>A controller that was just taken for a receive channel: one of the ports, otherwise nothing changed since \<open>w0\<close>.\<close>

definition taken :: "ptr set \<Rightarrow> nat \<Rightarrow> ptr \<Rightarrow> 'a i2s_world_scheme \<Rightarrow> 'a i2s_world_scheme \<Rightarrow> bool" where
  "taken B i obj w0 w \<longleftrightarrow> accounts B [obj] w \<and> i < SOC_I2S_NUM \<and>
     ctrls w obj = Some \<lparr>c_id = i, chan_occupancy = 1, full_duplex = False, tx_chan = 0, rx_chan = 0\<rparr> \<and>
     g_controller w = (g_controller w0)(i := obj) \<and> g_occupied w = (g_occupied w0)(i := True) \<and> arrs w 0 = arrs w0 0"

definition untouched :: "ptr set \<Rightarrow> 'a i2s_world_scheme \<Rightarrow> 'a i2s_world_scheme \<Rightarrow> bool" where
  "untouched B w0 w \<longleftrightarrow> accounts B [] w \<and> g_controller w = g_controller w0 \<and> g_occupied w = g_occupied w0 \<and> arrs w 0 = arrs w0 0"

lemma find_ok:
  assumes "untouched B w0 w" and "\<forall>i \<in> set is. port_free i w0"
  shows "\<exists>obj found w'. find_controller is 1 0 w = Some (obj, found, w') \<and>
    (if found then \<exists>i \<in> set is. taken B i obj w0 w' else obj = 0 \<and> untouched B w0 w')"
  using assms
proof (induction "is" arbitrary: w)
  case Nil
  then show ?case by (intro exI [of _ 0] exI [of _ False] exI [of _ w]) simp
next
  case (Cons i "is")
  have i: "i < SOC_I2S_NUM" "g_controller w i = 0" "\<not> g_occupied w i" using Cons.prems by (simp_all add: port_free_def untouched_def)
  obtain p w1 where p: "i2s_calloc 28 0x1000 w = (p, w1)" by fastforce
  have "accounts B [] w" using Cons.prems(1) by (simp add: untouched_def)
  note p' = calloc_ok [OF this p]
  have w1: "w1 = after w (MEM (Calloc 28 0x1000))" using p by (simp add: i2s_calloc_def obtain_res_def io_simps)
  show ?case
  proof (cases "p = 0")
    case True
    have "untouched B w0 w1" using p' Cons.prems(1) True by (simp add: untouched_def w1 nonzero_def)
    from Cons.IH [OF this] Cons.prems(2) obtain obj found w' where "find_controller is 1 0 w1 = Some (obj, found, w')"
      "if found then \<exists>i \<in> set is. taken B i obj w0 w' else obj = 0 \<and> untouched B w0 w'" by auto
    then show ?thesis using True p i by (intro exI [of _ obj] exI [of _ found] exI [of _ w']) (auto simp: i2s_acquire_controller_obj_def)
  next
    case False
    let ?new = "\<lparr>c_id = i, chan_occupancy = 0, full_duplex = False, tx_chan = 0, rx_chan = 0\<rparr>"
    let ?w2 = "hw ''i2s_hal_init'' i (w1\<lparr>ctrls := (ctrls w1)(p := Some ?new)\<rparr>)"
    let ?w3 = "hw ''i2s_ll_enable_clock'' i (hw ''periph_module_enable'' i (?w2\<lparr>g_occupied := (g_occupied ?w2)(i := True)\<rparr>))"
    let ?w4 = "?w3\<lparr>g_controller := (g_controller ?w3)(i := p)\<rparr>"
    have acq: "i2s_acquire_controller_obj i w = Some (p, ?w4)"
      using i p False by (simp add: i2s_acquire_controller_obj_def i2s_platform_acquire_occupation_def w1 Let_def)
    let ?w5 = "?w4\<lparr>ctrls := (ctrls ?w4)(p := Some (?new\<lparr>chan_occupancy := 1\<rparr>))\<rparr>"
    have "i2s_take_available_channel p 1 ?w4 = Some (True, ?w5)" by (simp add: i2s_take_available_channel_def upd_ctrl_def)
    moreover have "taken B i p w0 ?w5" using p' False i Cons.prems(1) by (simp add: taken_def nonzero_def untouched_def w1)
    ultimately show ?thesis using acq False by auto
  qed
qed

lemma obtain_ok:
  assumes "accounts B xs w" and "obtain_res k w = (p, w')" and "k = OS (Queue_create n z) \<or> k = OS Mutex_create \<or> k = OS Sem_create_binary"
  shows "accounts B (nonzero p @ xs) w' \<and> objects w' = objects w"
proof -
  have "p = handle (ret (reply_to w k))" "w' = after w k" using assms(2) by (simp_all add: obtain_res_def io_simps)
  moreover have "accounts B (nonzero (handle (ret (reply_to w k))) @ xs) (after w k)"
    by (rule accounts_obtain [OF assms(1)]) (use assms(3) in auto)
  ultimately show ?thesis by simp
qed

text \<open>A channel that was just created with a configuration.\<close>

definition fresh :: "i2s_chan_config \<Rightarrow> i2s_channel_obj \<Rightarrow> bool" where
  "fresh cfg c \<longleftrightarrow> h_state c = I2S_CHAN_STATE_REGISTER \<and> h_dma_chan c = 0 \<and> h_buf_size c = 0 \<and>
     h_desc_num c = dma_desc_num cfg \<and> h_frame_num c = dma_frame_num cfg"

lemma register_channel_ok:
  assumes t: "taken B i obj w0 w" and null: "arrs w0 0 = None" and num: "dma_desc_num cfg \<ge> 2"
  shows "\<exists>err h w'. register_dir cfg obj I2S_DIR_RX w = Some (err, h, w') \<and>
    (if err = ESP_OK then \<exists>c. chan_at B i h c w' \<and> fresh cfg c \<and> g_controller w' = (g_controller w0)(i := obj) \<and> g_occupied w' = (g_occupied w0)(i := True)
     else h = 0 \<and> taken B i obj w0 w')"
proof -
  let ?n = "unat (dma_desc_num cfg - 1)"
  have acc: "accounts B [obj] w" using t by (simp add: taken_def)
  have obj: "obj \<noteq> 0" using acc by (simp add: accounts_def)
  obtain h w1 where h: "i2s_calloc 144 0x1000 w = (h, w1)" by fastforce
  note h' = calloc_ok [OF acc h]
  have w1: "w1 = after w (MEM (Calloc 144 0x1000))" using h by (simp add: i2s_calloc_def obtain_res_def io_simps)
  show ?thesis
  proof (cases "h = 0")
    case True
    have "taken B i obj w0 w1" using t h' True by (simp add: taken_def w1 nonzero_def)
    then show ?thesis using True h obj by (simp add: register_dir_def i2s_register_channel_def)
  next
    case h0: False
    let ?w2 = "w1\<lparr>chans := (chans w1)(h := Some (new_channel_obj obj I2S_DIR_RX))\<rparr>"
    obtain q w3 where q: "obtain_res (OS (Queue_create ?n 4)) ?w2 = (q, w3)" by fastforce
    obtain m w4 where m: "obtain_res (OS Mutex_create) w3 = (m, w4)" by fastforce
    obtain b w5 where b: "obtain_res (OS Sem_create_binary) w4 = (b, w5)" by fastforce
    have fail: "\<exists>w'. register_fail h q m b w5 = Some (ESP_ERR_NO_MEM, w') \<and> taken B i obj w0 w'"
      if a5: "accounts B (nonzero q @ nonzero m @ nonzero b @ [h, obj]) w5" and o5: "objects w5 = objects ?w2" for q m b w5
    proof -
      obtain w6 where w6: "release_if (OS (Queue_delete q)) q w5 = Some w6" "accounts B (nonzero m @ nonzero b @ [h, obj]) w6" "objects w6 = objects w5"
        using release_step [OF a5, of "OS (Queue_delete q)"] by auto
      obtain w7 where w7: "release_if (OS (Sem_delete m)) m w6 = Some w7" "accounts B (nonzero b @ [h, obj]) w7" "objects w7 = objects w6"
        using release_step [OF w6(2), of "OS (Sem_delete m)"] by auto
      obtain w8 where w8: "release_if (OS (Sem_delete b)) b w7 = Some w8" "accounts B [h, obj] w8" "objects w8 = objects w7"
        using release_step [OF w7(2), of "OS (Sem_delete b)"] by auto
      have "accounts B (nonzero h @ [obj]) w8" using w8(2) h0 by (simp add: nonzero_def)
      then obtain w9 where w9: "i2s_free h w8 = Some w9" "accounts B [obj] w9" "same_but (set (nonzero h)) w8 w9" using free_ok by blast
      have "obj \<notin> set (nonzero h)" "0 \<notin> set (nonzero h)" using w8(2) by (auto simp: nonzero_def accounts_def)
      from same_butD(3) [OF w9(3) this(1)] same_butD(5) [OF w9(3) this(2)] same_butD(1,2) [OF w9(3)]
      have "taken B i obj w0 w9" using w9(2) t w6(3) w7(3) w8(3) o5 by (simp add: taken_def objects_def w1)
      moreover have "register_fail h q m b w5 = Some (ESP_ERR_NO_MEM, w9)"
        using w6(1) w7(1) w8(1) w9(1) by (simp add: register_fail_def register_cleanup_def)
      ultimately show ?thesis by blast
    qed
    have acc2: "accounts B [h, obj] ?w2" using h' h0 by (simp add: nonzero_def)
    have acc3: "accounts B (nonzero q @ [h, obj]) w3" "objects w3 = objects ?w2" using obtain_ok [OF acc2 q] by simp_all
    have acc4: "accounts B (nonzero m @ nonzero q @ [h, obj]) w4" "objects w4 = objects ?w2" using obtain_ok [OF acc3(1) m] acc3(2) by simp_all
    have acc5: "accounts B (nonzero b @ nonzero m @ nonzero q @ [h, obj]) w5" "objects w5 = objects ?w2"
      using obtain_ok [OF acc4(1) b] acc4(2) by simp_all
    have unf: "i2s_register_channel obj I2S_DIR_RX (dma_desc_num cfg) w =
      (if q = 0 then register_fail h 0 0 0 w3 else if m = 0 then register_fail h q 0 0 w4 else if b = 0 then register_fail h q m 0 w5
       else do { w \<leftarrow> upd_chan h (\<lambda>c. c\<lparr>h_msg_queue := q, h_mutex := m, h_binary := b\<rparr>) w5;
                 w \<leftarrow> register_place obj I2S_DIR_RX h w; Some (ESP_OK, w) })"
      using obj h0 h q m b by (simp add: i2s_register_channel_def)
    have z: "nonzero 0 = []" by (simp add: nonzero_def)
    consider (failed) w' where "i2s_register_channel obj I2S_DIR_RX (dma_desc_num cfg) w = Some (ESP_ERR_NO_MEM, w')" "taken B i obj w0 w'"
      | (ok) "q \<noteq> 0" "m \<noteq> 0" "b \<noteq> 0"
    proof (cases "q = 0 \<or> m = 0 \<or> b = 0")
      case True
      then consider "q = 0" | "q \<noteq> 0" "m = 0" | "q \<noteq> 0" "m \<noteq> 0" "b = 0" by blast
      then have "\<exists>w'. i2s_register_channel obj I2S_DIR_RX (dma_desc_num cfg) w = Some (ESP_ERR_NO_MEM, w') \<and> taken B i obj w0 w'"
      proof cases
        case 1
        from fail [of 0 0 0 w3] acc3 1 show ?thesis unfolding unf by (simp add: z)
      next
        case 2
        from fail [of q 0 0 w4] acc4 2 show ?thesis unfolding unf by (simp add: z)
      next
        case 3
        have "accounts B (nonzero q @ nonzero m @ nonzero 0 @ [h, obj]) w5" by (rule accounts_perm [OF _ acc5(1)]) (simp add: 3 z)
        from fail [OF this acc5(2)] 3 show ?thesis unfolding unf by simp
      qed
      then show ?thesis using that(1) by blast
    qed (use that(2) in blast)
    then show ?thesis
    proof cases
      case failed
      then show ?thesis by (simp add: register_dir_def)
    next
      case ok
      let ?c6 = "(new_channel_obj obj I2S_DIR_RX)\<lparr>h_msg_queue := q, h_mutex := m, h_binary := b\<rparr>"
      let ?w6 = "w5\<lparr>chans := (chans w5)(h := Some ?c6)\<rparr>"
      let ?oc7 = "\<lparr>c_id = i, chan_occupancy = 1, full_duplex = False, tx_chan = 0, rx_chan = h\<rparr>"
      let ?w7 = "?w6\<lparr>ctrls := (ctrls ?w6)(obj := Some ?oc7)\<rparr>"
      let ?c8 = "?c6\<lparr>h_slave := cfg_slave cfg, h_desc_num := dma_desc_num cfg, h_frame_num := dma_frame_num cfg\<rparr>"
      let ?w8 = "?w7\<lparr>chans := (chans ?w7)(h := Some ?c8)\<rparr>"
      have oc: "ctrls ?w6 obj = Some \<lparr>c_id = i, chan_occupancy = 1, full_duplex = False, tx_chan = 0, rx_chan = 0\<rparr>"
        using t acc5(2) by (simp add: taken_def w1 objects_def)
      have place: "register_place obj I2S_DIR_RX h ?w6 = Some ?w7" using oc by (simp add: register_place_def upd_ctrl_def)
      have c5: "chans w5 h = Some (new_channel_obj obj I2S_DIR_RX)" using acc5(2) by (simp add: objects_def)
      have reg: "i2s_register_channel obj I2S_DIR_RX (dma_desc_num cfg) w = Some (ESP_OK, ?w7)"
        using ok place c5 unfolding unf by (simp add: upd_chan_def)
      have dir: "register_dir cfg obj I2S_DIR_RX w = Some (ESP_OK, h, ?w8)"
        using reg by (simp add: register_dir_def upd_chan_def)
      have "accounts B (owned h ?c8 ?w8 @ [h_controller ?c8]) ?w8"
        by (rule accounts_perm [of "nonzero b @ nonzero m @ nonzero q @ [h, obj]"])
          (use acc5(1) ok in \<open>simp_all add: owned_def dma_blocks_def new_channel_obj_def nonzero_def\<close>)
      moreover have "dma_desc_num cfg \<noteq> 0" using num by auto
      ultimately have at: "chan_at B i h ?c8 ?w8"
        unfolding chan_at_def by (intro conjI) (use t null acc5(2) in \<open>simp_all add: taken_def new_channel_obj_def w1 objects_def\<close>)
      have "fresh cfg ?c8" by (simp add: fresh_def new_channel_obj_def)
      moreover have "g_controller ?w8 = (g_controller w0)(i := obj)" "g_occupied ?w8 = (g_occupied w0)(i := True)" using t acc5(2) by (simp_all add: taken_def w1 objects_def)
      ultimately show ?thesis using dir at by auto
    qed
  qed
qed

section \<open>Properties\<close>

text \<open>The calls that configure a channel, and any number of them, whatever their results.\<close>

datatype tdm_call = Init i2s_tdm_config | Reconfig_clock i2s_tdm_clk_config | Reconfig_slot i2s_tdm_slot_config | Reconfig_gpio i2s_tdm_gpio_config

fun run_call :: "ptr \<Rightarrow> tdm_call \<Rightarrow> 'a i2s_world_scheme \<Rightarrow> (esp_err \<times> 'a i2s_world_scheme) option" where
  "run_call h (Init cfg) w = i2s_channel_init_tdm_mode h cfg w"
| "run_call h (Reconfig_clock cfg) w = i2s_channel_reconfig_tdm_clock h cfg w"
| "run_call h (Reconfig_slot cfg) w = i2s_channel_reconfig_tdm_slot h cfg w"
| "run_call h (Reconfig_gpio cfg) w = i2s_channel_reconfig_tdm_gpio h cfg w"

fun tdm_calls :: "ptr \<Rightarrow> tdm_call list \<Rightarrow> 'a i2s_world_scheme \<Rightarrow> 'a i2s_world_scheme option" where
  "tdm_calls h [] w = Some w"
| "tdm_calls h (k # ks) w = do { (_, w) \<leftarrow> run_call h k w; tdm_calls h ks w }"

text \<open>
  What \<open>tdm_reconfig\<close> asks of the part it runs, and what it gives in return.
\<close>

locale reconfig_step =
  fixes B :: "ptr set" and i :: nat and h :: ptr and step :: "i2s_channel_obj \<Rightarrow> 'a i2s_world_scheme \<Rightarrow> (esp_err \<times> 'a i2s_world_scheme) option"
  assumes step: "keeps B i h (step c)"
begin

lemma settles:
  assumes at: "chan_at B i h c w" and st: "settled c" and r: "tdm_reconfig h step w = Some (err, w')"
  shows "\<exists>c'. chan_at B i h c' w' \<and> settled c'"
proof -
  let ?w1 = "after w (OS (Sem_take (h_mutex c) 0xFFFFFFFF))"
  have at1: "chan_at B i h c ?w1" by (rule chan_at_call [OF at]) simp_all
  obtain w2 where w2: "(if \<not> h_tdm c then Some (ESP_ERR_INVALID_ARG, ?w1)
        else if h_state c \<noteq> I2S_CHAN_STATE_READY then Some (ESP_ERR_INVALID_STATE, ?w1) else step c ?w1) = Some (err, w2)"
      and w': "w' = after w2 (OS (Sem_give (h_mutex c)))"
    using r chan_atD(1,2) [OF at] by (auto simp: tdm_reconfig_def io_simps Let_def split: Option.bind_splits)
  have "\<exists>c'. chan_at B i h c' w2 \<and> settled c'"
  proof (cases "h_tdm c \<and> h_state c = I2S_CHAN_STATE_READY")
    case True
    then have "step c ?w1 = Some (err, w2)" using w2 by simp
    from keepsD [OF step at1 this] True show ?thesis by (auto simp: settled_def)
  next
    case False
    then have "w2 = ?w1" using w2 by (auto split: if_splits)
    then show ?thesis using at1 st by blast
  qed
  then obtain c' where "chan_at B i h c' w2" "settled c'" by blast
  moreover have "chan_at B i h c' w'" unfolding w' by (rule chan_at_call) (use calculation in simp_all)
  ultimately show ?thesis by blast
qed

end

lemma keeps_if: "keeps B i h f \<Longrightarrow> keeps B i h (\<lambda>w. if b then Some (e, w) else f w)"
  unfolding keeps_def by (cases b) auto

lemma keeps_follow_up: "keeps B i h (slot_follow_up h c0 cfg)"
proof (rule keepsI)
  fix c w err and w' :: "'b i2s_world_scheme" assume at: "chan_at B i h c w" and r: "slot_follow_up h c0 cfg w = Some (err, w')"
  obtain e w1 where 1: "w1 = w \<or> (\<exists>k. i2s_tdm_set_clock h k w = Some (e, w1))"
      "w' = w1 \<or> w' = after w1 (OS (Queue_reset (h_msg_queue c0)))"
    using r unfolding slot_follow_up_def Let_def
    by (auto simp: io_simps split: Option.bind_splits if_splits) blast+
  have at1: "chan_at B i h c w1" using 1(1) at clock_at by blast
  have "chan_at B i h c (after w1 (OS (Queue_reset (h_msg_queue c0))))" by (rule chan_at_call [OF at1]) simp_all
  then show "\<exists>c'. chan_at B i h c' w' \<and> h_state c' = h_state c \<and> h_dma_chan c' = h_dma_chan c" using 1(2) at1 by blast
qed

interpretation clock: reconfig_step B i h "clock_step h cfg" for B i h cfg
  by unfold_locales (auto simp: clock_step_def [abs_def] intro: keeps_if keeps_clock)

interpretation slot: reconfig_step B i h "slot_step h cfg" for B i h cfg
  by unfold_locales (auto simp: slot_step_def [abs_def] intro!: keeps_if keeps_and_then keeps_slot keeps_follow_up)

interpretation gpio: reconfig_step B i h "\<lambda>c w. i2s_tdm_set_gpio h cfg w" for B i h cfg
  by unfold_locales (simp add: keeps_gpio)

lemma call_settles:
  assumes at: "chan_at B i h c w" and st: "settled c" and r: "run_call h k w = Some (err, w')"
  shows "\<exists>c'. chan_at B i h c' w' \<and> settled c'"
  using r tdm_init_settles [OF at st] clock.settles [OF at st] slot.settles [OF at st] gpio.settles [OF at st]
  by (cases k) (simp_all add: i2s_channel_reconfig_tdm_clock_def i2s_channel_reconfig_tdm_slot_def i2s_channel_reconfig_tdm_gpio_def)

lemma calls_settle:
  "chan_at B i h c w \<Longrightarrow> settled c \<Longrightarrow> tdm_calls h ks w = Some w' \<Longrightarrow> \<exists>c'. chan_at B i h c' w' \<and> settled c'"
proof (induction ks arbitrary: w c)
  case (Cons k ks)
  obtain err w1 where r: "run_call h k w = Some (err, w1)" "tdm_calls h ks w1 = Some w'"
    using Cons.prems(3) by (auto split: Option.bind_splits)
  obtain c1 where "chan_at B i h c1 w1" "settled c1" using call_settles [OF Cons.prems(1,2) r(1)] by blast
  then show ?case using Cons.IH r(2) by blast
qed auto

lemma new_channel_ok:
  assumes "untouched (held (world.log w)) w w" and "\<forall>i \<in> set (case cfg_id cfg of None \<Rightarrow> [0..<SOC_I2S_NUM] | Some i \<Rightarrow> [i]). port_free i w"
    and "arrs w 0 = None" and ctrl: "\<forall>j. g_controller w j \<noteq> 0 \<longrightarrow> g_controller w j \<in> held (world.log w)"
    and r: "i2s_new_channel cfg False True w = Some (err, th, h, w1)"
  shows "th = 0 \<and> (if err = ESP_OK then \<exists>i obj c. chan_at (held (world.log w)) i h c w1 \<and> fresh cfg c \<and> port_free i w \<and>
        g_controller w1 = (g_controller w)(i := obj) \<and> g_occupied w1 = (g_occupied w)(i := True)
      else h = 0 \<and> untouched (held (world.log w)) w w1)"
proof (cases "(case cfg_id cfg of None \<Rightarrow> True | Some i \<Rightarrow> i < SOC_I2S_NUM) \<and> dma_desc_num cfg \<ge> 2")
  case False
  with r assms(1) show ?thesis by (auto simp: i2s_new_channel_def split: if_splits)
next
  case True
  let ?B = "held (world.log w)" and ?is = "case cfg_id cfg of None \<Rightarrow> [0..<SOC_I2S_NUM] | Some i \<Rightarrow> [i]"
  obtain obj found w2 where f: "find_controller ?is 1 0 w = Some (obj, found, w2)"
    "if found then \<exists>i \<in> set ?is. taken ?B i obj w w2 else obj = 0 \<and> untouched ?B w w2" using find_ok [OF assms(1,2)] by blast
  have unf: "i2s_new_channel cfg False True w = (if obj = 0 then Some (ESP_ERR_NOT_FOUND, 0, 0, w2)
      else if \<not> found then do { w \<leftarrow> new_channel_cleanup obj w2; Some (ESP_ERR_NOT_FOUND, 0, 0, w) }
      else do { (err, rh, w) \<leftarrow> register_dir cfg obj I2S_DIR_RX w2;
                if err \<noteq> ESP_OK then do { w \<leftarrow> new_channel_cleanup obj w; Some (err, 0, rh, w) } else Some (ESP_OK, 0, rh, w) })"
    using True f(1) by (simp add: i2s_new_channel_def dir_bit_def cong: if_cong)
  show ?thesis
  proof (cases found)
    case False
    then show ?thesis using f(2) r unfolding unf by auto
  next
    case found: True
    then obtain i where i: "i \<in> set ?is" and t: "taken ?B i obj w w2" using f(2) by auto
    have pf: "port_free i w" using assms(2) i by blast
    have obj: "obj \<noteq> 0" using t by (simp add: taken_def accounts_def)
    obtain e rh w3 where reg: "register_dir cfg obj I2S_DIR_RX w2 = Some (e, rh, w3)"
      "if e = ESP_OK then \<exists>c. chan_at ?B i rh c w3 \<and> fresh cfg c \<and> g_controller w3 = (g_controller w)(i := obj) \<and> g_occupied w3 = (g_occupied w)(i := True)
       else rh = 0 \<and> taken ?B i obj w w3"
      using register_channel_ok [OF t assms(3)] True by blast
    show ?thesis
    proof (cases "e = ESP_OK")
      case True
      then have "err = ESP_OK" "th = 0" "h = rh" "w1 = w3" using r obj found reg(1) unfolding unf by auto
      then show ?thesis using reg(2) True pf by auto
    next
      case False
      then have t3: "taken ?B i obj w w3" and rh: "rh = 0" using reg(2) by auto
      have "accounts ?B (nonzero obj @ []) w3" using t3 obj by (simp add: taken_def nonzero_def)
      then obtain w4 where w4: "i2s_free obj w3 = Some w4" "accounts ?B [] w4" "same_but (set (nonzero obj)) w3 w4" using free_ok by blast
      let ?w5 = "hw ''i2s_ll_disable_clock'' i (hw ''periph_module_disable'' i
        (w4\<lparr>g_controller := (g_controller w4)(i := 0), g_occupied := (g_occupied w4)(i := False)\<rparr>))"
      have g3: "g_controller w3 i = obj" "i < SOC_I2S_NUM" using t3 by (simp_all add: taken_def)
      have "i2s_destroy_controller_obj i w3 = Some (ESP_OK, ?w5)"
        using t3 g3 obj w4(1) by (simp add: i2s_destroy_controller_obj_def i2s_platform_release_occupation_def taken_def)
      moreover have "i = 0 \<or> i = 1" using g3(2) by (auto simp: SOC_I2S_NUM_def)
      moreover have "g_controller w3 0 \<noteq> obj" if "i = 1"
        using t3 that ctrl by (auto simp: taken_def accounts_def)
      ultimately have "new_channel_cleanup obj w3 = Some ?w5"
        using t3 g3 by (auto simp: new_channel_cleanup_def taken_def)
      then have "err = e" "th = 0" "h = 0" "w1 = ?w5" using r obj found reg(1) False rh unfolding unf by auto
      moreover have "untouched ?B w ?w5"
        using t3 w4(2) same_butD(1,2) [OF w4(3)] same_butD(5) [OF w4(3), of 0] pf
        by (auto simp: untouched_def taken_def port_free_def nonzero_def fun_eq_iff)
      ultimately show ?thesis using False by simp
    qed
  qed
qed

text \<open>Numbered addresses are new.\<close>

lemma numbered_obtained: "set (obtained (c, numbered_env bad h c)) \<subseteq> {Suc (length h)}"
  by (cases "(c, numbered_env bad h c)" rule: obtained.cases) (auto simp: numbered_env_def nonzero_def handle_def split: if_splits)

lemma numbered_held: "genuine (numbered_env bad) h \<Longrightarrow> p \<in> held h \<Longrightarrow> p \<le> length h"
proof (induction h rule: rev_induct)
  case (snoc ev h)
  obtain c where ev: "ev = (c, numbered_env bad h c)" "genuine (numbered_env bad) h" using snoc.prems(1) by (cases ev) (simp add: genuine_snoc)
  then have "p \<in> held h \<or> p \<in> {Suc (length h)}" using snoc.prems(2) numbered_obtained [of c bad h] by (auto simp: held_step_def)
  then show ?case using snoc.IH ev(2) by auto
qed (simp add: held_def)

lemma numbered_env_ok: "i2s_env (numbered_env bad)"
proof -
  have "set (obtained (c, numbered_env bad h c)) \<inter> held h = {}" if "genuine (numbered_env bad) h" for h c
    using numbered_obtained [of c bad h] numbered_held [OF that, of "Suc (length h)"] by auto
  moreover have "ret (numbered_env bad h (I2S (Gdma_connect p i))) = ESP_OK" for h p i by (simp add: numbered_env_def)
  ultimately show ?thesis by (simp add: i2s_env_def)
qed

text \<open>
  C33. What a channel costs is given back.  Suppose the log holds the environment's answers, no address is handed out twice, the DMA engine connects, and the port asked for, or
  both ports, are free.  When \<^verbatim>\<open>i2s_new_channel\<close> fails to create a receive channel, whatever allocation it was that
  failed, nothing is left allocated and the ports are as before.  When it succeeds, \<^verbatim>\<open>i2s_del_channel\<close> succeeds
  after any number of calls of \<^verbatim>\<open>i2s_channel_init_tdm_mode\<close> and the three functions that configure a channel again, in any
  order, with any configurations and results: the resources held are then
  exactly those held before the channel was created, and its port is free again.
\<close>

theorem i2s_channel_life_balanced:
  assumes "i2s_env (wenv w)" and "genuine (wenv w) (world.log w)" and "arrs w 0 = None" and "\<forall>j. g_controller w j \<noteq> 0 \<longrightarrow> g_controller w j \<in> held (world.log w)"
    and "\<forall>i \<in> set (case cfg_id cfg of None \<Rightarrow> [0..<SOC_I2S_NUM] | Some i \<Rightarrow> [i]). port_free i w"
    and "i2s_new_channel cfg False True w = Some (err, th, h, w1)"
  shows "if err = ESP_OK
    then \<exists>i. port_free i w \<and> \<not> port_free i w1 \<and> (\<forall>calls w2. tdm_calls h calls w1 = Some w2 \<longrightarrow>
      (\<exists>w3. i2s_del_channel h w2 = Some (ESP_OK, w3) \<and> held (world.log w3) = held (world.log w) \<and> port_free i w3 \<and> chans w3 h = None))
    else h = 0 \<and> held (world.log w1) = held (world.log w) \<and> g_controller w1 = g_controller w \<and> g_occupied w1 = g_occupied w"
proof (cases "err = ESP_OK")
  have start: "untouched (held (world.log w)) w w" using assms(1,2) by (simp add: untouched_def accounts_def)
  note new = new_channel_ok [OF start assms(5,3,4,6)]
  case True
  with new obtain i obj c where i: "chan_at (held (world.log w)) i h c w1" "fresh cfg c" "port_free i w"
      "g_occupied w1 = (g_occupied w)(i := True)" by auto
  have "settled c" using i(2) by (simp add: fresh_def settled_def)
  have "\<exists>w3. i2s_del_channel h w2 = Some (ESP_OK, w3) \<and> held (world.log w3) = held (world.log w) \<and> port_free i w3 \<and> chans w3 h = None"
    if a: "tdm_calls h calls w1 = Some w2" for calls w2
  proof -
    obtain c' where c': "chan_at (held (world.log w)) i h c' w2" "settled c'" using calls_settle [OF i(1) \<open>settled c\<close> a] by blast
    from c'(2) have "h_state c' \<noteq> I2S_CHAN_STATE_RUNNING" by (auto simp: settled_def)
    from delete_ok [OF c'(1) this] i(3) show ?thesis by (auto simp: accounts_def port_free_def)
  qed
  moreover have "\<not> port_free i w1" using i(4) by (simp add: port_free_def)
  ultimately show ?thesis using True i(3) by auto
next
  have start: "untouched (held (world.log w)) w w" using assms(1,2) by (simp add: untouched_def accounts_def)
  case False
  then show ?thesis using new_channel_ok [OF start assms(5,3,4,6)] by (simp add: untouched_def accounts_def)
qed

theorem i2s_channel_life_balanced_witness:
  "\<exists>h w1 w2 w3. i2s_new_channel i2s_rx_conf False True (i2s_board []) = Some (ESP_OK, 0, h, w1) \<and>
     tdm_calls h [Init i2s_tdm_rx_conf] w1 = Some w2 \<and> i2s_del_channel h w2 = Some (ESP_OK, w3) \<and> held (world.log w3) = {}"
proof -
  have "case i2s_new_channel i2s_rx_conf False True (i2s_board []) of None \<Rightarrow> False
    | Some (err, th, h, w1) \<Rightarrow> err = ESP_OK \<and> th = 0 \<and> tdm_calls h [Init i2s_tdm_rx_conf] w1 \<noteq> None"
    by code_simp
  then obtain h w1 w2 where new: "i2s_new_channel i2s_rx_conf False True (i2s_board []) = Some (ESP_OK, 0, h, w1)"
    and att: "tdm_calls h [Init i2s_tdm_rx_conf] w1 = Some w2" by (auto split: option.splits)
  have board: "i2s_env (wenv (i2s_board []))" "genuine (wenv (i2s_board [])) (world.log (i2s_board []))" "arrs (i2s_board []) 0 = None"
    "\<forall>j. g_controller (i2s_board []) j \<noteq> 0 \<longrightarrow> g_controller (i2s_board []) j \<in> held (world.log (i2s_board []))"
    "\<forall>i \<in> set (case cfg_id i2s_rx_conf of None \<Rightarrow> [0..<SOC_I2S_NUM] | Some i \<Rightarrow> [i]). port_free i (i2s_board [])"
    "held (world.log (i2s_board [])) = {}"
    by (simp_all add: i2s_board_def numbered_env_ok port_free_def i2s_rx_conf_def held_def)
  from i2s_channel_life_balanced [OF board(1-5) new]
  have "\<exists>w3. i2s_del_channel h w2 = Some (ESP_OK, w3) \<and> held (world.log w3) = {}" unfolding board(6) using att by (simp del: tdm_calls.simps) blast
  with new att show ?thesis by blast
qed

text \<open>Configuring the microphone's channel twice, on a board that refuses some requests.\<close>

definition configure_twice :: "nat list \<Rightarrow> (esp_err \<times> esp_err \<times> i2s_state_t \<times> ptr option) option" where
  "configure_twice bad = do {
     (_, _, h, w) \<leftarrow> i2s_new_channel i2s_rx_conf False True (i2s_board bad);
     (err, w) \<leftarrow> i2s_channel_init_tdm_mode h i2s_tdm_rx_conf w;
     (again, w) \<leftarrow> i2s_channel_init_tdm_mode h i2s_tdm_rx_conf w;
     c \<leftarrow> chans w h;
     Some (err, again, h_state c, first_descriptor h w) }"

lemma twice_no_array: "configure_twice [15] = Some (ESP_ERR_NO_MEM, ESP_OK, I2S_CHAN_STATE_READY, None)"
  by code_simp

lemma twice_no_bufs: "configure_twice [16] = None"
  by code_simp

lemma twice_no_descriptor: "configure_twice [17] = Some (ESP_ERR_NO_MEM, ESP_OK, I2S_CHAN_STATE_READY, None)"
  by code_simp

lemma twice_all: "map_option (\<lambda>(e, a, s, d). (e, a, s, d = None)) (configure_twice []) =
    Some (ESP_OK, ESP_ERR_INVALID_STATE, I2S_CHAN_STATE_READY, False)"
  by code_simp


text \<open>
  Changing the width of the samples alone does not change the clock: the widths of the slots are compared after the new configuration was
  stored, and the stored one has \<open>0\<close> where the width is automatic.
\<close>

lemma reconfig_automatic_width:
  assumes "slot_bit_width cfg = 0" and "data_bit_width cfg \<noteq> 0" and "slot_registers c cfg w = Some (err, w1)"
  shows "slot_follow_up h c cfg w1 = Some (ESP_OK, call_void (OS (Queue_reset (h_msg_queue c))) w1)"
proof -
  obtain info where "infos w1 (h_mode_info c) = Some info" "slot_cfg info = cfg"
    using assms(3) by (auto simp: slot_registers_def upd_info_def Let_def split: Option.bind_splits option.splits)
  then show ?thesis using assms(1,2) by (simp add: slot_follow_up_def)
qed

section \<open>The size of a buffer\<close>

text \<open>The bytes of a frame: whole bytes for each sample of the active slots.\<close>

definition frame_bytes :: "i2s_channel_obj \<Rightarrow> u32 \<Rightarrow> nat" where
  "frame_bytes c bit_width = (unat bit_width + 7) div 8 * unat (h_active_slot c)"

text \<open>
  C33. The size of a DMA buffer.  For samples and frames that are not empty and whose total number of bytes fits into 32 bits,
  \<^verbatim>\<open>i2s_get_buf_size\<close> returns at most the 4092 bytes a descriptor can describe and always whole frames: all the frames asked for
  if they fit, otherwise as many as fit.
\<close>

theorem i2s_get_buf_size_bounds:
  assumes "unat bit_width + 7 < 2 ^ 32" and "0 < n" and "0 < frame_bytes c bit_width" and "unat n * frame_bytes c bit_width < 2 ^ 32"
  shows "\<exists>size. i2s_get_buf_size c bit_width n = Some size \<and> unat size \<le> 4092 \<and> frame_bytes c bit_width dvd unat size \<and>
    (if unat n * frame_bytes c bit_width \<le> 4092 then unat size = unat n * frame_bytes c bit_width
     else 4092 < unat size + frame_bytes c bit_width)"
proof -
  let ?f = "frame_bytes c bit_width" and ?bpf = "(bit_width + 7) div 8 * h_active_slot c"
  have n: "0 < unat n" using assms(2) by (simp add: unat_gt_0 word_gt_0)
  then have "?f \<le> unat n * ?f" by simp
  then have f32: "?f < 2 ^ 32" using assms(4) by linarith
  have "unat (bit_width + 7) = unat bit_width + 7" using assms(1) by (simp add: unat_word_ariths)
  then have "unat ((bit_width + 7) div 8) = (unat bit_width + 7) div 8" by (simp add: unat_div_distrib)
  then have bpf: "unat ?bpf = ?f" using f32 by (simp add: unat_word_ariths frame_bytes_def)
  then have size: "unat (n * ?bpf) = unat n * ?f" using assms(4) by (simp only: unat_word_ariths) simp
  have whole: "4092 div ?f * ?f \<le> 4092" by simp
  have "unat (4092 div ?bpf) = 4092 div ?f" using bpf by (simp add: unat_div_distrib)
  then have "unat (4092 div ?bpf * ?bpf) = 4092 div ?f * ?f mod 2 ^ 32" using bpf by (simp only: unat_word_ariths) simp
  then have cut: "unat (4092 div ?bpf * ?bpf) = 4092 div ?f * ?f" using whole by simp
  have near: "4092 < 4092 div ?f * ?f + ?f" using div_mult_mod_eq [of 4092 ?f] mod_less_divisor [OF assms(3), of 4092] by linarith
  have b0: "?bpf \<noteq> 0" using bpf assms(3) by auto
  have le: "n * ?bpf > 4092 \<longleftrightarrow> \<not> unat n * ?f \<le> 4092" unfolding word_less_nat_alt size by (simp add: not_le)
  show ?thesis
  proof (cases "unat n * ?f \<le> 4092")
    case True
    then have "i2s_get_buf_size c bit_width n = Some (n * ?bpf)" using le by (simp add: i2s_get_buf_size_def I2S_DMA_BUFFER_MAX_SIZE_def Let_def)
    then show ?thesis using True size by (intro exI [of _ "n * ?bpf"]) simp
  next
    case False
    then have "i2s_get_buf_size c bit_width n = Some (4092 div ?bpf * ?bpf)"
      using le b0 by (simp add: i2s_get_buf_size_def I2S_DMA_BUFFER_MAX_SIZE_def Let_def)
    then show ?thesis using False cut whole near by (intro exI [of _ "4092 div ?bpf * ?bpf"]) simp
  qed
qed

theorem i2s_get_buf_size_bounds_witness:
  "\<exists>size. i2s_get_buf_size ((new_channel_obj 1 I2S_DIR_RX)\<lparr>h_active_slot := 2\<rparr>) 32 1000 = Some size \<and> unat size \<le> 4092 \<and> 4092 < unat size + 8"
  using i2s_get_buf_size_bounds [of 32 1000 "(new_channel_obj 1 I2S_DIR_RX)\<lparr>h_active_slot := 2\<rparr>"] by (auto simp: frame_bytes_def)

end
