(* ===== verification/Es7210.thy ===== *)
theory Es7210
  imports Reg_Device
begin

text \<open>
  The ES7210 audio ADC driver, managed_components/espressif__es7210/es7210.c, and the codec set-up
  of the board, \<^verbatim>\<open>es7210_codec_init\<close> of components/ES7210/myES7210.c.  Unlike the other chips it
  is written through command links on the heap.
\<close>

section \<open>The driver's data\<close>

record es7210_dev_t =
  es_ptr :: ptr        \<comment> \<open>address of the heap object\<close>
  es_i2c_port :: nat
  es_i2c_addr :: u8

type_synonym es7210_dev_handle_t = "es7210_dev_t option"   \<comment> \<open>\<open>None\<close> is \<^verbatim>\<open>NULL\<close>\<close>

record es7210_codec_config_t =
  sample_rate_hz :: u32
  mclk_ratio :: u32
  i2s_format :: u32
  bit_width :: u32
  mic_bias :: u32
  mic_gain :: u32
  tdm_enable :: bool

record coeff_div_t =
  mclk :: u32
  lrck :: u32
  ss_ds :: u8
  adc_div :: u8
  dll :: u8
  doubler :: u8
  osr :: u8
  mclk_src :: u8
  lrck_h :: u32
  lrck_l :: u32

definition coeff :: "u32 \<Rightarrow> u32 \<Rightarrow> u8 \<Rightarrow> u8 \<Rightarrow> u8 \<Rightarrow> u8 \<Rightarrow> u8 \<Rightarrow> u8 \<Rightarrow> u32 \<Rightarrow> u32 \<Rightarrow> coeff_div_t" where
  "coeff m l s a d db os ms h lo =
     \<lparr>mclk = m, lrck = l, ss_ds = s, adc_div = a, dll = d, doubler = db, osr = os, mclk_src = ms, lrck_h = h, lrck_l = lo\<rparr>"

definition es7210_coeff_div :: "coeff_div_t list" where
  "es7210_coeff_div =
    [coeff 12288000 8000 0x00 0x03 0x01 0x00 0x20 0x00 0x06 0x00,
     coeff 16384000 8000 0x00 0x04 0x01 0x00 0x20 0x00 0x08 0x00,
     coeff 19200000 8000 0x00 0x1e 0x00 0x01 0x28 0x00 0x09 0x60,
     coeff 4096000 8000 0x00 0x01 0x01 0x00 0x20 0x00 0x02 0x00,
     coeff 11289600 11025 0x00 0x02 0x01 0x00 0x20 0x00 0x01 0x00,
     coeff 12288000 12000 0x00 0x02 0x01 0x00 0x20 0x00 0x04 0x00,
     coeff 19200000 12000 0x00 0x14 0x00 0x01 0x28 0x00 0x06 0x40,
     coeff 4096000 16000 0x00 0x01 0x01 0x01 0x20 0x00 0x01 0x00,
     coeff 19200000 16000 0x00 0x0a 0x00 0x00 0x1e 0x00 0x04 0x80,
     coeff 16384000 16000 0x00 0x02 0x01 0x00 0x20 0x00 0x04 0x00,
     coeff 12288000 16000 0x00 0x03 0x01 0x01 0x20 0x00 0x03 0x00,
     coeff 11289600 22050 0x00 0x01 0x01 0x00 0x20 0x00 0x02 0x00,
     coeff 12288000 24000 0x00 0x01 0x01 0x00 0x20 0x00 0x02 0x00,
     coeff 19200000 24000 0x00 0x0a 0x00 0x01 0x28 0x00 0x03 0x20,
     coeff 12288000 32000 0x00 0x03 0x00 0x00 0x20 0x00 0x01 0x80,
     coeff 16384000 32000 0x00 0x01 0x01 0x00 0x20 0x00 0x02 0x00,
     coeff 19200000 32000 0x00 0x05 0x00 0x00 0x1e 0x00 0x02 0x58,
     coeff 11289600 44100 0x00 0x01 0x01 0x01 0x20 0x00 0x01 0x00,
     coeff 12288000 48000 0x00 0x01 0x01 0x01 0x20 0x00 0x01 0x00,
     coeff 19200000 48000 0x00 0x05 0x00 0x01 0x28 0x00 0x01 0x90,
     coeff 16384000 64000 0x01 0x01 0x01 0x00 0x20 0x00 0x01 0x00,
     coeff 19200000 64000 0x00 0x05 0x00 0x01 0x1e 0x00 0x01 0x2c,
     coeff 11289600 88200 0x01 0x01 0x01 0x01 0x20 0x00 0x00 0x80,
     coeff 12288000 96000 0x01 0x01 0x01 0x01 0x20 0x00 0x00 0x80,
     coeff 19200000 96000 0x01 0x05 0x00 0x01 0x28 0x00 0x00 0xc8]"

definition es7210_get_coeff :: "u32 \<Rightarrow> u32 \<Rightarrow> coeff_div_t option" where
  "es7210_get_coeff m l = List.find (\<lambda>c. lrck c = l \<and> mclk c = m) es7210_coeff_div"

definition IS_ES7210_I2S_FMT :: "u32 \<Rightarrow> bool" where
  "IS_ES7210_I2S_FMT v = (v \<in> {0x00, 0x01, 0x03, 0x13})"

definition IS_ES7210_I2S_BITS :: "u32 \<Rightarrow> bool" where
  "IS_ES7210_I2S_BITS v = (v \<in> {24, 20, 18, 16, 32})"

definition IS_ES7210_MIC_GAIN :: "u32 \<Rightarrow> bool" where
  "IS_ES7210_MIC_GAIN v = (0 \<le> v \<and> v \<le> 14)"

definition IS_ES7210_MIC_BIAS :: "u32 \<Rightarrow> bool" where
  "IS_ES7210_MIC_BIAS v = (v \<in> {0x00, 0x10, 0x20, 0x30, 0x40, 0x50, 0x60, 0x70})"

section \<open>Writing one register\<close>

text \<open>
  The label \<^verbatim>\<open>err\<close> of \<^verbatim>\<open>es7210_write_reg\<close> deletes the link on every path on which it was created.
\<close>

definition es7210_write_reg ::
  "es7210_dev_handle_t \<Rightarrow> u8 \<Rightarrow> u8 \<Rightarrow> 'a world_scheme \<Rightarrow> (esp_err \<times> 'a world_scheme) option" where
  "es7210_write_reg hdl reg_addr reg_val w =
    (case hdl of
       None \<Rightarrow> Some (ESP_ERR_INVALID_ARG, w)
     | Some dev \<Rightarrow>
         let (cmd, w) = i2c_cmd_link_create w
         in if cmd = None then Some (ESP_ERR_NO_MEM, w)
         else let (ret, cmd, w) = i2c_master_start cmd w
         in if ret \<noteq> ESP_OK then Some (ret, i2c_cmd_link_delete cmd w)
         else let (ret, cmd, w) = i2c_master_write_byte cmd (push_bit 1 (es_i2c_addr dev) OR I2C_MASTER_WRITE) True w
         in if ret \<noteq> ESP_OK then Some (ret, i2c_cmd_link_delete cmd w)
         else let (ret, cmd, w) = i2c_master_write_byte cmd reg_addr True w
         in if ret \<noteq> ESP_OK then Some (ret, i2c_cmd_link_delete cmd w)
         else let (ret, cmd, w) = i2c_master_write_byte cmd reg_val True w
         in if ret \<noteq> ESP_OK then Some (ret, i2c_cmd_link_delete cmd w)
         else let (ret, cmd, w) = i2c_master_stop cmd w
         in if ret \<noteq> ESP_OK then Some (ret, i2c_cmd_link_delete cmd w)
         else do { (ret, _, w) \<leftarrow> i2c_master_cmd_begin (es_i2c_port dev) cmd (pdMS_TO_TICKS 1000) w;
                   Some (ret, i2c_cmd_link_delete cmd w) })"

section \<open>Configuration\<close>

definition i2s_width_bits :: "u32 \<Rightarrow> u8 option" where
  "i2s_width_bits bw =
     (if bw = 16 then Some 0x60 else if bw = 18 then Some 0x40 else if bw = 20 then Some 0x20
      else if bw = 24 then Some 0x00 else if bw = 32 then Some 0x80 else None)"

definition i2s_tdm_mode :: "u32 \<Rightarrow> u8 option" where
  "i2s_tdm_mode fmt =
     (if fmt = 0x00 then Some 0x02 else if fmt = 0x01 then Some 0x02
      else if fmt = 0x03 then Some 0x01 else if fmt = 0x13 then Some 0x01 else None)"

text \<open>The \<^verbatim>\<open>abort()\<close> of a \<^verbatim>\<open>switch\<close>'s default branch is the \<open>None\<close> of the bind.\<close>

definition es7210_set_i2s_format ::
  "es7210_dev_handle_t \<Rightarrow> u32 \<Rightarrow> u32 \<Rightarrow> bool \<Rightarrow> 'a world_scheme \<Rightarrow> (esp_err \<times> 'a world_scheme) option" where
  "es7210_set_i2s_format hdl fmt bw tdm w =
    (if hdl = None then Some (ESP_ERR_INVALID_ARG, w)
     else if \<not> IS_ES7210_I2S_FMT fmt then Some (ESP_ERR_INVALID_ARG, w)
     else if \<not> IS_ES7210_I2S_BITS bw then Some (ESP_ERR_INVALID_ARG, w)
     else do {
       reg_val \<leftarrow> i2s_width_bits bw;
       ESP_RETURN_ON_ERROR (es7210_write_reg hdl 0x11 (ucast (fmt OR ucast reg_val))) (\<lambda>w. do {
         reg_val \<leftarrow> i2s_tdm_mode fmt;
         es7210_write_reg hdl 0x12 (if tdm then reg_val else 0x00) w }) w })"

definition es7210_set_i2s_sample_rate ::
  "es7210_dev_handle_t \<Rightarrow> u32 \<Rightarrow> u32 \<Rightarrow> 'a world_scheme \<Rightarrow> (esp_err \<times> 'a world_scheme) option" where
  "es7210_set_i2s_sample_rate hdl rate ratio w =
    (if hdl = None then Some (ESP_ERR_INVALID_ARG, w)
     else let mclk_freq_hz = rate * ratio
     in case es7210_get_coeff mclk_freq_hz rate of
       None \<Rightarrow> Some (ESP_ERR_NOT_SUPPORTED, w)
     | Some c \<Rightarrow> write_all (es7210_write_reg hdl)
         [(0x07, osr c), (0x02, adc_div c OR push_bit 6 (doubler c) OR push_bit 7 (dll c)),
          (0x04, ucast (lrck_h c)), (0x05, ucast (lrck_l c))] w)"

definition es7210_set_mic_gain ::
  "es7210_dev_handle_t \<Rightarrow> u32 \<Rightarrow> 'a world_scheme \<Rightarrow> (esp_err \<times> 'a world_scheme) option" where
  "es7210_set_mic_gain hdl gain w =
    (if hdl = None then Some (ESP_ERR_INVALID_ARG, w)
     else if \<not> IS_ES7210_MIC_GAIN gain then Some (ESP_ERR_INVALID_ARG, w)
     else write_all (es7210_write_reg hdl)
       [(0x43, ucast (gain OR 0x10)), (0x44, ucast (gain OR 0x10)),
        (0x45, ucast (gain OR 0x10)), (0x46, ucast (gain OR 0x10))] w)"

definition es7210_set_mic_bias ::
  "es7210_dev_handle_t \<Rightarrow> u32 \<Rightarrow> 'a world_scheme \<Rightarrow> (esp_err \<times> 'a world_scheme) option" where
  "es7210_set_mic_bias hdl bias w =
    (if hdl = None then Some (ESP_ERR_INVALID_ARG, w)
     else if \<not> IS_ES7210_MIC_BIAS bias then Some (ESP_ERR_INVALID_ARG, w)
     else write_all (es7210_write_reg hdl) [(0x41, ucast bias), (0x42, ucast bias)] w)"

text \<open>The configuration and the place for the new handle are never \<^verbatim>\<open>NULL\<close> in this program.\<close>

definition es7210_new_codec ::
  "nat \<Rightarrow> u8 \<Rightarrow> 'a world_scheme \<Rightarrow> esp_err \<times> es7210_dev_handle_t \<times> 'a world_scheme" where
  "es7210_new_codec port addr w =
    (let (r, w) = do_call (MEM (Calloc 1 8)) w
     in if handle (ret r) = 0 then (ESP_ERR_NO_MEM, None, w)
        else (ESP_OK, Some \<lparr>es_ptr = handle (ret r), es_i2c_port = port, es_i2c_addr = addr\<rparr>, w))"

definition es7210_del_codec :: "es7210_dev_handle_t \<Rightarrow> 'a world_scheme \<Rightarrow> esp_err \<times> 'a world_scheme" where
  "es7210_del_codec hdl w =
    (case hdl of None \<Rightarrow> (ESP_ERR_INVALID_ARG, w)
     | Some dev \<Rightarrow> (ESP_OK, call_void (MEM (Free (es_ptr dev))) w))"

definition es7210_config_codec ::
  "es7210_dev_handle_t \<Rightarrow> es7210_codec_config_t \<Rightarrow> 'a world_scheme \<Rightarrow> (esp_err \<times> 'a world_scheme) option" where
  "es7210_config_codec hdl conf w =
    (if hdl = None then Some (ESP_ERR_INVALID_ARG, w) else
     ESP_RETURN_ON_ERROR (write_all (es7210_write_reg hdl)
       [(0x00, 0xFF), (0x00, 0x32), (0x09, 0x30), (0x0A, 0x30), (0x23, 0x2A), (0x22, 0x0A), (0x21, 0x2A), (0x20, 0x0A)])
     (ESP_RETURN_ON_ERROR (es7210_set_i2s_format hdl (i2s_format conf) (bit_width conf) (tdm_enable conf))
     (ESP_RETURN_ON_ERROR (es7210_write_reg hdl 0x40 0xC3)
     (ESP_RETURN_ON_ERROR (es7210_set_mic_bias hdl (mic_bias conf))
     (ESP_RETURN_ON_ERROR (es7210_set_mic_gain hdl (mic_gain conf))
     (ESP_RETURN_ON_ERROR (write_all (es7210_write_reg hdl) [(0x47, 0x08), (0x48, 0x08), (0x49, 0x08), (0x4A, 0x08)])
     (ESP_RETURN_ON_ERROR (es7210_set_i2s_sample_rate hdl (sample_rate_hz conf) (mclk_ratio conf))
     (write_all (es7210_write_reg hdl)
       [(0x06, 0x04), (0x4B, 0x0F), (0x4C, 0x0F), (0x00, 0x71), (0x00, 0x41)]))))))) w)"

text \<open>\<^verbatim>\<open>volume_db\<close> is an \<^verbatim>\<open>int8_t\<close>; the arithmetic is in \<^verbatim>\<open>int\<close> and the result is stored to a \<^verbatim>\<open>uint8_t\<close>.\<close>

definition es7210_config_volume ::
  "es7210_dev_handle_t \<Rightarrow> 8 word \<Rightarrow> 'a world_scheme \<Rightarrow> (esp_err \<times> 'a world_scheme) option" where
  "es7210_config_volume hdl volume_db w =
    (if hdl = None then Some (ESP_ERR_INVALID_ARG, w)
     else if \<not> (sint volume_db \<ge> - 95 \<and> sint volume_db \<le> 32) then Some (ESP_ERR_INVALID_ARG, w)
     else let reg_val = word_of_int (191 + sint volume_db * 2)
     in write_all (es7210_write_reg hdl) [(0x1B, reg_val), (0x1C, reg_val), (0x1D, reg_val), (0x1E, reg_val)] w)"

section \<open>The board's codec\<close>

text \<open>
  \<^verbatim>\<open>es7210_codec_init\<close>: every step is under \<^verbatim>\<open>ESP_ERROR_CHECK\<close>.  48 kHz, MCLK ratio 256, standard
  I2S, 32 bits, 2.87 V bias, 30 dB gain, TDM, volume 0 dB.
\<close>

definition es7210_codec_conf :: es7210_codec_config_t where
  "es7210_codec_conf = \<lparr>sample_rate_hz = 48000, mclk_ratio = 256, i2s_format = 0, bit_width = 32,
                        mic_bias = 0x70, mic_gain = 10, tdm_enable = True\<rparr>"

definition es7210_codec_init :: "'a world_scheme \<Rightarrow> 'a world_scheme option" where
  "es7210_codec_init w = do {
     w \<leftarrow> ESP_ERROR_CHECK (call_ret (I2C (I2C_param_config 0 1 2 True True 100000)) w);
     w \<leftarrow> ESP_ERROR_CHECK (Some (i2c_driver_install 0 I2C_MODE_MASTER 0 0 0 w));
     let (e, hdl, w) = es7210_new_codec 0 0x41 w;
     w \<leftarrow> ESP_ERROR_CHECK (Some (e, w));
     w \<leftarrow> ESP_ERROR_CHECK (es7210_config_codec hdl es7210_codec_conf w);
     ESP_ERROR_CHECK (es7210_config_volume hdl 0 w) }"

section \<open>A register write is a transaction on the bus\<close>

definition es7210_link :: "es7210_dev_t \<Rightarrow> u8 \<Rightarrow> u8 \<Rightarrow> i2c_cmd list" where
  "es7210_link dev r v =
     [I2C_Restart, I2C_Write True [push_bit 1 (es_i2c_addr dev)], I2C_Write True [r], I2C_Write True [v], I2C_Stop]"

lemma es7210_write_reg_eq:
  "es7210_write_reg (Some dev) r v w =
    (let (cmd, w1) = i2c_cmd_link_create w
     in case cmd of None \<Rightarrow> Some (ESP_ERR_NO_MEM, w1)
     | Some d \<Rightarrow>
       let (err, cmd, w2) = append_all (Some d) (es7210_link dev r v) w1
       in if err \<noteq> ESP_OK then Some (err, i2c_cmd_link_delete cmd w2)
          else do { (ret, _, w3) \<leftarrow> i2c_master_cmd_begin (es_i2c_port dev) cmd (pdMS_TO_TICKS 1000) w2;
                    Some (ret, i2c_cmd_link_delete cmd w3) })"
  by (simp add: es7210_write_reg_def es7210_link_def i2c_master_start_def i2c_master_stop_def
      i2c_master_write_byte_def Let_def split: prod.splits option.splits)

lemma dev_regs_mem:
  "\<forall>ev \<in> set evs. \<exists>m. fst ev = MEM m \<Longrightarrow> fold (reg_step p a) evs m = m"
proof (induction evs arbitrary: m)
  case (Cons ev evs)
  then show ?case by (cases ev) auto
qed simp

lemma dev_regs_mem_log:
  "log w' = log w @ evs \<Longrightarrow> \<forall>ev \<in> set evs. \<exists>m. fst ev = MEM m \<Longrightarrow> dev_regs p a w' = dev_regs p a w"
  by (simp add: dev_regs_def dev_regs_mem)

text \<open>What one register write does to the world.\<close>

lemma es7210_write_reg_result:
  "\<exists>e w' evs. es7210_write_reg (Some dev) r v w = Some (e, w') \<and> log w' = log w @ evs \<and> balanced evs \<and>
     dev_regs (es_i2c_port dev) (es_i2c_addr dev) w' =
       (if e = ESP_OK then (dev_regs (es_i2c_port dev) (es_i2c_addr dev) w)(r \<mapsto> v)
        else dev_regs (es_i2c_port dev) (es_i2c_addr dev) w)"
proof -
  let ?c = "MEM (Calloc 1 sizeof_i2c_cmd_desc_t)"
  let ?regs = "dev_regs (es_i2c_port dev) (es_i2c_addr dev)"
  define p where "p = handle (ret (reply_to w ?c))"
  show ?thesis
  proof (cases "p = 0")
    case True
    then show ?thesis
      by (intro exI [of _ ESP_ERR_NO_MEM] exI [of _ "after w ?c"] exI [of _ "[(?c, reply_to w ?c)]"])
         (auto simp: es7210_write_reg_eq i2c_cmd_link_create_def do_call_eq p_def balanced_def)
  next
    case False
    define d where "d = \<lparr>static_buf = False, cmd_list = [], free_size = 0, self_ptr = p, node_ptrs = []\<rparr>"
    obtain err h w2 where app: "append_all (Some d) (es7210_link dev r v) (after w ?c) = (err, h, w2)"
      by (cases "append_all (Some d) (es7210_link dev r v) (after w ?c)") auto
    have "\<not> static_buf d" by (simp add: d_def)
    from append_all_heap [OF app this] obtain d2 evs where
      h: "h = Some d2" "\<not> static_buf d2" "self_ptr d2 = p" and
      w2: "log w2 = log w @ (?c, reply_to w ?c) # evs" "\<forall>ev \<in> set evs. fst ev = node_calloc"
        "node_ptrs d2 = allocs evs" "frees evs = []" and
      cmds: "err = ESP_OK \<longrightarrow> cmd_list d2 = es7210_link dev r v"
      by (auto simp: d_def)
    have regs2: "?regs w2 = ?regs w"
      by (rule dev_regs_mem_log [OF w2(1)]) (use w2(2) in auto)
    show ?thesis
    proof (cases "err = ESP_OK")
      case False
      obtain evs' where del: "log (i2c_cmd_link_delete (Some d2) w2) = log w2 @ evs'"
          "frees evs' = node_ptrs d2 @ [self_ptr d2]" "allocs evs' = []" "\<forall>ev \<in> set evs'. \<exists>p. fst ev = MEM (Free p)"
        using link_delete_heap [OF h(2)] by blast
      have "es7210_write_reg (Some dev) r v w = Some (err, i2c_cmd_link_delete (Some d2) w2)"
        using app False h \<open>p \<noteq> 0\<close> by (simp add: es7210_write_reg_eq i2c_cmd_link_create_def do_call_eq p_def d_def)
      moreover have "balanced ((?c, reply_to w ?c) # evs @ evs')"
        using del w2 h \<open>p \<noteq> 0\<close> by (simp add: balanced_def p_def)
      moreover have "?regs (i2c_cmd_link_delete (Some d2) w2) = ?regs w2"
        by (rule dev_regs_mem_log [OF del(1)]) (use del(4) in blast)
      ultimately show ?thesis using del w2 regs2 False by auto
    next
      case True
      obtain e bs w3 where run: "i2c_run (es_i2c_port dev) (es7210_link dev r v) 100 w2 = (e, bs, w3)"
        by (cases "i2c_run (es_i2c_port dev) (es7210_link dev r v) 100 w2") auto
      have start: "i2c_master_cmd_begin (es_i2c_port dev) (Some d2) 100 w2 = Some (e, bs, w3)"
        using cmds True run by (simp add: cmd_begin_run es7210_link_def)
      obtain evs' where del: "log (i2c_cmd_link_delete (Some d2) w3) = log w3 @ evs'"
          "frees evs' = node_ptrs d2 @ [self_ptr d2]" "allocs evs' = []" "\<forall>ev \<in> set evs'. \<exists>p. fst ev = MEM (Free p)"
        using link_delete_heap [OF h(2)] by blast
      obtain x where x: "log w3 = log w2 @ x" "allocs x = []" "frees x = []"
        using run by (auto simp: i2c_run_def Let_def split: if_splits)
      have "es7210_write_reg (Some dev) r v w = Some (e, i2c_cmd_link_delete (Some d2) w3)"
        using app True h start \<open>p \<noteq> 0\<close> by (simp add: es7210_write_reg_eq i2c_cmd_link_create_def do_call_eq p_def d_def)
      moreover have "balanced ((?c, reply_to w ?c) # evs @ x @ evs')"
        using del w2 h x \<open>p \<noteq> 0\<close> by (simp add: balanced_def p_def)
      moreover have "?regs (i2c_cmd_link_delete (Some d2) w3) = ?regs w3"
        by (rule dev_regs_mem_log [OF del(1)]) (use del(4) in blast)
      moreover have "reg_write_of (es_i2c_addr dev) (es7210_link dev r v) = Some (r, v)"
        by (simp add: es7210_link_def reg_write_of_def)
      then have "?regs w3 = (if e = ESP_OK then (?regs w2)(r \<mapsto> v) else ?regs w2)"
        using i2c_run_regs run by blast
      ultimately show ?thesis using del w2 regs2 x by auto
    qed
  qed
qed

interpretation es: reg_device "es7210_write_reg (Some dev)" "dev_regs (es_i2c_port dev) (es_i2c_addr dev)"
  for dev :: es7210_dev_t
proof
  fix r v and w :: "'a world_scheme"
  show "\<exists>e w'. es7210_write_reg (Some dev) r v w = Some (e, w')"
    using es7210_write_reg_result by blast
next
  fix r v and w w' :: "'a world_scheme"
  assume "es7210_write_reg (Some dev) r v w = Some (ESP_OK, w')"
  then show "dev_regs (es_i2c_port dev) (es_i2c_addr dev) w' = (dev_regs (es_i2c_port dev) (es_i2c_addr dev) w)(r \<mapsto> v)"
    using es7210_write_reg_result [of dev r v w] by auto
next
  fix r v e and w w' :: "'a world_scheme"
  assume "es7210_write_reg (Some dev) r v w = Some (e, w')" and "e \<noteq> ESP_OK"
  then show "dev_regs (es_i2c_port dev) (es_i2c_addr dev) w' = dev_regs (es_i2c_port dev) (es_i2c_addr dev) w"
    using es7210_write_reg_result [of dev r v w] by auto
qed


section \<open>Tables of the configuration\<close>

text \<open>What each configuration step writes when its arguments are valid.\<close>

definition format_table :: "u32 \<Rightarrow> u32 \<Rightarrow> bool \<Rightarrow> (u8 \<times> u8) list" where
  "format_table fmt bw tdm =
     [(0x11, ucast (fmt OR ucast (the (i2s_width_bits bw)))), (0x12, if tdm then the (i2s_tdm_mode fmt) else 0)]"

definition rate_table :: "coeff_div_t \<Rightarrow> (u8 \<times> u8) list" where
  "rate_table c = [(0x07, osr c), (0x02, adc_div c OR push_bit 6 (doubler c) OR push_bit 7 (dll c)),
                   (0x04, ucast (lrck_h c)), (0x05, ucast (lrck_l c))]"

abbreviation es_regs :: "es7210_dev_t \<Rightarrow> 'a world_scheme \<Rightarrow> u8 \<Rightarrow> u8 option" where
  "es_regs dev \<equiv> dev_regs (es_i2c_port dev) (es_i2c_addr dev)"

lemma set_i2s_format_eq:
  assumes "IS_ES7210_I2S_FMT fmt" and "IS_ES7210_I2S_BITS bw"
  shows "es7210_set_i2s_format (Some dev) fmt bw tdm =
    ESP_RETURN_ON_ERROR (es7210_write_reg (Some dev) 0x11 (ucast (fmt OR ucast (the (i2s_width_bits bw)))))
      (es7210_write_reg (Some dev) 0x12 (if tdm then the (i2s_tdm_mode fmt) else 0))"
proof -
  obtain m where "i2s_tdm_mode fmt = Some m" using assms by (auto simp: IS_ES7210_I2S_FMT_def i2s_tdm_mode_def)
  moreover obtain b where "i2s_width_bits bw = Some b"
    using assms by (auto simp: IS_ES7210_I2S_BITS_def i2s_width_bits_def)
  ultimately show ?thesis using assms by (simp add: es7210_set_i2s_format_def fun_eq_iff)
qed

lemma achieves_format:
  "achieves (es_regs dev) (es7210_set_i2s_format (Some dev) fmt bw tdm) (format_table fmt bw tdm)"
proof (cases "IS_ES7210_I2S_FMT fmt \<and> IS_ES7210_I2S_BITS bw")
  case True
  show ?thesis
    unfolding set_i2s_format_eq [OF conjunct1 [OF True] conjunct2 [OF True]] format_table_def
    by (rule achieves_seq [OF es.achieves_write es.achieves_write, simplified])
next
  case False
  then show ?thesis by (auto simp: achieves_def es7210_set_i2s_format_def)
qed

lemma achieves_bias:
  "achieves (es_regs dev) (es7210_set_mic_bias (Some dev) bias) [(0x41, ucast bias), (0x42, ucast bias)]"
  by (auto simp: achieves_def es7210_set_mic_bias_def simp del: write_all.simps dest!: es.write_all_ok)

lemma achieves_gain:
  "achieves (es_regs dev) (es7210_set_mic_gain (Some dev) gain)
     [(0x43, ucast (gain OR 0x10)), (0x44, ucast (gain OR 0x10)), (0x45, ucast (gain OR 0x10)), (0x46, ucast (gain OR 0x10))]"
  by (auto simp: achieves_def es7210_set_mic_gain_def simp del: write_all.simps dest!: es.write_all_ok)

lemma achieves_rate:
  "achieves (es_regs dev) (es7210_set_i2s_sample_rate (Some dev) rate ratio)
     (case es7210_get_coeff (rate * ratio) rate of None \<Rightarrow> [] | Some c \<Rightarrow> rate_table c)"
  by (auto simp: achieves_def es7210_set_i2s_sample_rate_def rate_table_def Let_def simp del: write_all.simps
      split: option.splits dest!: es.write_all_ok)

section \<open>Properties\<close>

text \<open>
  A register write through \<^verbatim>\<open>es7210_write_reg\<close> never leaks and never frees twice: on every path,
  whichever allocation of the command link fails and whatever the bus answers, the blocks given
  back to the heap are exactly the blocks obtained.
\<close>

theorem es7210_write_reg_heap_balanced:
  "\<exists>e w'. es7210_write_reg hdl r v w = Some (e, w') \<and> balanced (new_events w w')"
proof (cases hdl)
  case None
  then show ?thesis by (simp add: es7210_write_reg_def new_events_def balanced_def)
next
  case (Some dev)
  then show ?thesis using es7210_write_reg_result [of dev r v w] by (auto simp: new_events_def)
qed

definition es7210_final :: "es7210_codec_config_t \<Rightarrow> coeff_div_t \<Rightarrow> (u8 \<times> u8) list" where
  "es7210_final conf c =
     [(0x00, 0x41), (0x06, 0x04), (0x09, 0x30), (0x0A, 0x30),
      (0x20, 0x0A), (0x21, 0x2A), (0x22, 0x0A), (0x23, 0x2A), (0x40, 0xC3),
      (0x41, ucast (mic_bias conf)), (0x42, ucast (mic_bias conf)),
      (0x43, ucast (mic_gain conf OR 0x10)), (0x44, ucast (mic_gain conf OR 0x10)),
      (0x45, ucast (mic_gain conf OR 0x10)), (0x46, ucast (mic_gain conf OR 0x10)),
      (0x47, 0x08), (0x48, 0x08), (0x49, 0x08), (0x4A, 0x08), (0x4B, 0x0F), (0x4C, 0x0F)]
     @ format_table (i2s_format conf) (bit_width conf) (tdm_enable conf) @ rate_table c"

definition es7210_valid :: "es7210_codec_config_t \<Rightarrow> bool" where
  "es7210_valid conf \<longleftrightarrow> IS_ES7210_I2S_FMT (i2s_format conf) \<and> IS_ES7210_I2S_BITS (bit_width conf) \<and>
     IS_ES7210_MIC_BIAS (mic_bias conf) \<and> IS_ES7210_MIC_GAIN (mic_gain conf) \<and>
     es7210_get_coeff (sample_rate_hz conf * mclk_ratio conf) (sample_rate_hz conf) \<noteq> None"

lemmas achieves_steps = achieves_seq es.achieves_write es.achieves_write_all
  achieves_format achieves_bias achieves_gain achieves_rate

lemma config_codec_regs:
  assumes "es7210_config_codec (Some dev) conf w = Some (ESP_OK, w')"
    and c: "es7210_get_coeff (sample_rate_hz conf * mclk_ratio conf) (sample_rate_hz conf) = Some c"
  shows "es_regs dev w' = es_regs dev w ++ map_of (rev (
     [(0x00, 0xFF), (0x00, 0x32), (0x09, 0x30), (0x0A, 0x30), (0x23, 0x2A), (0x22, 0x0A), (0x21, 0x2A), (0x20, 0x0A)] @
     format_table (i2s_format conf) (bit_width conf) (tdm_enable conf) @ [(0x40, 0xC3)] @
     [(0x41, ucast (mic_bias conf)), (0x42, ucast (mic_bias conf))] @
     [(0x43, ucast (mic_gain conf OR 0x10)), (0x44, ucast (mic_gain conf OR 0x10)),
      (0x45, ucast (mic_gain conf OR 0x10)), (0x46, ucast (mic_gain conf OR 0x10))] @
     [(0x47, 0x08), (0x48, 0x08), (0x49, 0x08), (0x4A, 0x08)] @ rate_table c @
     [(0x06, 0x04), (0x4B, 0x0F), (0x4C, 0x0F), (0x00, 0x71), (0x00, 0x41)]))"
proof -
  have rate: "achieves (es_regs dev) (es7210_set_i2s_sample_rate (Some dev) (sample_rate_hz conf) (mclk_ratio conf)) (rate_table c)"
    using achieves_rate [of dev "sample_rate_hz conf" "mclk_ratio conf"] c by simp
  note all = achieves_seq [OF es.achieves_write_all achieves_seq [OF achieves_format achieves_seq [OF es.achieves_write
    achieves_seq [OF achieves_bias achieves_seq [OF achieves_gain achieves_seq [OF es.achieves_write_all
    achieves_seq [OF rate es.achieves_write_all]]]]]]]
  show ?thesis
    by (rule all [unfolded achieves_def, rule_format])
       (use assms(1) in \<open>simp add: es7210_config_codec_def del: write_all.simps\<close>)
qed



text \<open>
  A device on a bus where every allocation succeeds and every transaction is acknowledged.
\<close>

definition es_demo :: world where
  "es_demo = \<lparr>wenv = (\<lambda>_ c. case c of MEM _ \<Rightarrow> answer 64 | _ \<Rightarrow> answer ESP_OK), log = [], i2c_obj = Map.empty\<rparr>"

definition es_dev :: es7210_dev_t where
  "es_dev = \<lparr>es_ptr = 64, es_i2c_port = 0, es_i2c_addr = 0x41\<rparr>"

definition es_ready :: "'a world_scheme \<Rightarrow> bool" where
  "es_ready w \<longleftrightarrow> (\<forall>h n s. 0 < ret (wenv w h (MEM (Calloc n s)))) \<and> (\<forall>h p cs t. ret (wenv w h (I2C (I2C_exec p cs t))) = ESP_OK)
     \<and> i2c_obj w 0 = Some I2C_MODE_MASTER"

lemma append_all_served:
  "\<forall>h n s. 0 < ret (wenv w h (MEM (Calloc n s))) \<Longrightarrow> \<not> static_buf d \<Longrightarrow> fst (append_all (Some d) cs w) = ESP_OK"
proof (induction cs arbitrary: d w)
  case (Cons c cs)
  have "handle (ret (reply_to w node_calloc)) \<noteq> 0"
    using Cons.prems(1) by (simp add: handle_def reply_to_def not_le)
  with Cons show ?case by (simp add: on_link_heap Let_def)
qed simp

lemma free_all_frame [simp]: "wenv (free_all ps w) = wenv w" "i2c_obj (free_all ps w) = i2c_obj w"
  by (induction ps arbitrary: w) (simp_all add: io_simps)

lemma link_delete_frame [simp]:
  "wenv (i2c_cmd_link_delete h w) = wenv w" "i2c_obj (i2c_cmd_link_delete h w) = i2c_obj w"
  by (simp_all add: i2c_cmd_link_delete_def io_simps split: option.splits)

lemma es7210_write_reg_served:
  assumes "es_ready w" and "es_i2c_port dev = 0"
  shows "\<exists>w'. es7210_write_reg (Some dev) r v w = Some (ESP_OK, w') \<and> es_ready w'"
proof -
  let ?c = "MEM (Calloc 1 sizeof_i2c_cmd_desc_t)"
  have p: "handle (ret (reply_to w ?c)) \<noteq> 0"
    using assms(1) by (simp add: es_ready_def handle_def reply_to_def not_le)
  define d where "d = \<lparr>static_buf = False, cmd_list = [], free_size = 0, self_ptr = handle (ret (reply_to w ?c)), node_ptrs = []\<rparr>"
  obtain err h w2 where app: "append_all (Some d) (es7210_link dev r v) (after w ?c) = (err, h, w2)"
    by (cases "append_all (Some d) (es7210_link dev r v) (after w ?c)") auto
  have nd: "\<not> static_buf d" by (simp add: d_def)
  have err: "err = ESP_OK"
    using append_all_served [of "after w ?c" d "es7210_link dev r v"] app nd assms(1) by (simp add: es_ready_def)
  obtain d2 where d2: "h = Some d2" "cmd_list d2 = es7210_link dev r v" "wenv w2 = wenv w" "i2c_obj w2 = i2c_obj w"
    using append_all_heap [OF app nd] err by (auto simp: d_def)
  have begin_eq: "i2c_master_cmd_begin 0 (Some d2) 100 w2 = Some (i2c_run 0 (es7210_link dev r v) 100 w2)"
    using d2 by (simp add: cmd_begin_run es7210_link_def)
  show ?thesis
    using app p err d2 begin_eq assms
    by (simp add: es7210_write_reg_eq i2c_cmd_link_create_def do_call_eq d_def i2c_run_def es_ready_def Let_def reply_to_def)
qed

lemma es_write_all_served:
  "es_ready w \<Longrightarrow> es_i2c_port dev = 0 \<Longrightarrow> \<exists>w'. write_all (es7210_write_reg (Some dev)) rvs w = Some (ESP_OK, w') \<and> es_ready w'"
proof (induction rvs arbitrary: w)
  case (Cons rv rvs)
  obtain r v where rv: "rv = (r, v)" by (cases rv)
  obtain w1 where "es7210_write_reg (Some dev) r v w = Some (ESP_OK, w1)" "es_ready w1"
    using es7210_write_reg_served [OF Cons.prems] by blast
  with Cons rv show ?case by simp
qed simp

definition served :: "('a world_scheme \<Rightarrow> (esp_err \<times> 'a world_scheme) option) \<Rightarrow> bool" where
  "served a \<longleftrightarrow> (\<forall>w. es_ready w \<longrightarrow> (\<exists>w'. a w = Some (ESP_OK, w') \<and> es_ready w'))"

lemma served_write: "es_i2c_port dev = 0 \<Longrightarrow> served (es7210_write_reg (Some dev) r v)"
  by (simp add: served_def es7210_write_reg_served)

lemma served_write_all: "es_i2c_port dev = 0 \<Longrightarrow> served (write_all (es7210_write_reg (Some dev)) rvs)"
  by (simp add: served_def es_write_all_served)

lemma served_seq: "served a \<Longrightarrow> served b \<Longrightarrow> served (ESP_RETURN_ON_ERROR a b)"
  unfolding served_def ESP_RETURN_ON_ERROR_ok by blast

lemma config_codec_Some:
  "es7210_config_codec (Some dev) conf =
     ESP_RETURN_ON_ERROR (write_all (es7210_write_reg (Some dev))
       [(0x00, 0xFF), (0x00, 0x32), (0x09, 0x30), (0x0A, 0x30), (0x23, 0x2A), (0x22, 0x0A), (0x21, 0x2A), (0x20, 0x0A)])
     (ESP_RETURN_ON_ERROR (es7210_set_i2s_format (Some dev) (i2s_format conf) (bit_width conf) (tdm_enable conf))
     (ESP_RETURN_ON_ERROR (es7210_write_reg (Some dev) 0x40 0xC3)
     (ESP_RETURN_ON_ERROR (es7210_set_mic_bias (Some dev) (mic_bias conf))
     (ESP_RETURN_ON_ERROR (es7210_set_mic_gain (Some dev) (mic_gain conf))
     (ESP_RETURN_ON_ERROR (write_all (es7210_write_reg (Some dev)) [(0x47, 0x08), (0x48, 0x08), (0x49, 0x08), (0x4A, 0x08)])
     (ESP_RETURN_ON_ERROR (es7210_set_i2s_sample_rate (Some dev) (sample_rate_hz conf) (mclk_ratio conf))
     (write_all (es7210_write_reg (Some dev))
       [(0x06, 0x04), (0x4B, 0x0F), (0x4C, 0x0F), (0x00, 0x71), (0x00, 0x41)])))))))"
  by (rule ext) (simp add: es7210_config_codec_def del: write_all.simps)

lemma served_config_codec:
  assumes "es_i2c_port dev = 0" and "es7210_valid conf"
  shows "served (es7210_config_codec (Some dev) conf)"
proof -
  obtain c where c: "es7210_get_coeff (sample_rate_hz conf * mclk_ratio conf) (sample_rate_hz conf) = Some c"
    and f: "IS_ES7210_I2S_FMT (i2s_format conf)" "IS_ES7210_I2S_BITS (bit_width conf)"
    and v: "IS_ES7210_MIC_BIAS (mic_bias conf)" "IS_ES7210_MIC_GAIN (mic_gain conf)"
    using assms(2) by (auto simp: es7210_valid_def)
  note w = served_write [OF assms(1)] and wa = served_write_all [OF assms(1)]
  have "served (es7210_set_i2s_format (Some dev) (i2s_format conf) (bit_width conf) (tdm_enable conf))"
    unfolding set_i2s_format_eq [OF f] by (intro served_seq w)
  moreover have "served (es7210_set_mic_bias (Some dev) (mic_bias conf))"
    using v by (simp add: es7210_set_mic_bias_def served_def es_write_all_served assms(1) del: write_all.simps)
  moreover have "served (es7210_set_mic_gain (Some dev) (mic_gain conf))"
    using v by (simp add: es7210_set_mic_gain_def served_def es_write_all_served assms(1) del: write_all.simps)
  moreover have "served (es7210_set_i2s_sample_rate (Some dev) (sample_rate_hz conf) (mclk_ratio conf))"
    using c by (simp add: es7210_set_i2s_sample_rate_def served_def es_write_all_served assms(1) Let_def del: write_all.simps)
  ultimately show ?thesis unfolding config_codec_Some by (intro served_seq w wa)
qed

lemma es_demo_ready: "es_ready (es_demo\<lparr>i2c_obj := [0 \<mapsto> I2C_MODE_MASTER]\<rparr>)"
  by (simp add: es_ready_def es_demo_def)

lemma es7210_codec_conf_valid: "es7210_valid es7210_codec_conf"
  by (simp add: es7210_valid_def es7210_codec_conf_def IS_ES7210_I2S_FMT_def IS_ES7210_I2S_BITS_def
      IS_ES7210_MIC_BIAS_def IS_ES7210_MIC_GAIN_def es7210_get_coeff_def es7210_coeff_div_def coeff_def)


text \<open>
  \<^verbatim>\<open>es7210_config_volume\<close> accepts exactly the gains from -95 dB to 32 dB and, when it succeeds, sets
  all four channels to \<open>191 + 2 * volume\<close>, which never wraps in the 8-bit register; any other
  value is refused without touching the bus.
\<close>

theorem es7210_config_volume_range:
  assumes "es7210_config_volume (Some dev) v w = Some (e, w')"
  shows "if - 95 \<le> sint v \<and> sint v \<le> 32
    then \<exists>reg. uint reg = 191 + 2 * sint v \<and>
      (e = ESP_OK \<longrightarrow> es_regs dev w' = (es_regs dev w)(0x1B \<mapsto> reg, 0x1C \<mapsto> reg, 0x1D \<mapsto> reg, 0x1E \<mapsto> reg))
    else e = ESP_ERR_INVALID_ARG \<and> w' = w"
proof (cases "- 95 \<le> sint v \<and> sint v \<le> 32")
  case True
  define reg :: u8 where "reg = word_of_int (191 + sint v * 2)"
  have "uint reg = 191 + 2 * sint v"
    unfolding reg_def uint_word_of_int_eq using True by (simp add: take_bit_int_eq_self)
  moreover have "es_regs dev w' = (es_regs dev w)(0x1B \<mapsto> reg, 0x1C \<mapsto> reg, 0x1D \<mapsto> reg, 0x1E \<mapsto> reg)" if "e = ESP_OK"
  proof -
    have "write_all (es7210_write_reg (Some dev)) [(0x1B, reg), (0x1C, reg), (0x1D, reg), (0x1E, reg)] w = Some (ESP_OK, w')"
      using assms True that by (simp add: es7210_config_volume_def reg_def Let_def del: write_all.simps)
    from es.write_all_ok [OF this] show ?thesis by simp
  qed
  ultimately show ?thesis using True by auto
next
  case False
  with assms show ?thesis by (auto simp: es7210_config_volume_def)
qed

theorem es7210_config_volume_range_witness:
  "\<exists>w' reg. es7210_config_volume (Some es_dev) (- 95) (es_demo\<lparr>i2c_obj := [0 \<mapsto> I2C_MODE_MASTER]\<rparr>) = Some (ESP_OK, w') \<and>
     es_regs es_dev w' 0x1B = Some reg \<and> uint reg = 1"
proof -
  let ?w = "es_demo\<lparr>i2c_obj := [0 \<mapsto> I2C_MODE_MASTER]\<rparr>"
  obtain w' where w': "es7210_config_volume (Some es_dev) (- 95) ?w = Some (ESP_OK, w')"
    using es_write_all_served [OF es_demo_ready, of es_dev]
    by (auto simp: es7210_config_volume_def es_dev_def simp del: write_all.simps)
  from es7210_config_volume_range [OF this] have "\<exists>reg. uint reg = 1 \<and> es_regs es_dev w' 0x1B = Some reg"
    by auto
  with w' show ?thesis by auto
qed

text \<open>
  \<^verbatim>\<open>es7210_get_coeff\<close> finds every entry of its table (none shadows another) and only exact
  matches.  The LRCK divider of an entry is MCLK / LRCK, except in two entries: 11.025 kHz from
  11.2896 MHz has 0x100 for 0x400, and 16 kHz from 19.2 MHz has 0x480 for 0x4B0.
\<close>

theorem es7210_get_coeff_table:
  "(es7210_get_coeff m l = Some c \<longleftrightarrow> c \<in> set es7210_coeff_div \<and> mclk c = m \<and> lrck c = l) \<and>
   (\<forall>c \<in> set es7210_coeff_div.
      lrck c * (lrck_h c * 256 + lrck_l c) = mclk c \<longleftrightarrow> (mclk c, lrck c) \<notin> {(11289600, 11025), (19200000, 16000)})"
proof
  show "\<forall>c \<in> set es7210_coeff_div.
      lrck c * (lrck_h c * 256 + lrck_l c) = mclk c \<longleftrightarrow> (mclk c, lrck c) \<notin> {(11289600, 11025), (19200000, 16000)}"
    by (simp add: es7210_coeff_div_def coeff_def)
  have "distinct (map (\<lambda>c. (mclk c, lrck c)) es7210_coeff_div)"
    by (simp add: es7210_coeff_div_def coeff_def)
  then have inj: "inj_on (\<lambda>c. (mclk c, lrck c)) (set es7210_coeff_div)" by (simp add: distinct_map)
  show "es7210_get_coeff m l = Some c \<longleftrightarrow> c \<in> set es7210_coeff_div \<and> mclk c = m \<and> lrck c = l"
  proof
    assume "es7210_get_coeff m l = Some c"
    then show "c \<in> set es7210_coeff_div \<and> mclk c = m \<and> lrck c = l"
      by (auto simp: es7210_get_coeff_def find_Some_iff)
  next
    assume c: "c \<in> set es7210_coeff_div \<and> mclk c = m \<and> lrck c = l"
    then obtain c' where c': "es7210_get_coeff m l = Some c'"
      by (cases "es7210_get_coeff m l") (auto simp: es7210_get_coeff_def find_None_iff)
    then have "c' \<in> set es7210_coeff_div \<and> mclk c' = m \<and> lrck c' = l"
      by (auto simp: es7210_get_coeff_def find_Some_iff)
    with c inj have "c' = c" by (auto simp: inj_on_def)
    with c' show "es7210_get_coeff m l = Some c" by simp
  qed
qed

theorem es7210_get_coeff_table_witness:
  "es7210_get_coeff 11289600 11025 = Some (coeff 11289600 11025 0x00 0x02 0x01 0x00 0x20 0x00 0x01 0x00)"
  by (subst es7210_get_coeff_table [THEN conjunct1]) (simp add: es7210_coeff_div_def coeff_def)



end
