(* ===== verification/Record_Wav.thy ===== *)
theory Record_Wav
  imports I2s_Life Es7210
begin

text \<open>
  Recording audio to the SD card: the WAV header of components/ES7210/format_wav.h, and
  \<^verbatim>\<open>es7210_i2s_init\<close>, \<^verbatim>\<open>record_wav\<close> and \<^verbatim>\<open>RecordAudio\<close> of components/ES7210/myES7210.c.
\<close>

section \<open>The WAV header\<close>

record wav_header_t =
  chunk_id :: "u8 list"
  chunk_size :: u32
  chunk_format :: "u8 list"
  fmt_subchunk_id :: "u8 list"
  fmt_subchunk_size :: u32
  audio_format :: u16
  num_of_channels :: u16
  sample_rate :: u32
  byte_rate :: u32
  block_align :: u16
  bits_per_sample :: u16
  data_subchunk_id :: "u8 list"
  data_subchunk_size :: u32

definition sizeof_wav_header_t :: nat where "sizeof_wav_header_t = 44"

definition ascii :: "string \<Rightarrow> u8 list" where
  "ascii s = map (\<lambda>c. word_of_nat (of_char c)) s"

text \<open>
  The initialiser; the arguments are 32-bit quantities, the products are taken in \<^verbatim>\<open>int\<close> and stored
  in 16-bit fields.
\<close>

definition WAV_HEADER_PCM_DEFAULT :: "u32 \<Rightarrow> u32 \<Rightarrow> u32 \<Rightarrow> u32 \<Rightarrow> wav_header_t" where
  "WAV_HEADER_PCM_DEFAULT wav_sample_size wav_sample_bits wav_sample_rate wav_channel_num =
     \<lparr>chunk_id = ascii ''RIFF'',
      chunk_size = wav_sample_size + of_nat sizeof_wav_header_t - 8,
      chunk_format = ascii ''WAVE'',
      fmt_subchunk_id = ascii ''fmt '',
      fmt_subchunk_size = 16,
      audio_format = 1,
      num_of_channels = ucast wav_channel_num,
      sample_rate = wav_sample_rate,
      byte_rate = wav_sample_bits * wav_sample_rate * wav_channel_num div 8,
      block_align = ucast (wav_sample_bits * wav_channel_num div 8),
      bits_per_sample = ucast wav_sample_bits,
      data_subchunk_id = ascii ''data'',
      data_subchunk_size = wav_sample_size\<rparr>"

text \<open>The bytes of the structure in memory: little-endian, no padding.\<close>

definition le2 :: "u16 \<Rightarrow> u8 list" where
  "le2 x = [ucast x, ucast (drop_bit 8 x)]"

definition le4 :: "u32 \<Rightarrow> u8 list" where
  "le4 x = [ucast x, ucast (drop_bit 8 x), ucast (drop_bit 16 x), ucast (drop_bit 24 x)]"

definition wav_header_bytes :: "wav_header_t \<Rightarrow> u8 list" where
  "wav_header_bytes h =
     chunk_id h @ le4 (chunk_size h) @ chunk_format h @
     fmt_subchunk_id h @ le4 (fmt_subchunk_size h) @ le2 (audio_format h) @ le2 (num_of_channels h) @
     le4 (sample_rate h) @ le4 (byte_rate h) @ le2 (block_align h) @ le2 (bits_per_sample h) @
     data_subchunk_id h @ le4 (data_subchunk_size h)"

section \<open>The I2S channel\<close>

text \<open>\<^verbatim>\<open>es7210_i2s_init\<close>; the configurations are those of \<open>I2s_Driver\<close>.\<close>

definition es7210_i2s_init :: "'a i2s_world_scheme \<Rightarrow> (ptr \<times> 'a i2s_world_scheme) option" where
  "es7210_i2s_init w = do {
     (err, _, i2s_rx_chan, w) \<leftarrow> i2s_new_channel i2s_rx_conf False True w;
     w \<leftarrow> ESP_ERROR_CHECK (Some (err, w));
     w \<leftarrow> ESP_ERROR_CHECK (i2s_channel_init_tdm_mode i2s_rx_chan i2s_tdm_rx_conf w);
     Some (i2s_rx_chan, w) }"

lemma board_slots:
  "active_slots (slot_cfg i2s_tdm_rx_conf) = 2" "total_slots (slot_cfg i2s_tdm_rx_conf) = 2"
  by code_simp+

lemma board_buf_size:
  "h_frame_num c = 240 \<Longrightarrow>
    i2s_get_buf_size (c\<lparr>h_active_slot := active_slots (slot_cfg i2s_tdm_rx_conf)\<rparr>) (data_bit_width (slot_cfg i2s_tdm_rx_conf)) (h_frame_num c) = Some 1920"
  unfolding board_slots by (simp add: i2s_get_buf_size_def i2s_tdm_rx_conf_def I2S_DMA_BUFFER_MAX_SIZE_def)

lemma nz_id: "0 \<notin> set ps \<Longrightarrow> nz ps = ps"
  by (auto simp: filter_id_conv intro: gr0I)

lemma i2s_init_leaves:
  assumes "i2s_env (wenv w)" and "genuine (wenv w) (world.log w)" and "arrs w 0 = None"
    and "\<forall>j. g_controller w j \<noteq> 0 \<longrightarrow> g_controller w j \<in> held (world.log w)"
    and "\<forall>i < SOC_I2S_NUM. port_free i w" and "es7210_i2s_init w = Some (h, w')"
  shows "\<exists>c ds bs. chans w' h = Some c \<and> h_state c = I2S_CHAN_STATE_READY \<and> h_dir c = I2S_DIR_RX \<and> h_desc_num c = 6 \<and> h_active_slot c = 2 \<and> h_total_slot c = 2 \<and> h_buf_size c = 1920 \<and>
    arrs w' (h_desc c) = Some ds \<and> arrs w' (h_bufs c) = Some bs \<and> length ds = 6 \<and> length bs = 6 \<and> distinct (ds @ bs) \<and> 0 \<notin> set (ds @ bs) \<and>
    set (ds @ bs) \<subseteq> held (world.log w') - held (world.log w) \<and> first_descriptor h w' = Some (hd ds)"
proof -
  let ?B = "held (world.log w)"
  obtain th w1 where new: "i2s_new_channel i2s_rx_conf False True w = Some (ESP_OK, th, h, w1)"
    and init: "i2s_channel_init_tdm_mode h i2s_tdm_rx_conf w1 = Some (ESP_OK, w')"
    using assms(6) by (auto simp: es7210_i2s_init_def ESP_ERROR_CHECK_def split: Option.bind_splits if_splits option.splits)
  have start: "untouched ?B w w" using assms(1,2) by (simp add: untouched_def accounts_def)
  have free: "\<forall>i \<in> set (case cfg_id i2s_rx_conf of None \<Rightarrow> [0..<SOC_I2S_NUM] | Some i \<Rightarrow> [i]). port_free i w"
    using assms(5) by (simp add: i2s_rx_conf_def)
  obtain i c0 where c0: "chan_at ?B i h c0 w1" "fresh i2s_rx_conf c0"
    using new_channel_ok [OF start free assms(3,4) new] by auto
  have "h_frame_num c0 = 240" "h_state c0 = I2S_CHAN_STATE_REGISTER" "h_dma_chan c0 = 0" "h_buf_size c0 \<noteq> 1920" "h_desc_num c0 = 6"
    using c0(2) by (simp_all add: fresh_def i2s_rx_conf_def)
  with init_ready [OF c0(1) _ _ init board_buf_size] board_slots obtain c where c: "chan_at ?B i h c w'" "h_state c = I2S_CHAN_STATE_READY"
    "h_desc_num c = 6" "h_buf_size c = 1920" "h_active_slot c = 2" "h_total_slot c = 2" "buffers_ready c w'" by auto
  obtain ds bs where arr: "arrs w' (h_desc c) = Some ds" "arrs w' (h_bufs c) = Some bs" "length ds = 6" "length bs = 6"
    using c(1,3,7) by (auto simp: chan_at_def buffers_ready_def)
  have nonnull: "0 \<notin> set ds" "0 \<notin> set bs" "h_desc c \<noteq> 0" using c(7) arr by (simp_all add: buffers_ready_def)
  have acc: "accounts ?B (owned h c w' @ [h_controller c]) w'" using c(1) by (simp add: chan_at_def)
  have "owned h c w' = (nonzero (h_mode_info c) @ bs) @ ds @ [h_bufs c, h_desc c, h_msg_queue c, h_mutex c, h_binary c] @ nonzero (h_dma_chan c) @ [h]"
    using nonnull(3) arr(1,2) nz_id [OF nonnull(1)] nz_id [OF nonnull(2)] by (simp add: owned_def dma_blocks_def)
  then have own: "set (ds @ bs) \<subseteq> set (owned h c w')" "distinct (owned h c w') \<longrightarrow> distinct (ds @ bs)"
    by (simp_all only: set_append distinct_append) blast+
  have "distinct (ds @ bs)" using own(2) acc by (auto simp: accounts_def)
  moreover have "set (ds @ bs) \<subseteq> held (world.log w') - ?B" using own(1) acc by (auto simp: accounts_def)
  moreover have "ds \<noteq> []" using arr(3) by auto
  then have "first_descriptor h w' = Some (hd ds)"
    using c(1) arr(1) nonnull(3) by (cases ds) (simp_all add: first_descriptor_def chan_at_def)
  ultimately show ?thesis using c arr nonnull by (intro exI [of _ c] exI [of _ ds] exI [of _ bs]) (simp add: chan_at_def)
qed

text \<open>
  C13. The microphone's channel after \<^verbatim>\<open>es7210_i2s_init\<close>.  Suppose the log holds the environment's answers, no address is handed
  out twice, the DMA engine connects and both ports are free.  If the function returns, its channel is ready: two of two slots are active, and there
  are six descriptors and six buffers of 1920 bytes, allocated by this call, all different and none null; the DMA starts from the first.
\<close>

theorem es7210_i2s_init_ready:
  assumes "i2s_env (wenv w)" and "genuine (wenv w) (world.log w)" and "arrs w 0 = None"
    and "\<forall>j. g_controller w j \<noteq> 0 \<longrightarrow> g_controller w j \<in> held (world.log w)"
    and "\<forall>i < SOC_I2S_NUM. port_free i w" and "es7210_i2s_init w = Some (h, w')"
  shows "\<exists>c ds bs. chans w' h = Some c \<and> h_state c = I2S_CHAN_STATE_READY \<and> h_active_slot c = 2 \<and> h_total_slot c = 2 \<and> h_buf_size c = 1920 \<and>
    arrs w' (h_desc c) = Some ds \<and> arrs w' (h_bufs c) = Some bs \<and> length ds = 6 \<and> length bs = 6 \<and> distinct (ds @ bs) \<and> 0 \<notin> set (ds @ bs) \<and>
    set (ds @ bs) \<subseteq> held (world.log w') - held (world.log w) \<and> first_descriptor h w' = Some (hd ds)"
  using i2s_init_leaves [OF assms] by blast

lemma board_init: "\<exists>h w'. es7210_i2s_init (i2s_board []) = Some (h, w')"
proof -
  have "es7210_i2s_init (i2s_board []) \<noteq> None" by code_simp
  then show ?thesis by auto
qed

lemma board_fresh:
  "i2s_env (wenv (i2s_board []))" "genuine (wenv (i2s_board [])) (world.log (i2s_board []))" "arrs (i2s_board []) 0 = None"
  "\<forall>j. g_controller (i2s_board []) j \<noteq> 0 \<longrightarrow> g_controller (i2s_board []) j \<in> held (world.log (i2s_board []))"
  "\<forall>i < SOC_I2S_NUM. port_free i (i2s_board [])"
  by (simp_all add: i2s_board_def numbered_env_ok port_free_def)

theorem es7210_i2s_init_ready_witness:
  "\<exists>h w' c. es7210_i2s_init (i2s_board []) = Some (h, w') \<and> chans w' h = Some c \<and> h_state c = I2S_CHAN_STATE_READY \<and> h_buf_size c = 1920"
proof -
  obtain h w' where r: "es7210_i2s_init (i2s_board []) = Some (h, w')" using board_init by blast
  from es7210_i2s_init_ready [OF board_fresh r] r show ?thesis by blast
qed

text \<open>
  The channel as the ring of \<open>I2s_Channel\<close>, its buffers holding what is in memory at their addresses \<open>bs\<close>; \<open>ev\<close> is what
  will happen between the accesses of the reader.
\<close>

definition ring_of :: "i2s_channel_obj \<Rightarrow> ptr list \<Rightarrow> (ptr \<Rightarrow> u8 list) \<Rightarrow> (nat \<Rightarrow> rx_event list) \<Rightarrow> i2s_chan" where
  "ring_of c bs mem ev =
    (i2s_ready_channel (length bs) (unat (h_buf_size c)) ev)\<lparr>ch_state := h_state c, ch_dir := h_dir c, dma_bufs := map mem bs,
      msg_queue_len := unat (h_desc_num c - 1)\<rparr>"

text \<open>
  C13. The microphone from \<^verbatim>\<open>es7210_i2s_init\<close> to the last read.  Under the conditions of the property before, the channel the
  function returns has six different buffers; enabling it succeeds, and any number of reads of any sizes returns, whatever the DMA and the
  interrupt do meanwhile.  As long as the reader keeps up, all the bytes read are one gapless piece of what the peripheral captured.
\<close>

theorem es7210_i2s_session_contiguous:
  assumes "i2s_env (wenv w)" and "genuine (wenv w) (world.log w)" and "arrs w 0 = None"
    and "\<forall>j. g_controller w j \<noteq> 0 \<longrightarrow> g_controller w j \<in> held (world.log w)"
    and "\<forall>i < SOC_I2S_NUM. port_free i w" and "es7210_i2s_init w = Some (h, w')"
    and "\<forall>p. length (mem p) = 1920" and "\<forall>sz \<in> set szs. sz < 2 ^ 31"
  shows "\<exists>c bs c1 xs c2 l. chans w' h = Some c \<and> arrs w' (h_bufs c) = Some bs \<and> distinct bs \<and> length bs = 6 \<and>
    i2s_channel_enable (ring_of c bs mem ev) = (ESP_OK, c1) \<and> read_session szs c1 = Some (xs, c2) \<and>
    l = length (captured c1) - length (captured c1) mod 1920 \<and> (kept_up c2 \<longrightarrow> xs = take (length xs) (drop l (captured c2)))"
proof -
  obtain c ds bs where c: "chans w' h = Some c" "h_state c = I2S_CHAN_STATE_READY" "h_dir c = I2S_DIR_RX" "h_buf_size c = 1920"
    "arrs w' (h_bufs c) = Some bs" "length bs = 6" "distinct (ds @ bs)" using i2s_init_leaves [OF assms(1-6)] by blast
  let ?c = "ring_of c bs mem ev"
  have "rx_wf ?c" "ch_state ?c = I2S_CHAN_STATE_READY" "ch_dir ?c = I2S_DIR_RX" "curr_ptr ?c = None" "dma_buf_size ?c = 1920"
    using c assms(7) by (simp_all add: ring_of_def rx_wf_def i2s_ready_channel_def)
  from session_contiguous [OF this(1-4) assms(8)] this(5) c show ?thesis by auto
qed

theorem es7210_i2s_session_contiguous_witness:
  "\<exists>h w' c bs c1 xs c2. es7210_i2s_init (i2s_board []) = Some (h, w') \<and> chans w' h = Some c \<and> arrs w' (h_bufs c) = Some bs \<and>
     i2s_channel_enable (ring_of c bs (\<lambda>_. replicate 1920 0) (\<lambda>_. [Captured 7])) = (ESP_OK, c1) \<and>
     read_session [8192, 8192] c1 = Some (xs, c2)"
proof -
  obtain h w' where r: "es7210_i2s_init (i2s_board []) = Some (h, w')" using board_init by blast
  have "\<forall>p :: ptr. length (replicate 1920 (0 :: u8)) = 1920" "\<forall>sz \<in> set [8192, 8192]. sz < (2 ^ 31 :: nat)" by simp_all
  from es7210_i2s_session_contiguous [OF board_fresh r this, of "\<lambda>_. [Captured 7]"] r show ?thesis by blast
qed

section \<open>Recording\<close>

definition I2S_SAMPLE_RATE :: u32 where "I2S_SAMPLE_RATE = 48000"
definition I2S_CHAN_NUM :: u32 where "I2S_CHAN_NUM = 2"
definition I2S_SAMPLE_BITS :: u32 where "I2S_SAMPLE_BITS = 32"
definition EXAMPLE_RECORD_TIME_SEC :: u32 where "EXAMPLE_RECORD_TIME_SEC = 10"
definition EXAMPLE_RECORD_FILE_PATH :: string where "EXAMPLE_RECORD_FILE_PATH = ''/xzhi.WAV''"

definition wav_byte_rate :: u32 where
  "wav_byte_rate = I2S_SAMPLE_RATE * I2S_CHAN_NUM * I2S_SAMPLE_BITS div 8"

definition wav_size :: u32 where
  "wav_size = wav_byte_rate * EXAMPLE_RECORD_TIME_SEC"

definition sizeof_i2s_readraw_buff :: nat where "sizeof_i2s_readraw_buff = 8192"

text \<open>\<^verbatim>\<open>fwrite(buf, size, 1, f)\<close>: one item of the given bytes; an empty item counts as 0 items.\<close>

definition fwrite_item :: "ptr \<Rightarrow> u8 list \<Rightarrow> 'a world_scheme \<Rightarrow> int \<times> 'a world_scheme" where
  "fwrite_item f bs w =
    (if bs = [] then (0, w) else let (r, w) = do_call (FS (Fwrite f bs)) w in (ret r, w))"

lemma fwrite_item_Nil [simp]: "fwrite_item f [] w = (0, w)"
  by (simp add: fwrite_item_def)

text \<open>
  The loop.  A read stores at most the buffer's 8192 bytes and sets \<^verbatim>\<open>bytes_read\<close> to their number;
  the samples written are those bytes.  It ends because a read of no bytes makes \<^verbatim>\<open>fwrite\<close> return 0.
\<close>

function record_loop :: "ptr \<Rightarrow> ptr \<Rightarrow> nat \<Rightarrow> 'a world_scheme \<Rightarrow> esp_err \<times> 'a world_scheme" where
  "record_loop chan f wav_written w =
    (if \<not> wav_written < unat wav_size then (ESP_OK, w)
     else let (r, w1) = do_call (I2S (I2s_read chan sizeof_i2s_readraw_buff (pdMS_TO_TICKS 1000))) w
          in if ret r \<noteq> ESP_OK then (ret r, w1)
             else let samples = take sizeof_i2s_readraw_buff (out r);
                      (n, w2) = fwrite_item f samples w1
                  in if n = 0 then (ESP_FAIL, w2)
                     else record_loop chan f (wav_written + length samples) w2)"
  by pat_completeness auto
termination
proof (relation "measure (\<lambda>(_, _, n, _). unat wav_size - n)")
  fix chan f wav_written and w w1 w2 :: "'a world_scheme" and r :: reply and n and x y samples
  assume "\<not> \<not> wav_written < unat wav_size" and "samples = take sizeof_i2s_readraw_buff (out r)"
    and "x = fwrite_item f samples w1" and "(n, w2) = x" and "n \<noteq> 0"
  then have "0 < length samples" by (metis fwrite_item_Nil prod.inject length_greater_0_conv)
  with \<open>\<not> \<not> wav_written < unat wav_size\<close>
  have "unat wav_size - (wav_written + length samples) < unat wav_size - wav_written" by linarith
  then show "((chan, f, wav_written + length samples, w2), chan, f, wav_written, w)
      \<in> measure (\<lambda>(_, _, n, _). unat wav_size - n)" by auto
qed simp

definition record_wav :: "ptr \<Rightarrow> 'a world_scheme \<Rightarrow> esp_err \<times> 'a world_scheme" where
  "record_wav i2s_rx_chan w =
    (if i2s_rx_chan = 0 then (ESP_FAIL, w)
     else let (r, w) = do_call (FS (Fopen (MOUNT_POINT @ EXAMPLE_RECORD_FILE_PATH) ''w'')) w; f = handle (ret r)
     in if f = 0 then (ESP_FAIL, w)
     else let wav_header = WAV_HEADER_PCM_DEFAULT wav_size I2S_SAMPLE_BITS I2S_SAMPLE_RATE I2S_CHAN_NUM;
              (n, w) = fwrite_item f (wav_header_bytes wav_header) w;
              (e, w) = (if n = 0 then (ESP_FAIL, w)
                        else let (r, w) = do_call (I2S (I2s_enable i2s_rx_chan)) w
                             in if ret r \<noteq> ESP_OK then (ret r, w) else record_loop i2s_rx_chan f 0 w);
              w = call_void (I2S (I2s_disable i2s_rx_chan)) w;
              w = call_void (FS (Fclose f)) w
          in (e, w))"

text \<open>The outcome of the recording is only logged.\<close>

definition RecordAudio :: "'a i2s_world_scheme \<Rightarrow> 'a i2s_world_scheme option" where
  "RecordAudio w = do {
     (i2s_rx_chan, w) \<leftarrow> es7210_i2s_init w;
     w \<leftarrow> es7210_codec_init w;
     w \<leftarrow> SD_Init w;
     let (err, w) = record_wav i2s_rx_chan w;
     SD_Unmount w }"

section \<open>What the log says about the file\<close>

text \<open>The bytes successfully written to a file, and the bytes the I2S channel delivered.\<close>

fun written_to :: "ptr \<Rightarrow> event \<Rightarrow> u8 list" where
  "written_to f (FS (Fwrite g bs), r) = (if g = f \<and> ret r \<noteq> 0 then bs else [])"
| "written_to f _ = []"

fun delivered_by :: "event \<Rightarrow> u8 list" where
  "delivered_by (I2S (I2s_read _ n _), r) = take n (out r)"
| "delivered_by _ = []"

definition written :: "ptr \<Rightarrow> event list \<Rightarrow> u8 list" where
  "written f evs = concat (map (written_to f) evs)"

definition delivered :: "event list \<Rightarrow> u8 list" where
  "delivered evs = concat (map delivered_by evs)"

lemma written_simps [simp]:
  "written f [] = []" "written f (ev # evs) = written_to f ev @ written f evs"
  "written f (evs @ evs') = written f evs @ written f evs'"
  by (simp_all add: written_def)

lemma delivered_simps [simp]:
  "delivered [] = []" "delivered (ev # evs) = delivered_by ev @ delivered evs"
  "delivered (evs @ evs') = delivered evs @ delivered evs'"
  by (simp_all add: delivered_def)

abbreviation read_call :: "ptr \<Rightarrow> call" where
  "read_call chan \<equiv> I2S (I2s_read chan sizeof_i2s_readraw_buff 100)"

declare record_loop.simps [simp del]

text \<open>One turn of the loop.\<close>

lemma record_loop_step:
  assumes "n < unat wav_size"
  shows "record_loop chan f n w =
    (let r = reply_to w (read_call chan); w1 = after w (read_call chan); s = take sizeof_i2s_readraw_buff (out r);
         wr = FS (Fwrite f s)
     in if ret r \<noteq> ESP_OK then (ret r, w1)
        else if s = [] then (ESP_FAIL, w1)
        else if ret (reply_to w1 wr) = 0 then (ESP_FAIL, after w1 wr)
        else record_loop chan f (n + length s) (after w1 wr))"
  using assms by (subst record_loop.simps) (simp add: do_call_eq fwrite_item_def Let_def)

lemma record_loop_done: "\<not> n < unat wav_size \<Longrightarrow> record_loop chan f n w = (ESP_OK, w)"
  by (subst record_loop.simps) simp

lemma record_loop_log:
  "record_loop chan f n w = (e, w') \<Longrightarrow>
   \<exists>evs. log w' = log w @ evs \<and> wenv w' = wenv w \<and>
     (\<forall>ev \<in> set evs. fst ev = read_call chan \<or> (\<exists>bs. fst ev = FS (Fwrite f bs))) \<and>
     (e = ESP_OK \<longrightarrow> written f evs = delivered evs \<and> unat wav_size \<le> n + length (written f evs) \<and>
        (n < unat wav_size \<longrightarrow> n + length (written f evs) < unat wav_size + sizeof_i2s_readraw_buff))"
proof (induction "unat wav_size - n" arbitrary: n w rule: less_induct)
  case less
  show ?case
  proof (cases "n < unat wav_size")
    case False
    with less.prems show ?thesis by (auto simp: record_loop_done)
  next
    case True
    define r where "r = reply_to w (read_call chan)"
    define w1 where "w1 = after w (read_call chan)"
    define s where "s = take sizeof_i2s_readraw_buff (out r)"
    define wr where "wr = FS (Fwrite f s)"
    note step = record_loop_step [OF True, of chan f w, folded r_def w1_def, unfolded Let_def, folded r_def w1_def s_def, folded wr_def]
    consider "ret r \<noteq> ESP_OK" | "ret r = ESP_OK" "s = []" | "ret r = ESP_OK" "s \<noteq> []" "ret (reply_to w1 wr) = 0"
      | "ret r = ESP_OK" "s \<noteq> []" "ret (reply_to w1 wr) \<noteq> 0" by blast
    then show ?thesis
    proof cases
      case 1
      with step less.prems show ?thesis by (auto simp: w1_def)
    next
      case 2
      with step less.prems show ?thesis by (auto simp: w1_def)
    next
      case 3
      with step less.prems show ?thesis by (auto simp: w1_def wr_def)
    next
      case 4
      define w2 where "w2 = after w1 wr"
      have len: "0 < length s" "length s \<le> sizeof_i2s_readraw_buff" using 4 by (auto simp: s_def)
      from 4 step less.prems have run: "record_loop chan f (n + length s) w2 = (e, w')" by (simp add: w2_def)
      moreover have "unat wav_size - (n + length s) < unat wav_size - n" using True len by linarith
      ultimately obtain evs where ih: "log w' = log w2 @ evs" "wenv w' = wenv w2"
        "\<forall>ev \<in> set evs. fst ev = read_call chan \<or> (\<exists>bs. fst ev = FS (Fwrite f bs))"
        "e = ESP_OK \<longrightarrow> written f evs = delivered evs \<and> unat wav_size \<le> n + length s + length (written f evs) \<and>
          (n + length s < unat wav_size \<longrightarrow> n + length s + length (written f evs) < unat wav_size + sizeof_i2s_readraw_buff)"
        using less.hyps by blast
      have stop: "evs = []" if "\<not> n + length s < unat wav_size"
        using run record_loop_done [OF that, of chan f w2] ih(1) by simp
      let ?evs = "(read_call chan, r) # (wr, reply_to w1 wr) # evs"
      have "written f ?evs = s @ written f evs" and "delivered ?evs = s @ delivered evs"
        using 4 by (simp_all add: wr_def s_def)
      moreover have "log w' = log w @ ?evs" using ih(1) by (simp add: w2_def w1_def r_def)
      moreover have "\<forall>ev \<in> set ?evs. fst ev = read_call chan \<or> (\<exists>bs. fst ev = FS (Fwrite f bs))"
        using ih(3) by (simp add: wr_def)
      moreover have "wenv w' = wenv w" using ih(2) by (simp add: w2_def w1_def)
      moreover have "n + length s + length (written f evs) < unat wav_size + sizeof_i2s_readraw_buff" if "e = ESP_OK"
        using ih(4) that stop len True by (cases "n + length s < unat wav_size") auto
      ultimately show ?thesis using ih(4) by (intro exI [of _ ?evs]) (auto simp: add.assoc)
    qed
  qed
qed

section \<open>Reading a header back\<close>

text \<open>A reader of the format, independent of the structure's initialiser.\<close>

definition un2 :: "u8 list \<Rightarrow> u16" where
  "un2 b = ucast (b ! 0) OR push_bit 8 (ucast (b ! 1))"

definition un4 :: "u8 list \<Rightarrow> u32" where
  "un4 b = ucast (b ! 0) OR push_bit 8 (ucast (b ! 1)) OR push_bit 16 (ucast (b ! 2)) OR push_bit 24 (ucast (b ! 3))"

definition wav_parse :: "u8 list \<Rightarrow> wav_header_t option" where
  "wav_parse b =
    (if length b < 44 \<or> take 4 b \<noteq> ascii ''RIFF'' \<or> take 4 (drop 8 b) \<noteq> ascii ''WAVE'' \<or>
        take 4 (drop 12 b) \<noteq> ascii ''fmt '' \<or> take 4 (drop 36 b) \<noteq> ascii ''data'' then None
     else Some \<lparr>chunk_id = take 4 b, chunk_size = un4 (drop 4 b), chunk_format = take 4 (drop 8 b),
       fmt_subchunk_id = take 4 (drop 12 b), fmt_subchunk_size = un4 (drop 16 b), audio_format = un2 (drop 20 b),
       num_of_channels = un2 (drop 22 b), sample_rate = un4 (drop 24 b), byte_rate = un4 (drop 28 b),
       block_align = un2 (drop 32 b), bits_per_sample = un2 (drop 34 b),
       data_subchunk_id = take 4 (drop 36 b), data_subchunk_size = un4 (drop 40 b)\<rparr>)"

lemma un2_le2 [simp]: "un2 (le2 x @ bs) = x"
  by (rule bit_word_eqI) (auto simp: un2_def le2_def bit_simps)

lemma un4_le4 [simp]: "un4 (le4 x @ bs) = x"
proof (rule bit_word_eqI)
  fix n
  assume "n < LENGTH(32)"
  then show "bit (un4 (le4 x @ bs)) n \<longleftrightarrow> bit x n"
    by (cases "n < 8"; cases "n < 16"; cases "n < 24"; cases "bit x n") (auto simp: un4_def le4_def bit_simps)
qed

lemma length_le [simp]: "length (le2 x) = 2" "length (le4 y) = 4"
  by (simp_all add: le2_def le4_def)

text \<open>
  C39. The WAV header round trip: the structure is exactly 44 bytes in memory, and a reader of the
  RIFF format recovers every field of a header built by \<^verbatim>\<open>WAV_HEADER_PCM_DEFAULT\<close>, whatever the
  sizes and whatever sample data follows.  For this program's recording it announces 3840000 bytes
  of data at 384000 bytes per second, consistently with its sample rate and block size.
\<close>

theorem wav_header_roundtrip:
  "wav_parse (wav_header_bytes (WAV_HEADER_PCM_DEFAULT sz bits rate nch) @ samples) =
     Some (WAV_HEADER_PCM_DEFAULT sz bits rate nch) \<and>
   length (wav_header_bytes (WAV_HEADER_PCM_DEFAULT sz bits rate nch)) = sizeof_wav_header_t \<and>
   (let h = WAV_HEADER_PCM_DEFAULT wav_size I2S_SAMPLE_BITS I2S_SAMPLE_RATE I2S_CHAN_NUM
    in data_subchunk_size h = 3840000 \<and> chunk_size h = 3840036 \<and> byte_rate h = 384000 \<and>
       byte_rate h = sample_rate h * ucast (block_align h) \<and> bits_per_sample h = 32)"
proof -
  let ?h = "WAV_HEADER_PCM_DEFAULT sz bits rate nch"
  define ck cf fi di where tags: "ck = chunk_id ?h" "cf = chunk_format ?h" "fi = fmt_subchunk_id ?h" "di = data_subchunk_id ?h"
  have len: "length ck = 4" "length cf = 4" "length fi = 4" "length di = 4"
    by (simp_all add: tags WAV_HEADER_PCM_DEFAULT_def ascii_def)
  have vals: "ck = ascii ''RIFF''" "cf = ascii ''WAVE''" "fi = ascii ''fmt ''" "di = ascii ''data''"
    by (simp_all add: tags WAV_HEADER_PCM_DEFAULT_def)
  have "wav_parse (wav_header_bytes ?h @ samples) = Some ?h"
    unfolding wav_parse_def wav_header_bytes_def tags [symmetric]
    by (simp add: len vals [symmetric]) (simp add: tags)
  moreover have "length (wav_header_bytes ?h) = sizeof_wav_header_t"
    unfolding wav_header_bytes_def tags [symmetric] by (simp add: len sizeof_wav_header_t_def)
  ultimately show ?thesis
    by (simp add: WAV_HEADER_PCM_DEFAULT_def wav_size_def wav_byte_rate_def I2S_SAMPLE_RATE_def I2S_CHAN_NUM_def
        I2S_SAMPLE_BITS_def EXAMPLE_RECORD_TIME_SEC_def sizeof_wav_header_t_def Let_def)
qed

section \<open>The recording\<close>

definition wav_path :: string where "wav_path = MOUNT_POINT @ EXAMPLE_RECORD_FILE_PATH"

definition board_header :: "u8 list" where
  "board_header = wav_header_bytes (WAV_HEADER_PCM_DEFAULT wav_size I2S_SAMPLE_BITS I2S_SAMPLE_RATE I2S_CHAN_NUM)"

lemma wav_size_value: "unat wav_size = 3840000"
  by (simp add: wav_size_def wav_byte_rate_def I2S_SAMPLE_RATE_def I2S_CHAN_NUM_def I2S_SAMPLE_BITS_def
      EXAMPLE_RECORD_TIME_SEC_def)

lemma board_header_nonempty: "board_header \<noteq> []"
  by (simp add: board_header_def wav_header_bytes_def le4_def)

text \<open>What \<^verbatim>\<open>record_wav\<close> does once the file is open, before the label \<^verbatim>\<open>err\<close>.\<close>

definition record_body :: "ptr \<Rightarrow> ptr \<Rightarrow> 'a world_scheme \<Rightarrow> esp_err \<times> 'a world_scheme" where
  "record_body chan f w =
    (let hd_call = FS (Fwrite f board_header); w1 = after w hd_call; en = I2S (I2s_enable chan); w2 = after w1 en
     in if ret (reply_to w hd_call) = 0 then (ESP_FAIL, w1)
        else if ret (reply_to w1 en) \<noteq> ESP_OK then (ret (reply_to w1 en), w2)
        else record_loop chan f 0 w2)"

lemma record_wav_eq:
  assumes "f = handle (ret (reply_to w (FS (Fopen wav_path ''w''))))" and "chan \<noteq> 0" and "f \<noteq> 0"
  shows "record_wav chan w =
    (let (e, w1) = record_body chan f (after w (FS (Fopen wav_path ''w'')))
     in (e, after (after w1 (I2S (I2s_disable chan))) (FS (Fclose f))))"
  using assms board_header_nonempty
  by (simp add: record_wav_def record_body_def io_simps fwrite_item_def board_header_def [symmetric]
      wav_path_def [symmetric] Let_def split: prod.splits)

lemma record_body_log:
  assumes "record_body chan f w = (e, w')"
  shows "\<exists>evs. log w' = log w @ evs \<and> (\<forall>ev \<in> set evs. fst ev \<noteq> FS (Fclose f)) \<and>
    (e = ESP_OK \<longrightarrow> written f evs = board_header @ delivered evs \<and> 3840000 \<le> length (delivered evs) \<and>
       length (delivered evs) < 3840000 + 8192)"
proof -
  define w1 where "w1 = after w (FS (Fwrite f board_header))"
  define w2 where "w2 = after w1 (I2S (I2s_enable chan))"
  show ?thesis
  proof (cases "ret (reply_to w (FS (Fwrite f board_header))) \<noteq> 0 \<and> ret (reply_to w1 (I2S (I2s_enable chan))) = ESP_OK")
    case False
    with assms show ?thesis
      by (auto simp: record_body_def w1_def Let_def split: if_splits)
  next
    case True
    then have "record_loop chan f 0 w2 = (e, w')"
      using assms by (simp add: record_body_def w1_def w2_def Let_def)
    from record_loop_log [OF this] obtain evs where evs: "log w' = log w2 @ evs"
      "\<forall>ev \<in> set evs. fst ev = read_call chan \<or> (\<exists>bs. fst ev = FS (Fwrite f bs))"
      "e = ESP_OK \<longrightarrow> written f evs = delivered evs \<and> 3840000 \<le> length (written f evs) \<and>
         length (written f evs) < 3840000 + 8192"
      by (auto simp: wav_size_value sizeof_i2s_readraw_buff_def)
    let ?evs = "(FS (Fwrite f board_header), reply_to w (FS (Fwrite f board_header))) #
      (I2S (I2s_enable chan), reply_to w1 (I2S (I2s_enable chan))) # evs"
    have "log w' = log w @ ?evs" using evs(1) by (simp add: w2_def w1_def)
    moreover have "\<forall>ev \<in> set ?evs. fst ev \<noteq> FS (Fclose f)" using evs(2) by auto
    moreover have "written f ?evs = board_header @ written f evs" and "delivered ?evs = delivered evs"
      using True by simp_all
    ultimately show ?thesis using evs(3) by (intro exI [of _ ?evs]) auto
  qed
qed

lemma record_wav_ok:
  assumes "record_wav chan w = (ESP_OK, w')"
  shows "\<exists>f. f \<noteq> 0 \<and> f = handle (ret (reply_to w (FS (Fopen wav_path ''w'')))) \<and>
    written f (new_events w w') = board_header @ delivered (new_events w w') \<and>
    3840000 \<le> length (delivered (new_events w w')) \<and>
    length (delivered (new_events w w')) < 3840000 + 8192"
proof -
  define f where "f = handle (ret (reply_to w (FS (Fopen wav_path ''w''))))"
  have nz: "chan \<noteq> 0" "f \<noteq> 0"
    using assms by (auto simp: record_wav_def io_simps f_def wav_path_def Let_def split: if_splits)
  obtain e w1 where body: "record_body chan f (after w (FS (Fopen wav_path ''w''))) = (e, w1)" by fastforce
  have e: "e = ESP_OK" and w': "w' = after (after w1 (I2S (I2s_disable chan))) (FS (Fclose f))"
    using assms record_wav_eq [OF f_def nz] body by simp_all
  obtain evs where "log w1 = log (after w (FS (Fopen wav_path ''w''))) @ evs"
    "written f evs = board_header @ delivered evs" "3840000 \<le> length (delivered evs)"
    "length (delivered evs) < 3840000 + 8192"
    using record_body_log [OF body] e by blast
  then show ?thesis using nz f_def by (auto simp: w' new_events_def)
qed

text \<open>
  C19. When \<^verbatim>\<open>record_wav\<close> returns \<^verbatim>\<open>ESP_OK\<close> the file holds the header followed by exactly the samples
  the I2S channel delivered, in order; there are at least the 3840000 bytes the header announces,
  and fewer than one read buffer more.
\<close>

theorem record_wav_file:
  assumes "record_wav chan w = (ESP_OK, w')"
  shows "\<exists>f. f \<noteq> 0 \<and> f = handle (ret (reply_to w (FS (Fopen wav_path ''w'')))) \<and>
    written f (new_events w w') = board_header @ delivered (new_events w w') \<and>
    3840000 \<le> length (delivered (new_events w w')) \<and>
    length (delivered (new_events w w')) < 3840000 + 8192"
  using assms by (rule record_wav_ok)

definition closes :: "ptr \<Rightarrow> event list \<Rightarrow> nat" where
  "closes f evs = length (filter (\<lambda>ev. fst ev = FS (Fclose f)) evs)"

text \<open>
  \<^verbatim>\<open>record_wav\<close> always returns, whatever the channel and the file system answer, and on every
  path it closes the file it opened exactly once, and nothing if it opened none.
\<close>

theorem record_wav_closes:
  "\<exists>e w'. record_wav chan w = (e, w') \<and>
     (let f = handle (ret (reply_to w (FS (Fopen wav_path ''w''))))
      in if chan = 0 then w' = w \<and> e = ESP_FAIL
         else if f = 0 then map fst (new_events w w') = [FS (Fopen wav_path ''w'')] \<and> e = ESP_FAIL
         else closes f (new_events w w') = 1 \<and> fst (last (log w')) = FS (Fclose f))"
proof -
  define f where "f = handle (ret (reply_to w (FS (Fopen wav_path ''w''))))"
  consider "chan = 0" | "chan \<noteq> 0" "f = 0" | "chan \<noteq> 0" "f \<noteq> 0" by blast
  then show ?thesis
  proof cases
    case 1
    then show ?thesis by (simp add: record_wav_def)
  next
    case 2
    then show ?thesis by (simp add: record_wav_def io_simps f_def wav_path_def new_events_def Let_def)
  next
    case 3
    obtain e w1 where body: "record_body chan f (after w (FS (Fopen wav_path ''w''))) = (e, w1)" by fastforce
    obtain evs where "log w1 = log (after w (FS (Fopen wav_path ''w''))) @ evs" "\<forall>ev \<in> set evs. fst ev \<noteq> FS (Fclose f)"
      using record_body_log [OF body] by blast
    moreover have "filter (\<lambda>ev. fst ev = FS (Fclose f)) evs = []"
      using calculation(2) by (simp add: filter_empty_conv)
    ultimately show ?thesis
      using 3 body record_wav_eq [OF f_def 3]
      by (simp add: f_def [symmetric] Let_def closes_def new_events_def)
  qed
qed

text \<open>An I2S channel that always fills the buffer and a file system that always accepts.\<close>

definition full_speed :: "ptr \<Rightarrow> 'a world_scheme \<Rightarrow> bool" where
  "full_speed chan w \<longleftrightarrow>
     (\<forall>h. ret (wenv w h (read_call chan)) = ESP_OK \<and> length (out (wenv w h (read_call chan))) = 8192 \<and>
          ret (wenv w h (I2S (I2s_enable chan))) = ESP_OK \<and> 0 < ret (wenv w h (FS (Fopen wav_path ''w''))) \<and>
          (\<forall>f bs. ret (wenv w h (FS (Fwrite f bs))) \<noteq> 0))"

lemma full_speed_after [simp]: "full_speed chan (after w c) = full_speed chan w"
  by (simp add: full_speed_def)

lemma record_loop_full:
  "full_speed chan w \<Longrightarrow>
   \<exists>w' evs. record_loop chan f n w = (ESP_OK, w') \<and> log w' = log w @ evs \<and> 8192 dvd length (delivered evs)"
proof (induction "unat wav_size - n" arbitrary: n w rule: less_induct)
  case less
  show ?case
  proof (cases "n < unat wav_size")
    case False
    then show ?thesis by (simp add: record_loop_done)
  next
    case True
    define r where "r = reply_to w (read_call chan)"
    define w1 where "w1 = after w (read_call chan)"
    define s where "s = take sizeof_i2s_readraw_buff (out r)"
    define wr where "wr = FS (Fwrite f s)"
    have r: "ret r = ESP_OK" "length s = 8192" "ret (reply_to w1 wr) \<noteq> 0"
      using less.prems by (simp_all add: full_speed_def r_def s_def wr_def w1_def reply_to_def sizeof_i2s_readraw_buff_def)
    then have "s \<noteq> []" by auto
    with r have step: "record_loop chan f n w = record_loop chan f (n + 8192) (after w1 wr)"
      using record_loop_step [OF True, of chan f w, folded r_def w1_def, unfolded Let_def,
          folded r_def w1_def s_def, folded wr_def] by simp
    have "unat wav_size - (n + 8192) < unat wav_size - n" and "full_speed chan (after w1 wr)"
      using True less.prems by (simp_all add: w1_def)
    then obtain w' evs where "record_loop chan f (n + 8192) (after w1 wr) = (ESP_OK, w')"
      "log w' = log (after w1 wr) @ evs" "8192 dvd length (delivered evs)"
      using less.hyps by blast
    moreover define evs2 where "evs2 = [(read_call chan, r), (wr, reply_to w1 wr)] @ evs"
    moreover have "length (delivered evs2) = 8192 + length (delivered evs)"
      using r by (simp add: evs2_def s_def wr_def)
    moreover have "log (after w1 wr) @ evs = log w @ evs2"
      by (simp add: evs2_def w1_def r_def)
    ultimately have "log w' = log w @ evs2" and "8192 dvd length (delivered evs2)"
        and "record_loop chan f n w = (ESP_OK, w')"
      by (simp_all only: step dvd_add_triv_left_iff)
    then show ?thesis by blast
  qed
qed

lemma record_wav_full:
  assumes "full_speed chan w" and "chan \<noteq> 0"
  shows "\<exists>w'. record_wav chan w = (ESP_OK, w') \<and> 8192 dvd length (delivered (new_events w w'))"
proof -
  define f where "f = handle (ret (reply_to w (FS (Fopen wav_path ''w''))))"
  have "f \<noteq> 0" using assms(1) by (simp add: f_def handle_def full_speed_def reply_to_def not_le)
  define w1 where "w1 = after w (FS (Fopen wav_path ''w''))"
  define w2 where "w2 = after (after w1 (FS (Fwrite f board_header))) (I2S (I2s_enable chan))"
  have "full_speed chan w2" using assms(1) by (simp add: w2_def w1_def)
  then obtain w3 evs where loop: "record_loop chan f 0 w2 = (ESP_OK, w3)" "log w3 = log w2 @ evs"
    "8192 dvd length (delivered evs)"
    using record_loop_full by blast
  have "record_body chan f w1 = (ESP_OK, w3)"
    using assms(1) loop(1) [unfolded w2_def] by (simp add: record_body_def full_speed_def reply_to_def w1_def Let_def)
  then have "record_wav chan w = (ESP_OK, after (after w3 (I2S (I2s_disable chan))) (FS (Fclose f)))"
    using record_wav_eq [OF f_def assms(2) \<open>f \<noteq> 0\<close>] by (simp add: w1_def)
  moreover have "delivered (new_events w (after (after w3 (I2S (I2s_disable chan))) (FS (Fclose f)))) = delivered evs"
    by (simp add: new_events_def loop(2) w2_def w1_def)
  ultimately show ?thesis using loop(3) by simp
qed

lemma multiple_in_range:
  assumes "8192 dvd n" and "3840000 \<le> n" and "n < 3840000 + 8192"
  shows "n = (3842048 :: nat)"
proof -
  obtain k where k: "n = 8192 * k" using assms(1) by (rule dvdE)
  with assms have "468 < k" and "k < 470" by linarith+
  then have "k = 469" by linarith
  with k show ?thesis by simp
qed

definition wav_demo :: world where
  "wav_demo = \<lparr>wenv = \<lambda>_ c. (case c of I2S _ \<Rightarrow> \<lparr>ret = 0, out = replicate 8192 0, content = [], hnd = 0\<rparr> | _ \<Rightarrow> answer 8),
               log = [], i2c_obj = Map.empty\<rparr>"

lemma wav_demo_full: "full_speed 5 wav_demo"
  by (simp add: full_speed_def wav_demo_def)

theorem record_wav_file_witness:
  "\<exists>w'. record_wav 5 wav_demo = (ESP_OK, w') \<and>
     written 8 (new_events wav_demo w') = board_header @ delivered (new_events wav_demo w')"
proof -
  obtain w' where w': "record_wav 5 wav_demo = (ESP_OK, w')"
    using record_wav_full [OF wav_demo_full] by auto
  have "handle (ret (reply_to wav_demo (FS (Fopen wav_path ''w'')))) = 8"
    by (simp add: reply_to_def wav_demo_def handle_def)
  with record_wav_file [OF w'] w' show ?thesis by auto
qed

text \<open>
  The header undercounts: at full speed (every read fills the 8192-byte buffer, every write
  succeeds) the loop overshoots the announced 3840000 bytes, and the file ends up with 3842048
  bytes of samples, 2048 of them beyond the end of the data chunk.
\<close>

theorem record_wav_overshoots:
  assumes "full_speed chan w" and "chan \<noteq> 0"
  shows "\<exists>w'. record_wav chan w = (ESP_OK, w') \<and> length (delivered (new_events w w')) = 3842048 \<and>
    unat wav_size = 3840000"
proof -
  obtain w' where w': "record_wav chan w = (ESP_OK, w')" and dvd: "8192 dvd length (delivered (new_events w w'))"
    using record_wav_full [OF assms] by blast
  have "3840000 \<le> length (delivered (new_events w w'))"
    and "length (delivered (new_events w w')) < 3840000 + 8192"
    using record_wav_ok [OF w'] by blast+
  then  have "length (delivered (new_events w w')) = 3842048" by (intro multiple_in_range dvd)
  with w' show ?thesis by (simp add: wav_size_value)
qed

theorem record_wav_overshoots_witness:
  "\<exists>w'. record_wav 5 wav_demo = (ESP_OK, w') \<and> length (delivered (new_events wav_demo w')) = 3842048"
  using record_wav_overshoots [OF wav_demo_full] by auto

end
