(* ===== verification/Spec2Isabelle.thy ===== *)
theory Spec2Isabelle
  imports App Lv_Refr Lv_Timer Qmi8658 Record_Wav
begin

text \<open>
  Verification library of the Camera firmware: an ESP32-S3 board with an ST7789 display on SPI, an
  FT5x06 touch controller, a PCA9557 I/O expander, a QMI8658 inertial sensor and an ES7210 microphone ADC on
  one I2C bus, an SD card, and LVGL as the user interface.

  \<^bold>\<open>The program.\<close>  \<^verbatim>\<open>app_main\<close> (main/main.c) brings up the I2C bus and the expander and calls
  \<^verbatim>\<open>bsp_lvgl_start\<close> (components/LCD/LCD.c).  That initialises the LVGL port (esp_lvgl_port.c: a task, a lock
  and a tick), creates the panel IO and the panel (esp_lcd of ESP-IDF), clears the screen, registers the
  display and the touch screen with LVGL and turns on the backlight.  From then on LVGL collects the areas
  that changed (lv_refr.c on the rectangles of lv_area.c), renders them band by band into a draw buffer and
  hands each band to the port's flush callback, which sends it through \<^verbatim>\<open>esp_lcd_panel_draw_bitmap\<close>, the
  ST7789 driver and the queue of SPI transactions to the controller.  What drives LVGL is its timer handler (lv_timer.c, on the
  linked lists of lv_ll.c), which the port's task calls and which says when it wants to be called again.  The other components are libraries of the
  board: \<^verbatim>\<open>QMI8658_Init\<close> and its readers, \<^verbatim>\<open>es7210_codec_init\<close>, \<^verbatim>\<open>record_wav\<close>, and the SD card functions.  The
  microphone's samples come through a receive channel of the I2S driver (i2s_common.c, i2s_tdm.c), which \<^verbatim>\<open>es7210_i2s_init\<close> creates and
  configures and \<^verbatim>\<open>record_wav\<close> reads.

  \<^bold>\<open>How it is modelled.\<close>  Code under src/ that the theories name is translated function by function,
  under its own name.  What it calls below that (FreeRTOS, libc, GPIO, LEDC, SPI master, DMA channels and I2S registers, SDMMC,
  the I2C hardware) is a \<^emph>\<open>call\<close> of theory \<open>Platform\<close>: the environment \<open>wenv\<close> answers every call with a reply that may depend on
  everything that happened before, and \<open>log\<close> records calls and replies.  So properties hold for every
  behaviour of the environment that their hypotheses allow, and what was sent over a wire or given back to the heap
  is read off the log.  C's static variables and objects are the fields of records that extend \<open>world\<close> in the order
  of the imports: \<open>io_world\<close> (panel IOs), \<open>panel_world\<close> (panels), \<open>lcd_world\<close> (\<^verbatim>\<open>panel_handle\<close>, \<^verbatim>\<open>io_handle\<close>), \<open>touch_world\<close>,
  \<open>port_world\<close> and \<open>app_world\<close> on one side, \<open>fat_world\<close> (mounted volumes), \<open>sd_world\<close> and \<open>i2s_world\<close> (ports and channels) on the other; every function is polymorphic in the extension.  A failed \<^verbatim>\<open>assert\<close>,
  \<^verbatim>\<open>ESP_ERROR_CHECK\<close>, a null or dangling dereference and undefined behaviour are \<open>None\<close>.  Indeterminate
  local variables are arguments (\<open>data0\<close>).  Integers keep their width: \<open>u8\<close>, \<open>u16\<close>, \<open>u32\<close> are words, LVGL's 16-bit
  coordinates are integers stored through \<open>lv_coord\<close>.

  \<^bold>\<open>The theories.\<close>
  \<^item> \<open>Prelude\<close>, \<open>Platform\<close>: types, error codes, buffers; calls, replies, the world, which blocks a log leaves allocated.
  \<^item> \<open>I2c_Link\<close>: command links of driver/i2c/i2c.c, allocated in a buffer or on the heap, and the one-shot transactions.
  \<^item> \<open>Reg_Device\<close>: the locale \<open>reg_device\<close>, the contract of a chip programmed through registers, with its client
    lemmas (tables of writes; sequences that stop at, or collect, errors).  Interpreted in \<open>Pca9557\<close>, \<open>Qmi8658\<close>, \<open>Es7210\<close> and \<open>Touch\<close>.
  \<^item> \<open>Pca9557\<close>, \<open>Qmi8658\<close>, \<open>Es7210\<close>: the I2C chips; C's floating-point results are exact reals with infinities and NaN.
  \<^item> \<open>Vfs_Fat\<close>: mounting a card, fatfs/vfs/vfs_fat_sdmmc.c with the registration functions of vfs_fat.c and diskio; what a
    history of calls leaves allocated, and that every path of the mount gives back what it must.
  \<^item> \<open>Sd\<close>, \<open>Record_Wav\<close>: SD.c; the microphone's channel, the WAV header, the recording loop and what the log says about the file.
  \<^item> \<open>I2s_Channel\<close>: a running receive channel, the ring of DMA buffers, the interrupt and the reader interleaved byte by byte; when
    what is read is a piece of the captured stream, and when it is not.
  \<^item> \<open>I2s_Driver\<close>, \<open>I2s_Life\<close>: creating a channel, configuring it for TDM, deleting it, with what the calls obtain and release; the account of
    the resources a channel owns, which every operation keeps (locale \<open>reconfig_step\<close> for the parts that can be configured again).
  \<^item> \<open>Panel_Io\<close>: the SPI panel IO with its pool of transactions in flight, the I2C panel IO.
  \<^item> \<open>St7789\<close>: the panel driver, and a specification of the controller: a machine that reads the bytes on the wire and keeps
    the frame memory.  Properties of everything above it say what that machine shows.
  \<^item> \<open>Display\<close>, \<open>Touch\<close>, \<open>Lvgl_Port\<close>, \<open>App\<close>: LCD.c, the touch drivers, esp_lvgl_port.c, main.c.
  \<^item> \<open>Lv_Area\<close>, \<open>Lv_Refr\<close>: rectangles and their sets of points; collecting (locale \<open>redraw_queue\<close>), joining, cutting
    and flushing areas.
  \<^item> \<open>Lv_Ll\<close>: LVGL's doubly linked lists on a memory of nodes, as sequences of nodes (locale \<open>linked_list\<close>); \<open>Lv_Timer\<close>: timers,
    the tick and the timer handler, with callbacks that may create and delete timers while it runs.

  \<^bold>\<open>Fuel.\<close>  \<open>refr_rows\<close> takes the rounds of its loop; more rounds than the display has rows are enough, and no number
  is enough when the buffer is smaller than a row (both proved in \<open>Lv_Refr\<close>).  \<open>lvgl_port_task_loop\<close> takes the rounds of a task that
  is meant to run for ever.  \<open>run_timers\<close> takes the number of timers looked at: callbacks that keep creating timers can keep it
  busy for ever (\<open>Still_running\<close>); with callbacks that leave the timers alone, for \<open>n\<close> timers more than \<open>n + n * n\<close> is enough.
  \<open>tx_chunks\<close>, \<open>clear_loop\<close>, \<open>len_loop\<close>, \<open>till_next\<close> and \<open>read_loop\<close> are \<open>partial_function\<close>s; that they return is proved.
  All other loops terminate by their definition.

  \<^bold>\<open>Not modelled.\<close>  LVGL's widgets, themes, fonts and drawing (what they draw is a parameter of the refresh); the I2C
  hardware's interrupt machine behind \<^verbatim>\<open>i2c_master_cmd_begin\<close> (one call that delivers a result and the bytes read); FreeRTOS, the SPI
  master, FatFs itself, the SDMMC host, the parts of the I2S driver for sending, for the standard and PDM modes and for user callbacks, and the rest of
  ESP-IDF (calls; for \<open>Record_Wav\<close>'s loop also \<^verbatim>\<open>i2s_channel_enable\<close>, \<^verbatim>\<open>i2s_channel_read\<close> and \<^verbatim>\<open>i2s_channel_disable\<close>, which
  \<open>I2s_Channel\<close> models on their own); picture data, build outputs and
  configuration (the configuration values the code uses are constants of the model).  The encoder, button and USB parts of
  esp_lvgl_port.c are not compiled for this board.
\<close>

end
